(* ===== verification/Prelude.thy ===== *)
theory Prelude
  imports Main "HOL-Library.Word"
begin

unbundle bit_operations_syntax

section \<open>Prelude: machine types, outcomes of a C function, memory allocation\<close>

text \<open>
  What every component of the model shares: the names of the machine types of the
  OpenRISC target, the type of the outcome of a C function, the sequencing of such
  outcomes with its proof rules, the model of \<open>malloc\<close>, and the retry loop around
  an atomic compare-and-swap.
\<close>

subsection \<open>Machine types\<close>

type_synonym u8 = "8 word"
type_synonym u16 = "16 word"
type_synonym u32 = "32 word"
type_synonym u64 = "64 word"

text \<open>A pointer of the 32 bit target; \<open>0\<close> is \<open>NULL\<close>.\<close>

type_synonym ptr = "32 word"

subsection \<open>Outcomes\<close>

text \<open>
  A C function can fail to return a value in several ways, and the model keeps them
  apart. \<open>NoMem\<close> is the assertion on the result of an allocation, \<open>AssertFail\<close> any
  other failed assertion, the remaining ones are undefined behaviour of C at the access
  that causes it.
\<close>

datatype fault =
    NoMem
  | AssertFail
  | NullDeref
  | UseAfterFree
  | BadPtr
  | OutOfBounds
  | Uninit
  | BadArith

text \<open>
  \<open>None\<close> is a call that never returns, \<open>Some (Inl f)\<close> one that stops with the fault
  \<open>f\<close>, and \<open>Some (Inr x)\<close> one that returns \<open>x\<close>.
\<close>

type_synonym 'a exec = "(fault + 'a) option"

abbreviation ok :: "'a \<Rightarrow> 'a exec" where
  "ok x \<equiv> Some (Inr x)"

abbreviation flt :: "fault \<Rightarrow> 'a exec" where
  "flt f \<equiv> Some (Inl f)"

definition bnd :: "'a exec \<Rightarrow> ('a \<Rightarrow> 'b exec) \<Rightarrow> 'b exec" where
  "bnd r f = (case r of None \<Rightarrow> None | Some (Inl e) \<Rightarrow> Some (Inl e) | Some (Inr x) \<Rightarrow> f x)"

lemma bnd_simps [simp]:
  "bnd None f = None"
  "bnd (flt e) f = flt e"
  "bnd (ok x) f = f x"
  by (simp_all add: bnd_def)

lemma bnd_ok_iff:
  "bnd r f = ok y \<longleftrightarrow> (\<exists>x. r = ok x \<and> f x = ok y)"
  by (auto simp: bnd_def split: option.splits sum.splits)

lemma bnd_assoc: "bnd (bnd r f) g = bnd r (\<lambda>x. bnd (f x) g)"
  by (simp add: bnd_def split: option.splits sum.splits)

lemma bnd_mono [partial_function_mono]:
  assumes B: "mono_option B" and C: "\<And>y. mono_option (\<lambda>f. C y f)"
  shows "mono_option (\<lambda>f. bnd (B f) (\<lambda>y. C y f))"
proof -
  have eq: "bnd r f = Option.bind r (\<lambda>v. case v of Inl e \<Rightarrow> Some (Inl e) | Inr y \<Rightarrow> f y)" for r f
    by (simp add: bnd_def split: option.splits sum.splits)
  have "mono_option (\<lambda>f. case v of Inl e \<Rightarrow> Some (Inl e) | Inr y \<Rightarrow> C y f)" for v
    using C by (cases v) (simp_all add: option.const_mono)
  then show ?thesis
    unfolding eq by (rule bind_mono [OF B])
qed

text \<open>
  The contract of a call: it returns, and its result satisfies \<open>P\<close>, unless an
  allocation failed.
\<close>

definition post :: "'a exec \<Rightarrow> ('a \<Rightarrow> bool) \<Rightarrow> bool" where
  "post r P \<longleftrightarrow> (case r of None \<Rightarrow> False | Some (Inl f) \<Rightarrow> f = NoMem | Some (Inr x) \<Rightarrow> P x)"

lemma post_simps [simp]:
  "\<not> post None P"
  "post (flt f) P \<longleftrightarrow> f = NoMem"
  "post (ok x) P \<longleftrightarrow> P x"
  by (simp_all add: post_def)

lemma post_bnd: "post (bnd r f) P \<longleftrightarrow> post r (\<lambda>x. post (f x) P)"
  by (simp add: post_def bnd_def split: option.splits sum.splits)

lemma post_mono: "post r P \<Longrightarrow> (\<And>x. P x \<Longrightarrow> Q x) \<Longrightarrow> post r Q"
  by (auto simp: post_def split: option.splits sum.splits)

lemma post_bndI: "post r P \<Longrightarrow> (\<And>x. P x \<Longrightarrow> post (f x) Q) \<Longrightarrow> post (bnd r f) Q"
  by (simp add: post_bnd post_mono)

lemma post_ok: "post r P \<Longrightarrow> r \<noteq> flt NoMem \<Longrightarrow> \<exists>x. r = ok x \<and> P x"
  by (auto simp: post_def split: option.splits sum.splits)

lemma post_conj: "post r P \<Longrightarrow> post r Q \<Longrightarrow> post r (\<lambda>x. P x \<and> Q x)"
  by (auto simp: post_def split: option.splits sum.splits)

text \<open>The C assertion.\<close>

definition assert_c :: "bool \<Rightarrow> unit exec" where
  "assert_c b = (if b then ok () else flt AssertFail)"

lemma assert_c_simps [simp]: "assert_c True = ok ()" "assert_c False = flt AssertFail"
  by (simp_all add: assert_c_def)

subsection \<open>Allocation\<close>

text \<open>
  \<open>malloc\<close> is a function of what is live: it answers \<open>NULL\<close> or an address at which
  nothing is live. Nothing else is assumed of it; in particular it may hand out an
  address that was freed before.
\<close>

type_synonym allocator = "(ptr \<Rightarrow> bool) \<Rightarrow> ptr"

definition alloc_ok :: "allocator \<Rightarrow> bool" where
  "alloc_ok mal \<longleftrightarrow> (\<forall>live. mal live \<noteq> 0 \<longrightarrow> \<not> live (mal live))"

lemma alloc_okD: "alloc_ok mal \<Longrightarrow> mal live \<noteq> 0 \<Longrightarrow> \<not> live (mal live)"
  unfolding alloc_ok_def by blast

text \<open>A first-fit allocator over the addresses \<open>1\<close> to \<open>n\<close>, for concrete runs.\<close>

definition first_fit :: "nat \<Rightarrow> allocator" where
  "first_fit n live = (case List.find (\<lambda>a. \<not> live (word_of_nat a)) [1..<Suc n] of
     None \<Rightarrow> 0 | Some a \<Rightarrow> word_of_nat a)"

lemma alloc_ok_first_fit: "alloc_ok (first_fit n)"
  by (auto simp: alloc_ok_def first_fit_def find_Some_iff split: option.splits)

subsection \<open>Compare-and-swap loops\<close>

text \<open>
  The shape of every lock-free update of the code: read a word, compute its successor,
  \<open>or1k_sync_cas\<close> it in, retry when another context changed the word in between. The
  list holds what the other contexts do to the state between the read and the swap of
  the successive attempts; an attempt after the list is used up is undisturbed. The
  result is the value read by the attempt that succeeded, and the new state.
\<close>

fun cas_loop :: "('s \<Rightarrow> u32) \<Rightarrow> (u32 \<Rightarrow> 's \<Rightarrow> 's) \<Rightarrow> (u32 \<Rightarrow> u32) \<Rightarrow> ('s \<Rightarrow> 's) list \<Rightarrow> 's \<Rightarrow> u32 \<times> 's" where
  "cas_loop get put nxt [] s = (get s, put (nxt (get s)) s)"
| "cas_loop get put nxt (f # fs) s =
     (let old = get s; s' = f s in
      if get s' = old then (old, put (nxt old) s') else cas_loop get put nxt fs s')"

subsection \<open>Arrays\<close>

text \<open>\<open>memcpy\<close> out of and into an array, at an offset.\<close>

definition bytes_at :: "'a list \<Rightarrow> nat \<Rightarrow> nat \<Rightarrow> 'a list exec" where
  "bytes_at xs off n = (if off + n \<le> length xs then ok (take n (drop off xs)) else flt OutOfBounds)"

definition put_at :: "'a list \<Rightarrow> nat \<Rightarrow> 'a list \<Rightarrow> 'a list exec" where
  "put_at xs off ys =
     (if off + length ys \<le> length xs then ok (take off xs @ ys @ drop (off + length ys) xs)
      else flt OutOfBounds)"

lemma bytes_at_ok [simp]: "off + n \<le> length xs \<Longrightarrow> bytes_at xs off n = ok (take n (drop off xs))"
  by (simp add: bytes_at_def)

lemma put_at_ex:
  assumes "off + length ys \<le> length xs"
  shows "\<exists>d. put_at xs off ys = ok d \<and> length d = length xs \<and>
    (\<forall>p<length xs. d ! p = (if off \<le> p \<and> p < off + length ys then ys ! (p - off) else xs ! p))"
  using assms by (auto simp: put_at_def nth_append min_def)

lemma put_at_Nil [simp]: "off \<le> length xs \<Longrightarrow> put_at xs off [] = ok xs"
  by (simp add: put_at_def)

subsection \<open>Positions of a ring\<close>

lemma mod_add_inj:
  assumes "(a + j) mod n = (a + k) mod n" and "j < n" and "k < (n :: nat)"
  shows "j = k"
proof -
  have *: "y = x" if "(a + x) mod n = (a + y) mod n" "x \<le> y" "y < n" for x y
  proof -
    have "n dvd (a + y) - (a + x)" using that by (metis mod_eq_dvd_iff_nat add_le_mono le_refl)
    moreover have "(a + y) - (a + x) < n" using that by simp
    ultimately have "(a + y) - (a + x) = 0" by (meson dvd_imp_le not_le zero_less_iff_neq_zero)
    with that show ?thesis by simp
  qed
  show ?thesis
    using * [of j k] * [of k j] assms by (metis nat_le_linear)
qed

subsection \<open>Decimal numerals\<close>

text \<open>What \<open>printf\<close> prints for \<open>%u\<close> and \<open>%d\<close>.\<close>

fun dec_of :: "nat \<Rightarrow> string" where
  "dec_of n = (if n < 10 then [char_of (48 + n)] else dec_of (n div 10) @ [char_of (48 + n mod 10)])"

declare dec_of.simps [simp del]

lemma dec_of_digits: "c \<in> set (dec_of n) \<Longrightarrow> of_char c \<in> {48..(57::nat)}"
  by (induction n rule: dec_of.induct) (subst (asm) dec_of.simps, auto split: if_splits)

lemma dec_of_not_Nil [simp]: "dec_of n \<noteq> []"
  by (subst dec_of.simps) simp

end
