(* ===== verification/Linked_List.thy ===== *)
theory Linked_List
  imports Prelude
begin

section \<open>The doubly linked list of the runtime (libruntime/list.c)\<close>

text \<open>
  The lists the scheduler, the timers, the page pool and the node table are made of. The
  list headers and the list entries live in a heap, so a dangling pointer is visible: an
  access through a pointer to a freed entry is the fault \<open>UseAfterFree\<close>. The loops
  follow the \<open>next\<close> pointers with no bound, as the code does.
\<close>

subsection \<open>State\<close>

record entry =
  e_data :: ptr
  e_prev :: ptr
  e_next :: ptr

record llist =
  l_head :: ptr
  l_tail :: ptr

record lmem =
  entries :: "ptr \<Rightarrow> entry option"
  lists :: "ptr \<Rightarrow> llist option"

definition live :: "lmem \<Rightarrow> ptr \<Rightarrow> bool" where
  "live m p \<longleftrightarrow> entries m p \<noteq> None \<or> lists m p \<noteq> None"

definition empty_lmem :: lmem where
  "empty_lmem = \<lparr>entries = (\<lambda>_. None), lists = (\<lambda>_. None)\<rparr>"

subsection \<open>Accesses through pointers\<close>

text \<open>Every operation starts with \<open>assert(l != NULL)\<close>.\<close>

definition get_list :: "ptr \<Rightarrow> lmem \<Rightarrow> llist exec" where
  "get_list l m =
     (if l = 0 then flt AssertFail
      else case lists m l of None \<Rightarrow> flt BadPtr | Some ll \<Rightarrow> ok ll)"

definition set_list :: "ptr \<Rightarrow> llist \<Rightarrow> lmem \<Rightarrow> lmem" where
  "set_list l ll m = m\<lparr>lists := (lists m)(l \<mapsto> ll)\<rparr>"

definition get_entry :: "ptr \<Rightarrow> lmem \<Rightarrow> entry exec" where
  "get_entry p m =
     (if p = 0 then flt NullDeref
      else case entries m p of None \<Rightarrow> flt UseAfterFree | Some e \<Rightarrow> ok e)"

definition set_entry :: "ptr \<Rightarrow> entry \<Rightarrow> lmem \<Rightarrow> lmem" where
  "set_entry p e m = m\<lparr>entries := (entries m)(p \<mapsto> e)\<rparr>"

definition upd_entry :: "ptr \<Rightarrow> (entry \<Rightarrow> entry) \<Rightarrow> lmem \<Rightarrow> lmem exec" where
  "upd_entry p f m = bnd (get_entry p m) (\<lambda>e. ok (set_entry p (f e) m))"

definition free_entry :: "ptr \<Rightarrow> lmem \<Rightarrow> lmem exec" where
  "free_entry p m = bnd (get_entry p m) (\<lambda>_. ok (m\<lparr>entries := (entries m)(p := None)\<rparr>))"

subsection \<open>The operations\<close>

definition optimsoc_list_init :: "allocator \<Rightarrow> ptr \<Rightarrow> lmem \<Rightarrow> (ptr \<times> lmem) exec" where
  "optimsoc_list_init mal data m =
     (let l = mal (live m) in
      if l = 0 then flt NoMem
      else if data = 0 then ok (l, set_list l \<lparr>l_head = 0, l_tail = 0\<rparr> m)
      else
        (let m1 = set_list l \<lparr>l_head = 0, l_tail = 0\<rparr> m; e = mal (live m1) in
         if e = 0 then flt NoMem
         else ok (l, set_entry e \<lparr>e_data = data, e_prev = 0, e_next = 0\<rparr>
                       (set_list l \<lparr>l_head = e, l_tail = e\<rparr> m1))))"

definition optimsoc_list_add_tail :: "allocator \<Rightarrow> ptr \<Rightarrow> ptr \<Rightarrow> lmem \<Rightarrow> lmem exec" where
  "optimsoc_list_add_tail mal l data m =
     bnd (get_list l m) (\<lambda>ll.
       let e = mal (live m) in
       if e = 0 then flt NoMem
       else
         (let m1 = set_entry e \<lparr>e_data = data, e_prev = l_tail ll, e_next = 0\<rparr> m in
          if l_tail ll = 0 then ok (set_list l \<lparr>l_head = e, l_tail = e\<rparr> m1)
          else bnd (upd_entry (l_tail ll) (\<lambda>t. t\<lparr>e_next := e\<rparr>) m1)
                 (\<lambda>m2. ok (set_list l (ll\<lparr>l_tail := e\<rparr>) m2))))"

definition optimsoc_list_add_head :: "allocator \<Rightarrow> ptr \<Rightarrow> ptr \<Rightarrow> lmem \<Rightarrow> lmem exec" where
  "optimsoc_list_add_head mal l data m =
     bnd (get_list l m) (\<lambda>ll.
       let e = mal (live m) in
       if e = 0 then flt NoMem
       else
         (let m1 = set_entry e \<lparr>e_data = data, e_prev = 0, e_next = l_head ll\<rparr> m in
          if l_head ll = 0 then ok (set_list l \<lparr>l_head = e, l_tail = e\<rparr> m1)
          else bnd (upd_entry (l_head ll) (\<lambda>t. t\<lparr>e_prev := e\<rparr>) m1)
                 (\<lambda>m2. ok (set_list l (ll\<lparr>l_head := e\<rparr>) m2))))"

text \<open>
  Both removals free the entry and move one end of the list, and neither resets the link
  of the new end that points back at the freed entry.
\<close>

definition optimsoc_list_remove_tail :: "ptr \<Rightarrow> lmem \<Rightarrow> (ptr \<times> lmem) exec" where
  "optimsoc_list_remove_tail l m =
     bnd (get_list l m) (\<lambda>ll.
       if l_tail ll = 0 then ok (0, m)
       else bnd (get_entry (l_tail ll) m) (\<lambda>e.
         bnd (free_entry (l_tail ll) m) (\<lambda>m1.
           ok (e_data e,
               set_list l (if e_prev e = 0 then \<lparr>l_head = 0, l_tail = 0\<rparr>
                           else ll\<lparr>l_tail := e_prev e\<rparr>) m1))))"

definition optimsoc_list_remove_head :: "ptr \<Rightarrow> lmem \<Rightarrow> (ptr \<times> lmem) exec" where
  "optimsoc_list_remove_head l m =
     bnd (get_list l m) (\<lambda>ll.
       if l_head ll = 0 then ok (0, m)
       else bnd (get_entry (l_head ll) m) (\<lambda>e.
         bnd (free_entry (l_head ll) m) (\<lambda>m1.
           ok (e_data e,
               set_list l (if e_next e = 0 then \<lparr>l_head = 0, l_tail = 0\<rparr>
                           else ll\<lparr>l_head := e_next e\<rparr>) m1))))"

text \<open>
  The four cases of taking an entry out of the middle of the list: the only entry, the
  head, the tail, any other. The code tells them apart by the pointers of the entry.
\<close>

definition list_unlink :: "ptr \<Rightarrow> ptr \<Rightarrow> entry \<Rightarrow> lmem \<Rightarrow> lmem exec" where
  "list_unlink l p e m =
     bnd (get_list l m) (\<lambda>ll.
       if p = l_head ll \<and> p = l_tail ll then
         ok (set_list l \<lparr>l_head = 0, l_tail = 0\<rparr> m)
       else if e_prev e = 0 then
         bnd (upd_entry (e_next e) (\<lambda>t. t\<lparr>e_prev := 0\<rparr>) m) (\<lambda>m1.
           ok (set_list l (ll\<lparr>l_head := e_next e\<rparr>) m1))
       else if e_next e = 0 then
         bnd (upd_entry (e_prev e) (\<lambda>t. t\<lparr>e_next := 0\<rparr>) m) (\<lambda>m1.
           ok (set_list l (ll\<lparr>l_tail := e_prev e\<rparr>) m1))
       else
         bnd (upd_entry (e_prev e) (\<lambda>t. t\<lparr>e_next := e_next e\<rparr>) m) (\<lambda>m1.
           upd_entry (e_next e) (\<lambda>t. t\<lparr>e_prev := e_prev e\<rparr>) m1))"

partial_function (option) list_remove_loop ::
    "ptr \<Rightarrow> ptr \<Rightarrow> ptr \<Rightarrow> lmem \<Rightarrow> (fault + int \<times> lmem) option" where
  "list_remove_loop l data p m =
     (if p = 0 then ok (0, m)
      else bnd (get_entry p m) (\<lambda>e.
        if e_data e = data then
          bnd (list_unlink l p e m) (\<lambda>m1. bnd (free_entry p m1) (\<lambda>m2. ok (1, m2)))
        else list_remove_loop l data (e_next e) m))"

definition optimsoc_list_remove :: "ptr \<Rightarrow> ptr \<Rightarrow> lmem \<Rightarrow> (int \<times> lmem) exec" where
  "optimsoc_list_remove l data m =
     bnd (get_list l m) (\<lambda>ll. list_remove_loop l data (l_head ll) m)"

partial_function (option) list_contains_loop ::
    "ptr \<Rightarrow> ptr \<Rightarrow> lmem \<Rightarrow> (fault + int) option" where
  "list_contains_loop data p m =
     (if p = 0 then ok 0
      else bnd (get_entry p m) (\<lambda>e.
        if e_data e = data then ok 1 else list_contains_loop data (e_next e) m))"

definition optimsoc_list_contains :: "ptr \<Rightarrow> ptr \<Rightarrow> lmem \<Rightarrow> int exec" where
  "optimsoc_list_contains l data m =
     bnd (get_list l m) (\<lambda>ll. list_contains_loop data (l_head ll) m)"

text \<open>The word an entry's data points at, read through \<open>word_at\<close>.\<close>

partial_function (option) list_find_header_loop ::
    "(ptr \<Rightarrow> u32 exec) \<Rightarrow> u32 \<Rightarrow> ptr \<Rightarrow> lmem \<Rightarrow> (fault + ptr) option" where
  "list_find_header_loop word_at content p m =
     (if p = 0 then ok 0
      else bnd (get_entry p m) (\<lambda>e.
        bnd (word_at (e_data e)) (\<lambda>w.
          if w = content then ok (e_data e)
          else list_find_header_loop word_at content (e_next e) m)))"

definition optimsoc_list_find_content_header ::
    "(ptr \<Rightarrow> u32 exec) \<Rightarrow> ptr \<Rightarrow> u32 \<Rightarrow> lmem \<Rightarrow> ptr exec" where
  "optimsoc_list_find_content_header word_at l content m =
     bnd (get_list l m) (\<lambda>ll. list_find_header_loop word_at content (l_head ll) m)"

partial_function (option) list_length_loop ::
    "u32 \<Rightarrow> ptr \<Rightarrow> lmem \<Rightarrow> (fault + u32) option" where
  "list_length_loop count p m =
     (if p = 0 then ok count
      else bnd (get_entry p m) (\<lambda>e. list_length_loop (count + 1) (e_next e) m))"

definition optimsoc_list_length :: "ptr \<Rightarrow> lmem \<Rightarrow> u32 exec" where
  "optimsoc_list_length l m = bnd (get_list l m) (\<lambda>ll. list_length_loop 0 (l_head ll) m)"

text \<open>The iterator functions return the element and the new iterator.\<close>

definition optimsoc_list_first_element :: "ptr \<Rightarrow> lmem \<Rightarrow> (ptr \<times> ptr) exec" where
  "optimsoc_list_first_element l m =
     bnd (get_list l m) (\<lambda>ll.
       if l_head ll = 0 then ok (0, 0)
       else bnd (get_entry (l_head ll) m) (\<lambda>e. ok (e_data e, l_head ll)))"

definition optimsoc_list_next_element :: "ptr \<Rightarrow> ptr \<Rightarrow> lmem \<Rightarrow> (ptr \<times> ptr) exec" where
  "optimsoc_list_next_element l it m =
     bnd (get_list l m) (\<lambda>_.
       bnd (get_entry it m) (\<lambda>e.
         if e_next e = 0 then ok (0, it)
         else bnd (get_entry (e_next e) m) (\<lambda>e'. ok (e_data e', e_next e))))"


text \<open>
  The copy of a list that lives on another tile. \<open>optimsoc_dma_transfer\<close> reads a header
  or an entry of the remote heap \<open>r\<close>. With a data size of zero the remote data pointers
  are stored as they are; otherwise every object is copied into a fresh local one, whose
  addresses \<open>alloc_data\<close> supplies, each with the remote address it is a copy of.
\<close>

partial_function (option) list_dma_copy_loop ::
    "allocator \<Rightarrow> (lmem \<Rightarrow> ptr) \<Rightarrow> lmem \<Rightarrow> ptr \<Rightarrow> ptr \<Rightarrow> nat \<Rightarrow> (ptr \<times> ptr) list \<Rightarrow> lmem
      \<Rightarrow> (fault + (ptr \<times> ptr) list \<times> lmem) option" where
  "list_dma_copy_loop mal alloc_data r l p data_size copies m =
     (if p = 0 then ok (copies, m)
      else bnd (get_entry p r) (\<lambda>e.
        if data_size = 0 then
          bnd (optimsoc_list_add_tail mal l (e_data e) m)
            (list_dma_copy_loop mal alloc_data r l (e_next e) data_size copies)
        else
          (let d = alloc_data m in
           if d = 0 then flt NoMem
           else bnd (optimsoc_list_add_tail mal l d m)
             (list_dma_copy_loop mal alloc_data r l (e_next e) data_size
               (copies @ [(d, e_data e)])))))"

definition optimsoc_list_dma_copy ::
    "allocator \<Rightarrow> (lmem \<Rightarrow> ptr) \<Rightarrow> lmem \<Rightarrow> ptr \<Rightarrow> nat \<Rightarrow> lmem
      \<Rightarrow> (ptr \<times> (ptr \<times> ptr) list \<times> lmem) exec" where
  "optimsoc_list_dma_copy mal alloc_data r remote_list data_size m =
     bnd (optimsoc_list_init mal 0 m) (\<lambda>(l, m1).
       bnd (get_list remote_list r) (\<lambda>ll.
         bnd (list_dma_copy_loop mal alloc_data r l (l_head ll) data_size [] m1)
           (\<lambda>(copies, m2). ok (l, copies, m2))))"

subsection \<open>List segments\<close>

text \<open>
  \<open>dseg h q p ns r\<close>: from \<open>p\<close>, the entries \<open>ns\<close> (address and data) are chained by
  their \<open>next\<close> pointers up to \<open>r\<close>, and back by their \<open>prev\<close> pointers down to \<open>q\<close>.
\<close>

fun dseg :: "(ptr \<Rightarrow> entry option) \<Rightarrow> ptr \<Rightarrow> ptr \<Rightarrow> (ptr \<times> ptr) list \<Rightarrow> ptr \<Rightarrow> bool" where
  "dseg h q p [] r \<longleftrightarrow> p = r"
| "dseg h q p (n # ns) r \<longleftrightarrow>
     p = fst n \<and> p \<noteq> 0 \<and>
     (case h p of None \<Rightarrow> False
      | Some e \<Rightarrow> e_data e = snd n \<and> e_prev e = q \<and> dseg h p (e_next e) ns r)"

definition last_addr :: "ptr \<Rightarrow> (ptr \<times> ptr) list \<Rightarrow> ptr" where
  "last_addr q ns = (if ns = [] then q else fst (last ns))"

lemma last_addr_simps [simp]:
  "last_addr q [] = q"
  "last_addr q (n # ns) = last_addr (fst n) ns"
  "last_addr q (ns @ [n]) = fst n"
  by (simp_all add: last_addr_def)

lemma last_addr_in: "ns \<noteq> [] \<Longrightarrow> last_addr q ns \<in> fst ` set ns"
  by (simp add: last_addr_def)

lemma dseg_append:
  "dseg h q p (xs @ ys) r \<longleftrightarrow> (\<exists>s. dseg h q p xs s \<and> dseg h (last_addr q xs) s ys r)"
  by (induction xs arbitrary: q p) (auto split: option.splits)

lemma dseg_upd [simp]:
  "a \<notin> fst ` set ns \<Longrightarrow> dseg (h(a := x)) q p ns r = dseg h q p ns r"
  by (induction ns arbitrary: q p) (auto split: option.splits)

lemma dseg_nonzero: "dseg h q p ns r \<Longrightarrow> 0 \<notin> fst ` set ns"
  by (induction ns arbitrary: q p) (auto split: option.splits)

lemma dseg_mapped: "dseg h q p ns r \<Longrightarrow> a \<in> fst ` set ns \<Longrightarrow> h a \<noteq> None"
  by (induction ns arbitrary: q p) (auto split: option.splits)

lemma dseg_start: "dseg h q p ns r \<Longrightarrow> ns \<noteq> [] \<Longrightarrow> p = fst (hd ns) \<and> p \<noteq> 0"
  by (cases ns) auto

lemma dseg_Cons:
  "dseg h q p (n # ns) r \<longleftrightarrow>
     p = fst n \<and> p \<noteq> 0 \<and>
     (\<exists>e. h p = Some e \<and> e_data e = snd n \<and> e_prev e = q \<and> dseg h p (e_next e) ns r)"
  by (auto split: option.splits)

text \<open>Redirecting the \<open>next\<close> pointer of the last entry, or the \<open>prev\<close> pointer of the first.\<close>

lemma dseg_set_next:
  assumes "dseg h q p (ns @ [n]) r" and "distinct (map fst (ns @ [n]))"
    and "h (fst n) = Some e"
  shows "dseg (h(fst n \<mapsto> e\<lparr>e_next := r'\<rparr>)) q p (ns @ [n]) r'"
  using assms by (auto simp: dseg_append dseg_Cons simp del: dseg.simps(2))

lemma dseg_set_prev:
  assumes "dseg h q p (n # ns) r" and "distinct (map fst (n # ns))"
    and "h (fst n) = Some e"
  shows "dseg (h(fst n \<mapsto> e\<lparr>e_prev := q'\<rparr>)) q' p (n # ns) r"
  using assms by auto

subsection \<open>Representation of a list\<close>

text \<open>
  The header \<open>l\<close> and the entries \<open>ns\<close> form a list. The \<open>prev\<close> pointer of the first
  entry is \<open>q\<close>: \<open>NULL\<close> in a list built by insertions, and the address of an entry that
  was freed after a \<open>optimsoc_list_remove_head\<close>.
\<close>

definition lrep :: "lmem \<Rightarrow> ptr \<Rightarrow> ptr \<Rightarrow> (ptr \<times> ptr) list \<Rightarrow> bool" where
  "lrep m l q ns \<longleftrightarrow>
     l \<noteq> 0 \<and> distinct (map fst ns) \<and>
     (\<exists>p. lists m l = Some \<lparr>l_head = p, l_tail = last_addr 0 ns\<rparr> \<and> dseg (entries m) q p ns 0)"

lemma lrepI:
  assumes "l \<noteq> 0" and "distinct (map fst ns)"
    and "lists m l = Some \<lparr>l_head = p, l_tail = last_addr 0 ns\<rparr>"
    and "dseg (entries m) q p ns 0"
  shows "lrep m l q ns"
  using assms by (auto simp: lrep_def)

lemma lrepE:
  assumes "lrep m l q ns"
  obtains p where "l \<noteq> 0" and "distinct (map fst ns)"
    and "lists m l = Some \<lparr>l_head = p, l_tail = last_addr 0 ns\<rparr>"
    and "dseg (entries m) q p ns 0"
  using assms by (auto simp: lrep_def)

lemma lrep_get_list:
  assumes "lrep m l q ns"
  shows "get_list l m = ok \<lparr>l_head = (if ns = [] then 0 else fst (hd ns)), l_tail = last_addr 0 ns\<rparr>"
  using assms by (cases ns) (auto simp: get_list_def elim!: lrepE)

lemma lrep_live: "lrep m l q ns \<Longrightarrow> a \<in> insert l (fst ` set ns) \<Longrightarrow> live m a"
  by (auto simp: live_def elim!: lrepE dest: dseg_mapped)

text \<open>A change of the heap outside a list keeps it.\<close>

lemma lrep_frame:
  assumes "lrep m l q ns" and "lists m' l = lists m l"
    and "\<And>a. a \<in> fst ` set ns \<Longrightarrow> entries m' a = entries m a"
  shows "lrep m' l q ns"
proof -
  have "dseg (entries m) q p ns 0 = dseg (entries m') q p ns 0" for p
    using assms(3) by (induction ns arbitrary: q p) (auto split: option.splits)
  with assms(1,2) show ?thesis by (auto simp: lrep_def)
qed


definition touches :: "lmem \<Rightarrow> lmem \<Rightarrow> ptr \<Rightarrow> ptr set \<Rightarrow> bool" where
  "touches m m' l A \<longleftrightarrow>
     (\<forall>l'. l' \<noteq> l \<longrightarrow> lists m' l' = lists m l') \<and> (\<forall>a. a \<notin> A \<longrightarrow> entries m' a = entries m a)"

lemma lrep_touches:
  assumes "lrep m l' q ns" and "touches m m' l A" and "l' \<noteq> l" and "fst ` set ns \<inter> A = {}"
  shows "lrep m' l' q ns"
  using assms(1)
proof (rule lrep_frame)
  show "lists m' l' = lists m l'" using assms(2,3) by (auto simp: touches_def)
  show "entries m' a = entries m a" if "a \<in> fst ` set ns" for a
    using assms(2,4) that by (auto simp: touches_def)
qed

lemmas access_defs = get_list_def set_list_def get_entry_def set_entry_def upd_entry_def
  free_entry_def

subsection \<open>What each operation does to a represented list\<close>

lemma last_addr_append_single: "ns = ms @ [n] \<Longrightarrow> last_addr q ns = fst n"
  by simp

lemma add_tail_lrep:
  assumes rep: "lrep m l q ns" and mal: "alloc_ok mal" and e: "e = mal (live m)" "e \<noteq> 0"
  shows "\<exists>m'. optimsoc_list_add_tail mal l d m = ok m' \<and>
    lrep m' l (if ns = [] then 0 else q) (ns @ [(e, d)]) \<and>
    touches m m' l (insert e (fst ` set ns))"
proof -
  from mal e have fresh: "\<not> live m e" by (auto dest: alloc_okD)
  then have new: "e \<notin> fst ` set ns" using lrep_live [OF rep] by auto
  show ?thesis
  proof (cases ns rule: rev_cases)
    case Nil
    with rep e fresh show ?thesis
      by (auto simp: optimsoc_list_add_tail_def lrep_get_list access_defs lrep_def touches_def Let_def)
  next
    case (snoc ms n)
    from rep obtain p where p: "l \<noteq> 0" "distinct (map fst ns)"
      "lists m l = Some \<lparr>l_head = p, l_tail = last_addr 0 ns\<rparr>" "dseg (entries m) q p ns 0"
      by (rule lrepE)
    with snoc obtain t where t: "entries m (fst n) = Some t" "fst n \<noteq> 0"
      by (auto simp: dseg_append dseg_Cons simp del: dseg.simps(2))
    have ne: "fst n \<noteq> e" using new snoc by auto
    let ?m' = "set_list l \<lparr>l_head = p, l_tail = e\<rparr>
       (set_entry (fst n) (t\<lparr>e_next := e\<rparr>)
         (set_entry e \<lparr>e_data = d, e_prev = fst n, e_next = 0\<rparr> m))"
    have run: "optimsoc_list_add_tail mal l d m = ok ?m'"
      using p snoc t e ne by (simp add: optimsoc_list_add_tail_def access_defs Let_def)
    have "dseg ((entries m)(fst n \<mapsto> t\<lparr>e_next := e\<rparr>)) q p ns e"
      using p snoc t by (metis dseg_set_next)
    moreover have "entries ?m' = ((entries m)(fst n \<mapsto> t\<lparr>e_next := e\<rparr>))
        (e \<mapsto> \<lparr>e_data = d, e_prev = fst n, e_next = 0\<rparr>)"
      using ne by (auto simp: access_defs)
    ultimately have "dseg (entries ?m') q p (ns @ [(e, d)]) 0"
      using new ne e(2) snoc by (auto simp: dseg_append)
    then have "lrep ?m' l q (ns @ [(e, d)])"
      using p new by (intro lrepI [where p = p]) (auto simp: access_defs)
    moreover have "touches m ?m' l (insert e (fst ` set ns))"
      using snoc by (auto simp: touches_def access_defs)
    ultimately show ?thesis using run snoc by auto
  qed
qed

lemma add_tail_nomem:
  "lrep m l q ns \<Longrightarrow> mal (live m) = 0 \<Longrightarrow> optimsoc_list_add_tail mal l d m = flt NoMem"
  by (simp add: optimsoc_list_add_tail_def lrep_get_list)

lemma remove_head_empty: "lrep m l q [] \<Longrightarrow> optimsoc_list_remove_head l m = ok (0, m)"
  by (simp add: optimsoc_list_remove_head_def lrep_get_list)

lemma remove_head_lrep:
  assumes rep: "lrep m l q ((a, d) # ns)"
  shows "\<exists>m'. optimsoc_list_remove_head l m = ok (d, m') \<and> lrep m' l a ns \<and>
    entries m' a = None \<and> touches m m' l {a}"
proof -
  from rep obtain x where p: "l \<noteq> 0" "distinct (map fst ((a, d) # ns))"
    "lists m l = Some \<lparr>l_head = a, l_tail = last_addr 0 ((a, d) # ns)\<rparr>"
    and x: "entries m a = Some x" "a \<noteq> 0" "e_data x = d" "dseg (entries m) a (e_next x) ns 0"
    by (auto simp: lrep_def dseg_Cons simp del: dseg.simps(2))
  let ?m' = "set_list l \<lparr>l_head = e_next x, l_tail = last_addr 0 ns\<rparr>
     (m\<lparr>entries := (entries m)(a := None)\<rparr>)"
  have tl: "e_next x = 0 \<longleftrightarrow> ns = []" using x(4) by (cases ns) auto
  have "optimsoc_list_remove_head l m = ok (d, ?m')"
    using p x tl by (auto simp: optimsoc_list_remove_head_def access_defs last_addr_def)
  moreover have "lrep ?m' l a ns"
    using p x by (auto simp: lrep_def access_defs)
  moreover have "entries ?m' a = None" "touches m ?m' l {a}"
    by (auto simp: touches_def access_defs)
  ultimately show ?thesis by blast
qed


text \<open>The search walks over the entries before the first match.\<close>

lemma remove_loop_skip:
  assumes "dseg (entries m) q p (xs @ ys) 0" and "d \<notin> snd ` set xs"
  shows "list_remove_loop l d p m = list_remove_loop l d (if ys = [] then 0 else fst (hd ys)) m"
  using assms
proof (induction xs arbitrary: q p)
  case Nil
  then show ?case by (cases ys) auto
next
  case (Cons x xs)
  then obtain e where e: "p = fst x" "p \<noteq> 0" "entries m p = Some e" "e_data e = snd x"
    "dseg (entries m) p (e_next e) (xs @ ys) 0"
    by (auto simp: dseg_Cons simp del: dseg.simps(2))
  have "list_remove_loop l d p m = list_remove_loop l d (e_next e) m"
    using e Cons.prems(2) by (subst list_remove_loop.simps) (auto simp: get_entry_def)
  with Cons e show ?case by auto
qed

lemma remove_loop_absent:
  assumes "dseg (entries m) q p ns 0" and "d \<notin> snd ` set ns"
  shows "list_remove_loop l d p m = ok (0, m)"
proof -
  have "list_remove_loop l d p m = list_remove_loop l d 0 m"
    using remove_loop_skip [where ys = "[]"] assms by force
  also have "\<dots> = ok (0, m)" by (subst list_remove_loop.simps) simp
  finally show ?thesis .
qed

lemma unlink_head:
  assumes rep: "lrep m l 0 ((a, d) # n # zs)" and e: "entries m a = Some e"
  shows "\<exists>m1 m2. list_unlink l a e m = ok m1 \<and> free_entry a m1 = ok m2 \<and>
    lrep m2 l 0 (n # zs) \<and> entries m2 a = None \<and> touches m m2 l {a, fst n}"
proof -
  obtain b db where n: "n = (b, db)" by (cases n)
  from rep e n obtain f where p: "l \<noteq> 0" "distinct (map fst ((a, d) # n # zs))"
    "lists m l = Some \<lparr>l_head = a, l_tail = last_addr b zs\<rparr>"
    and a: "a \<noteq> 0" "e_data e = d" "e_prev e = 0" "e_next e = b"
    and b: "b \<noteq> 0" "entries m b = Some f" "e_data f = db" "e_prev f = a"
      "dseg (entries m) b (e_next f) zs 0"
    by (auto simp: lrep_def dseg_Cons simp del: dseg.simps(2))
  have tl: "a \<noteq> last_addr b zs" using p(2) n by (cases zs rule: rev_cases) auto
  let ?m1 = "set_list l \<lparr>l_head = b, l_tail = last_addr b zs\<rparr> (set_entry b (f\<lparr>e_prev := 0\<rparr>) m)"
  let ?m2 = "?m1\<lparr>entries := (entries ?m1)(a := None)\<rparr>"
  have "list_unlink l a e m = ok ?m1"
    using p a b tl by (simp add: list_unlink_def access_defs)
  moreover have "free_entry a ?m1 = ok ?m2"
    using p(2) n e a by (simp add: access_defs)
  moreover have "lrep ?m2 l 0 (n # zs)"
    using p b n by (auto simp: lrep_def access_defs)
  moreover have "entries ?m2 a = None" "touches m ?m2 l {a, fst n}"
    using n by (auto simp: touches_def access_defs)
  ultimately show ?thesis by blast
qed

lemma unlink_single:
  assumes rep: "lrep m l q [(a, d)]" and e: "entries m a = Some e"
  shows "\<exists>m1 m2. list_unlink l a e m = ok m1 \<and> free_entry a m1 = ok m2 \<and>
    lrep m2 l 0 [] \<and> entries m2 a = None \<and> touches m m2 l {a}"
proof -
  from rep have p: "l \<noteq> 0" "lists m l = Some \<lparr>l_head = a, l_tail = a\<rparr>" "a \<noteq> 0"
    by (auto simp: lrep_def split: option.splits)
  let ?m1 = "set_list l \<lparr>l_head = 0, l_tail = 0\<rparr> m"
  let ?m2 = "?m1\<lparr>entries := (entries ?m1)(a := None)\<rparr>"
  have "list_unlink l a e m = ok ?m1" "free_entry a ?m1 = ok ?m2"
    using p e by (simp_all add: list_unlink_def access_defs)
  moreover have "lrep ?m2 l 0 []" "entries ?m2 a = None" "touches m ?m2 l {a}"
    using p by (auto simp: lrep_def touches_def access_defs)
  ultimately show ?thesis by blast
qed

lemma unlink_tail:
  assumes rep: "lrep m l q (ws @ [c, (a, d)])" and e: "entries m a = Some e"
  shows "\<exists>m1 m2. list_unlink l a e m = ok m1 \<and> free_entry a m1 = ok m2 \<and>
    lrep m2 l q (ws @ [c]) \<and> entries m2 a = None \<and> touches m m2 l {a, fst c}"
proof -
  from rep e obtain p f where p: "l \<noteq> 0" "distinct (map fst (ws @ [c, (a, d)]))"
    "lists m l = Some \<lparr>l_head = p, l_tail = a\<rparr>" "dseg (entries m) q p (ws @ [c]) a"
    and a: "a \<noteq> 0" "e_data e = d" "e_prev e = fst c" "e_next e = 0"
    and f: "entries m (fst c) = Some f" "fst c \<noteq> 0"
    by (auto simp: lrep_def dseg_append dseg_Cons last_addr_def simp del: dseg.simps(2))
  have hd: "a \<noteq> p" using p by (cases ws) auto
  let ?m1 = "set_list l \<lparr>l_head = p, l_tail = fst c\<rparr> (set_entry (fst c) (f\<lparr>e_next := 0\<rparr>) m)"
  let ?m2 = "?m1\<lparr>entries := (entries ?m1)(a := None)\<rparr>"
  have "list_unlink l a e m = ok ?m1"
    using p a f hd by (simp add: list_unlink_def access_defs)
  moreover have "free_entry a ?m1 = ok ?m2"
    using p(2) e a by (auto simp: access_defs)
  moreover have "dseg ((entries m)(fst c \<mapsto> f\<lparr>e_next := 0\<rparr>)) q p (ws @ [c]) 0"
    using p f by (intro dseg_set_next) auto
  then have "lrep ?m2 l q (ws @ [c])"
    using p by (intro lrepI [where p = p]) (auto simp: access_defs)
  moreover have "entries ?m2 a = None" "touches m ?m2 l {a, fst c}"
    by (auto simp: touches_def access_defs)
  ultimately show ?thesis by blast
qed


lemma unlink_middle:
  assumes rep: "lrep m l q (ws @ c # (a, d) # n # zs)" and e: "entries m a = Some e"
  shows "\<exists>m1 m2. list_unlink l a e m = ok m1 \<and> free_entry a m1 = ok m2 \<and>
    lrep m2 l q (ws @ c # n # zs) \<and> entries m2 a = None \<and> touches m m2 l {a, fst c, fst n}"
proof -
  from rep e obtain p f g where p: "l \<noteq> 0" "distinct (map fst ((ws @ [c]) @ (a, d) # n # zs))"
    "lists m l = Some \<lparr>l_head = p, l_tail = last_addr (fst n) zs\<rparr>"
    "dseg (entries m) q p (ws @ [c]) a"
    and a: "a \<noteq> 0" "e_data e = d" "e_prev e = fst c" "e_next e = fst n"
    and f: "entries m (fst c) = Some f" "fst c \<noteq> 0"
    and g: "entries m (fst n) = Some g" "fst n \<noteq> 0" "dseg (entries m) a (fst n) (n # zs) 0"
    by (auto simp: lrep_def dseg_append dseg_Cons last_addr_def simp del: dseg.simps(2))
  have hd: "a \<noteq> p" using p by (cases ws) auto
  have dj: "a \<notin> fst ` set (ws @ [c])" "fst n \<notin> fst ` set (ws @ [c])"
    "a \<notin> fst ` set (n # zs)" "fst c \<notin> fst ` set (n # zs)" "fst c \<noteq> fst n"
    using p(2) by auto
  let ?h1 = "(entries m)(fst c \<mapsto> f\<lparr>e_next := fst n\<rparr>)"
  let ?m1 = "set_entry (fst n) (g\<lparr>e_prev := fst c\<rparr>) (set_entry (fst c) (f\<lparr>e_next := fst n\<rparr>) m)"
  let ?m2 = "?m1\<lparr>entries := (entries ?m1)(a := None)\<rparr>"
  have ents: "entries ?m2 = ?h1(fst n \<mapsto> g\<lparr>e_prev := fst c\<rparr>, a := None)"
    by (simp add: access_defs)
  have unlink: "list_unlink l a e m = ok ?m1"
    using p a f g hd by (auto simp: list_unlink_def access_defs)
  have free: "free_entry a ?m1 = ok ?m2"
    using p(2) e a by (auto simp: access_defs)
  have "dseg ?h1 q p (ws @ [c]) (fst n)"
    using p f by (intro dseg_set_next) auto
  then have left: "dseg (entries ?m2) q p (ws @ [c]) (fst n)"
    unfolding ents by (simp only: dseg_upd [OF dj(1)] dseg_upd [OF dj(2)])
  have "dseg ((entries m)(fst n \<mapsto> g\<lparr>e_prev := fst c\<rparr>)) (fst c) (fst n) (n # zs) 0"
    using p(2) g by (intro dseg_set_prev [where q = a]) auto
  then have "dseg ((entries m)(fst n \<mapsto> g\<lparr>e_prev := fst c\<rparr>, fst c \<mapsto> f\<lparr>e_next := fst n\<rparr>, a := None))
      (fst c) (fst n) (n # zs) 0"
    by (simp only: dseg_upd [OF dj(3)] dseg_upd [OF dj(4)])
  moreover have "entries ?m2 =
      (entries m)(fst n \<mapsto> g\<lparr>e_prev := fst c\<rparr>, fst c \<mapsto> f\<lparr>e_next := fst n\<rparr>, a := None)"
    unfolding ents by (simp only: fun_upd_twist [OF dj(5)])
  ultimately have "dseg (entries ?m2) (fst c) (fst n) (n # zs) 0"
    by (simp only:)
  then have "lrep ?m2 l q (ws @ c # n # zs)"
    using p left dseg_append [of "entries ?m2" q p "ws @ [c]" "n # zs" 0]
    by (intro lrepI [where p = p]) (auto simp: access_defs last_addr_def)
  moreover have "entries ?m2 a = None" "touches m ?m2 l {a, fst c, fst n}"
    by (auto simp: touches_def access_defs)
  ultimately show ?thesis
    using unlink free by blast
qed

text \<open>
  Taking out the first entry with the data \<open>d\<close>, whatever its place, unless it is the head
  of a longer list whose first \<open>prev\<close> pointer is stale.
\<close>

lemma remove_lrep:
  assumes rep: "lrep m l q (xs @ (a, d) # ys)" and first: "d \<notin> snd ` set xs"
    and clean: "xs = [] \<Longrightarrow> ys \<noteq> [] \<Longrightarrow> q = 0"
  shows "\<exists>m'. optimsoc_list_remove l d m = ok (1, m') \<and>
    lrep m' l (if xs = [] then 0 else q) (xs @ ys) \<and> entries m' a = None \<and>
    touches m m' l (fst ` set (xs @ (a, d) # ys))"
proof -
  from rep obtain p where seg: "dseg (entries m) q p (xs @ (a, d) # ys) 0"
    and hd: "get_list l m = ok \<lparr>l_head = p, l_tail = last_addr 0 (xs @ (a, d) # ys)\<rparr>"
    by (auto simp: lrep_def get_list_def)
  then obtain e where e: "entries m a = Some e" "e_data e = d" "a \<noteq> 0"
    by (auto simp: dseg_append dseg_Cons simp del: dseg.simps(2))
  have "optimsoc_list_remove l d m = list_remove_loop l d a m"
    using hd remove_loop_skip [OF seg first] by (simp add: optimsoc_list_remove_def)
  also have "\<dots> = bnd (list_unlink l a e m) (\<lambda>m1. bnd (free_entry a m1) (\<lambda>m2. ok (1, m2)))"
    using e by (subst list_remove_loop.simps) (simp add: get_entry_def)
  finally have run: "optimsoc_list_remove l d m =
    bnd (list_unlink l a e m) (\<lambda>m1. bnd (free_entry a m1) (\<lambda>m2. ok (1, m2)))" .
  have "\<exists>m1 m2 A. list_unlink l a e m = ok m1 \<and> free_entry a m1 = ok m2 \<and>
      lrep m2 l (if xs = [] then 0 else q) (xs @ ys) \<and> entries m2 a = None \<and>
      touches m m2 l A \<and> A \<subseteq> fst ` set (xs @ (a, d) # ys)"
  proof (cases xs rule: rev_cases)
    case Nil
    show ?thesis
    proof (cases ys)
      case Nil
      with \<open>xs = []\<close> unlink_single [of m l q a d e] rep e show ?thesis by fastforce
    next
      case (Cons n zs)
      with \<open>xs = []\<close> unlink_head [of m l a d n zs e] rep e clean show ?thesis by fastforce
    qed
  next
    case (snoc ws c)
    show ?thesis
    proof (cases ys)
      case Nil
      with snoc unlink_tail [of m l q ws c a d e] rep e show ?thesis by fastforce
    next
      case (Cons n zs)
      with snoc unlink_middle [of m l q ws c a d n zs e] rep e show ?thesis by fastforce
    qed
  qed
  then obtain m1 m2 A where "list_unlink l a e m = ok m1" "free_entry a m1 = ok m2"
    and "lrep m2 l (if xs = [] then 0 else q) (xs @ ys)" "entries m2 a = None"
    and A: "touches m m2 l A" "A \<subseteq> fst ` set (xs @ (a, d) # ys)" by blast
  moreover from A have "touches m m2 l (fst ` set (xs @ (a, d) # ys))"
    by (auto simp: touches_def)
  ultimately show ?thesis using run by simp
qed

lemma remove_absent:
  assumes "lrep m l q ns" and "d \<notin> snd ` set ns"
  shows "optimsoc_list_remove l d m = ok (0, m)"
  using assms remove_loop_absent [of m q _ ns d l]
  by (auto simp: lrep_def optimsoc_list_remove_def get_list_def)


lemma init_lrep:
  assumes "alloc_ok mal" and "mal (live m) \<noteq> 0"
  shows "\<exists>m'. optimsoc_list_init mal 0 m = ok (mal (live m), m') \<and>
    lists m (mal (live m)) = None \<and> lrep m' (mal (live m)) 0 [] \<and>
    touches m m' (mal (live m)) {}"
  using assms alloc_okD [OF assms(1), of "live m"]
  by (auto simp: optimsoc_list_init_def lrep_def set_list_def touches_def Let_def live_def)

lemma init_with_lrep:
  assumes mal: "alloc_ok mal" and l: "l = mal (live m)" "l \<noteq> 0" and d: "d \<noteq> 0"
    and e: "e = mal (live (set_list l \<lparr>l_head = 0, l_tail = 0\<rparr> m))" "e \<noteq> 0"
  shows "\<exists>m'. optimsoc_list_init mal d m = ok (l, m') \<and> lists m l = None \<and>
    lrep m' l 0 [(e, d)] \<and> touches m m' l {e} \<and> entries m e = None"
proof -
  have "\<not> live m l" "\<not> live (set_list l \<lparr>l_head = 0, l_tail = 0\<rparr> m) e"
    using mal l e by (auto dest: alloc_okD)
  then have free: "lists m l = None" "entries m e = None"
    by (auto simp: live_def set_list_def)
  have run: "optimsoc_list_init mal d m = ok (l, set_entry e \<lparr>e_data = d, e_prev = 0, e_next = 0\<rparr>
      (set_list l \<lparr>l_head = e, l_tail = e\<rparr> (set_list l \<lparr>l_head = 0, l_tail = 0\<rparr> m)))"
    using l d e by (simp add: optimsoc_list_init_def Let_def)
  show ?thesis
    using free l e unfolding run
    by (intro exI conjI refl) (auto simp: lrep_def access_defs touches_def)
qed

lemma contains_loop_lrep:
  assumes "dseg (entries m) q p ns 0"
  shows "list_contains_loop d p m = ok (if d \<in> snd ` set ns then 1 else 0)"
  using assms
proof (induction ns arbitrary: q p)
  case Nil
  then show ?case by (subst list_contains_loop.simps) simp
next
  case (Cons n ns)
  then obtain e where e: "p \<noteq> 0" "entries m p = Some e" "e_data e = snd n"
    "dseg (entries m) p (e_next e) ns 0"
    by (auto simp: dseg_Cons simp del: dseg.simps(2))
  with Cons.IH [OF e(4)] show ?case
    by (subst list_contains_loop.simps) (auto simp: get_entry_def)
qed

lemma length_loop_lrep:
  assumes "dseg (entries m) q p ns 0"
  shows "list_length_loop k p m = ok (k + word_of_nat (length ns))"
  using assms
proof (induction ns arbitrary: q p k)
  case Nil
  then show ?case by (subst list_length_loop.simps) simp
next
  case (Cons n ns)
  then obtain e where e: "p \<noteq> 0" "entries m p = Some e" "dseg (entries m) p (e_next e) ns 0"
    by (auto simp: dseg_Cons simp del: dseg.simps(2))
  with Cons.IH [OF e(3)] show ?case
    by (subst list_length_loop.simps) (simp add: get_entry_def)
qed

lemma find_header_loop_lrep:
  assumes "dseg (entries m) q p ns 0" and "\<And>d. d \<in> snd ` set ns \<Longrightarrow> word_at d = ok (w d)"
  shows "list_find_header_loop word_at c p m =
    ok (case List.find (\<lambda>d. w d = c) (map snd ns) of None \<Rightarrow> 0 | Some d \<Rightarrow> d)"
  using assms
proof (induction ns arbitrary: q p)
  case Nil
  then show ?case by (subst list_find_header_loop.simps) simp
next
  case (Cons n ns)
  then obtain e where e: "p \<noteq> 0" "entries m p = Some e" "e_data e = snd n"
    "dseg (entries m) p (e_next e) ns 0"
    by (auto simp: dseg_Cons simp del: dseg.simps(2))
  moreover have "list_find_header_loop word_at c (e_next e) m =
      ok (case List.find (\<lambda>d. w d = c) (map snd ns) of None \<Rightarrow> 0 | Some d \<Rightarrow> d)"
    using Cons.IH [OF e(4)] Cons.prems(2) by simp
  ultimately show ?case
    using Cons.prems(2) by (subst list_find_header_loop.simps) (auto simp: get_entry_def)
qed

text \<open>The iterator visits the entries in order.\<close>

lemma first_element_lrep:
  assumes "lrep m l q ns"
  shows "optimsoc_list_first_element l m = ok (case ns of [] \<Rightarrow> (0, 0) | n # _ \<Rightarrow> (snd n, fst n))"
proof (cases ns)
  case Nil
  with assms show ?thesis by (simp add: optimsoc_list_first_element_def lrep_get_list)
next
  case (Cons n ms)
  with assms obtain e where "entries m (fst n) = Some e" "e_data e = snd n" "fst n \<noteq> 0"
    by (auto simp: lrep_def dseg_Cons simp del: dseg.simps(2))
  with assms Cons show ?thesis
    by (simp add: optimsoc_list_first_element_def lrep_get_list get_entry_def)
qed

lemma next_element_lrep:
  assumes "lrep m l q (xs @ n # ys)"
  shows "optimsoc_list_next_element l (fst n) m =
    ok (case ys of [] \<Rightarrow> (0, fst n) | n' # _ \<Rightarrow> (snd n', fst n'))"
proof -
  from assms obtain e where e: "entries m (fst n) = Some e" "fst n \<noteq> 0"
    "dseg (entries m) (fst n) (e_next e) ys 0"
    by (auto simp: lrep_def dseg_append dseg_Cons simp del: dseg.simps(2))
  show ?thesis
  proof (cases ys)
    case Nil
    with e lrep_get_list [OF assms] show ?thesis
      by (simp add: optimsoc_list_next_element_def get_entry_def)
  next
    case (Cons n' zs)
    with e obtain e' where "e_next e = fst n'" "fst n' \<noteq> 0" "entries m (fst n') = Some e'"
      "e_data e' = snd n'"
      by (auto simp: dseg_Cons simp del: dseg.simps(2))
    with e Cons lrep_get_list [OF assms] show ?thesis
      by (simp add: optimsoc_list_next_element_def get_entry_def)
  qed
qed

subsection \<open>The stale links\<close>

lemma stale_head_remove:
  assumes rep: "lrep m l q ((a, d) # (b, x) # n # ns)"
  shows "bnd (optimsoc_list_remove_head l m) (\<lambda>(_, m'). optimsoc_list_remove l x m') =
    flt UseAfterFree"
proof -
  from remove_head_lrep [OF rep] obtain m' where run: "optimsoc_list_remove_head l m = ok (d, m')"
    and rep': "lrep m' l a ((b, x) # n # ns)" and gone: "entries m' a = None" by blast
  from rep have a: "a \<noteq> 0" by (auto simp: lrep_def split: option.splits)
  from rep' obtain e where p: "l \<noteq> 0" "lists m' l = Some \<lparr>l_head = b, l_tail = last_addr (fst n) ns\<rparr>"
    "distinct (map fst ((b, x) # n # ns))"
    and e: "b \<noteq> 0" "entries m' b = Some e" "e_data e = x" "e_prev e = a" "e_next e = fst n"
      "fst n \<noteq> 0"
    by (auto simp: lrep_def dseg_Cons simp del: dseg.simps(2))
  have "b \<noteq> last_addr (fst n) ns" using p(3) by (cases ns rule: rev_cases) auto
  with p e a gone have "list_remove_loop l x b m' = flt UseAfterFree"
    by (subst list_remove_loop.simps) (simp add: list_unlink_def access_defs)
  then show ?thesis using run p by (simp add: optimsoc_list_remove_def get_list_def)
qed

lemma remove_tail_lrep:
  assumes rep: "lrep m l q (ns @ [n, (a, d)])"
  shows "\<exists>m' p. optimsoc_list_remove_tail l m = ok (d, m') \<and> entries m' a = None \<and> a \<noteq> 0 \<and>
    lists m' l = Some \<lparr>l_head = p, l_tail = fst n\<rparr> \<and> dseg (entries m') q p (ns @ [n]) a"
proof -
  from rep obtain p e where p: "l \<noteq> 0" "distinct (map fst (ns @ [n, (a, d)]))"
    "lists m l = Some \<lparr>l_head = p, l_tail = a\<rparr>" "dseg (entries m) q p (ns @ [n]) a"
    and e: "a \<noteq> 0" "entries m a = Some e" "e_data e = d" "e_prev e = fst n" "fst n \<noteq> 0"
    by (auto simp: lrep_def dseg_append dseg_Cons last_addr_def simp del: dseg.simps(2))
  have "a \<notin> fst ` set (ns @ [n])" using p(2) by auto
  then have "dseg ((entries m)(a := None)) q p (ns @ [n]) a" using p(4) by simp
  with p e show ?thesis
    by (simp add: optimsoc_list_remove_tail_def access_defs)
qed

lemma contains_loop_stale:
  assumes "dseg (entries m) q p ns a" and "x \<notin> snd ` set ns" and "a \<noteq> 0" and "entries m a = None"
  shows "list_contains_loop x p m = flt UseAfterFree"
  using assms
proof (induction ns arbitrary: q p)
  case Nil
  then show ?case by (subst list_contains_loop.simps) (simp add: get_entry_def)
next
  case (Cons n ns)
  then obtain e where e: "p \<noteq> 0" "entries m p = Some e" "e_data e = snd n"
    "dseg (entries m) p (e_next e) ns a"
    by (auto simp: dseg_Cons simp del: dseg.simps(2))
  with Cons show ?case
    by (subst list_contains_loop.simps) (auto simp: get_entry_def)
qed

lemma stale_tail_contains:
  assumes "lrep m l q (ns @ [n, (a, d)])" and "x \<notin> snd ` set (ns @ [n])"
  shows "bnd (optimsoc_list_remove_tail l m) (\<lambda>(_, m'). optimsoc_list_contains l x m') =
    flt UseAfterFree"
proof -
  from remove_tail_lrep [OF assms(1)] obtain m' p where
    "optimsoc_list_remove_tail l m = ok (d, m')" "entries m' a = None" "a \<noteq> 0"
    "lists m' l = Some \<lparr>l_head = p, l_tail = fst n\<rparr>" "dseg (entries m') q p (ns @ [n]) a"
    by blast
  moreover from assms(1) have "l \<noteq> 0" by (simp add: lrep_def)
  ultimately show ?thesis
    using assms(2) contains_loop_stale
    by (simp add: optimsoc_list_contains_def get_list_def)
qed

end
