(* ===== verification/List_Store.thy ===== *)
theory List_Store
  imports Linked_List
begin

section \<open>The contract of the list library\<close>

text \<open>
  What the clients of the lists rely on. A list is abstracted to its contents and to one
  bit, whether the \<open>prev\<close> pointer of its head is \<open>NULL\<close> (a \<open>clean\<close> list); the heap is
  abstracted to a map from list headers to abstract lists. The locale \<open>list_store\<close> states
  the laws of the operations over that view and proves what the clients need of them; its
  interpretation discharges the laws for the operations of \<open>Linked_List\<close>.
\<close>

subsection \<open>Abstract lists\<close>

type_synonym alist = "bool \<times> ptr list"

type_synonym view = "ptr \<Rightarrow> alist option"

fun q_add :: "ptr \<Rightarrow> alist \<Rightarrow> alist" where
  "q_add d (b, ds) = (b \<or> ds = [], ds @ [d])"

fun q_pop :: "alist \<Rightarrow> ptr \<times> alist" where
  "q_pop (b, []) = (0, (b, []))"
| "q_pop (b, d # ds) = (d, (ds = [], ds))"

text \<open>
  Removing by value is defined unless the value is at the head of a list of two or more
  elements whose head is not clean.
\<close>

fun q_rem_ok :: "ptr \<Rightarrow> alist \<Rightarrow> bool" where
  "q_rem_ok d (b, ds) \<longleftrightarrow> b \<or> length ds \<le> 1 \<or> hd ds \<noteq> d"

fun q_rem :: "ptr \<Rightarrow> alist \<Rightarrow> int \<times> alist" where
  "q_rem d (b, ds) =
     (if d \<in> set ds then (1, (b \<or> hd ds = d, remove1 d ds)) else (0, (b, ds)))"

subsection \<open>The laws\<close>

locale list_store =
  fixes inv :: "'m \<Rightarrow> view \<Rightarrow> bool"
    and init :: "allocator \<Rightarrow> ptr \<Rightarrow> 'm \<Rightarrow> (ptr \<times> 'm) exec"
    and add_tail :: "allocator \<Rightarrow> ptr \<Rightarrow> ptr \<Rightarrow> 'm \<Rightarrow> 'm exec"
    and remove_head :: "ptr \<Rightarrow> 'm \<Rightarrow> (ptr \<times> 'm) exec"
    and remove :: "ptr \<Rightarrow> ptr \<Rightarrow> 'm \<Rightarrow> (int \<times> 'm) exec"
  assumes init_law: "inv m V \<Longrightarrow> alloc_ok mal \<Longrightarrow>
      post (init mal d m) (\<lambda>(l, m'). l \<noteq> 0 \<and> V l = None \<and>
        inv m' (V(l \<mapsto> (True, if d = 0 then [] else [d]))))"
    and add_tail_law: "inv m V \<Longrightarrow> V l = Some q \<Longrightarrow> alloc_ok mal \<Longrightarrow>
      post (add_tail mal l d m) (\<lambda>m'. inv m' (V(l \<mapsto> q_add d q)))"
    and remove_head_law: "inv m V \<Longrightarrow> V l = Some q \<Longrightarrow>
      \<exists>m'. remove_head l m = ok (fst (q_pop q), m') \<and> inv m' (V(l \<mapsto> snd (q_pop q)))"
    and remove_law: "inv m V \<Longrightarrow> V l = Some q \<Longrightarrow> q_rem_ok d q \<Longrightarrow>
      \<exists>m'. remove l d m = ok (fst (q_rem d q), m') \<and> inv m' (V(l \<mapsto> snd (q_rem d q)))"
begin

lemma remove_head_post:
  assumes "inv m V" and "V l = Some q"
    and "\<And>m'. inv m' (V(l \<mapsto> snd (q_pop q))) \<Longrightarrow> P (fst (q_pop q), m')"
  shows "post (remove_head l m) P"
  using remove_head_law [OF assms(1,2)] assms(3) by auto

lemma remove_post:
  assumes "inv m V" and "V l = Some q" and "q_rem_ok d q"
    and "\<And>m'. inv m' (V(l \<mapsto> snd (q_rem d q))) \<Longrightarrow> P (fst (q_rem d q), m')"
  shows "post (remove l d m) P"
  using remove_law [OF assms(1-3)] assms(4) by auto

lemma add_tail_post:
  assumes "inv m V" and "V l = Some q" and "alloc_ok mal"
    and "\<And>m'. inv m' (V(l \<mapsto> q_add d q)) \<Longrightarrow> P m'"
  shows "post (add_tail mal l d m) P"
  by (rule post_mono [OF add_tail_law [OF assms(1-3)] assms(4)])

lemma init_post:
  assumes "inv m V" and "alloc_ok mal"
    and "\<And>l m'. l \<noteq> 0 \<Longrightarrow> V l = None \<Longrightarrow> inv m' (V(l \<mapsto> (True, if d = 0 then [] else [d]))) \<Longrightarrow> P (l, m')"
  shows "post (init mal d m) P"
  by (rule post_mono [OF init_law [OF assms(1,2)]]) (use assms(3) in auto)

text \<open>Moving an element from one list to the tail of another.\<close>

lemma move_post:
  assumes "inv m V" and "V l = Some (True, ds)" and "V k = Some (c, es)" and "l \<noteq> k"
    and "d \<in> set ds" and "alloc_ok mal"
  shows "post (bnd (remove l d m) (\<lambda>(_, m'). add_tail mal k d m'))
    (\<lambda>m'. inv m' (V(l \<mapsto> (True, remove1 d ds), k \<mapsto> (c \<or> es = [], es @ [d]))))"
  using assms
  by (intro post_bndI [where P = "\<lambda>(r, m'). r = 1 \<and> inv m' (V(l \<mapsto> (True, remove1 d ds)))"]
      remove_post [where V = V and q = "(True, ds)"])
    (auto intro!: add_tail_post [where V = "V(l \<mapsto> (True, remove1 d ds))" and q = "(c, es)"])

end

subsection \<open>The heap of lists satisfies the laws\<close>

definition store_rep :: "lmem \<Rightarrow> view \<Rightarrow> (ptr \<Rightarrow> (ptr \<times> ptr) list) \<Rightarrow> (ptr \<Rightarrow> ptr) \<Rightarrow> bool" where
  "store_rep m V N Q \<longleftrightarrow>
     (\<forall>l b ds. V l = Some (b, ds) \<longrightarrow>
        lrep m l (Q l) (N l) \<and> ds = map snd (N l) \<and> (b \<longrightarrow> Q l = 0)) \<and>
     (\<forall>l l'. l \<in> dom V \<longrightarrow> l' \<in> dom V \<longrightarrow> l \<noteq> l' \<longrightarrow> fst ` set (N l) \<inter> fst ` set (N l') = {})"

definition store_inv :: "lmem \<Rightarrow> view \<Rightarrow> bool" where
  "store_inv m V \<longleftrightarrow> (\<exists>N Q. store_rep m V N Q)"

lemma store_inv_empty: "store_inv empty_lmem Map.empty"
  by (simp add: store_inv_def store_rep_def)

lemma store_repD:
  "store_rep m V N Q \<Longrightarrow> V l = Some (b, ds) \<Longrightarrow>
     lrep m l (Q l) (N l) \<and> ds = map snd (N l) \<and> (b \<longrightarrow> Q l = 0)"
  by (auto simp: store_rep_def)

lemma store_inv_lrep:
  assumes "store_inv m V" and "V l = Some (b, ds)"
  obtains q ns where "lrep m l q ns" and "ds = map snd ns" and "b \<Longrightarrow> q = 0"
  using assms by (auto simp: store_inv_def dest!: store_repD)

text \<open>One list changes, within its own entries and newly allocated ones.\<close>

lemma store_step:
  assumes rep: "store_rep m V N Q"
    and t: "touches m m' l A" and A: "A \<subseteq> fst ` set ns \<union> {a. entries m a = None}"
    and old: "V l \<noteq> None \<Longrightarrow> ns = N l" "V l = None \<Longrightarrow> ns = []"
    and new: "lrep m' l q' ns'" "fst ` set ns' \<subseteq> fst ` set ns \<union> {a. entries m a = None}"
    and clean: "b' \<Longrightarrow> q' = 0"
  shows "store_inv m' (V(l \<mapsto> (b', map snd ns')))"
proof -
  have other: "fst ` set (N k) \<inter> (fst ` set ns \<union> {a. entries m a = None}) = {}"
    if "V k = Some v" "k \<noteq> l" for k v
  proof -
    from rep that have "lrep m k (Q k) (N k)" by (cases v) (auto dest: store_repD)
    then have "\<forall>a \<in> fst ` set (N k). entries m a \<noteq> None"
      by (auto simp: lrep_def dest: dseg_mapped)
    moreover have "fst ` set (N k) \<inter> fst ` set ns = {}"
    proof (cases "V l")
      case None
      with old show ?thesis by simp
    next
      case (Some w)
      then have "k \<in> dom V" "l \<in> dom V" "ns = N l" using that old by auto
      with rep that(2) show ?thesis unfolding store_rep_def by blast
    qed
    ultimately show ?thesis by auto
  qed
  have "store_rep m' (V(l \<mapsto> (b', map snd ns'))) (N(l := ns')) (Q(l := q'))"
    unfolding store_rep_def
  proof (intro conjI allI impI)
    fix k b ds assume k: "(V(l \<mapsto> (b', map snd ns'))) k = Some (b, ds)"
    show "lrep m' k ((Q(l := q')) k) ((N(l := ns')) k)"
    proof (cases "k = l")
      case True
      with new(1) show ?thesis by simp
    next
      case False
      with k store_repD [OF rep, of k b ds] have "lrep m k (Q k) (N k)" by simp
      then have "lrep m' k (Q k) (N k)"
      proof (rule lrep_touches [OF _ t False])
        from False k have "V k = Some (b, ds)" by simp
        from other [OF this False] A show "fst ` set (N k) \<inter> A = {}" by blast
      qed
      with False show ?thesis by simp
    qed
    have "ds = map snd ((N(l := ns')) k) \<and> (b \<longrightarrow> (Q(l := q')) k = 0)"
    proof (cases "k = l")
      case True
      with k clean show ?thesis by simp
    next
      case False
      with k store_repD [OF rep, of k b ds] show ?thesis by simp
    qed
    then show "ds = map snd ((N(l := ns')) k)" and "b \<Longrightarrow> (Q(l := q')) k = 0"
      by simp_all
  next
    fix k k'
    assume k: "k \<in> dom (V(l \<mapsto> (b', map snd ns')))" "k' \<in> dom (V(l \<mapsto> (b', map snd ns')))" "k \<noteq> k'"
    have disj: "fst ` set (N j) \<inter> fst ` set ns' = {}" if "j \<in> dom V" "j \<noteq> l" for j
    proof -
      from that obtain v where "V j = Some v" by auto
      from other [OF this that(2)] new(2) show ?thesis by blast
    qed
    have old: "fst ` set (N k) \<inter> fst ` set (N k') = {}" if "k \<noteq> l" "k' \<noteq> l"
    proof -
      from k that have "k \<in> dom V" "k' \<in> dom V" by (auto split: if_splits)
      with rep k(3) show ?thesis unfolding store_rep_def by blast
    qed
    show "fst ` set ((N(l := ns')) k) \<inter> fst ` set ((N(l := ns')) k') = {}"
    proof (cases "k = l")
      case True
      with k disj [of k'] show ?thesis by (simp add: Int_commute)
    next
      case False
      show ?thesis
      proof (cases "k' = l")
        case True
        with False k disj [of k] show ?thesis by simp
      next
        case k': False
        with False old show ?thesis by simp
      qed
    qed
  qed
  then show ?thesis by (auto simp: store_inv_def)
qed

lemma store_add_tail:
  assumes inv: "store_inv m V" and l: "V l = Some q" and mal: "alloc_ok mal"
  shows "post (optimsoc_list_add_tail mal l d m) (\<lambda>m'. store_inv m' (V(l \<mapsto> q_add d q)))"
proof -
  obtain b ds where q: "q = (b, ds)" by (cases q)
  from inv obtain N Q where rep: "store_rep m V N Q" by (auto simp: store_inv_def)
  from store_repD [OF rep l [unfolded q]]
  have lr: "lrep m l (Q l) (N l)" "ds = map snd (N l)" "b \<longrightarrow> Q l = 0" by auto
  show ?thesis
  proof (cases "mal (live m) = 0")
    case True
    then show ?thesis using add_tail_nomem [OF lr(1)] by simp
  next
    case False
    then have "entries m (mal (live m)) = None"
      using alloc_okD [OF mal, of "live m"] by (auto simp: live_def)
    with add_tail_lrep [OF lr(1) mal refl False, of d] lr q l show ?thesis
      by (auto intro!: store_step [OF rep, where ns' = "N l @ [(mal (live m), d)]" and ns = "N l", simplified])
  qed
qed

lemma store_remove_head:
  assumes inv: "store_inv m V" and l: "V l = Some q"
  shows "\<exists>m'. optimsoc_list_remove_head l m = ok (fst (q_pop q), m') \<and>
    store_inv m' (V(l \<mapsto> snd (q_pop q)))"
proof -
  obtain b ds where q: "q = (b, ds)" by (cases q)
  from inv obtain N Q where rep: "store_rep m V N Q" by (auto simp: store_inv_def)
  from store_repD [OF rep l [unfolded q]]
  have lr: "lrep m l (Q l) (N l)" "ds = map snd (N l)" by auto
  show ?thesis
  proof (cases "N l")
    case Nil
    with lr q l inv remove_head_empty [of m l "Q l"] show ?thesis by (simp add: map_upd_triv)
  next
    case (Cons n ns)
    obtain a x where n: "n = (a, x)" by (cases n)
    from remove_head_lrep [of m l "Q l" a x ns] lr Cons n obtain m' where
      m': "optimsoc_list_remove_head l m = ok (x, m')" "lrep m' l a ns" "touches m m' l {a}"
      by auto
    have "store_inv m' (V(l \<mapsto> (ns = [], map snd ns)))"
    proof (cases "ns = []")
      case True
      have "lrep m' l 0 ns" using m'(2) True by (auto simp: lrep_def)
      then show ?thesis
        using m'(3) l Cons n True by (intro store_step [OF rep, where ns = "N l"]) auto
    next
      case False
      then show ?thesis
        using m' l Cons n by (intro store_step [OF rep, where ns = "N l"]) auto
    qed
    with m'(1) lr q Cons n show ?thesis by simp
  qed
qed

lemma remove1_split:
  "d \<in> set ds \<Longrightarrow> ds = map snd ns \<Longrightarrow>
   \<exists>xs a ys. ns = xs @ (a, d) # ys \<and> d \<notin> snd ` set xs \<and>
     remove1 d ds = map snd (xs @ ys) \<and> (hd ds = d \<longleftrightarrow> xs = [])"
proof (induction ns arbitrary: ds)
  case (Cons n ns)
  show ?case
  proof (cases "snd n = d")
    case True
    with Cons.prems show ?thesis by (intro exI [of _ "[]"] exI [of _ "fst n"] exI [of _ ns]) auto
  next
    case False
    with Cons obtain xs a ys where "ns = xs @ (a, d) # ys" "d \<notin> snd ` set xs"
      "remove1 d (map snd ns) = map snd (xs @ ys)" by fastforce
    with False Cons.prems show ?thesis
      by (intro exI [of _ "n # xs"] exI [of _ a] exI [of _ ys]) auto
  qed
qed simp

lemma store_remove:
  assumes inv: "store_inv m V" and l: "V l = Some q" and okd: "q_rem_ok d q"
  shows "\<exists>m'. optimsoc_list_remove l d m = ok (fst (q_rem d q), m') \<and>
    store_inv m' (V(l \<mapsto> snd (q_rem d q)))"
proof -
  obtain b ds where q: "q = (b, ds)" by (cases q)
  from inv obtain N Q where rep: "store_rep m V N Q" by (auto simp: store_inv_def)
  from store_repD [OF rep l [unfolded q]]
  have lr: "lrep m l (Q l) (N l)" "ds = map snd (N l)" "b \<longrightarrow> Q l = 0" by auto
  show ?thesis
  proof (cases "d \<in> set ds")
    case False
    with lr q l inv remove_absent [OF lr(1), of d] show ?thesis by (simp add: map_upd_triv)
  next
    case True
    from remove1_split [OF True lr(2)] obtain xs a ys where
      ns: "N l = xs @ (a, d) # ys" "d \<notin> snd ` set xs" "remove1 d ds = map snd (xs @ ys)"
        "hd ds = d \<longleftrightarrow> xs = []" by blast
    have "Q l = 0" if "xs = []" "ys \<noteq> []"
      using that okd lr ns by (cases ys) (auto simp: q)
    with remove_lrep [of m l "Q l" xs a d ys] lr(1) ns obtain m' where
      m': "optimsoc_list_remove l d m = ok (1, m')"
        "lrep m' l (if xs = [] then 0 else Q l) (xs @ ys)" "touches m m' l (fst ` set (N l))"
      by auto
    have "store_inv m' (V(l \<mapsto> (b \<or> hd ds = d, map snd (xs @ ys))))"
      using m'(2,3) ns l lr(3)
      by (intro store_step [OF rep, where ns = "N l" and q' = "if xs = [] then 0 else Q l"]) auto
    with m'(1) q True ns show ?thesis by simp
  qed
qed

lemma store_init:
  assumes inv: "store_inv m V" and mal: "alloc_ok mal"
  shows "post (optimsoc_list_init mal d m) (\<lambda>(l, m'). l \<noteq> 0 \<and> V l = None \<and>
    store_inv m' (V(l \<mapsto> (True, if d = 0 then [] else [d]))))"
proof -
  let ?l = "mal (live m)" and ?m = "set_list (mal (live m)) \<lparr>l_head = 0, l_tail = 0\<rparr> m"
  from inv obtain N Q where rep: "store_rep m V N Q" by (auto simp: store_inv_def)
  have new: "V l = None" if "lists m l = None" for l
  proof (rule ccontr)
    assume "V l \<noteq> None"
    then obtain b ds where "V l = Some (b, ds)" by auto
    from store_repD [OF rep this] that show False by (auto simp: lrep_def)
  qed
  show ?thesis
  proof (cases "?l = 0 \<or> d \<noteq> 0 \<and> mal (live ?m) = 0")
    case True
    then show ?thesis by (auto simp: optimsoc_list_init_def Let_def)
  next
    case False
    show ?thesis
    proof (cases "d = 0")
      case True
      with False init_lrep [OF mal, of m] obtain m' where
        m': "optimsoc_list_init mal 0 m = ok (?l, m')" "lists m ?l = None"
          "lrep m' ?l 0 []" "touches m m' ?l {}" by auto
      with new have "store_inv m' (V(?l \<mapsto> (True, map snd ([] :: (ptr \<times> ptr) list))))"
        by (intro store_step [OF rep, where ns = "[]" and ns' = "[]" and A = "{}" and q' = 0]) auto
      with m' new False True show ?thesis by simp
    next
      case d: False
      with False init_with_lrep [OF mal refl, of m d "mal (live ?m)"] obtain m' where
        m': "optimsoc_list_init mal d m = ok (?l, m')" "lists m ?l = None"
          "lrep m' ?l 0 [(mal (live ?m), d)]" "touches m m' ?l {mal (live ?m)}"
          "entries m (mal (live ?m)) = None" by auto
      with new have "store_inv m' (V(?l \<mapsto> (True, map snd [(mal (live ?m), d)])))"
        by (intro store_step [OF rep, where ns = "[]" and q' = 0
              and A = "{mal (live (set_list (mal (live m)) \<lparr>l_head = 0, l_tail = 0\<rparr> m))}"]) auto
      with m' new False d show ?thesis by simp
    qed
  qed
qed

interpretation ls: list_store store_inv optimsoc_list_init optimsoc_list_add_tail
    optimsoc_list_remove_head optimsoc_list_remove
  by unfold_locales (rule store_init store_add_tail store_remove_head store_remove; assumption)+

end
