(* ===== verification/List_Props.thy ===== *)
theory List_Props
  imports List_Store
begin

section \<open>Properties of the list library\<close>

text \<open>
  The properties of \<open>libruntime/list.c\<close> as its clients see them: queue order, removal by
  value, traversal, the copy from another tile, and what the links that the two end removals
  leave behind do to later calls.
\<close>

subsection \<open>A concrete heap\<close>

text \<open>The list 1 holds the data 100, 200, 300 and 400, the list 2 nothing.\<close>

definition demo_heap :: lmem where
  "demo_heap = \<lparr>
     entries = [10 \<mapsto> \<lparr>e_data = 100, e_prev = 0, e_next = 11\<rparr>,
                11 \<mapsto> \<lparr>e_data = 200, e_prev = 10, e_next = 12\<rparr>,
                12 \<mapsto> \<lparr>e_data = 300, e_prev = 11, e_next = 13\<rparr>,
                13 \<mapsto> \<lparr>e_data = 400, e_prev = 12, e_next = 0\<rparr>],
     lists = [1 \<mapsto> \<lparr>l_head = 10, l_tail = 13\<rparr>, 2 \<mapsto> \<lparr>l_head = 0, l_tail = 0\<rparr>]\<rparr>"

definition demo_heap_view :: view where
  "demo_heap_view = [1 \<mapsto> (True, [100, 200, 300, 400]), 2 \<mapsto> (True, [])]"

lemma demo_heap_lrep:
  "lrep demo_heap 1 0 [(10, 100), (11, 200), (12, 300), (13, 400)]" "lrep demo_heap 2 0 []"
  by (simp_all add: lrep_def demo_heap_def)

lemma demo_heap_inv: "store_inv demo_heap demo_heap_view"
proof -
  let ?N = "\<lambda>l::ptr. if l = 1 then [(10, 100), (11, 200), (12, 300), (13, 400)] else ([] :: (ptr \<times> ptr) list)"
  have "store_rep demo_heap demo_heap_view ?N (\<lambda>_. 0)"
    using demo_heap_lrep by (auto simp: store_rep_def demo_heap_view_def split: if_splits)
  then show ?thesis by (auto simp: store_inv_def)
qed

subsection \<open>Queue behaviour\<close>

text \<open>
  C15: first in, first out. Appending an element and taking one from the head yields the
  oldest element, or the new one if the list was empty, and leaves the rest in order with
  the new element last; no other list changes.
\<close>

theorem list_fifo:
  assumes "store_inv m V" and "V l = Some (b, ds)" and "alloc_ok mal"
  shows "post (bnd (optimsoc_list_add_tail mal l d m) (optimsoc_list_remove_head l)) (\<lambda>(x, m').
    x = hd (ds @ [d]) \<and> store_inv m' (V(l \<mapsto> (ds = [] \<or> tl (ds @ [d]) = [], tl (ds @ [d])))))"
proof (rule post_bndI [OF ls.add_tail_law [OF assms]])
  fix m1 assume m1: "store_inv m1 (V(l \<mapsto> q_add d (b, ds)))"
  show "post (optimsoc_list_remove_head l m1) (\<lambda>(x, m'). x = hd (ds @ [d]) \<and>
      store_inv m' (V(l \<mapsto> (ds = [] \<or> tl (ds @ [d]) = [], tl (ds @ [d])))))"
  proof (rule ls.remove_head_post [OF m1])
    show "(V(l \<mapsto> q_add d (b, ds))) l = Some (b \<or> ds = [], ds @ [d])" by simp
    fix m' assume "store_inv m' (V(l \<mapsto> q_add d (b, ds), l \<mapsto> snd (q_pop (b \<or> ds = [], ds @ [d]))))"
    then show "case (fst (q_pop (b \<or> ds = [], ds @ [d])), m') of (x, m') \<Rightarrow> x = hd (ds @ [d]) \<and>
      store_inv m' (V(l \<mapsto> (ds = [] \<or> tl (ds @ [d]) = [], tl (ds @ [d]))))"
      by (cases ds) simp_all
  qed
qed

theorem list_fifo_witness:
  "post (bnd (optimsoc_list_add_tail (first_fit 100) 1 500 demo_heap) (optimsoc_list_remove_head 1))
     (\<lambda>(x, m'). x = 100 \<and> store_inv m' (demo_heap_view(1 \<mapsto> (False, [200, 300, 400, 500]))))"
proof -
  have "demo_heap_view 1 = Some (True, [100, 200, 300, 400])" by (simp add: demo_heap_view_def)
  from list_fifo [OF demo_heap_inv this alloc_ok_first_fit, of 100 500] show ?thesis by simp
qed

text \<open>
  C16: removal by value takes out the first element with that value and says whether there
  was one; the rest keeps its order and no other list changes. It holds for every list but
  one whose head is the value and has a stale link.
\<close>

theorem list_remove_value:
  assumes "store_inv m V" and "V l = Some (b, ds)" and "b \<or> length ds \<le> 1 \<or> hd ds \<noteq> d"
  shows "\<exists>m'. optimsoc_list_remove l d m = ok (if d \<in> set ds then 1 else 0, m') \<and>
    store_inv m' (V(l \<mapsto> (b \<or> d \<in> set ds \<and> hd ds = d, remove1 d ds)))"
  using ls.remove_law [OF assms(1,2), of d] assms(3) by (auto simp: remove1_idem split: if_splits)

theorem list_remove_value_witness:
  "\<exists>m'. optimsoc_list_remove 1 300 demo_heap = ok (1, m') \<and>
     store_inv m' (demo_heap_view(1 \<mapsto> (True, [100, 200, 400])))"
proof -
  have "demo_heap_view 1 = Some (True, [100, 200, 300, 400])" by (simp add: demo_heap_view_def)
  from list_remove_value [OF demo_heap_inv this, of 300] show ?thesis by simp
qed

text \<open>
  Traversal. On every represented list the search, the length and the iterator return;
  the search finds exactly the elements of the list, the length is its number of elements
  modulo the word size, and the iterator yields its first element.
\<close>

theorem list_traversal:
  assumes "lrep m l q ns"
  shows "optimsoc_list_contains l d m = ok (if d \<in> snd ` set ns then 1 else 0) \<and>
    optimsoc_list_length l m = ok (word_of_nat (length ns)) \<and>
    optimsoc_list_first_element l m = ok (case ns of [] \<Rightarrow> (0, 0) | n # _ \<Rightarrow> (snd n, fst n))"
proof -
  from assms obtain p where p: "get_list l m = ok \<lparr>l_head = p, l_tail = last_addr 0 ns\<rparr>"
    "dseg (entries m) q p ns 0"
    by (auto simp: lrep_def get_list_def)
  then show ?thesis
    using contains_loop_lrep [OF p(2)] length_loop_lrep [OF p(2), of 0] first_element_lrep [OF assms]
    by (simp add: optimsoc_list_contains_def optimsoc_list_length_def)
qed

theorem list_traversal_witness:
  "optimsoc_list_contains 1 300 demo_heap = ok 1 \<and> optimsoc_list_length 1 demo_heap = ok 4"
  using list_traversal [OF demo_heap_lrep(1), of 300] by simp

subsection \<open>The copy of a remote list\<close>

lemma dma_copy_loop_lrep:
  assumes "dseg (entries r) q p ns 0" and "lrep m l 0 ms" and "alloc_ok mal"
  shows "post (list_dma_copy_loop mal alloc_data r l p 0 cs m) (\<lambda>(cs', m').
    cs' = cs \<and> (\<exists>ms'. lrep m' l 0 ms' \<and> map snd ms' = map snd ms @ map snd ns))"
  using assms
proof (induction ns arbitrary: q p m ms)
  case Nil
  then show ?case by (subst list_dma_copy_loop.simps) auto
next
  case (Cons n ns)
  then obtain e where e: "p \<noteq> 0" "entries r p = Some e" "e_data e = snd n"
    "dseg (entries r) p (e_next e) ns 0"
    by (auto simp: dseg_Cons simp del: dseg.simps(2))
  have run: "list_dma_copy_loop mal alloc_data r l p 0 cs m =
    bnd (optimsoc_list_add_tail mal l (snd n) m) (list_dma_copy_loop mal alloc_data r l (e_next e) 0 cs)"
    using e by (subst list_dma_copy_loop.simps) (simp add: get_entry_def)
  show ?case
  proof (cases "mal (live m) = 0")
    case True
    with add_tail_nomem [OF Cons.prems(2)] run show ?thesis by simp
  next
    case False
    from add_tail_lrep [OF Cons.prems(2,3) refl False, of "snd n"] obtain m1 where
      m1: "optimsoc_list_add_tail mal l (snd n) m = ok m1" "lrep m1 l 0 (ms @ [(mal (live m), snd n)])"
      by (auto split: if_splits)
    from Cons.IH [OF e(4) m1(2) Cons.prems(3)] show ?thesis
      unfolding run m1(1) bnd_simps by (rule post_mono) auto
  qed
qed

text \<open>
  C29: the copy of a list of another tile whose elements are plain words is a new list with
  the same elements in the same order, or there was no memory for it.
\<close>

theorem list_dma_copy_same:
  assumes "lrep r rl q ns" and "alloc_ok mal"
  shows "post (optimsoc_list_dma_copy mal alloc_data r rl 0 m) (\<lambda>(l, cs, m').
    lists m l = None \<and> cs = [] \<and> (\<exists>ms. lrep m' l 0 ms \<and> map snd ms = map snd ns))"
proof (cases "mal (live m) = 0")
  case True
  then show ?thesis by (simp add: optimsoc_list_dma_copy_def optimsoc_list_init_def)
next
  case False
  let ?l = "mal (live m)"
  from init_lrep [OF assms(2) False] obtain m1 where
    m1: "optimsoc_list_init mal 0 m = ok (?l, m1)" "lists m ?l = None" "lrep m1 ?l 0 []" by blast
  from assms(1) obtain p where p: "get_list rl r = ok \<lparr>l_head = p, l_tail = last_addr 0 ns\<rparr>"
    "dseg (entries r) q p ns 0"
    by (auto simp: lrep_def get_list_def)
  from dma_copy_loop_lrep [OF p(2) m1(3) assms(2), of alloc_data "[]"] show ?thesis
    unfolding optimsoc_list_dma_copy_def m1(1) p(1) bnd_simps prod.case post_bnd llist.simps
    by (rule post_mono) (use m1(2) in auto)
qed

theorem list_dma_copy_same_witness:
  "post (optimsoc_list_dma_copy (first_fit 100) (\<lambda>_. 0) demo_heap 1 0 empty_lmem) (\<lambda>(l, cs, m').
     \<exists>ms. lrep m' l 0 ms \<and> map snd ms = [100, 200, 300, 400])"
  by (rule post_mono [OF list_dma_copy_same [OF demo_heap_lrep(1) alloc_ok_first_fit]]) auto

subsection \<open>The stale links\<close>

text \<open>
  C30: \<open>optimsoc_list_remove_head\<close> leaves the back link of the new head pointing at the
  entry it freed. Removing the new head by value from a list with at least three elements
  then writes through that link.
\<close>

theorem remove_head_then_remove:
  assumes "lrep m l q ((a, d) # (b, x) # n # ns)"
  shows "bnd (optimsoc_list_remove_head l m) (\<lambda>(_, m'). optimsoc_list_remove l x m') =
    flt UseAfterFree"
  by (rule stale_head_remove [OF assms])

theorem remove_head_then_remove_witness:
  "bnd (optimsoc_list_remove_head 1 demo_heap) (\<lambda>(_, m'). optimsoc_list_remove 1 200 m') =
    flt UseAfterFree"
  by (rule remove_head_then_remove [OF demo_heap_lrep(1)])

text \<open>
  \<open>optimsoc_list_remove_tail\<close> leaves the forward link of the new tail pointing at the
  entry it freed. A search for an absent element then runs into that entry.
\<close>

theorem remove_tail_then_search:
  assumes "lrep m l q (ns @ [n, (a, d)])" and "x \<notin> snd ` set (ns @ [n])"
  shows "bnd (optimsoc_list_remove_tail l m) (\<lambda>(_, m'). optimsoc_list_contains l x m') =
    flt UseAfterFree"
  by (rule stale_tail_contains [OF assms])

theorem remove_tail_then_search_witness:
  "bnd (optimsoc_list_remove_tail 1 demo_heap) (\<lambda>(_, m'). optimsoc_list_contains 1 5 m') =
    flt UseAfterFree"
  by (rule remove_tail_then_search [of demo_heap 1 0 "[(10, 100), (11, 200)]" "(12, 300)" 13 400 5])
    (use demo_heap_lrep(1) in simp_all)

end
