(* ===== verification/Threads.thy ===== *)
theory Threads
  imports List_Store
begin

section \<open>Threads, contexts and the scheduler (libruntime/thread.c, scheduler.c, context.c)\<close>

text \<open>
  The state of the runtime kernel and its operations. The three queues and the join lists
  live in the heap of \<open>Linked_List\<close>, the thread control blocks in a map from addresses.
  A core \<open>c\<close> (the answer of \<open>or1k_coreid\<close>) has an idle thread, an active thread, the
  registers of its processor and the exception frame that the exception return of the
  support library loads them from.
\<close>

subsection \<open>State\<close>

record ctx =
  c_regs :: "u32 list"
  c_pc :: u32
  c_sr :: u32

datatype thread_state = THREAD_RUNNABLE | THREAD_SUSPENDED | THREAD_TERMINATED

record thread_cb =
  t_id :: u32
  t_ctx :: ctx
  t_stack :: ptr
  t_flags :: u32
  t_page_dir :: ptr
  t_state :: thread_state
  t_exit_code :: u32
  t_joinlist :: ptr
  t_name :: string
  t_extra_data :: ptr

record thread_attr =
  at_args :: ptr
  at_flags :: u32
  at_force_id :: u32
  at_identifier :: "string option"
  at_extra_data :: ptr

record core =
  idle_thread :: ptr
  active_thread :: ptr

record rt_timer =
  tm_ticks :: u32
  tm_goal :: u32
  tm_thread :: ptr

record kstate =
  k_lists :: lmem
  k_threads :: "ptr \<Rightarrow> thread_cb option"
  k_all :: ptr
  k_ready :: ptr
  k_wait :: ptr
  k_init :: ptr
  k_cores :: "core list"
  k_next_id :: u32
  k_cpu :: "ctx list"
  k_frame :: "ctx list"
  k_timers :: ptr
  k_timer_objs :: "ptr \<Rightarrow> rt_timer option"
  k_ticks :: u32
  k_globalids :: u32

abbreviation OPTIMSOC_THREAD_FLAG_FORCEID :: u32 where
  "OPTIMSOC_THREAD_FLAG_FORCEID \<equiv> 0x40000000"

abbreviation OPTIMSOC_THREAD_FLAG_KERNEL :: u32 where
  "OPTIMSOC_THREAD_FLAG_KERNEL \<equiv> 0x20000000"

abbreviation OPTIMSOC_THREAD_FLAG_CREATE_SUSPENDED :: u32 where
  "OPTIMSOC_THREAD_FLAG_CREATE_SUSPENDED \<equiv> 0x10000000"

text \<open>
  What the kernel gets from its surroundings: the answers of \<open>malloc\<close> for list cells,
  control blocks, stacks and contexts, the contents of fresh control blocks and attributes,
  and the addresses of the functions whose address is stored.
\<close>

record osenv =
  o_mal :: allocator
  o_tcb_mal :: allocator
  o_stack_mal :: ptr
  o_ctx_mal :: ptr
  o_tcb_junk :: thread_cb
  o_attr_junk :: thread_attr
  o_kthread_handle :: u32
  o_wakeup :: u32

subsection \<open>Accesses\<close>

definition get_thread :: "ptr \<Rightarrow> kstate \<Rightarrow> thread_cb exec" where
  "get_thread t s =
     (if t = 0 then flt NullDeref
      else case k_threads s t of None \<Rightarrow> flt UseAfterFree | Some cb \<Rightarrow> ok cb)"

definition put_thread :: "ptr \<Rightarrow> thread_cb \<Rightarrow> kstate \<Rightarrow> kstate" where
  "put_thread t cb s = s\<lparr>k_threads := (k_threads s)(t \<mapsto> cb)\<rparr>"

definition upd_thread :: "ptr \<Rightarrow> (thread_cb \<Rightarrow> thread_cb) \<Rightarrow> kstate \<Rightarrow> kstate exec" where
  "upd_thread t f s = bnd (get_thread t s) (\<lambda>cb. ok (put_thread t (f cb) s))"

definition get_core :: "nat \<Rightarrow> kstate \<Rightarrow> core exec" where
  "get_core c s = (if c < length (k_cores s) then ok (k_cores s ! c) else flt OutOfBounds)"

definition set_core :: "nat \<Rightarrow> core \<Rightarrow> kstate \<Rightarrow> kstate" where
  "set_core c cr s = s\<lparr>k_cores := (k_cores s)[c := cr]\<rparr>"

text \<open>The list operations on the heap inside the kernel state.\<close>

definition k_add_tail :: "osenv \<Rightarrow> ptr \<Rightarrow> ptr \<Rightarrow> kstate \<Rightarrow> kstate exec" where
  "k_add_tail env l d s =
     bnd (optimsoc_list_add_tail (o_mal env) l d (k_lists s)) (\<lambda>m. ok (s\<lparr>k_lists := m\<rparr>))"

definition k_remove :: "ptr \<Rightarrow> ptr \<Rightarrow> kstate \<Rightarrow> (int \<times> kstate) exec" where
  "k_remove l d s =
     bnd (optimsoc_list_remove l d (k_lists s)) (\<lambda>(r, m). ok (r, s\<lparr>k_lists := m\<rparr>))"

definition k_remove_head :: "ptr \<Rightarrow> kstate \<Rightarrow> (ptr \<times> kstate) exec" where
  "k_remove_head l s =
     bnd (optimsoc_list_remove_head l (k_lists s)) (\<lambda>(d, m). ok (d, s\<lparr>k_lists := m\<rparr>))"

definition k_list_init :: "osenv \<Rightarrow> ptr \<Rightarrow> kstate \<Rightarrow> (ptr \<times> kstate) exec" where
  "k_list_init env d s =
     bnd (optimsoc_list_init (o_mal env) d (k_lists s)) (\<lambda>(l, m). ok (l, s\<lparr>k_lists := m\<rparr>))"

subsection \<open>Configuration (config.c)\<close>

definition runtime_config_set_use_globalids :: "u32 \<Rightarrow> kstate \<Rightarrow> kstate" where
  "runtime_config_set_use_globalids v s = s\<lparr>k_globalids := v\<rparr>"

definition runtime_config_get_use_globalids :: "kstate \<Rightarrow> u32" where
  "runtime_config_get_use_globalids s = k_globalids s"

definition runtime_config_set_numticks :: "u32 \<Rightarrow> kstate \<Rightarrow> kstate" where
  "runtime_config_set_numticks v s = s\<lparr>k_ticks := v\<rparr>"

definition runtime_config_get_numticks :: "kstate \<Rightarrow> u32" where
  "runtime_config_get_numticks s = k_ticks s"

subsection \<open>Contexts (context.c, context-asm.S)\<close>

definition optimsoc_context_copy :: "ctx \<Rightarrow> ctx" where
  "optimsoc_context_copy from_ctx = from_ctx"

definition optimsoc_context_restore :: "nat \<Rightarrow> ctx \<Rightarrow> kstate \<Rightarrow> kstate exec" where
  "optimsoc_context_restore c x s =
     (if c < length (k_frame s) then ok (s\<lparr>k_frame := (k_frame s)[c := optimsoc_context_copy x]\<rparr>)
      else flt OutOfBounds)"

definition optimsoc_context_save :: "nat \<Rightarrow> ptr \<Rightarrow> kstate \<Rightarrow> kstate exec" where
  "optimsoc_context_save c t s =
     (if c < length (k_frame s)
      then upd_thread t (\<lambda>cb. cb\<lparr>t_ctx := optimsoc_context_copy (k_frame s ! c)\<rparr>) s
      else flt OutOfBounds)"

text \<open>
  \<open>_optimsoc_context_enter_exception\<close> stores the registers of the core in the context of
  the thread, with zero as the later return value and the address of the instruction that
  returns as program counter, and returns one on the exception stack. Register zero is not
  stored.
\<close>

definition optimsoc_context_enter_exception :: "osenv \<Rightarrow> nat \<Rightarrow> ptr \<Rightarrow> kstate \<Rightarrow> kstate exec" where
  "optimsoc_context_enter_exception env c t s =
     (if c < length (k_cpu s)
      then let x = k_cpu s ! c in
        upd_thread t (\<lambda>cb. cb\<lparr>t_ctx := \<lparr>
          c_regs = take 1 (c_regs (t_ctx cb)) @ drop 1 ((c_regs x)[11 := 0]),
          c_pc = o_wakeup env, c_sr = c_sr x\<rparr>\<rparr>) s
      else flt OutOfBounds)"

text \<open>\<open>_optimsoc_context_replace\<close> loads the registers of the core and jumps.\<close>

definition optimsoc_context_replace :: "nat \<Rightarrow> ctx \<Rightarrow> kstate \<Rightarrow> kstate exec" where
  "optimsoc_context_replace c x s =
     (if c < length (k_cpu s)
      then ok (s\<lparr>k_cpu := (k_cpu s)[c := x\<lparr>c_regs := 0 # drop 1 (c_regs x)\<rparr>]\<rparr>)
      else flt OutOfBounds)"

subsection \<open>The scheduler (scheduler.c)\<close>

definition optimsoc_scheduler_get_current :: "nat \<Rightarrow> kstate \<Rightarrow> ptr exec" where
  "optimsoc_scheduler_get_current c s =
     bnd (get_core c s) (\<lambda>cr.
       bnd (assert_c (active_thread cr \<noteq> 0)) (\<lambda>_. ok (active_thread cr)))"

definition optimsoc_scheduler_add :: "osenv \<Rightarrow> ptr \<Rightarrow> ptr \<Rightarrow> kstate \<Rightarrow> kstate exec" where
  "optimsoc_scheduler_add env t q s =
     bnd (if q = k_ready s then upd_thread t (\<lambda>cb. cb\<lparr>t_state := THREAD_RUNNABLE\<rparr>) s else ok s)
       (\<lambda>s1. k_add_tail env q t s1)"

definition optimsoc_schedule :: "nat \<Rightarrow> kstate \<Rightarrow> kstate exec" where
  "optimsoc_schedule c s =
     bnd (k_remove_head (k_ready s) s) (\<lambda>(t, s1).
       bnd (get_core c s1) (\<lambda>cr.
         let t' = (if t = 0 then idle_thread cr else t) in
         bnd (assert_c (t' \<noteq> 0)) (\<lambda>_.
           let s2 = set_core c (cr\<lparr>active_thread := t'\<rparr>) s1 in
           bnd (get_thread t' s2) (\<lambda>cb. optimsoc_context_restore c (t_ctx cb) s2))))"

text \<open>The end of the self-directed operations: schedule, then leave for the new thread.\<close>

definition schedule_replace :: "nat \<Rightarrow> kstate \<Rightarrow> kstate exec" where
  "schedule_replace c s =
     bnd (optimsoc_schedule c s) (\<lambda>s1.
       bnd (optimsoc_scheduler_get_current c s1) (\<lambda>t.
         bnd (get_thread t s1) (\<lambda>cb. optimsoc_context_replace c (t_ctx cb) s1)))"

subsection \<open>Threads (thread.c)\<close>

definition optimsoc_thread_attr_init :: "thread_attr option \<Rightarrow> thread_attr exec" where
  "optimsoc_thread_attr_init attr =
     (case attr of None \<Rightarrow> flt AssertFail
      | Some a \<Rightarrow> ok (a\<lparr>at_args := 0, at_flags := 0, at_force_id := 0, at_identifier := None\<rparr>))"

definition optimsoc_thread_set_pagedir :: "ptr \<Rightarrow> ptr \<Rightarrow> kstate \<Rightarrow> kstate exec" where
  "optimsoc_thread_set_pagedir t dir s =
     bnd (assert_c (t \<noteq> 0)) (\<lambda>_. upd_thread t (\<lambda>cb. cb\<lparr>t_page_dir := dir\<rparr>) s)"

definition optimsoc_thread_get_pagedir :: "ptr \<Rightarrow> kstate \<Rightarrow> ptr exec" where
  "optimsoc_thread_get_pagedir t s =
     bnd (assert_c (t \<noteq> 0)) (\<lambda>_. bnd (get_thread t s) (\<lambda>cb. ok (t_page_dir cb)))"

definition optimsoc_thread_get_pagedir_current :: "nat \<Rightarrow> kstate \<Rightarrow> ptr exec" where
  "optimsoc_thread_get_pagedir_current c s =
     bnd (optimsoc_scheduler_get_current c s) (\<lambda>t.
       bnd (assert_c (t \<noteq> 0)) (\<lambda>_. optimsoc_thread_get_pagedir t s))"

definition optimsoc_thread_set_extra_data :: "ptr \<Rightarrow> ptr \<Rightarrow> kstate \<Rightarrow> kstate exec" where
  "optimsoc_thread_set_extra_data t d s = upd_thread t (\<lambda>cb. cb\<lparr>t_extra_data := d\<rparr>) s"

definition optimsoc_thread_get_extra_data :: "ptr \<Rightarrow> kstate \<Rightarrow> ptr exec" where
  "optimsoc_thread_get_extra_data t s = bnd (get_thread t s) (\<lambda>cb. ok (t_extra_data cb))"

definition optimsoc_thread_current :: "nat \<Rightarrow> kstate \<Rightarrow> ptr exec" where
  "optimsoc_thread_current c s =
     bnd (optimsoc_scheduler_get_current c s) (\<lambda>t. bnd (assert_c (t \<noteq> 0)) (\<lambda>_. ok t))"

text \<open>
  The initial context. \<open>thread->ctx\<close> is zeroed memory; a kernel thread starts in
  \<open>_optimsoc_kthread_handle\<close> on its own stack, a user thread in its start routine.
\<close>

definition zero_ctx :: ctx where
  "zero_ctx = \<lparr>c_regs = replicate 32 0, c_pc = 0, c_sr = 0\<rparr>"

definition optimsoc_context_create ::
    "osenv \<Rightarrow> thread_cb \<Rightarrow> u32 \<Rightarrow> ptr \<Rightarrow> thread_cb exec" where
  "optimsoc_context_create env cb start arg =
     (if o_ctx_mal env = 0 then flt NoMem
      else if t_flags cb AND OPTIMSOC_THREAD_FLAG_KERNEL \<noteq> 0 then
        (if o_stack_mal env = 0 then flt NoMem
         else ok (cb\<lparr>t_stack := o_stack_mal env,
           t_ctx := \<lparr>c_regs = (c_regs zero_ctx)[1 := o_stack_mal env + 4092, 3 := start, 4 := arg],
                     c_pc = o_kthread_handle env, c_sr = 0x8017\<rparr>\<rparr>))
      else ok (cb\<lparr>t_stack := 0,
           t_ctx := \<lparr>c_regs = (c_regs zero_ctx)[1 := 0xfffffffc, 3 := arg],
                     c_pc = start, c_sr = 0x8077\<rparr>\<rparr>))"

text \<open>Drawing the next thread identifier, with the interference of the other contexts.\<close>

definition thread_draw_id :: "(kstate \<Rightarrow> kstate) list \<Rightarrow> kstate \<Rightarrow> u32 \<times> kstate" where
  "thread_draw_id fs s = cas_loop k_next_id (\<lambda>v s. s\<lparr>k_next_id := v\<rparr>) (\<lambda>i. i + 1) fs s"

text \<open>
  The name: with an identifier, the text \<open>thread <id>\<close>; without one,
  \<open>strndup(NULL, 64)\<close>.
\<close>

definition thread_name :: "string option \<Rightarrow> u32 \<Rightarrow> string exec" where
  "thread_name ident i =
     (case ident of Some _ \<Rightarrow> ok (take 63 (''thread '' @ dec_of (unat i)))
      | None \<Rightarrow> flt NullDeref)"

definition optimsoc_thread_create ::
    "osenv \<Rightarrow> (kstate \<Rightarrow> kstate) list \<Rightarrow> u32 \<Rightarrow> thread_attr option \<Rightarrow> kstate \<Rightarrow> (ptr \<times> kstate) exec" where
  "optimsoc_thread_create env fs start attr s =
     bnd (case attr of None \<Rightarrow> optimsoc_thread_attr_init (Some (o_attr_junk env)) | Some a \<Rightarrow> ok a) (\<lambda>a.
       let t = o_tcb_mal env (\<lambda>p. k_threads s p \<noteq> None) in
       if t = 0 then flt NoMem
       else
         bnd (optimsoc_context_create env ((o_tcb_junk env)\<lparr>t_flags := at_flags a\<rparr>) start (at_args a)) (\<lambda>cb.
           let (i, s1) = (if at_flags a AND OPTIMSOC_THREAD_FLAG_FORCEID \<noteq> 0
                          then (at_force_id a, s) else thread_draw_id fs s) in
           bnd (thread_name (at_identifier a) i) (\<lambda>name.
             bnd (k_list_init env 0 s1) (\<lambda>(jl, s2).
               let s3 = put_thread t (cb\<lparr>t_id := i, t_name := name, t_joinlist := jl\<rparr>) s2;
                   susp = at_flags a AND OPTIMSOC_THREAD_FLAG_CREATE_SUSPENDED \<noteq> 0 in
               bnd (optimsoc_scheduler_add env t (if susp then k_wait s3 else k_ready s3) s3) (\<lambda>s4.
                 bnd (upd_thread t (\<lambda>cb. cb\<lparr>t_state :=
                        if susp then THREAD_SUSPENDED else THREAD_RUNNABLE\<rparr>) s4) (\<lambda>s5.
                   bnd (k_add_tail env (k_all s5) t s5) (\<lambda>s6. ok (t, s6))))))))"

definition optimsoc_thread_yield :: "osenv \<Rightarrow> nat \<Rightarrow> ptr \<Rightarrow> kstate \<Rightarrow> kstate exec" where
  "optimsoc_thread_yield env c t s =
     bnd (optimsoc_thread_current c s) (\<lambda>cur.
       bnd (k_remove (k_ready s) t s) (\<lambda>(_, s1).
         bnd (k_add_tail env (k_ready s1) t s1) (\<lambda>s2.
           if t = cur then
             bnd (get_thread t s2) (\<lambda>cb.
               if t_flags cb AND OPTIMSOC_THREAD_FLAG_KERNEL \<noteq> 0 then
                 bnd (optimsoc_scheduler_get_current c s2) (\<lambda>t'.
                   bnd (optimsoc_context_enter_exception env c t' s2) (schedule_replace c))
               else flt AssertFail)
           else ok s2)))"

partial_function (option) drain_joinlist :: "ptr \<Rightarrow> kstate \<Rightarrow> (fault + kstate) option" where
  "drain_joinlist l s =
     bnd (k_remove_head l s) (\<lambda>(t, s1). if t \<noteq> 0 then drain_joinlist l s1 else ok s1)"

definition optimsoc_thread_exit :: "nat \<Rightarrow> kstate \<Rightarrow> kstate exec" where
  "optimsoc_thread_exit c s =
     bnd (optimsoc_thread_current c s) (\<lambda>t.
       bnd (assert_c (t \<noteq> 0)) (\<lambda>_.
         bnd (get_thread t s) (\<lambda>cb.
           bnd (drain_joinlist (t_joinlist cb) s) (\<lambda>s1.
             bnd (k_remove (k_all s1) t s1) (\<lambda>(_, s2). optimsoc_schedule c s2)))))"

text \<open>What a kernel thread does when its function has returned.\<close>

definition optimsoc_kthread_return :: "osenv \<Rightarrow> nat \<Rightarrow> kstate \<Rightarrow> kstate exec" where
  "optimsoc_kthread_return env c s =
     bnd (optimsoc_scheduler_get_current c s) (\<lambda>t.
       bnd (optimsoc_context_enter_exception env c t s) (\<lambda>s1.
         bnd (optimsoc_thread_exit c s1) (\<lambda>s2.
           bnd (optimsoc_scheduler_get_current c s2) (\<lambda>t'.
             bnd (get_thread t' s2) (\<lambda>cb. optimsoc_context_replace c (t_ctx cb) s2)))))"

definition optimsoc_thread_suspend :: "osenv \<Rightarrow> nat \<Rightarrow> ptr \<Rightarrow> kstate \<Rightarrow> kstate exec" where
  "optimsoc_thread_suspend env c t s =
     bnd (get_thread t s) (\<lambda>cb.
       bnd (assert_c (t_state cb = THREAD_RUNNABLE)) (\<lambda>_.
         bnd (optimsoc_thread_current c s) (\<lambda>cur.
           if t = cur then
             bnd (assert_c (t_flags cb AND OPTIMSOC_THREAD_FLAG_KERNEL \<noteq> 0)) (\<lambda>_.
               bnd (optimsoc_context_enter_exception env c cur s) (\<lambda>s1.
                 bnd (k_add_tail env (k_wait s1) t s1) (\<lambda>s2.
                   bnd (upd_thread t (\<lambda>cb. cb\<lparr>t_state := THREAD_SUSPENDED\<rparr>) s2)
                     (schedule_replace c))))
           else
             bnd (k_remove (k_ready s) t s) (\<lambda>(r, s1).
               bnd (assert_c (r \<noteq> 0)) (\<lambda>_.
                 bnd (k_add_tail env (k_wait s1) t s1) (\<lambda>s2.
                   upd_thread t (\<lambda>cb. cb\<lparr>t_state := THREAD_SUSPENDED\<rparr>) s2))))))"

definition optimsoc_thread_resume :: "osenv \<Rightarrow> ptr \<Rightarrow> kstate \<Rightarrow> kstate exec" where
  "optimsoc_thread_resume env t s =
     bnd (get_thread t s) (\<lambda>cb.
       bnd (assert_c (t_state cb = THREAD_SUSPENDED)) (\<lambda>_.
         bnd (k_remove (k_wait s) t s) (\<lambda>(r, s1).
           bnd (assert_c (r \<noteq> 0)) (\<lambda>_.
             bnd (k_add_tail env (k_ready s1) t s1) (\<lambda>s2.
               upd_thread t (\<lambda>cb. cb\<lparr>t_state := THREAD_RUNNABLE\<rparr>) s2)))))"

definition optimsoc_thread_remove :: "ptr \<Rightarrow> kstate \<Rightarrow> kstate exec" where
  "optimsoc_thread_remove t s =
     bnd (k_remove (k_ready s) t s) (\<lambda>(r, s1).
       bnd (assert_c (r \<noteq> 0)) (\<lambda>_.
         bnd (k_remove (k_all s1) t s1) (\<lambda>(r', s2).
           bnd (assert_c (r' = 1)) (\<lambda>_. bnd (get_thread t s2) (\<lambda>_. ok s2)))))"

definition optimsoc_thread_add :: "osenv \<Rightarrow> ptr \<Rightarrow> kstate \<Rightarrow> kstate exec" where
  "optimsoc_thread_add env t s =
     bnd (get_thread t s) (\<lambda>cb.
       bnd (assert_c (t_state cb = THREAD_RUNNABLE)) (\<lambda>_.
         bnd (k_add_tail env (k_all s) t s) (\<lambda>s1. k_add_tail env (k_ready s1) t s1)))"

text \<open>
  The copy of a suspended thread of another tile, read by DMA from the remote kernel state
  \<open>r\<close>: its context, flags and state are taken over, the identifier is drawn here.
\<close>

definition optimsoc_thread_dma_copy ::
    "osenv \<Rightarrow> (kstate \<Rightarrow> kstate) list \<Rightarrow> kstate \<Rightarrow> ptr \<Rightarrow> kstate \<Rightarrow> (ptr \<times> kstate) exec" where
  "optimsoc_thread_dma_copy env fs r remote_addr s =
     (let t = o_tcb_mal env (\<lambda>p. k_threads s p \<noteq> None) in
      if t = 0 then flt NoMem
      else
        bnd (get_thread remote_addr r) (\<lambda>rcb.
          let (i, s1) = thread_draw_id fs s in
          if o_ctx_mal env = 0 then flt NoMem
          else
            bnd (assert_c (t_stack rcb = 0)) (\<lambda>_.
              bnd (assert_c (t_state rcb = THREAD_RUNNABLE)) (\<lambda>_.
                bnd (optimsoc_list_dma_copy (o_mal env) (\<lambda>_. 0) (k_lists r) (t_joinlist rcb) 0
                       (k_lists s1)) (\<lambda>(jl, _, m).
                  bnd (optimsoc_list_length jl m) (\<lambda>n.
                    bnd (assert_c (n = 0)) (\<lambda>_.
                      ok (t, put_thread t \<lparr>t_id = i, t_ctx = t_ctx rcb, t_stack = 0,
                            t_flags = t_flags rcb, t_page_dir = 0, t_state = t_state rcb,
                            t_exit_code = 0, t_joinlist = jl, t_name = take 64 (t_name rcb),
                            t_extra_data = 0\<rparr> (s1\<lparr>k_lists := m\<rparr>)))))))))"

subsection \<open>Timers (timer.c)\<close>

definition get_timer :: "ptr \<Rightarrow> kstate \<Rightarrow> rt_timer exec" where
  "get_timer p s =
     (if p = 0 then flt NullDeref
      else case k_timer_objs s p of None \<Rightarrow> flt UseAfterFree | Some tm \<Rightarrow> ok tm)"

definition put_timer :: "ptr \<Rightarrow> rt_timer \<Rightarrow> kstate \<Rightarrow> kstate" where
  "put_timer p tm s = s\<lparr>k_timer_objs := (k_timer_objs s)(p \<mapsto> tm)\<rparr>"

partial_function (option) timer_tick_loop ::
    "osenv \<Rightarrow> ptr \<Rightarrow> ptr \<Rightarrow> kstate \<Rightarrow> (fault + kstate) option" where
  "timer_tick_loop env p it s =
     (if p = 0 then ok s
      else
        bnd (get_timer p s) (\<lambda>tm.
          let tm' = tm\<lparr>tm_ticks := tm_ticks tm + 1\<rparr>; s1 = put_timer p tm' s in
          bnd (optimsoc_list_next_element (k_timers s1) it (k_lists s1)) (\<lambda>(p', it').
            if tm_ticks tm' = tm_goal tm' then
              bnd (k_remove (k_timers s1) p s1) (\<lambda>(_, s2).
                bnd (optimsoc_thread_resume env (tm_thread tm') s2) (timer_tick_loop env p' it'))
            else timer_tick_loop env p' it' s1)))"

definition optimsoc_timer_tick :: "osenv \<Rightarrow> kstate \<Rightarrow> kstate exec" where
  "optimsoc_timer_tick env s =
     (if k_timers s = 0 then ok s
      else bnd (optimsoc_list_first_element (k_timers s) (k_lists s))
             (\<lambda>(p, it). timer_tick_loop env p it s))"

text \<open>
  The timer of \<open>optimsoc_timer_wait_ticks\<close> is a local variable, at the address \<open>p\<close> in the
  stack of the caller.
\<close>

definition optimsoc_timer_wait_ticks :: "osenv \<Rightarrow> nat \<Rightarrow> ptr \<Rightarrow> u32 \<Rightarrow> kstate \<Rightarrow> kstate exec" where
  "optimsoc_timer_wait_ticks env c p ticks s =
     bnd (optimsoc_thread_current c s) (\<lambda>t.
       let s1 = put_timer p \<lparr>tm_ticks = 0, tm_goal = ticks, tm_thread = t\<rparr> s in
       bnd (if k_timers s1 = 0
            then bnd (k_list_init env p s1) (\<lambda>(l, s2). ok (s2\<lparr>k_timers := l\<rparr>))
            else k_add_tail env (k_timers s1) p s1) (\<lambda>s2.
         optimsoc_thread_suspend env c t s2))"

subsection \<open>The tick and the start of the scheduler\<close>

definition optimsoc_scheduler_tick :: "osenv \<Rightarrow> nat \<Rightarrow> kstate \<Rightarrow> kstate exec" where
  "optimsoc_scheduler_tick env c s =
     bnd (get_core c s) (\<lambda>_.
       bnd (optimsoc_timer_tick env s) (\<lambda>s1.
         bnd (get_core c s1) (\<lambda>cr.
           bnd (optimsoc_context_save c (active_thread cr) s1) (\<lambda>s2.
             bnd (if active_thread cr \<noteq> idle_thread cr
                  then optimsoc_scheduler_add env (active_thread cr) (k_ready s2) s2
                  else ok s2)
               (optimsoc_schedule c)))))"

fun scheduler_init_idle :: "osenv \<Rightarrow> u32 \<Rightarrow> nat \<Rightarrow> nat \<Rightarrow> kstate \<Rightarrow> kstate exec" where
  "scheduler_init_idle env idle_func c 0 s = ok s"
| "scheduler_init_idle env idle_func c (Suc n) s =
     bnd (optimsoc_thread_attr_init (Some (o_attr_junk env))) (\<lambda>a.
       bnd (optimsoc_thread_create env [] idle_func
              (Some (a\<lparr>at_flags := at_flags a OR OPTIMSOC_THREAD_FLAG_KERNEL,
                       at_identifier := Some ''idle''\<rparr>)) s) (\<lambda>(t, s1).
         bnd (get_core c s1) (\<lambda>cr.
           let s2 = set_core c (cr\<lparr>idle_thread := t\<rparr>) s1 in
           bnd (k_remove (k_ready s2) t s2) (\<lambda>(_, s3).
             bnd (k_remove (k_all s3) t s3) (\<lambda>(_, s4).
               scheduler_init_idle env idle_func (Suc c) n s4)))))"

definition optimsoc_scheduler_init :: "osenv \<Rightarrow> nat \<Rightarrow> u32 \<Rightarrow> u32 \<Rightarrow> kstate \<Rightarrow> kstate exec" where
  "optimsoc_scheduler_init env numcores init_func idle_func s =
     bnd (k_list_init env 0 s) (\<lambda>(w, s1).
       bnd (k_list_init env 0 (s1\<lparr>k_wait := w\<rparr>)) (\<lambda>(r, s2).
         bnd (k_list_init env 0 (s2\<lparr>k_ready := r\<rparr>)) (\<lambda>(al, s3).
           bnd (optimsoc_thread_attr_init (Some (o_attr_junk env))) (\<lambda>a.
             bnd (optimsoc_thread_create env [] init_func
                    (Some (a\<lparr>at_flags := at_flags a OR OPTIMSOC_THREAD_FLAG_KERNEL,
                             at_identifier := Some ''init''\<rparr>)) (s3\<lparr>k_all := al\<rparr>)) (\<lambda>(t, s4).
               scheduler_init_idle env idle_func 0 numcores
                 (s4\<lparr>k_init := t,
                     k_cores := replicate numcores \<lparr>idle_thread = 0, active_thread = 0\<rparr>\<rparr>))))))"

text \<open>The timer device is not part of the state; its set-up leaves it as it is.\<close>

definition optimsoc_scheduler_start :: "nat \<Rightarrow> kstate \<Rightarrow> kstate exec" where
  "optimsoc_scheduler_start c s =
     bnd (optimsoc_schedule c s) (\<lambda>s1.
       bnd (get_core c s1) (\<lambda>cr.
         bnd (get_thread (active_thread cr) s1) (\<lambda>cb. optimsoc_context_replace c (t_ctx cb) s1)))"

end
