(* ===== verification/Scheduler.thy ===== *)
theory Scheduler
  imports Threads
begin

section \<open>Correctness of the scheduler\<close>

text \<open>
  The invariant of the thread system, in two parts: \<open>kq\<close> says which abstract queues the
  heap holds, \<open>kst\<close> relates their contents to the control blocks and to the cores. Its
  second argument is the set of cores whose active thread is accounted for: all of them
  between two operations, all but one while that core is about to schedule, none after
  the initialisation. Each operation is shown to keep the invariant, with the queues it
  leaves.
\<close>

subsection \<open>The invariant\<close>

definition kq :: "kstate \<Rightarrow> view \<Rightarrow> bool \<Rightarrow> ptr list \<Rightarrow> ptr list \<Rightarrow> ptr list \<Rightarrow> bool" where
  "kq s V b R W A \<longleftrightarrow>
     store_inv (k_lists s) V \<and> V (k_ready s) = Some (b, R) \<and> V (k_wait s) = Some (True, W) \<and>
     V (k_all s) = Some (True, A) \<and>
     k_ready s \<noteq> k_wait s \<and> k_ready s \<noteq> k_all s \<and> k_wait s \<noteq> k_all s"

definition active_on :: "kstate \<Rightarrow> nat \<Rightarrow> ptr" where
  "active_on s c = active_thread (k_cores s ! c)"

definition idle_on :: "kstate \<Rightarrow> nat \<Rightarrow> ptr" where
  "idle_on s c = idle_thread (k_cores s ! c)"

definition cores :: "kstate \<Rightarrow> nat set" where
  "cores s = {..< length (k_cores s)}"

text \<open>The threads that run on the cores of \<open>C\<close>, the idle threads left aside.\<close>

definition running :: "kstate \<Rightarrow> nat set \<Rightarrow> ptr set" where
  "running s C = active_on s ` {c \<in> C. active_on s c \<noteq> idle_on s c}"

definition has_state :: "kstate \<Rightarrow> thread_state \<Rightarrow> ptr \<Rightarrow> bool" where
  "has_state s st t \<longleftrightarrow> (\<exists>cb. k_threads s t = Some cb \<and> t_state cb = st)"

definition cores_ok :: "kstate \<Rightarrow> nat set \<Rightarrow> bool" where
  "cores_ok s C \<longleftrightarrow>
     C \<subseteq> cores s \<and> inj_on (active_on s) C \<and> (\<forall>c\<in>C. active_on s c \<noteq> 0) \<and>
     inj_on (idle_on s) (cores s) \<and>
     (\<forall>c\<in>cores s. idle_on s c \<noteq> 0 \<and> k_threads s (idle_on s c) \<noteq> None) \<and>
     length (k_frame s) = length (k_cores s) \<and> length (k_cpu s) = length (k_cores s)"

definition kst :: "kstate \<Rightarrow> nat set \<Rightarrow> ptr list \<Rightarrow> ptr list \<Rightarrow> ptr list \<Rightarrow> bool" where
  "kst s C R W A \<longleftrightarrow>
     cores_ok s C \<and> distinct (R @ W) \<and> distinct A \<and> 0 \<notin> set A \<and>
     set A = set R \<union> set W \<union> running s C \<and> running s C \<inter> (set R \<union> set W) = {} \<and>
     idle_on s ` cores s \<inter> set A = {} \<and>
     (\<forall>t \<in> set R \<union> running s C. has_state s THREAD_RUNNABLE t) \<and>
     (\<forall>t \<in> set W. has_state s THREAD_SUSPENDED t)"

lemma kq_lists_upd [simp]:
  "kq (s\<lparr>k_threads := x\<rparr>) V b R W A = kq s V b R W A"
  "kq (s\<lparr>k_cores := y\<rparr>) V b R W A = kq s V b R W A"
  "kq (s\<lparr>k_frame := z\<rparr>) V b R W A = kq s V b R W A"
  "kq (s\<lparr>k_cpu := z\<rparr>) V b R W A = kq s V b R W A"
  "kq (s\<lparr>k_next_id := i\<rparr>) V b R W A = kq s V b R W A"
  "kq (s\<lparr>k_timer_objs := w\<rparr>) V b R W A = kq s V b R W A"
  by (simp_all add: kq_def)

lemma core_view_upd [simp]:
  "active_on (s\<lparr>k_lists := m\<rparr>) = active_on s" "idle_on (s\<lparr>k_lists := m\<rparr>) = idle_on s"
  "active_on (s\<lparr>k_threads := x\<rparr>) = active_on s" "idle_on (s\<lparr>k_threads := x\<rparr>) = idle_on s"
  "active_on (s\<lparr>k_frame := f\<rparr>) = active_on s" "idle_on (s\<lparr>k_frame := f\<rparr>) = idle_on s"
  "active_on (s\<lparr>k_cpu := f\<rparr>) = active_on s" "idle_on (s\<lparr>k_cpu := f\<rparr>) = idle_on s"
  "active_on (s\<lparr>k_timer_objs := w\<rparr>) = active_on s" "idle_on (s\<lparr>k_timer_objs := w\<rparr>) = idle_on s"
  "active_on (s\<lparr>k_next_id := i\<rparr>) = active_on s" "idle_on (s\<lparr>k_next_id := i\<rparr>) = idle_on s"
  "cores (s\<lparr>k_lists := m\<rparr>) = cores s" "cores (s\<lparr>k_threads := x\<rparr>) = cores s"
  "cores (s\<lparr>k_frame := f\<rparr>) = cores s" "cores (s\<lparr>k_cpu := f\<rparr>) = cores s"
  "cores (s\<lparr>k_timer_objs := w\<rparr>) = cores s" "cores (s\<lparr>k_next_id := i\<rparr>) = cores s"
  by (simp_all add: active_on_def idle_on_def cores_def fun_eq_iff)

lemma running_upd [simp]:
  "running (s\<lparr>k_lists := m\<rparr>) C = running s C"
  "running (s\<lparr>k_threads := x\<rparr>) C = running s C"
  "running (s\<lparr>k_frame := f\<rparr>) C = running s C"
  "running (s\<lparr>k_cpu := f\<rparr>) C = running s C"
  "running (s\<lparr>k_timer_objs := w\<rparr>) C = running s C"
  "running (s\<lparr>k_next_id := i\<rparr>) C = running s C"
  by (simp_all add: running_def)

lemma kst_upd [simp]:
  "kst (s\<lparr>k_lists := m\<rparr>) C R W A = kst s C R W A"
  "kst (s\<lparr>k_timer_objs := w\<rparr>) C R W A = kst s C R W A"
  "kst (s\<lparr>k_next_id := i\<rparr>) C R W A = kst s C R W A"
  by (simp_all add: kst_def cores_ok_def has_state_def)

lemma has_state_upd [simp]:
  "has_state (s\<lparr>k_frame := f\<rparr>) st t = has_state s st t"
  "has_state (s\<lparr>k_lists := m\<rparr>) st t = has_state s st t"
  "has_state (s\<lparr>k_cpu := f\<rparr>) st t = has_state s st t"
  by (simp_all add: has_state_def)

subsection \<open>The queue operations of the kernel\<close>

lemma k_add_tail_post:
  assumes "store_inv (k_lists s) V" and "V l = Some q" and "alloc_ok (o_mal env)"
    and "\<And>m. store_inv m (V(l \<mapsto> q_add d q)) \<Longrightarrow> P (s\<lparr>k_lists := m\<rparr>)"
  shows "post (k_add_tail env l d s) P"
  unfolding k_add_tail_def post_bnd
  by (rule ls.add_tail_post [OF assms(1-3)]) (simp add: assms(4))

lemma k_remove_ex:
  assumes "store_inv (k_lists s) V" and "V l = Some q" and "q_rem_ok d q"
  obtains m where "k_remove l d s = ok (fst (q_rem d q), s\<lparr>k_lists := m\<rparr>)"
    and "store_inv m (V(l \<mapsto> snd (q_rem d q)))"
  using ls.remove_law [OF assms] by (auto simp: k_remove_def)

lemma k_remove_head_ex:
  assumes "store_inv (k_lists s) V" and "V l = Some q"
  obtains m where "k_remove_head l s = ok (fst (q_pop q), s\<lparr>k_lists := m\<rparr>)"
    and "store_inv m (V(l \<mapsto> snd (q_pop q)))"
  using ls.remove_head_law [OF assms] by (auto simp: k_remove_head_def)

lemma k_add_ready:
  assumes "kq s V b R W A" and "alloc_ok (o_mal env)"
    and "\<And>m. kq (s\<lparr>k_lists := m\<rparr>) (V(k_ready s \<mapsto> (b \<or> R = [], R @ [t]))) (b \<or> R = []) (R @ [t]) W A
           \<Longrightarrow> P (s\<lparr>k_lists := m\<rparr>)"
  shows "post (k_add_tail env (k_ready s) t s) P"
  using assms by (intro k_add_tail_post [where V = V and q = "(b, R)"]) (auto simp: kq_def)

lemma k_add_wait:
  assumes "kq s V b R W A" and "alloc_ok (o_mal env)"
    and "\<And>m. kq (s\<lparr>k_lists := m\<rparr>) (V(k_wait s \<mapsto> (True, W @ [t]))) b R (W @ [t]) A
           \<Longrightarrow> P (s\<lparr>k_lists := m\<rparr>)"
  shows "post (k_add_tail env (k_wait s) t s) P"
  using assms by (intro k_add_tail_post [where V = V and q = "(True, W)"]) (auto simp: kq_def)

lemma k_add_all:
  assumes "kq s V b R W A" and "alloc_ok (o_mal env)"
    and "\<And>m. kq (s\<lparr>k_lists := m\<rparr>) (V(k_all s \<mapsto> (True, A @ [t]))) b R W (A @ [t])
           \<Longrightarrow> P (s\<lparr>k_lists := m\<rparr>)"
  shows "post (k_add_tail env (k_all s) t s) P"
  using assms by (intro k_add_tail_post [where V = V and q = "(True, A)"]) (auto simp: kq_def)

lemma k_remove_ready:
  assumes "kq s V b R W A" and "b \<or> length R \<le> 1 \<or> hd R \<noteq> t"
  obtains m b' where "k_remove (k_ready s) t s = ok (if t \<in> set R then 1 else 0, s\<lparr>k_lists := m\<rparr>)"
    and "kq (s\<lparr>k_lists := m\<rparr>) (V(k_ready s \<mapsto> (b', remove1 t R))) b' (remove1 t R) W A"
    and "b' = (b \<or> t \<in> set R \<and> hd R = t)"
  using assms
  by (auto simp: kq_def remove1_idem split: if_splits
      intro: k_remove_ex [of s V "k_ready s" "(b, R)" t])

lemma k_remove_wait:
  assumes "kq s V b R W A"
  obtains m where "k_remove (k_wait s) t s = ok (if t \<in> set W then 1 else 0, s\<lparr>k_lists := m\<rparr>)"
    and "kq (s\<lparr>k_lists := m\<rparr>) (V(k_wait s \<mapsto> (True, remove1 t W))) b R (remove1 t W) A"
  using assms
  by (auto simp: kq_def remove1_idem split: if_splits
      intro: k_remove_ex [of s V "k_wait s" "(True, W)" t])

lemma k_remove_all:
  assumes "kq s V b R W A"
  obtains m where "k_remove (k_all s) t s = ok (if t \<in> set A then 1 else 0, s\<lparr>k_lists := m\<rparr>)"
    and "kq (s\<lparr>k_lists := m\<rparr>) (V(k_all s \<mapsto> (True, remove1 t A))) b R W (remove1 t A)"
  using assms
  by (auto simp: kq_def remove1_idem split: if_splits
      intro: k_remove_ex [of s V "k_all s" "(True, A)" t])

lemma k_pop_ready:
  assumes "kq s V b R W A"
  obtains m b' where "k_remove_head (k_ready s) s = ok (if R = [] then 0 else hd R, s\<lparr>k_lists := m\<rparr>)"
    and "kq (s\<lparr>k_lists := m\<rparr>) (V(k_ready s \<mapsto> (b', tl R))) b' (tl R) W A"
    and "b' = (if R = [] then b else tl R = [])"
proof (rule k_remove_head_ex [of s V "k_ready s" "(b, R)"])
  show "store_inv (k_lists s) V" "V (k_ready s) = Some (b, R)" using assms(1) by (auto simp: kq_def)
  fix m assume m: "k_remove_head (k_ready s) s = ok (fst (q_pop (b, R)), s\<lparr>k_lists := m\<rparr>)"
    "store_inv m (V(k_ready s \<mapsto> snd (q_pop (b, R))))"
  show thesis
    by (rule that [of m "if R = [] then b else tl R = []"])
      (use m assms(1) in \<open>auto simp: kq_def neq_Nil_conv map_upd_triv split: if_splits\<close>)
qed

subsection \<open>Scheduling\<close>

lemma kst_cores: "kst s C R W A \<Longrightarrow> c \<in> C \<Longrightarrow> c \<in> cores s"
  by (auto simp: kst_def cores_ok_def)

lemma active_cases:
  assumes "kst s C R W A" and "d \<in> C"
  shows "active_on s d = idle_on s d \<or> active_on s d \<in> running s C"
  using assms(2) by (auto simp: running_def)

lemma set_core_view:
  assumes "c < length (k_cores s)"
  shows "active_on (set_core c cr s) = (active_on s)(c := active_thread cr)"
    and "idle_on (set_core c cr s) = (idle_on s)(c := idle_thread cr)"
    and "cores (set_core c cr s) = cores s"
  using assms by (auto simp: active_on_def idle_on_def cores_def set_core_def fun_eq_iff nth_list_update)

lemma set_core_simps [simp]:
  "k_threads (set_core c cr s) = k_threads s" "k_lists (set_core c cr s) = k_lists s"
  "k_frame (set_core c cr s) = k_frame s" "k_cpu (set_core c cr s) = k_cpu s"
  "k_ready (set_core c cr s) = k_ready s" "k_wait (set_core c cr s) = k_wait s"
  "k_all (set_core c cr s) = k_all s" "k_timers (set_core c cr s) = k_timers s"
  "k_timer_objs (set_core c cr s) = k_timer_objs s"
  "length (k_cores (set_core c cr s)) = length (k_cores s)"
  "kq (set_core c cr s) V b R W A = kq s V b R W A" "cores (set_core c cr s) = cores s"
  by (simp_all add: set_core_def cores_def)

lemma kst_frame:
  "length f = length (k_frame s) \<Longrightarrow> kst (s\<lparr>k_frame := f\<rparr>) C R W A = kst s C R W A"
  "length f = length (k_cpu s) \<Longrightarrow> kst (s\<lparr>k_cpu := f\<rparr>) C R W A = kst s C R W A"
  by (simp_all add: kst_def cores_ok_def has_state_def)

lemma running_dispatch:
  assumes "c < length (k_cores s)" and "c \<notin> C"
  shows "running (set_core c ((k_cores s ! c)\<lparr>active_thread := t\<rparr>) s) (insert c C) =
    running s C \<union> (if t = idle_on s c then {} else {t})"
proof -
  have "idle_thread (k_cores s ! c) = idle_on s c" by (simp add: idle_on_def)
  with assms show ?thesis
    by (auto simp: running_def set_core_view image_iff)
qed

lemma kst_dispatch:
  assumes inv: "kst s C R W A" and c: "c \<in> cores s" "c \<notin> C"
    and t: "t = (if R = [] then idle_on s c else hd R)"
  shows "kst (set_core c ((k_cores s ! c)\<lparr>active_thread := t\<rparr>) s) (insert c C) (tl R) W A"
proof -
  let ?s = "set_core c ((k_cores s ! c)\<lparr>active_thread := t\<rparr>) s"
  have lt: "c < length (k_cores s)" using c by (simp add: cores_def)
  note view = set_core_view [OF lt] running_dispatch [OF lt c(2)]
  have idle: "idle_thread (k_cores s ! c) = idle_on s c" by (simp add: idle_on_def)
  have C: "C \<subseteq> cores s" "inj_on (active_on s) C" "inj_on (idle_on s) (cores s)"
    using inv by (auto simp: kst_def cores_ok_def)
  have nonidle: "R \<noteq> [] \<Longrightarrow> t \<noteq> idle_on s c"
    using inv t c(1) by (cases R) (auto simp: kst_def)
  have other: "t \<noteq> active_on s d" if d: "d \<in> C" for d
  proof (cases "R = []")
    case True
    then have "t = idle_on s c" using t by simp
    moreover have "idle_on s d \<noteq> idle_on s c"
      using C d c by (metis inj_onD subsetD)
    moreover have "idle_on s c \<notin> running s C" using inv c(1) by (auto simp: kst_def)
    ultimately show ?thesis using active_cases [OF inv d] by metis
  next
    case False
    then have "t \<in> set R" using t by simp
    moreover have "idle_on s d \<in> idle_on s ` cores s" using d C(1) by blast
    ultimately have "t \<notin> running s C" "t \<noteq> idle_on s d" using inv by (auto simp: kst_def)
    then show ?thesis using active_cases [OF inv d] by metis
  qed
  have "inj_on (active_on ?s) (insert c C)"
    using C(2) c(2) other by (auto simp: view inj_on_def)
  moreover have "t \<noteq> 0" using inv t c(1) by (cases R) (auto simp: kst_def cores_ok_def)
  ultimately have "cores_ok ?s (insert c C)"
    using inv c lt by (auto simp: kst_def cores_ok_def view idle)
  moreover have "set (tl R) \<union> (if t = idle_on s c then {} else {t}) = set R"
    using t nonidle by (cases R) auto
  moreover have "distinct (tl R @ W)" "t \<noteq> idle_on s c \<Longrightarrow> t \<notin> set (tl R) \<union> set W"
    using inv t by (cases R; auto simp: kst_def)+
  moreover have "idle_on ?s = idle_on s" by (simp add: view idle fun_eq_iff)
  moreover have "has_state ?s st x = has_state s st x" for st x
    by (simp add: has_state_def)
  moreover have "set (tl R) \<subseteq> set R" by (cases R) auto
  ultimately show ?thesis
    using inv unfolding kst_def view(3,4) by auto
qed

lemma dispatch_thread:
  assumes "kst s C R W A" and "c \<in> cores s"
  obtains cb where "k_threads s (if R = [] then idle_on s c else hd R) = Some cb"
    and "(if R = [] then idle_on s c else hd R) \<noteq> 0"
  using assms by (cases R) (auto simp: kst_def cores_ok_def has_state_def)

text \<open>
  \<open>_optimsoc_schedule\<close> takes the head of the ready queue, or the idle thread if there is
  none, makes it the active thread and loads its context into the exception frame.
\<close>

lemma schedule_ex:
  assumes q: "kq s V b R W A" and inv: "kst s C R W A" and c: "c \<in> cores s" "c \<notin> C"
    and t: "t = (if R = [] then idle_on s c else hd R)"
  obtains m b' cb s' where "optimsoc_schedule c s = ok s'"
    and "s' = (set_core c ((k_cores s ! c)\<lparr>active_thread := t\<rparr>) (s\<lparr>k_lists := m\<rparr>))
           \<lparr>k_frame := (k_frame s)[c := t_ctx cb]\<rparr>"
    and "k_threads s t = Some cb"
    and "kq s' (V(k_ready s \<mapsto> (b', tl R))) b' (tl R) W A"
    and "kst s' (insert c C) (tl R) W A"
    and "active_on s' c = t"
proof -
  from dispatch_thread [OF inv c(1)] t obtain cb where cb: "k_threads s t = Some cb" "t \<noteq> 0" by metis
  from k_pop_ready [OF q] obtain m b' where
    m: "k_remove_head (k_ready s) s = ok (if R = [] then 0 else hd R, s\<lparr>k_lists := m\<rparr>)"
      "kq (s\<lparr>k_lists := m\<rparr>) (V(k_ready s \<mapsto> (b', tl R))) b' (tl R) W A" by metis
  have lt: "c < length (k_cores s)" "c < length (k_frame s)"
    using c inv by (auto simp: cores_def kst_def cores_ok_def)
  let ?s1 = "set_core c ((k_cores s ! c)\<lparr>active_thread := t\<rparr>) (s\<lparr>k_lists := m\<rparr>)"
  let ?s = "?s1\<lparr>k_frame := (k_frame s)[c := t_ctx cb]\<rparr>"
  have hd: "R \<noteq> [] \<Longrightarrow> hd R \<noteq> 0" using inv by (cases R) (auto simp: kst_def)
  have tt: "(if (if R = [] then 0 else hd R) = 0 then idle_thread (k_cores s ! c)
      else (if R = [] then 0 else hd R)) = t"
    using t hd by (auto simp: idle_on_def)
  have "optimsoc_schedule c s = ok ?s"
    unfolding optimsoc_schedule_def m(1) using lt tt cb hd
    by (auto simp: get_core_def Let_def set_core_def get_thread_def optimsoc_context_restore_def
        optimsoc_context_copy_def idle_on_def split: if_splits)
  moreover have "kq ?s (V(k_ready s \<mapsto> (b', tl R))) b' (tl R) W A"
    using m(2) by simp
  moreover have "kst ?s (insert c C) (tl R) W A"
  proof -
    have "kst (s\<lparr>k_lists := m\<rparr>) C R W A" "c \<in> cores (s\<lparr>k_lists := m\<rparr>)"
      "t = (if R = [] then idle_on (s\<lparr>k_lists := m\<rparr>) c else hd R)" using inv c t by simp_all
    from kst_dispatch [OF this(1,2) c(2) this(3)]
    have "kst ?s1 (insert c C) (tl R) W A" by simp
    then show ?thesis by (simp add: kst_frame)
  qed
  moreover have "active_on ?s c = t" using lt by (simp add: active_on_def set_core_def)
  ultimately show thesis using that cb by blast
qed

subsection \<open>How a thread changes its place\<close>

lemma running_minus:
  assumes "inj_on (active_on s) C" and "c \<in> C"
  shows "running s (C - {c}) = running s C - (if active_on s c = idle_on s c then {} else {active_on s c})"
  using assms by (auto simp: running_def inj_on_def)

lemma put_thread_simps [simp]:
  "k_lists (put_thread t cb s) = k_lists s" "k_cores (put_thread t cb s) = k_cores s"
  "k_frame (put_thread t cb s) = k_frame s" "k_cpu (put_thread t cb s) = k_cpu s"
  "k_ready (put_thread t cb s) = k_ready s" "k_wait (put_thread t cb s) = k_wait s"
  "k_all (put_thread t cb s) = k_all s" "k_threads (put_thread t cb s) = (k_threads s)(t \<mapsto> cb)"
  "k_timers (put_thread t cb s) = k_timers s" "k_timer_objs (put_thread t cb s) = k_timer_objs s"
  "k_next_id (put_thread t cb s) = k_next_id s"
  "active_on (put_thread t cb s) = active_on s" "idle_on (put_thread t cb s) = idle_on s"
  "cores (put_thread t cb s) = cores s" "running (put_thread t cb s) C = running s C"
  "kq (put_thread t cb s) V b R W A = kq s V b R W A"
  by (simp_all add: put_thread_def)

lemma has_state_put [simp]:
  "has_state (put_thread t cb s) st x = (if x = t then t_state cb = st else has_state s st x)"
  by (simp add: has_state_def)

lemma kst_put_same:
  assumes "kst s C R W A" and "k_threads s t = Some cb" and "t_state cb' = t_state cb"
  shows "kst (put_thread t cb' s) C R W A"
proof -
  have "has_state (put_thread t cb' s) st x = has_state s st x" for st x
    using assms(2,3) by (simp add: has_state_def)
  moreover have "cores_ok (put_thread t cb' s) C"
    using assms(1) by (auto simp: kst_def cores_ok_def)
  ultimately show ?thesis using assms(1) by (auto simp: kst_def simp del: has_state_put)
qed

lemma cores_ok_put: "cores_ok s C \<Longrightarrow> C' \<subseteq> C \<Longrightarrow> cores_ok (put_thread t cb s) C'"
  by (auto simp: cores_ok_def inj_on_subset)

lemma cores_ok_sub: "cores_ok s C \<Longrightarrow> C' \<subseteq> C \<Longrightarrow> cores_ok s C'"
  by (auto simp: cores_ok_def inj_on_subset)

lemma kst_active:
  assumes "kst s C R W A" and "c \<in> C" and "active_on s c \<noteq> idle_on s c"
  shows "active_on s c \<in> running s C" and "active_on s c \<notin> set R \<union> set W"
    and "active_on s c \<in> set A" and "active_on s c \<noteq> 0"
    and "\<exists>cb. k_threads s (active_on s c) = Some cb \<and> t_state cb = THREAD_RUNNABLE"
proof -
  show r: "active_on s c \<in> running s C" using assms(2,3) by (auto simp: running_def)
  with assms(1) show "active_on s c \<notin> set R \<union> set W" "active_on s c \<in> set A"
    "\<exists>cb. k_threads s (active_on s c) = Some cb \<and> t_state cb = THREAD_RUNNABLE"
    by (auto simp: kst_def has_state_def)
  show "active_on s c \<noteq> 0" using assms(1,2) by (auto simp: kst_def cores_ok_def)
qed

lemma kst_release_idle:
  assumes "kst s C R W A" and "c \<in> C" and "active_on s c = idle_on s c"
  shows "kst s (C - {c}) R W A"
  using assms running_minus [of s C c] cores_ok_sub [of s C "C - {c}"]
  by (auto simp: kst_def cores_ok_def)

lemma kst_queued:
  assumes "kst s C R W A"
  shows "t \<in> set R \<Longrightarrow> \<exists>cb. k_threads s t = Some cb \<and> t_state cb = THREAD_RUNNABLE \<and> t \<noteq> 0"
    and "t \<in> set W \<Longrightarrow> \<exists>cb. k_threads s t = Some cb \<and> t_state cb = THREAD_SUSPENDED \<and> t \<noteq> 0"
proof -
  have "t \<in> set R \<union> set W \<Longrightarrow> t \<noteq> 0" using assms unfolding kst_def by blast
  moreover have "\<forall>t \<in> set R. has_state s THREAD_RUNNABLE t" "\<forall>t \<in> set W. has_state s THREAD_SUSPENDED t"
    using assms unfolding kst_def by blast+
  ultimately show "t \<in> set R \<Longrightarrow> \<exists>cb. k_threads s t = Some cb \<and> t_state cb = THREAD_RUNNABLE \<and> t \<noteq> 0"
    and "t \<in> set W \<Longrightarrow> \<exists>cb. k_threads s t = Some cb \<and> t_state cb = THREAD_SUSPENDED \<and> t \<noteq> 0"
    by (auto simp: has_state_def)
qed

lemma active_not_queued:
  assumes inv: "kst s C R W A" and c: "c \<in> C"
  shows "active_on s c \<notin> set R \<union> set W"
proof (cases "active_on s c = idle_on s c")
  case True
  with kst_cores [OF inv c] have "active_on s c \<in> idle_on s ` cores s" by simp
  then show ?thesis using inv unfolding kst_def by blast
next
  case False
  with inv c show ?thesis by (blast dest: kst_active(2))
qed

lemma active_leaves:
  assumes inv: "kst s C R W A" and c: "c \<in> C" "active_on s c \<noteq> idle_on s c"
  obtains a Run where "active_on s c = a" and "running s C = insert a Run" and "a \<notin> Run"
    and "running s (C - {c}) = Run" and "a \<noteq> 0" and "a \<notin> set R \<union> set W" and "a \<in> set A"
    and "has_state s THREAD_RUNNABLE a" and "cores_ok s (C - {c})"
proof (rule that)
  have inj: "inj_on (active_on s) C" using inv by (simp add: kst_def cores_ok_def)
  show "running s C = insert (active_on s c) (running s C - {active_on s c})"
    using kst_active(1) [OF inv c] by blast
  show "running s (C - {c}) = running s C - {active_on s c}"
    using running_minus [OF inj c(1)] c(2) by simp
  show "has_state s THREAD_RUNNABLE (active_on s c)"
    using kst_active(5) [OF inv c] by (simp add: has_state_def)
  show "cores_ok s (C - {c})" using inv cores_ok_sub by (auto simp: kst_def)
qed (use kst_active [OF inv c] in simp_all)

lemma kst_requeue:
  assumes inv: "kst s C R W A" and c: "c \<in> C" "active_on s c \<noteq> idle_on s c"
  shows "kst s (C - {c}) (R @ [active_on s c]) W A"
proof -
  from active_leaves [OF inv c] obtain a Run where
    "active_on s c = a" "running s C = insert a Run" "a \<notin> Run" "running s (C - {c}) = Run"
    "a \<noteq> 0" "a \<notin> set R \<union> set W" "a \<in> set A" "has_state s THREAD_RUNNABLE a" "cores_ok s (C - {c})" .
  with inv show ?thesis unfolding kst_def by auto
qed

lemma kst_suspend_active:
  assumes inv: "kst s C R W A" and c: "c \<in> C" "active_on s c \<noteq> idle_on s c"
    and st: "t_state cb = THREAD_SUSPENDED"
  shows "kst (put_thread (active_on s c) cb s) (C - {c}) R (W @ [active_on s c]) A"
proof -
  from active_leaves [OF inv c] obtain a Run where
    "active_on s c = a" "running s C = insert a Run" "a \<notin> Run" "running s (C - {c}) = Run"
    "a \<noteq> 0" "a \<notin> set R \<union> set W" "a \<in> set A" "has_state s THREAD_RUNNABLE a" "cores_ok s (C - {c})" .
  moreover from this(9) have "cores_ok (put_thread a cb s) (C - {c})" by (rule cores_ok_put) simp
  ultimately show ?thesis using inv st unfolding kst_def by auto
qed

lemma kst_exit:
  assumes inv: "kst s C R W A" and c: "c \<in> C" "active_on s c \<noteq> idle_on s c"
  shows "kst s (C - {c}) R W (remove1 (active_on s c) A)"
proof -
  from active_leaves [OF inv c] obtain a Run where
    "active_on s c = a" "running s C = insert a Run" "a \<notin> Run" "running s (C - {c}) = Run"
    "a \<noteq> 0" "a \<notin> set R \<union> set W" "a \<in> set A" "has_state s THREAD_RUNNABLE a" "cores_ok s (C - {c})" .
  with inv show ?thesis unfolding kst_def by auto
qed

lemma kst_suspend_ready:
  assumes inv: "kst s C R W A" and t: "t \<in> set R" and st: "t_state cb = THREAD_SUSPENDED"
  shows "kst (put_thread t cb s) C (remove1 t R) (W @ [t]) A"
  using inv t st cores_ok_put [of s C C t cb]
  unfolding kst_def by auto

lemma kst_resume:
  assumes inv: "kst s C R W A" and t: "t \<in> set W" and st: "t_state cb = THREAD_RUNNABLE"
  shows "kst (put_thread t cb s) C (R @ [t]) (remove1 t W) A"
  using inv t st cores_ok_put [of s C C t cb]
  unfolding kst_def by auto

lemma kst_rotate:
  assumes inv: "kst s C R W A" and t: "t \<in> set R"
  shows "kst s C (remove1 t R @ [t]) W A"
  using inv t unfolding kst_def by auto

lemma kst_remove:
  assumes inv: "kst s C R W A" and t: "t \<in> set R"
  shows "kst s C (remove1 t R) W (remove1 t A)"
  using inv t unfolding kst_def by auto

lemma kst_fresh:
  assumes "kst s C R W A" and "k_threads s t = None"
  shows "t \<notin> set R \<union> set W \<union> running s C" and "t \<notin> idle_on s ` cores s" and "t \<notin> set A"
proof -
  have st: "\<not> has_state s st t" for st using assms(2) by (simp add: has_state_def)
  show 1: "t \<notin> set R \<union> set W \<union> running s C" using assms(1) st unfolding kst_def by blast
  show "t \<notin> idle_on s ` cores s" using assms by (auto simp: kst_def cores_ok_def)
  show "t \<notin> set A" using 1 assms(1) unfolding kst_def by blast
qed

lemma kst_new:
  assumes inv: "kst s C R W A" and t: "t \<noteq> 0" "k_threads s t = None"
  shows "t_state cb = THREAD_RUNNABLE \<Longrightarrow> kst (put_thread t cb s) C (R @ [t]) W (A @ [t])"
    and "t_state cb = THREAD_SUSPENDED \<Longrightarrow> kst (put_thread t cb s) C R (W @ [t]) (A @ [t])"
proof -
  have "cores_ok (put_thread t cb s) C" using inv cores_ok_put by (auto simp: kst_def)
  with inv t(1) kst_fresh [OF inv t(2)]
  show "t_state cb = THREAD_RUNNABLE \<Longrightarrow> kst (put_thread t cb s) C (R @ [t]) W (A @ [t])"
    and "t_state cb = THREAD_SUSPENDED \<Longrightarrow> kst (put_thread t cb s) C R (W @ [t]) (A @ [t])"
    unfolding kst_def by auto
qed

subsection \<open>The operations keep the invariant\<close>

text \<open>
  \<open>moved s V C R W A s'\<close>: the operation led from \<open>s\<close> to a state \<open>s'\<close> that satisfies the
  invariant with the queues \<open>R\<close>, \<open>W\<close>, \<open>A\<close>; the other lists are what they were.
\<close>

definition moved ::
    "kstate \<Rightarrow> view \<Rightarrow> nat set \<Rightarrow> ptr list \<Rightarrow> ptr list \<Rightarrow> ptr list \<Rightarrow> kstate \<Rightarrow> bool" where
  "moved s V C R W A s' \<longleftrightarrow>
     (\<exists>V' b. kq s' V' b R W A \<and> kst s' C R W A \<and>
        (\<forall>l. l \<notin> {k_ready s, k_wait s, k_all s} \<longrightarrow> V' l = V l)) \<and>
     k_ready s' = k_ready s \<and> k_wait s' = k_wait s \<and> k_all s' = k_all s \<and>
     k_timers s' = k_timers s \<and> k_timer_objs s' = k_timer_objs s \<and> cores s' = cores s"

lemma movedI:
  assumes "kq s' V' b R W A" and "kst s' C R W A"
    and "\<And>l. l \<notin> {k_ready s, k_wait s, k_all s} \<Longrightarrow> V' l = V l"
    and "k_ready s' = k_ready s" "k_wait s' = k_wait s" "k_all s' = k_all s"
    and "k_timers s' = k_timers s" "k_timer_objs s' = k_timer_objs s" "cores s' = cores s"
  shows "moved s V C R W A s'"
  using assms unfolding moved_def by blast

lemma moved_from:
  assumes "moved s1 V1 C R W A s'"
    and "\<And>l. l \<notin> {k_ready s, k_wait s, k_all s} \<Longrightarrow> V1 l = V l"
    and "k_ready s1 = k_ready s" "k_wait s1 = k_wait s" "k_all s1 = k_all s"
    and "k_timers s1 = k_timers s" "k_timer_objs s1 = k_timer_objs s" "cores s1 = cores s"
  shows "moved s V C R W A s'"
  using assms unfolding moved_def by force

lemma current_ok:
  assumes "kst s C R W A" and "c \<in> C"
  shows "optimsoc_scheduler_get_current c s = ok (active_on s c)"
    and "optimsoc_thread_current c s = ok (active_on s c)"
    and "active_on s c \<noteq> 0" and "c < length (k_cores s)" "c < length (k_cpu s)" "c < length (k_frame s)"
proof -
  show "active_on s c \<noteq> 0" and "c < length (k_cores s)" "c < length (k_cpu s)" "c < length (k_frame s)"
    using assms by (auto simp: kst_def cores_ok_def cores_def)
  then show "optimsoc_scheduler_get_current c s = ok (active_on s c)"
    "optimsoc_thread_current c s = ok (active_on s c)"
    by (simp_all add: optimsoc_scheduler_get_current_def optimsoc_thread_current_def get_core_def
        active_on_def)
qed

lemma get_thread_ok [simp]:
  "k_threads s t = Some cb \<Longrightarrow> t \<noteq> 0 \<Longrightarrow> get_thread t s = ok cb"
  "k_threads s t = Some cb \<Longrightarrow> t \<noteq> 0 \<Longrightarrow> upd_thread t f s = ok (put_thread t (f cb) s)"
  by (simp_all add: get_thread_def upd_thread_def)

text \<open>
  Leaving for the next thread: the head of the ready queue runs, on the context stored in
  its control block.
\<close>

lemma schedule_replace_moved:
  assumes q: "kq s V b R W A" and inv: "kst s C R W A" and c: "c \<in> cores s" "c \<notin> C"
    and t: "t = (if R = [] then idle_on s c else hd R)"
  shows "\<exists>s'. schedule_replace c s = ok s' \<and> moved s V (insert c C) (tl R) W A s' \<and>
    active_on s' c = t \<and> k_threads s' = k_threads s \<and>
    (\<exists>cb. k_threads s t = Some cb \<and> k_frame s' ! c = t_ctx cb \<and>
       k_cpu s' = (k_cpu s)[c := (t_ctx cb)\<lparr>c_regs := 0 # drop 1 (c_regs (t_ctx cb))\<rparr>])"
proof -
  from schedule_ex [OF q inv c t] obtain m b' cb s1 where s1: "optimsoc_schedule c s = ok s1"
    "s1 = (set_core c ((k_cores s ! c)\<lparr>active_thread := t\<rparr>) (s\<lparr>k_lists := m\<rparr>))
           \<lparr>k_frame := (k_frame s)[c := t_ctx cb]\<rparr>"
    "k_threads s t = Some cb" "kq s1 (V(k_ready s \<mapsto> (b', tl R))) b' (tl R) W A"
    "kst s1 (insert c C) (tl R) W A" "active_on s1 c = t" .
  let ?s = "s1\<lparr>k_cpu := (k_cpu s1)[c := (t_ctx cb)\<lparr>c_regs := 0 # drop 1 (c_regs (t_ctx cb))\<rparr>]\<rparr>"
  note cur = current_ok [OF s1(5), of c]
  have thr: "k_threads s1 t = Some cb" "t \<noteq> 0" using s1(2,3,6) cur(3) by simp_all
  then have run: "schedule_replace c s = ok ?s"
    using s1(1,6) cur
    by (simp add: schedule_replace_def optimsoc_context_replace_def)
  have "moved s V (insert c C) (tl R) W A ?s"
    using s1(2,4,5) by (intro movedI [where V' = "V(k_ready s \<mapsto> (b', tl R))" and b = b'])
      (auto simp: kst_frame)
  with run s1 cur show ?thesis
    by (intro exI [of _ ?s]) (auto simp: active_on_def)
qed

lemma schedule_moved:
  assumes q: "kq s V b R W A" and inv: "kst s C R W A" and c: "c \<in> cores s" "c \<notin> C"
    and t: "t = (if R = [] then idle_on s c else hd R)"
  shows "\<exists>s'. optimsoc_schedule c s = ok s' \<and> moved s V (insert c C) (tl R) W A s' \<and>
    active_on s' c = t \<and> k_threads s' = k_threads s \<and> idle_on s' = idle_on s \<and>
    (\<exists>cb. k_threads s t = Some cb \<and> k_frame s' = (k_frame s)[c := t_ctx cb])"
proof -
  from schedule_ex [OF q inv c t] obtain m b' cb s1 where s1: "optimsoc_schedule c s = ok s1"
    "s1 = (set_core c ((k_cores s ! c)\<lparr>active_thread := t\<rparr>) (s\<lparr>k_lists := m\<rparr>))
           \<lparr>k_frame := (k_frame s)[c := t_ctx cb]\<rparr>"
    "k_threads s t = Some cb" "kq s1 (V(k_ready s \<mapsto> (b', tl R))) b' (tl R) W A"
    "kst s1 (insert c C) (tl R) W A" "active_on s1 c = t" .
  have "moved s V (insert c C) (tl R) W A s1"
    using s1(2) by (intro movedI [OF s1(4,5)]) auto
  moreover have "idle_on s1 = idle_on s"
    using c(1) s1(2) by (auto simp: set_core_view cores_def idle_on_def fun_eq_iff)
  ultimately show ?thesis using s1(1,2,3,6) by auto
qed

lemma enter_exception_ok:
  assumes "k_threads s t = Some cb" and "t \<noteq> 0" and "c < length (k_cpu s)"
  obtains cb' where "optimsoc_context_enter_exception env c t s = ok (put_thread t cb' s)"
    and "t_state cb' = t_state cb" and "t_flags cb' = t_flags cb" and "t_joinlist cb' = t_joinlist cb"
    and "t_ctx cb' = \<lparr>c_regs = take 1 (c_regs (t_ctx cb)) @ drop 1 ((c_regs (k_cpu s ! c))[11 := 0]),
          c_pc = o_wakeup env, c_sr = c_sr (k_cpu s ! c)\<rparr>"
  using assms by (auto simp: optimsoc_context_enter_exception_def Let_def)

lemma yield_self:
  assumes q: "kq s V b R W A" and inv: "kst s C R W A" and mal: "alloc_ok (o_mal env)"
    and c: "c \<in> C" "active_on s c = t" "t \<noteq> idle_on s c"
    and cb: "k_threads s t = Some cb" "t_flags cb AND OPTIMSOC_THREAD_FLAG_KERNEL \<noteq> 0"
  shows "post (optimsoc_thread_yield env c t s) (\<lambda>s'.
    moved s V C (tl (R @ [t])) W A s' \<and> active_on s' c = hd (R @ [t]))"
proof -
  have ai: "active_on s c \<noteq> idle_on s c" using c by simp
  note act = kst_active [OF inv c(1) ai, unfolded c(2)]
  note cur = current_ok [OF inv c(1), unfolded c(2)]
  from act(2) have "b \<or> length R \<le> 1 \<or> hd R \<noteq> t" by (cases R) auto
  from k_remove_ready [OF q this] obtain m b' where
    "k_remove (k_ready s) t s = ok (if t \<in> set R then 1 else 0, s\<lparr>k_lists := m\<rparr>)"
    "kq (s\<lparr>k_lists := m\<rparr>) (V(k_ready s \<mapsto> (b', remove1 t R))) b' (remove1 t R) W A" by metis
  with act(2) have rem: "k_remove (k_ready s) t s = ok (0, s\<lparr>k_lists := m\<rparr>)"
      "kq (s\<lparr>k_lists := m\<rparr>) (V(k_ready s \<mapsto> (b', R))) b' R W A"
    by (simp_all add: remove1_idem)
  show ?thesis
    unfolding optimsoc_thread_yield_def cur(2) rem(1) bnd_simps prod.case post_bnd
  proof (rule k_add_ready [OF rem(2) mal])
    fix m'
    let ?s2 = "s\<lparr>k_lists := m, k_lists := m'\<rparr>"
    let ?V = "V(k_ready s \<mapsto> (b' \<or> R = [], R @ [t]))"
    assume "kq ?s2 (V(k_ready s \<mapsto> (b', R), k_ready (s\<lparr>k_lists := m\<rparr>) \<mapsto> (b' \<or> R = [], R @ [t])))
        (b' \<or> R = []) (R @ [t]) W A"
    then have q2: "kq ?s2 ?V (b' \<or> R = []) (R @ [t]) W A" by simp
    from cb(1) cur(3) cur(5) have "k_threads ?s2 t = Some cb" "t \<noteq> 0" "c < length (k_cpu ?s2)" by simp_all
    from enter_exception_ok [OF this] obtain cb' where
      ex: "optimsoc_context_enter_exception env c t ?s2 = ok (put_thread t cb' ?s2)"
        "t_state cb' = t_state cb" by metis
    have "kst ?s2 C R W A" using inv by simp
    from kst_requeue [OF this c(1)] ai have "kst ?s2 (C - {c}) (R @ [t]) W A" by (simp add: c(2))
    then have k2: "kst (put_thread t cb' ?s2) (C - {c}) (R @ [t]) W A"
      using kst_put_same ex(2) cb(1) by simp
    have q3: "kq (put_thread t cb' ?s2) ?V (b' \<or> R = []) (R @ [t]) W A" using q2 by simp
    have "c \<in> cores (put_thread t cb' ?s2)" "c \<notin> C - {c}" using c kst_cores [OF inv c(1)] by simp_all
    from schedule_replace_moved [OF q3 k2 this refl] obtain s' where
      s': "schedule_replace c (put_thread t cb' ?s2) = ok s'"
        "moved (put_thread t cb' ?s2) ?V (insert c (C - {c})) (tl (R @ [t])) W A s'"
        "active_on s' c = hd (R @ [t])" by auto
    have "moved s V C (tl (R @ [t])) W A s'"
      by (rule moved_from [OF s'(2) [unfolded insert_Diff [OF c(1)]]]) auto
    with s' ex(1) cb cur c(2) show "post (if t = t then bnd (get_thread t (s\<lparr>k_lists := m, k_lists := m'\<rparr>))
        (\<lambda>cb. if t_flags cb AND OPTIMSOC_THREAD_FLAG_KERNEL \<noteq> 0
          then bnd (optimsoc_scheduler_get_current c (s\<lparr>k_lists := m, k_lists := m'\<rparr>))
            (\<lambda>t'. bnd (optimsoc_context_enter_exception env c t' (s\<lparr>k_lists := m, k_lists := m'\<rparr>))
              (schedule_replace c))
          else flt AssertFail) else ok (s\<lparr>k_lists := m, k_lists := m'\<rparr>))
       (\<lambda>s'. moved s V C (tl (R @ [t])) W A s' \<and> active_on s' c = hd (R @ [t]))"
      using current_ok(1) [OF \<open>kst ?s2 C R W A\<close> c(1)] by simp
  qed
qed

text \<open>A running kernel thread suspends itself.\<close>

lemma suspend_self:
  assumes q: "kq s V b R W A" and inv: "kst s C R W A" and mal: "alloc_ok (o_mal env)"
    and c: "c \<in> C" "active_on s c = t" "t \<noteq> idle_on s c"
    and cb: "k_threads s t = Some cb" "t_flags cb AND OPTIMSOC_THREAD_FLAG_KERNEL \<noteq> 0"
  shows "post (optimsoc_thread_suspend env c t s) (\<lambda>s'.
    moved s V C (tl R) (W @ [t]) A s' \<and>
    active_on s' c = (if R = [] then idle_on s c else hd R))"
proof -
  have ai: "active_on s c \<noteq> idle_on s c" using c by simp
  note act = kst_active [OF inv c(1) ai, unfolded c(2)]
  note cur = current_ok [OF inv c(1), unfolded c(2)]
  from enter_exception_ok [OF cb(1) cur(3,5)] obtain cb' where
    ex: "optimsoc_context_enter_exception env c t s = ok (put_thread t cb' s)"
      "t_state cb' = t_state cb" by metis
  have st: "t_state cb = THREAD_RUNNABLE" using act(5) cb(1) by simp
  let ?s1 = "put_thread t cb' s"
  have q1: "kq ?s1 V b R W A" using q by simp
  have run: "optimsoc_thread_suspend env c t s =
    bnd (k_add_tail env (k_wait ?s1) t ?s1) (\<lambda>s2.
      bnd (upd_thread t (\<lambda>cb. cb\<lparr>t_state := THREAD_SUSPENDED\<rparr>) s2) (schedule_replace c))"
    unfolding optimsoc_thread_suspend_def using cb cur st ex by simp
  show ?thesis
    unfolding run post_bnd
  proof (rule k_add_wait [OF q1 mal])
    fix m
    let ?cb = "cb'\<lparr>t_state := THREAD_SUSPENDED\<rparr>"
    let ?s2 = "put_thread t ?cb (?s1\<lparr>k_lists := m\<rparr>)"
    let ?V = "V(k_wait s \<mapsto> (True, W @ [t]))"
    assume "kq (?s1\<lparr>k_lists := m\<rparr>) (V(k_wait ?s1 \<mapsto> (True, W @ [t]))) b R (W @ [t]) A"
    then have q2: "kq ?s2 ?V b R (W @ [t]) A" by simp
    have "kst (?s1\<lparr>k_lists := m\<rparr>) C R W A"
      using kst_put_same [OF inv cb(1) ex(2)] by simp
    from kst_suspend_active [OF this c(1), of ?cb] ai
    have k2: "kst ?s2 (C - {c}) R (W @ [t]) A" by (simp add: c(2))
    have "c \<in> cores ?s2" "c \<notin> C - {c}" using c kst_cores [OF inv c(1)] by simp_all
    from schedule_replace_moved [OF q2 k2 this refl] obtain s' where
      s': "schedule_replace c ?s2 = ok s'"
        "moved ?s2 ?V (insert c (C - {c})) (tl R) (W @ [t]) A s'"
        "active_on s' c = (if R = [] then idle_on s c else hd R)" by auto
    have "moved s V C (tl R) (W @ [t]) A s'"
      by (rule moved_from [OF s'(2) [unfolded insert_Diff [OF c(1)]]]) auto
    with s' cur(3) show "post (upd_thread t (\<lambda>cb. cb\<lparr>t_state := THREAD_SUSPENDED\<rparr>) (?s1\<lparr>k_lists := m\<rparr>))
       (\<lambda>x. post (schedule_replace c x) (\<lambda>s'. moved s V C (tl R) (W @ [t]) A s' \<and>
          active_on s' c = (if R = [] then idle_on s c else hd R)))"
      by simp
  qed
qed

text \<open>A thread is taken out of the ready queue; the running ones are left alone.\<close>

lemma suspend_ready:
  assumes q: "kq s V b R W A" and inv: "kst s C R W A" and mal: "alloc_ok (o_mal env)"
    and c: "c \<in> C" and t: "t \<in> set R" and head: "b \<or> length R \<le> 1 \<or> hd R \<noteq> t"
  shows "post (optimsoc_thread_suspend env c t s) (\<lambda>s'.
    moved s V C (remove1 t R) (W @ [t]) A s' \<and> k_cores s' = k_cores s \<and>
    has_state s' THREAD_SUSPENDED t)"
proof -
  from kst_queued(1) [OF inv t] obtain cb where
    cb: "k_threads s t = Some cb" "t_state cb = THREAD_RUNNABLE" "t \<noteq> 0" by blast
  have "t \<noteq> active_on s c" using t active_not_queued [OF inv c] by blast
  moreover from k_remove_ready [OF q head] obtain m b' where
    r: "k_remove (k_ready s) t s = ok (if t \<in> set R then 1 else 0, s\<lparr>k_lists := m\<rparr>)" and
    rem: "kq (s\<lparr>k_lists := m\<rparr>) (V(k_ready s \<mapsto> (b', remove1 t R))) b' (remove1 t R) W A" by metis
  moreover from r t have "k_remove (k_ready s) t s = ok (1, s\<lparr>k_lists := m\<rparr>)" by simp
  ultimately have run: "optimsoc_thread_suspend env c t s =
    bnd (k_add_tail env (k_wait (s\<lparr>k_lists := m\<rparr>)) t (s\<lparr>k_lists := m\<rparr>))
      (upd_thread t (\<lambda>cb. cb\<lparr>t_state := THREAD_SUSPENDED\<rparr>))"
    unfolding optimsoc_thread_suspend_def using cb current_ok [OF inv c] by simp
  show ?thesis
    unfolding run post_bnd
  proof (rule k_add_wait [OF rem mal])
    fix m'
    let ?s1 = "s\<lparr>k_lists := m, k_lists := m'\<rparr>" and ?cb = "cb\<lparr>t_state := THREAD_SUSPENDED\<rparr>"
    assume "kq ?s1 (V(k_ready s \<mapsto> (b', remove1 t R), k_wait (s\<lparr>k_lists := m\<rparr>) \<mapsto> (True, W @ [t])))
      b' (remove1 t R) (W @ [t]) A"
    then have q2: "kq (put_thread t ?cb ?s1)
        (V(k_ready s \<mapsto> (b', remove1 t R), k_wait s \<mapsto> (True, W @ [t]))) b' (remove1 t R) (W @ [t]) A"
      by simp
    have "kst ?s1 C R W A" using inv by simp
    from kst_suspend_ready [OF this t, of ?cb]
    have "kst (put_thread t ?cb ?s1) C (remove1 t R) (W @ [t]) A" by simp
    with q2 have "moved s V C (remove1 t R) (W @ [t]) A (put_thread t ?cb ?s1)"
      by (rule movedI) auto
    with cb show "post (upd_thread t (\<lambda>cb. cb\<lparr>t_state := THREAD_SUSPENDED\<rparr>) ?s1)
      (\<lambda>s'. moved s V C (remove1 t R) (W @ [t]) A s' \<and> k_cores s' = k_cores s \<and>
        has_state s' THREAD_SUSPENDED t)" by simp
  qed
qed

lemma resume_waiting:
  assumes q: "kq s V b R W A" and inv: "kst s C R W A" and mal: "alloc_ok (o_mal env)"
    and t: "t \<in> set W"
  shows "post (optimsoc_thread_resume env t s) (\<lambda>s'.
    moved s V C (R @ [t]) (remove1 t W) A s' \<and> k_cores s' = k_cores s \<and> k_frame s' = k_frame s \<and>
    (\<forall>x. x \<noteq> t \<longrightarrow> k_threads s' x = k_threads s x) \<and> has_state s' THREAD_RUNNABLE t)"
proof -
  from kst_queued(2) [OF inv t] obtain cb where
    cb: "k_threads s t = Some cb" "t_state cb = THREAD_SUSPENDED" "t \<noteq> 0" by blast
  from k_remove_wait [OF q, of t] t obtain m where
    rem: "k_remove (k_wait s) t s = ok (1, s\<lparr>k_lists := m\<rparr>)"
      "kq (s\<lparr>k_lists := m\<rparr>) (V(k_wait s \<mapsto> (True, remove1 t W))) b R (remove1 t W) A" by auto
  then have run: "optimsoc_thread_resume env t s =
    bnd (k_add_tail env (k_ready (s\<lparr>k_lists := m\<rparr>)) t (s\<lparr>k_lists := m\<rparr>))
      (upd_thread t (\<lambda>cb. cb\<lparr>t_state := THREAD_RUNNABLE\<rparr>))"
    unfolding optimsoc_thread_resume_def using cb by simp
  show ?thesis
    unfolding run post_bnd
  proof (rule k_add_ready [OF rem(2) mal])
    fix m'
    let ?s1 = "s\<lparr>k_lists := m, k_lists := m'\<rparr>" and ?cb = "cb\<lparr>t_state := THREAD_RUNNABLE\<rparr>"
    let ?V = "V(k_wait s \<mapsto> (True, remove1 t W), k_ready s \<mapsto> (b \<or> R = [], R @ [t]))"
    assume "kq ?s1 (V(k_wait s \<mapsto> (True, remove1 t W),
        k_ready (s\<lparr>k_lists := m\<rparr>) \<mapsto> (b \<or> R = [], R @ [t]))) (b \<or> R = []) (R @ [t]) (remove1 t W) A"
    then have q2: "kq (put_thread t ?cb ?s1) ?V (b \<or> R = []) (R @ [t]) (remove1 t W) A" by simp
    have "kst ?s1 C R W A" using inv by simp
    from kst_resume [OF this t, of ?cb]
    have "kst (put_thread t ?cb ?s1) C (R @ [t]) (remove1 t W) A" by simp
    with q2 have "moved s V C (R @ [t]) (remove1 t W) A (put_thread t ?cb ?s1)"
      by (rule movedI) auto
    with cb show "post (upd_thread t (\<lambda>cb. cb\<lparr>t_state := THREAD_RUNNABLE\<rparr>) ?s1)
      (\<lambda>s'. moved s V C (R @ [t]) (remove1 t W) A s' \<and> k_cores s' = k_cores s \<and> k_frame s' = k_frame s \<and>
        (\<forall>x. x \<noteq> t \<longrightarrow> k_threads s' x = k_threads s x) \<and> has_state s' THREAD_RUNNABLE t)" by simp
  qed
qed

lemma drain_ex:
  assumes "store_inv (k_lists s) V" and "V l = Some (b, ds)" and "0 \<notin> set ds"
  shows "\<exists>m. drain_joinlist l s = ok (s\<lparr>k_lists := m\<rparr>) \<and> store_inv m (V(l \<mapsto> (b \<or> ds \<noteq> [], [])))"
  using assms
proof (induction ds arbitrary: s V b)
  case Nil
  from k_remove_head_ex [OF Nil.prems(1,2)] obtain m where
    "k_remove_head l s = ok (0, s\<lparr>k_lists := m\<rparr>)" "store_inv m (V(l \<mapsto> (b, [])))" by auto
  then show ?case by (subst drain_joinlist.simps) auto
next
  case (Cons d ds)
  from k_remove_head_ex [OF Cons.prems(1,2)] obtain m where
    m: "k_remove_head l s = ok (d, s\<lparr>k_lists := m\<rparr>)" "store_inv m (V(l \<mapsto> (ds = [], ds)))" by auto
  from m(2) have "store_inv (k_lists (s\<lparr>k_lists := m\<rparr>)) (V(l \<mapsto> (ds = [], ds)))" by simp
  moreover have "(V(l \<mapsto> (ds = [], ds))) l = Some (ds = [], ds)" "0 \<notin> set ds" using Cons.prems(3) by auto
  ultimately have "\<exists>m'. drain_joinlist l (s\<lparr>k_lists := m\<rparr>) = ok (s\<lparr>k_lists := m, k_lists := m'\<rparr>) \<and>
    store_inv m' (V(l \<mapsto> (ds = [], ds), l \<mapsto> (ds = [] \<or> ds \<noteq> [], [])))" by (rule Cons.IH)
  then have "\<exists>m'. drain_joinlist l (s\<lparr>k_lists := m\<rparr>) = ok (s\<lparr>k_lists := m'\<rparr>) \<and>
    store_inv m' (V(l \<mapsto> (True, [])))" by (simp only: fun_upd_upd kstate.simps excluded_middle disj_commute) simp
  then obtain m' where "drain_joinlist l (s\<lparr>k_lists := m\<rparr>) = ok (s\<lparr>k_lists := m'\<rparr>)"
    "store_inv m' (V(l \<mapsto> (True, [])))" by blast
  with m(1) Cons.prems(3) show ?case by (subst drain_joinlist.simps) auto
qed

text \<open>
  The thread that exits leaves the list of all threads, and its core goes on with the next
  ready one. The threads on its join list are dropped, not resumed.
\<close>

lemma exit_moved:
  assumes q: "kq s V b R W A" and inv: "kst s C R W A"
    and c: "c \<in> C" "active_on s c = t" "t \<noteq> idle_on s c"
    and cb: "k_threads s t = Some cb"
    and j: "V (t_joinlist cb) = Some (jb, js)" "0 \<notin> set js"
      "t_joinlist cb \<notin> {k_ready s, k_wait s, k_all s}"
  shows "\<exists>s'. optimsoc_thread_exit c s = ok s' \<and>
    moved s (V(t_joinlist cb \<mapsto> (jb \<or> js \<noteq> [], []))) C (tl R) W (remove1 t A) s' \<and>
    active_on s' c = (if R = [] then idle_on s c else hd R) \<and> k_threads s' = k_threads s \<and>
    (\<exists>cb. k_threads s (if R = [] then idle_on s c else hd R) = Some cb \<and> k_frame s' = (k_frame s)[c := t_ctx cb])"
proof -
  have ai: "active_on s c \<noteq> idle_on s c" using c by simp
  note act = kst_active [OF inv c(1) ai, unfolded c(2)]
  note cur = current_ok [OF inv c(1), unfolded c(2)]
  let ?V = "V(t_joinlist cb \<mapsto> (jb \<or> js \<noteq> [], []))"
  from q have "store_inv (k_lists s) V" by (simp add: kq_def)
  from drain_ex [OF this j(1,2)] obtain m where
    dr: "drain_joinlist (t_joinlist cb) s = ok (s\<lparr>k_lists := m\<rparr>)" "store_inv m ?V" by blast
  then have q1: "kq (s\<lparr>k_lists := m\<rparr>) ?V b R W A" using q j(3) by (auto simp: kq_def)
  from k_remove_all [OF q1, of t] act(3) obtain m' where
    rem: "k_remove (k_all s) t (s\<lparr>k_lists := m\<rparr>) = ok (1, s\<lparr>k_lists := m'\<rparr>)"
      "kq (s\<lparr>k_lists := m'\<rparr>) (?V(k_all s \<mapsto> (True, remove1 t A))) b R W (remove1 t A)" by auto
  have k1: "kst (s\<lparr>k_lists := m'\<rparr>) (C - {c}) R W (remove1 t A)"
    using kst_exit [OF inv c(1) ai] by (simp add: c(2))
  have "c \<in> cores (s\<lparr>k_lists := m'\<rparr>)" "c \<notin> C - {c}" using c kst_cores [OF inv c(1)] by simp_all
  from schedule_moved [OF rem(2) k1 this refl] obtain s' cb0 where
    s': "optimsoc_schedule c (s\<lparr>k_lists := m'\<rparr>) = ok s'"
      "moved (s\<lparr>k_lists := m'\<rparr>) (?V(k_all s \<mapsto> (True, remove1 t A))) (insert c (C - {c}))
         (tl R) W (remove1 t A) s'"
      "active_on s' c = (if R = [] then idle_on s c else hd R)" "k_threads s' = k_threads s"
      "k_threads s (if R = [] then idle_on s c else hd R) = Some cb0" "k_frame s' = (k_frame s)[c := t_ctx cb0]"
    by (auto cong: if_cong)
  have "moved s ?V C (tl R) W (remove1 t A) s'"
    by (rule moved_from [OF s'(2) [unfolded insert_Diff [OF c(1)]]]) auto
  moreover have "optimsoc_thread_exit c s = ok s'"
    using cur cb dr(1) rem(1) s'(1) by (simp add: optimsoc_thread_exit_def)
  ultimately show ?thesis using s' by blast
qed

lemma put_thread_put [simp]:
  "put_thread t x (put_thread t y s) = put_thread t x s"
  "(put_thread t x s)\<lparr>k_lists := m\<rparr> = put_thread t x (s\<lparr>k_lists := m\<rparr>)"
  by (simp_all add: put_thread_def)

lemma enqueue_new:
  assumes q: "kq s V b R W A" and inv: "kst s C R W A" and mal: "alloc_ok (o_mal env)"
    and t: "t \<noteq> 0" "k_threads s t = None"
  shows "post (bnd (optimsoc_scheduler_add env t (if susp then k_wait s else k_ready s) (put_thread t cb s))
      (\<lambda>s4. bnd (upd_thread t (\<lambda>cb. cb\<lparr>t_state := if susp then THREAD_SUSPENDED else THREAD_RUNNABLE\<rparr>) s4)
        (\<lambda>s5. bnd (k_add_tail env (k_all s5) t s5) (\<lambda>s6. ok (t, s6)))))
    (\<lambda>(t', s'). t' = t \<and> moved s V C (if susp then R else R @ [t]) (if susp then W @ [t] else W) (A @ [t]) s' \<and>
      (\<exists>m. s' = put_thread t (cb\<lparr>t_state := if susp then THREAD_SUSPENDED else THREAD_RUNNABLE\<rparr>)
         (s\<lparr>k_lists := m\<rparr>)))"
proof (cases susp)
  case True
  let ?cb = "cb\<lparr>t_state := THREAD_SUSPENDED\<rparr>"
  have "k_wait s \<noteq> k_ready s" using q by (auto simp: kq_def)
  then have run: "optimsoc_scheduler_add env t (k_wait s) (put_thread t cb s) =
      k_add_tail env (k_wait (put_thread t cb s)) t (put_thread t cb s)"
    by (simp add: optimsoc_scheduler_add_def)
  have q0: "kq (put_thread t cb s) V b R W A" using q by simp
  have "post (k_add_tail env (k_wait (put_thread t cb s)) t (put_thread t cb s)) (\<lambda>s4.
      post (k_add_tail env (k_all s) t (put_thread t ?cb s4)) (\<lambda>s'.
        moved s V C R (W @ [t]) (A @ [t]) s' \<and> (\<exists>m. s' = put_thread t ?cb (s\<lparr>k_lists := m\<rparr>))) \<and>
      k_threads s4 t = Some cb \<and> k_all s4 = k_all s)"
  proof (rule k_add_wait [OF q0 mal], intro conjI)
    fix m
    let ?s = "put_thread t ?cb (s\<lparr>k_lists := m\<rparr>)"
    let ?V = "V(k_wait s \<mapsto> (True, W @ [t]))"
    assume "kq ((put_thread t cb s)\<lparr>k_lists := m\<rparr>) (V(k_wait (put_thread t cb s) \<mapsto> (True, W @ [t]))) b R (W @ [t]) A"
    then have q1: "kq ?s ?V b R (W @ [t]) A" by simp
    have "post (k_add_tail env (k_all ?s) t ?s) (\<lambda>s'.
        moved s V C R (W @ [t]) (A @ [t]) s' \<and> (\<exists>m. s' = put_thread t ?cb (s\<lparr>k_lists := m\<rparr>)))"
    proof (rule k_add_all [OF q1 mal], intro conjI)
      fix m'
      assume q2: "kq (?s\<lparr>k_lists := m'\<rparr>) (?V(k_all ?s \<mapsto> (True, A @ [t]))) b R (W @ [t]) (A @ [t])"
      have "kst (?s\<lparr>k_lists := m'\<rparr>) C R (W @ [t]) (A @ [t])"
        using kst_new(2) [OF inv t, of ?cb] by (simp add: put_thread_def)
      with q2 show "moved s V C R (W @ [t]) (A @ [t]) (?s\<lparr>k_lists := m'\<rparr>)"
        by (rule movedI) auto
      show "\<exists>m. ?s\<lparr>k_lists := m'\<rparr> = put_thread t ?cb (s\<lparr>k_lists := m\<rparr>)" by auto
    qed
    then show "post (k_add_tail env (k_all s) t (put_thread t ?cb ((put_thread t cb s)\<lparr>k_lists := m\<rparr>))) (\<lambda>s'.
        moved s V C R (W @ [t]) (A @ [t]) s' \<and> (\<exists>m. s' = put_thread t ?cb (s\<lparr>k_lists := m\<rparr>)))"
      by simp
  qed simp_all
  then show ?thesis
    unfolding post_bnd using True t(1) run by (auto elim!: post_mono)
next
  case False
  let ?cb = "cb\<lparr>t_state := THREAD_RUNNABLE\<rparr>"
  have run: "optimsoc_scheduler_add env t (k_ready s) (put_thread t cb s) =
      k_add_tail env (k_ready (put_thread t ?cb s)) t (put_thread t ?cb s)"
    using t(1) by (simp add: optimsoc_scheduler_add_def)
  have q0: "kq (put_thread t ?cb s) V b R W A" using q by simp
  have "post (k_add_tail env (k_ready (put_thread t ?cb s)) t (put_thread t ?cb s)) (\<lambda>s4.
      post (k_add_tail env (k_all s) t (put_thread t ?cb s4)) (\<lambda>s'.
        moved s V C (R @ [t]) W (A @ [t]) s' \<and> (\<exists>m. s' = put_thread t ?cb (s\<lparr>k_lists := m\<rparr>))) \<and>
      k_threads s4 t = Some ?cb \<and> k_all s4 = k_all s)"
  proof (rule k_add_ready [OF q0 mal], intro conjI)
    fix m
    let ?s = "put_thread t ?cb (s\<lparr>k_lists := m\<rparr>)"
    let ?V = "V(k_ready s \<mapsto> (b \<or> R = [], R @ [t]))"
    assume "kq ((put_thread t ?cb s)\<lparr>k_lists := m\<rparr>)
      (V(k_ready (put_thread t ?cb s) \<mapsto> (b \<or> R = [], R @ [t]))) (b \<or> R = []) (R @ [t]) W A"
    then have q1: "kq ?s ?V (b \<or> R = []) (R @ [t]) W A" by simp
    have "post (k_add_tail env (k_all ?s) t ?s) (\<lambda>s'.
        moved s V C (R @ [t]) W (A @ [t]) s' \<and> (\<exists>m. s' = put_thread t ?cb (s\<lparr>k_lists := m\<rparr>)))"
    proof (rule k_add_all [OF q1 mal], intro conjI)
      fix m'
      assume q2: "kq (?s\<lparr>k_lists := m'\<rparr>) (?V(k_all ?s \<mapsto> (True, A @ [t]))) (b \<or> R = []) (R @ [t]) W (A @ [t])"
      have "kst (?s\<lparr>k_lists := m'\<rparr>) C (R @ [t]) W (A @ [t])"
        using kst_new(1) [OF inv t, of ?cb] by (simp add: put_thread_def)
      with q2 show "moved s V C (R @ [t]) W (A @ [t]) (?s\<lparr>k_lists := m'\<rparr>)"
        by (rule movedI) auto
      show "\<exists>m. ?s\<lparr>k_lists := m'\<rparr> = put_thread t ?cb (s\<lparr>k_lists := m\<rparr>)" by auto
    qed
    then show "post (k_add_tail env (k_all s) t (put_thread t ?cb ((put_thread t ?cb s)\<lparr>k_lists := m\<rparr>))) (\<lambda>s'.
        moved s V C (R @ [t]) W (A @ [t]) s' \<and> (\<exists>m. s' = put_thread t ?cb (s\<lparr>k_lists := m\<rparr>)))"
      by simp
  qed simp_all
  then show ?thesis
    unfolding post_bnd using False t(1) run by (auto elim!: post_mono)
qed

text \<open>A new thread, in the queue its flags name.\<close>

lemma create_moved:
  fixes a :: thread_attr and s :: kstate
  assumes q: "kq s V b R W A" and inv: "kst s C R W A"
    and mal: "alloc_ok (o_mal env)" "alloc_ok (o_tcb_mal env)"
    and name: "at_identifier a = Some n"
    and i: "i = (if at_flags a AND OPTIMSOC_THREAD_FLAG_FORCEID \<noteq> 0 then at_force_id a else k_next_id s)"
    and susp: "susp \<longleftrightarrow> at_flags a AND OPTIMSOC_THREAD_FLAG_CREATE_SUSPENDED \<noteq> 0"
  shows "post (optimsoc_thread_create env [] start (Some a) s) (\<lambda>(t, s').
    t \<noteq> 0 \<and> k_threads s t = None \<and>
    (\<exists>j. V j = None \<and> j \<noteq> 0 \<and> moved s (V(j \<mapsto> (True, []))) C
      (if susp then R else R @ [t]) (if susp then W @ [t] else W) (A @ [t]) s' \<and>
      (\<exists>cb. k_threads s' t = Some cb \<and> t_id cb = i \<and> t_flags cb = at_flags a \<and> t_joinlist cb = j \<and>
        t_name cb = take 63 (''thread '' @ dec_of (unat i)))) \<and>
    k_cores s' = k_cores s \<and> (\<forall>x. x \<noteq> t \<longrightarrow> k_threads s' x = k_threads s x) \<and>
    k_next_id s' = (if at_flags a AND OPTIMSOC_THREAD_FLAG_FORCEID \<noteq> 0 then k_next_id s else k_next_id s + 1))"
    (is "post _ ?Q")
proof -
  define t where "t = o_tcb_mal env (\<lambda>p. k_threads s p \<noteq> None)"
  define n' where "n' = (if at_flags a AND OPTIMSOC_THREAD_FLAG_FORCEID \<noteq> 0 then k_next_id s else k_next_id s + 1)"
  have draw: "(if at_flags a AND OPTIMSOC_THREAD_FLAG_FORCEID \<noteq> 0 then (at_force_id a, s)
      else thread_draw_id [] s) = (i, s\<lparr>k_next_id := n'\<rparr>)"
    using i by (simp add: thread_draw_id_def n'_def)
  show ?thesis
  proof (cases "t = 0")
    case True
    then show ?thesis by (simp add: optimsoc_thread_create_def t_def Let_def)
  next
    case False
    then have fresh: "k_threads s t = None" using alloc_okD [OF mal(2), of "\<lambda>p. k_threads s p \<noteq> None"] by (simp add: t_def)
    have ctx: "post (optimsoc_context_create env ((o_tcb_junk env)\<lparr>t_flags := at_flags a\<rparr>) start (at_args a))
        (\<lambda>cb. t_flags cb = at_flags a)"
      by (simp add: optimsoc_context_create_def)
    have tail: "post (bnd (k_list_init env 0 (s\<lparr>k_next_id := n'\<rparr>)) (\<lambda>(jl, s2).
        let s3 = put_thread t (cb\<lparr>t_id := i, t_name := nm, t_joinlist := jl\<rparr>) s2 in
        bnd (optimsoc_scheduler_add env t (if susp then k_wait s3 else k_ready s3) s3) (\<lambda>s4.
          bnd (upd_thread t (\<lambda>cb. cb\<lparr>t_state := if susp then THREAD_SUSPENDED else THREAD_RUNNABLE\<rparr>) s4)
            (\<lambda>s5. bnd (k_add_tail env (k_all s5) t s5) (\<lambda>s6. ok (t, s6)))))) ?Q"
      if cb: "t_flags cb = at_flags a" and nm: "nm = take 63 (''thread '' @ dec_of (unat i))" for cb nm
      unfolding k_list_init_def Let_def post_bnd
    proof (rule ls.init_post [OF _ mal(1)])
      show "store_inv (k_lists (s\<lparr>k_next_id := n'\<rparr>)) V" using q by (simp add: kq_def)
      fix j m assume j: "j \<noteq> 0" "V j = None"
        and m: "store_inv m (V(j \<mapsto> (True, if (0::ptr) = 0 then [] else [0])))"
      let ?s = "s\<lparr>k_next_id := n', k_lists := m\<rparr>" and ?V = "V(j \<mapsto> (True, []))"
      let ?cb = "cb\<lparr>t_id := i, t_name := nm, t_joinlist := j\<rparr>"
      have q1: "kq ?s ?V b R W A" using q m j by (auto simp: kq_def)
      have k1: "kst ?s C R W A" using inv by simp
      have f1: "k_threads ?s t = None" using fresh by simp
      from enqueue_new [OF q1 k1 mal(1) False f1, of susp ?cb]
      show "post (case (j, m) of (l, m) \<Rightarrow> ok (l, (s\<lparr>k_next_id := n'\<rparr>)\<lparr>k_lists := m\<rparr>)) (\<lambda>x.
        post (case x of (jl, s2) \<Rightarrow>
          bnd (optimsoc_scheduler_add env t
              (if susp then k_wait (put_thread t (cb\<lparr>t_id := i, t_name := nm, t_joinlist := jl\<rparr>) s2)
               else k_ready (put_thread t (cb\<lparr>t_id := i, t_name := nm, t_joinlist := jl\<rparr>) s2))
              (put_thread t (cb\<lparr>t_id := i, t_name := nm, t_joinlist := jl\<rparr>) s2)) (\<lambda>s4.
            bnd (upd_thread t (\<lambda>cb. cb\<lparr>t_state := if susp then THREAD_SUSPENDED else THREAD_RUNNABLE\<rparr>) s4)
              (\<lambda>s5. bnd (k_add_tail env (k_all s5) t s5) (\<lambda>s6. ok (t, s6))))) ?Q)"
        unfolding prod.case post_simps put_thread_simps
      proof (rule post_mono, goal_cases)
        case (1 x)
        then obtain s' m2 where x: "x = (t, s')"
          "moved ?s ?V C (if susp then R else R @ [t]) (if susp then W @ [t] else W) (A @ [t]) s'"
          "s' = put_thread t (?cb\<lparr>t_state := if susp then THREAD_SUSPENDED else THREAD_RUNNABLE\<rparr>)
             (?s\<lparr>k_lists := m2\<rparr>)" by auto
        have "moved s ?V C (if susp then R else R @ [t]) (if susp then W @ [t] else W) (A @ [t]) s'"
          by (rule moved_from [OF x(2)]) auto
        then show ?case
          using x(1,3) False fresh j cb nm by (auto simp: n'_def)
      qed
    qed
    show ?thesis
      unfolding optimsoc_thread_create_def option.case bnd_simps Let_def t_def [symmetric] draw prod.case
      using False name tail susp
      by (auto simp: post_bnd [of "optimsoc_context_create _ _ _ _"] thread_name_def Let_def
          intro!: post_mono [OF ctx])
  qed
qed

text \<open>
  The timer tick of a core: the interrupted thread keeps the context it was interrupted
  with and goes to the end of the ready queue, the head of the queue runs next on the
  context it was stored with.
\<close>

lemma tick_moved:
  assumes q: "kq s V b R W A" and inv: "kst s C R W A" and mal: "alloc_ok (o_mal env)"
    and c: "c \<in> C" and no_timers: "k_timers s = 0"
    and R': "R' = (if active_on s c = idle_on s c then R else R @ [active_on s c])"
  shows "post (optimsoc_scheduler_tick env c s) (\<lambda>s'.
    moved s V C (tl R') W A s' \<and>
    active_on s' c = (if R' = [] then idle_on s c else hd R') \<and> idle_on s' = idle_on s \<and>
    (\<exists>cb. k_threads s (active_on s c) = Some cb \<and>
       k_threads s' = (k_threads s)(active_on s c \<mapsto> cb\<lparr>t_ctx := k_frame s ! c\<rparr>)) \<and>
    (\<exists>cb. k_threads s' (active_on s' c) = Some cb \<and> k_frame s' = (k_frame s)[c := t_ctx cb]))"
    (is "post _ ?Q")
proof -
  let ?t = "active_on s c"
  note cur = current_ok [OF inv c]
  obtain cb where cb: "k_threads s ?t = Some cb" "?t \<noteq> idle_on s c \<Longrightarrow> t_state cb = THREAD_RUNNABLE"
  proof (cases "?t = idle_on s c")
    case True
    with inv kst_cores [OF inv c] that show thesis by (auto simp: kst_def cores_ok_def)
  next
    case False
    with kst_active(5) [OF inv c] that show thesis by blast
  qed
  let ?cb = "cb\<lparr>t_ctx := k_frame s ! c\<rparr>"
  let ?s1 = "put_thread ?t ?cb s"
  have k1: "kst ?s1 C R W A" by (rule kst_put_same [OF inv cb(1)]) simp
  have core: "get_core c s = ok (k_cores s ! c)" "active_thread (k_cores s ! c) = ?t"
    "idle_thread (k_cores s ! c) = idle_on s c"
    using cur(4) by (simp_all add: get_core_def active_on_def idle_on_def)
  have save: "optimsoc_context_save c ?t s = ok ?s1"
    using cb(1) cur(3,6) by (simp add: optimsoc_context_save_def optimsoc_context_copy_def)
  have run: "optimsoc_scheduler_tick env c s =
    bnd (if ?t \<noteq> idle_on s c then optimsoc_scheduler_add env ?t (k_ready ?s1) ?s1 else ok ?s1)
      (optimsoc_schedule c)"
    using core save no_timers by (simp add: optimsoc_scheduler_tick_def optimsoc_timer_tick_def)
  have fin: "post (optimsoc_schedule c s2) ?Q"
    if q2: "kq s2 V2 b2 R' W A" and k2: "kst s2 (C - {c}) R' W A"
      and s2: "s2 = put_thread ?t ?cb (s\<lparr>k_lists := m\<rparr>)"
      and V2: "\<And>l. l \<notin> {k_ready s, k_wait s, k_all s} \<Longrightarrow> V2 l = V l" for s2 V2 b2 m
  proof -
    have "c \<in> cores s2" "c \<notin> C - {c}" using c s2 kst_cores [OF inv c] by simp_all
    from schedule_moved [OF q2 k2 this refl] obtain s' cb' where
      s': "optimsoc_schedule c s2 = ok s'"
        "moved s2 V2 (insert c (C - {c})) (tl R') W A s'"
        "active_on s' c = (if R' = [] then idle_on s2 c else hd R')" "k_threads s' = k_threads s2"
        "idle_on s' = idle_on s2"
        "k_threads s2 (if R' = [] then idle_on s2 c else hd R') = Some cb'"
        "k_frame s' = (k_frame s2)[c := t_ctx cb']" by blast
    have "moved s V C (tl R') W A s'"
      by (rule moved_from [OF s'(2) [unfolded insert_Diff [OF c]]]) (use s2 V2 in auto)
    moreover have "k_threads s' = (k_threads s)(?t \<mapsto> ?cb)" "idle_on s' = idle_on s"
      "idle_on s2 = idle_on s" "k_frame s2 = k_frame s"
      using s' s2 by simp_all
    moreover have "k_threads s' (active_on s' c) = Some cb'" using s'(3,4,6) by simp
    ultimately have "?Q s'"
      using s'(3,7) cb(1) by (intro conjI exI [of _ cb] exI [of _ cb']) simp_all
    then show ?thesis unfolding s'(1) post_simps .
  qed
  show ?thesis
  proof (cases "?t = idle_on s c")
    case True
    have "kq ?s1 V b R' W A" "kst ?s1 (C - {c}) R' W A"
      using q R' True kst_release_idle [OF k1 c] by simp_all
    from fin [OF this, of "k_lists s"] True show ?thesis unfolding run by simp
  next
    case False
    have "?cb\<lparr>t_state := THREAD_RUNNABLE\<rparr> = ?cb" using cb(2) [OF False] by simp
    then have add: "optimsoc_scheduler_add env ?t (k_ready ?s1) ?s1 = k_add_tail env (k_ready ?s1) ?t ?s1"
      using cur(3) by (simp add: optimsoc_scheduler_add_def)
    have q1: "kq ?s1 V b R W A" using q by simp
    have "post (k_add_tail env (k_ready ?s1) ?t ?s1) (\<lambda>s2. post (optimsoc_schedule c s2) ?Q)"
    proof (rule k_add_ready [OF q1 mal])
      fix m
      assume q2: "kq (?s1\<lparr>k_lists := m\<rparr>) (V(k_ready ?s1 \<mapsto> (b \<or> R = [], R @ [?t]))) (b \<or> R = []) (R @ [?t]) W A"
      have "kst ?s1 (C - {c}) (R @ [?t]) W A" using kst_requeue [OF k1 c] False by simp
      then have k2: "kst (?s1\<lparr>k_lists := m\<rparr>) (C - {c}) R' W A" using R' False by (simp del: put_thread_put)
      have q3: "kq (?s1\<lparr>k_lists := m\<rparr>) (V(k_ready s \<mapsto> (b \<or> R = [], R @ [?t]))) (b \<or> R = []) R' W A"
        using q2 R' False by simp
      show "post (optimsoc_schedule c (?s1\<lparr>k_lists := m\<rparr>)) ?Q"
        by (rule fin [OF q3 k2, of m]) simp_all
    qed
    then show ?thesis unfolding run post_bnd using False add by simp
  qed
qed

end
