(* ===== verification/Sched_Props.thy ===== *)
theory Sched_Props
  imports Scheduler
begin

section \<open>Properties of the thread system\<close>

text \<open>
  The invariant of the thread system as one predicate, the system as a step relation whose
  steps are the kernel operations, the preservation of the invariant by every step, and
  round-robin scheduling.
\<close>

subsection \<open>The invariant and the steps\<close>

text \<open>
  The queues of the kernel hold \<open>R\<close> and \<open>W\<close>, all threads are \<open>A\<close>, every core of \<open>C\<close> runs a
  thread or idles; no timer is pending. The cores outside of \<open>C\<close> have not started yet.
\<close>

definition sched_on :: "kstate \<Rightarrow> nat set \<Rightarrow> ptr list \<Rightarrow> ptr list \<Rightarrow> ptr list \<Rightarrow> bool" where
  "sched_on s C R W A \<longleftrightarrow> k_timers s = 0 \<and> kst s C R W A \<and> (\<exists>V b. kq s V b R W A)"

definition sched :: "kstate \<Rightarrow> ptr list \<Rightarrow> ptr list \<Rightarrow> ptr list \<Rightarrow> bool" where
  "sched s R W A \<longleftrightarrow> k_timers s = 0 \<and> kst s (cores s) R W A \<and> (\<exists>V b. kq s V b R W A)"

lemma sched_on_all: "sched_on s (cores s) R W A \<longleftrightarrow> sched s R W A"
  by (simp add: sched_on_def sched_def)

text \<open>
  One operation that returns, on one of the cores of \<open>C\<close>. The suspension of a ready thread by another one is not a step
  here: it is safe only while the head of the ready queue is clean.
\<close>

inductive kstep :: "osenv \<Rightarrow> nat set \<Rightarrow> kstate \<Rightarrow> kstate \<Rightarrow> bool" for env C where
  tick: "c \<in> C \<Longrightarrow> optimsoc_scheduler_tick env c s = ok s' \<Longrightarrow> kstep env C s s'"
| yield: "c \<in> C \<Longrightarrow> active_on s c = t \<Longrightarrow> t \<noteq> idle_on s c \<Longrightarrow> k_threads s t = Some cb \<Longrightarrow>
    t_flags cb AND OPTIMSOC_THREAD_FLAG_KERNEL \<noteq> 0 \<Longrightarrow>
    optimsoc_thread_yield env c t s = ok s' \<Longrightarrow> kstep env C s s'"
| suspend: "c \<in> C \<Longrightarrow> active_on s c = t \<Longrightarrow> t \<noteq> idle_on s c \<Longrightarrow> k_threads s t = Some cb \<Longrightarrow>
    t_flags cb AND OPTIMSOC_THREAD_FLAG_KERNEL \<noteq> 0 \<Longrightarrow>
    optimsoc_thread_suspend env c t s = ok s' \<Longrightarrow> kstep env C s s'"
| resume: "optimsoc_thread_resume env t s = ok s' \<Longrightarrow> kstep env C s s'"
| create: "at_identifier a = Some n \<Longrightarrow>
    optimsoc_thread_create env [] start (Some a) s = ok (t, s') \<Longrightarrow> kstep env C s s'"

text \<open>A resumption that returns was one of a waiting thread.\<close>

lemma resume_only_waiting:
  assumes q: "kq s V b R W A" and "optimsoc_thread_resume env t s = ok s'"
  shows "t \<in> set W"
proof (rule ccontr)
  assume "t \<notin> set W"
  with k_remove_wait [OF q, of t] obtain m where "k_remove (k_wait s) t s = ok (0, s\<lparr>k_lists := m\<rparr>)"
    by auto
  with assms(2) show False
    by (auto simp: optimsoc_thread_resume_def bnd_ok_iff assert_c_def split: if_splits)
qed

lemma sched_on_moved:
  assumes "moved s V C R W A s'" and "k_timers s = 0"
  shows "sched_on s' C R W A \<and> cores s' = cores s"
  using assms by (auto simp: moved_def sched_on_def)

lemma sched_of_moved:
  assumes "moved s V (cores s) R W A s'" and "k_timers s = 0"
  shows "sched s' R W A"
  using sched_on_moved [OF assms] by (metis sched_on_all)

text \<open>Every operation that returns leaves a state that satisfies the invariant again.\<close>

lemma kstep_sched_on:
  assumes step: "kstep env C s s'" and inv: "sched_on s C R W A"
    and mal: "alloc_ok (o_mal env)" "alloc_ok (o_tcb_mal env)"
  shows "\<exists>R' W' A'. sched_on s' C R' W' A' \<and> cores s' = cores s"
proof -
  from inv obtain V b where q: "kq s V b R W A" and k: "kst s C R W A" and nt: "k_timers s = 0"
    by (auto simp: sched_on_def)
  from step show ?thesis
  proof cases
    case (tick c)
    with tick_moved [OF q k mal(1) _ nt refl] nt show ?thesis
      by (fastforce dest: sched_on_moved)
  next
    case (yield c t cb)
    with yield_self [OF q k mal(1)] nt show ?thesis by (fastforce dest: sched_on_moved)
  next
    case (suspend c t cb)
    with suspend_self [OF q k mal(1)] nt show ?thesis by (fastforce dest: sched_on_moved)
  next
    case (resume t)
    with resume_waiting [OF q k mal(1) resume_only_waiting [OF q resume]] nt
    show ?thesis by (fastforce dest: sched_on_moved)
  next
    case (create a n start t)
    with create_moved [OF q k mal _ refl refl, of a n start] nt show ?thesis
      by (fastforce dest: sched_on_moved)
  qed
qed

lemma ksteps_sched_on:
  assumes "(kstep env C)\<^sup>*\<^sup>* s s'" and "sched_on s C R W A"
    and "alloc_ok (o_mal env)" "alloc_ok (o_tcb_mal env)"
  shows "\<exists>R' W' A'. sched_on s' C R' W' A' \<and> cores s' = cores s"
  using assms(1,2)
proof (induction rule: rtranclp_induct)
  case (step y z)
  then obtain R' W' A' where "sched_on y C R' W' A'" "cores y = cores s" by blast
  with kstep_sched_on [OF step(2) this(1) assms(3,4)] show ?case by metis
qed blast

lemma ksteps_sched:
  assumes "(kstep env (cores s))\<^sup>*\<^sup>* s s'" and "sched s R W A"
    and "alloc_ok (o_mal env)" "alloc_ok (o_tcb_mal env)"
  shows "\<exists>R' W' A'. sched s' R' W' A'"
  using ksteps_sched_on [OF assms(1) _ assms(3,4), of R W A] assms(2) by (metis sched_on_all)

subsection \<open>A concrete kernel state\<close>

text \<open>
  One core with the idle thread 256, the running thread 512, the ready threads 768, 896 and
  960, and the suspended thread 1024; all are kernel threads.
\<close>

definition demo_thread :: "u32 \<Rightarrow> thread_state \<Rightarrow> thread_cb" where
  "demo_thread i st = \<lparr>t_id = i, t_ctx = zero_ctx\<lparr>c_pc := i\<rparr>, t_stack = 0,
     t_flags = OPTIMSOC_THREAD_FLAG_KERNEL, t_page_dir = 0, t_state = st, t_exit_code = 0,
     t_joinlist = 4, t_name = ''demo'', t_extra_data = 0\<rparr>"

definition demo_lists :: lmem where
  "demo_lists = \<lparr>
     entries = [10 \<mapsto> \<lparr>e_data = 768, e_prev = 0, e_next = 11\<rparr>,
                11 \<mapsto> \<lparr>e_data = 896, e_prev = 10, e_next = 12\<rparr>,
                12 \<mapsto> \<lparr>e_data = 960, e_prev = 11, e_next = 0\<rparr>,
                20 \<mapsto> \<lparr>e_data = 1024, e_prev = 0, e_next = 0\<rparr>,
                30 \<mapsto> \<lparr>e_data = 512, e_prev = 0, e_next = 31\<rparr>,
                31 \<mapsto> \<lparr>e_data = 768, e_prev = 30, e_next = 32\<rparr>,
                32 \<mapsto> \<lparr>e_data = 896, e_prev = 31, e_next = 33\<rparr>,
                33 \<mapsto> \<lparr>e_data = 960, e_prev = 32, e_next = 34\<rparr>,
                34 \<mapsto> \<lparr>e_data = 1024, e_prev = 33, e_next = 0\<rparr>],
     lists = [1 \<mapsto> \<lparr>l_head = 10, l_tail = 12\<rparr>,
              2 \<mapsto> \<lparr>l_head = 20, l_tail = 20\<rparr>,
              3 \<mapsto> \<lparr>l_head = 30, l_tail = 34\<rparr>,
              4 \<mapsto> \<lparr>l_head = 0, l_tail = 0\<rparr>]\<rparr>"

definition demo_state :: kstate where
  "demo_state = \<lparr>k_lists = demo_lists,
     k_threads = [256 \<mapsto> demo_thread 1 THREAD_RUNNABLE, 512 \<mapsto> demo_thread 2 THREAD_RUNNABLE,
                  768 \<mapsto> demo_thread 3 THREAD_RUNNABLE, 896 \<mapsto> demo_thread 4 THREAD_RUNNABLE,
                  960 \<mapsto> demo_thread 6 THREAD_RUNNABLE, 1024 \<mapsto> demo_thread 5 THREAD_SUSPENDED],
     k_all = 3, k_ready = 1, k_wait = 2, k_init = 512,
     k_cores = [\<lparr>idle_thread = 256, active_thread = 512\<rparr>], k_next_id = 7,
     k_cpu = [zero_ctx], k_frame = [zero_ctx], k_timers = 0, k_timer_objs = Map.empty,
     k_ticks = 100, k_globalids = 0\<rparr>"

definition demo_view :: view where
  "demo_view = [1 \<mapsto> (True, [768, 896, 960]), 2 \<mapsto> (True, [1024]), 3 \<mapsto> (True, [512, 768, 896, 960, 1024]),
     4 \<mapsto> (True, [])]"

definition demo_env :: osenv where
  "demo_env = \<lparr>o_mal = first_fit 100, o_tcb_mal = first_fit 100, o_stack_mal = 4096, o_ctx_mal = 8192,
     o_tcb_junk = demo_thread 0 THREAD_TERMINATED,
     o_attr_junk = \<lparr>at_args = 0, at_flags = 0, at_force_id = 0, at_identifier = None, at_extra_data = 0\<rparr>,
     o_kthread_handle = 64, o_wakeup = 68\<rparr>"

lemma demo_kq: "kq demo_state demo_view True [768, 896, 960] [1024] [512, 768, 896, 960, 1024]"
proof -
  let ?N = "\<lambda>l::ptr. if l = 1 then [(10, 768), (11, 896), (12, 960)] else if l = 2 then [(20, 1024)]
     else if l = 3 then [(30, 512), (31, 768), (32, 896), (33, 960), (34, 1024)] else ([] :: (ptr \<times> ptr) list)"
  have "lrep demo_lists 1 0 (?N 1)" "lrep demo_lists 2 0 (?N 2)" "lrep demo_lists 3 0 (?N 3)"
    "lrep demo_lists 4 0 (?N 4)"
    by (simp_all add: lrep_def demo_lists_def)
  moreover have "V = (1::ptr) \<or> V = 2 \<or> V = 3 \<or> V = 4" if "demo_view V = Some x" for V x
    using that by (auto simp: demo_view_def split: if_splits)
  ultimately have "store_rep demo_lists demo_view ?N (\<lambda>_. 0)"
    by (auto simp: store_rep_def demo_view_def split: if_splits)
  then have "store_inv demo_lists demo_view" by (auto simp: store_inv_def)
  then show ?thesis by (simp add: kq_def demo_state_def demo_view_def)
qed

lemma demo_kst: "kst demo_state (cores demo_state) [768, 896, 960] [1024] [512, 768, 896, 960, 1024]"
proof -
  have "cores demo_state = {0}" by (auto simp: cores_def demo_state_def)
  moreover have "active_on demo_state 0 = 512" "idle_on demo_state 0 = 256"
    by (simp_all add: active_on_def idle_on_def demo_state_def)
  moreover from this have "running demo_state {0} = {512}" by (auto simp: running_def)
  ultimately show ?thesis
    by (auto simp: kst_def cores_ok_def has_state_def demo_state_def demo_thread_def)
qed

lemma demo_sched: "sched demo_state [768, 896, 960] [1024] [512, 768, 896, 960, 1024]"
  using demo_kq demo_kst by (auto simp: sched_def demo_state_def)

lemma demo_env_ok: "alloc_ok (o_mal demo_env)" "alloc_ok (o_tcb_mal demo_env)"
  by (simp_all add: demo_env_def alloc_ok_first_fit)

lemma demo_core: "0 \<in> cores demo_state" "active_on demo_state 0 = 512" "idle_on demo_state 0 = 256"
  "k_timers demo_state = 0"
  by (simp_all add: cores_def active_on_def idle_on_def demo_state_def)

subsection \<open>Round robin\<close>

fun ticks :: "osenv \<Rightarrow> nat \<Rightarrow> nat \<Rightarrow> kstate \<Rightarrow> kstate exec" where
  "ticks env c 0 s = ok s"
| "ticks env c (Suc n) s = bnd (optimsoc_scheduler_tick env c s) (ticks env c n)"

lemma tick_sched:
  assumes "sched s R W A" and "alloc_ok (o_mal env)" and "c \<in> cores s"
    and "R' = (if active_on s c = idle_on s c then R else R @ [active_on s c])"
  shows "post (optimsoc_scheduler_tick env c s) (\<lambda>s'. sched s' (tl R') W A \<and> cores s' = cores s \<and>
    active_on s' c = (if R' = [] then idle_on s c else hd R') \<and> idle_on s' = idle_on s)"
proof -
  from assms(1) obtain V b where "kq s V b R W A" "kst s (cores s) R W A" "k_timers s = 0"
    by (auto simp: sched_def)
  from tick_moved [OF this(1,2) assms(2,3) this(3) assms(4)] this(3) show ?thesis
    by (elim post_mono) (metis moved_def sched_of_moved)
qed

text \<open>
  C1: no thread is lost or duplicated. Whatever sequence of ticks, yields, suspensions,
  resumptions and creations runs and returns, every thread that was created is in exactly
  one place: in the ready queue, in the wait queue or on one core; the list of all threads
  is these places together, and a thread of the ready queue or on a core is runnable, one of
  the wait queue is suspended.
\<close>

theorem no_thread_lost:
  assumes "sched s R W A" and "alloc_ok (o_mal env)" and "alloc_ok (o_tcb_mal env)"
    and "(kstep env (cores s))\<^sup>*\<^sup>* s s'"
  shows "\<exists>R' W' A'. sched s' R' W' A' \<and> distinct (R' @ W') \<and> distinct A' \<and>
    set A' = set R' \<union> set W' \<union> running s' (cores s') \<and>
    running s' (cores s') \<inter> (set R' \<union> set W') = {} \<and> inj_on (active_on s') (cores s') \<and>
    (\<forall>t. t \<in> set R' \<union> running s' (cores s') \<longrightarrow> has_state s' THREAD_RUNNABLE t) \<and>
    (\<forall>t. t \<in> set W' \<longrightarrow> has_state s' THREAD_SUSPENDED t)"
proof -
  from ksteps_sched [OF assms(4,1,2,3)] obtain R' W' A' where inv: "sched s' R' W' A'" by blast
  then have "kst s' (cores s') R' W' A'" by (simp add: sched_def)
  note k = this [unfolded kst_def cores_ok_def]
  show ?thesis
    by (intro exI [of _ R'] exI [of _ W'] exI [of _ A'] conjI inv) (use k in simp_all)
qed

lemma demo_resume: "\<exists>s'. optimsoc_thread_resume demo_env 1024 demo_state = ok s'"
proof -
  have "optimsoc_thread_resume demo_env 1024 demo_state \<noteq> flt NoMem"
    by (simp add: optimsoc_thread_resume_def get_thread_def demo_state_def demo_thread_def
        k_remove_def optimsoc_list_remove_def get_list_def demo_lists_def list_remove_loop.simps
        get_entry_def list_unlink_def free_entry_def set_list_def k_add_tail_def
        optimsoc_list_add_tail_def demo_env_def first_fit_def live_def upt_rec Let_def
        upd_entry_def set_entry_def upd_thread_def put_thread_def)
  with resume_waiting [OF demo_kq demo_kst demo_env_ok(1), of 1024] show ?thesis
    by (auto dest: post_ok)
qed

theorem no_thread_lost_witness:
  "\<exists>s' R' W' A'. kstep demo_env (cores demo_state) demo_state s' \<and> sched s' R' W' A' \<and>
     set A' = set R' \<union> set W' \<union> running s' (cores s')"
proof -
  from demo_resume obtain s' where "kstep demo_env (cores demo_state) demo_state s'" by (blast intro: kstep.resume)
  with no_thread_lost [OF demo_sched demo_env_ok, of s'] show ?thesis by blast
qed

text \<open>
  C12: scheduling is round robin. When the core is only interrupted by its timer, the thread
  at position \<open>n\<close> of the ready queue is the active one after \<open>n + 1\<close> ticks.
\<close>

theorem round_robin:
  assumes "sched s (xs @ t # ys) W A" and "alloc_ok (o_mal env)" and "c \<in> cores s"
  shows "post (ticks env c (Suc (length xs)) s) (\<lambda>s'. active_on s' c = t)"
  using assms(1,3)
proof (induction xs arbitrary: s ys)
  case Nil
  from tick_sched [OF Nil(1) assms(2) Nil(2) refl] show ?case
    by (simp add: post_bnd) (erule post_mono, auto split: if_splits)
next
  case (Cons x xs)
  let ?ys = "ys @ (if active_on s c = idle_on s c then [] else [active_on s c])"
  have eq: "(if active_on s c = idle_on s c then (x # xs) @ t # ys
      else ((x # xs) @ t # ys) @ [active_on s c]) = x # xs @ t # ?ys" by simp
  from tick_sched [OF Cons.prems(1) assms(2) Cons.prems(2) refl, unfolded eq]
  have "post (optimsoc_scheduler_tick env c s) (\<lambda>s'. sched s' (xs @ t # ?ys) W A \<and> c \<in> cores s')"
    using Cons.prems(2) by (elim post_mono) simp
  then have "post (bnd (optimsoc_scheduler_tick env c s) (ticks env c (Suc (length xs))))
      (\<lambda>s'. active_on s' c = t)"
    by (rule post_bndI) (blast intro: Cons.IH)
  then show ?case by (simp only: list.size(4) ticks.simps(2) add_Suc_right add_0_right)
qed

theorem round_robin_witness:
  "post (ticks demo_env 0 (Suc (length [768 :: ptr])) demo_state) (\<lambda>s'. active_on s' 0 = 896)"
  using round_robin [of demo_state "[768]" 896 "[960]" "[1024]" "[512, 768, 896, 960, 1024]" demo_env 0]
    demo_sched demo_env_ok demo_core by simp

text \<open>
  C31: preemption is transparent. The tick stores the registers of the interrupted thread,
  as the exception frame has them, in its control block and in no other one, and the frame
  the core returns through is the stored context of the thread that runs next.
\<close>

theorem tick_context:
  assumes "sched s R W A" and "alloc_ok (o_mal env)" and "c \<in> cores s"
  shows "post (optimsoc_scheduler_tick env c s) (\<lambda>s'.
    (\<exists>cb. k_threads s (active_on s c) = Some cb \<and>
       k_threads s' = (k_threads s)(active_on s c \<mapsto> cb\<lparr>t_ctx := k_frame s ! c\<rparr>)) \<and>
    (\<exists>cb. k_threads s' (active_on s' c) = Some cb \<and> k_frame s' = (k_frame s)[c := t_ctx cb]))"
proof -
  from assms(1) obtain V b where "kq s V b R W A" "kst s (cores s) R W A" "k_timers s = 0"
    by (auto simp: sched_def)
  from tick_moved [OF this(1,2) assms(2,3) this(3) refl] show ?thesis
    by (rule post_mono) blast
qed

theorem tick_context_witness:
  "post (optimsoc_scheduler_tick demo_env 0 demo_state) (\<lambda>s'.
     \<exists>cb. k_threads s' (active_on s' 0) = Some cb \<and> k_frame s' = (k_frame demo_state)[0 := t_ctx cb])"
  using tick_context [OF demo_sched demo_env_ok(1) demo_core(1)] by (rule post_mono) blast

text \<open>
  a thread of the ready queue that is suspended by another one and resumed is runnable
  again and at the end of the ready queue; all other queues are as before, and the cores
  run what they ran. It needs a clean head of the queue.
\<close>

theorem suspend_resume:
  assumes "kq s V b R W A" and "kst s (cores s) R W A" and "alloc_ok (o_mal env)" and "c \<in> cores s"
    and "t \<in> set R" and "b \<or> hd R \<noteq> t"
  shows "post (bnd (optimsoc_thread_suspend env c t s) (optimsoc_thread_resume env t)) (\<lambda>s'.
    moved s V (cores s) (remove1 t R @ [t]) W A s' \<and> k_cores s' = k_cores s \<and>
    has_state s' THREAD_RUNNABLE t)"
proof (rule post_bndI [OF suspend_ready [OF assms(1-5)]])
  show "b \<or> length R \<le> 1 \<or> hd R \<noteq> t" using assms(6) by blast
  fix s1 assume s1: "moved s V (cores s) (remove1 t R) (W @ [t]) A s1 \<and> k_cores s1 = k_cores s \<and>
    has_state s1 THREAD_SUSPENDED t"
  then obtain V' b' where q1: "kq s1 V' b' (remove1 t R) (W @ [t]) A" "kst s1 (cores s) (remove1 t R) (W @ [t]) A"
    "\<And>l. l \<notin> {k_ready s, k_wait s, k_all s} \<Longrightarrow> V' l = V l" by (auto simp: moved_def)
  have "t \<notin> set W" using assms(2,5) by (auto simp: kst_def)
  then have "remove1 t (W @ [t]) = W" by (simp add: remove1_append)
  with resume_waiting [OF q1(1,2) assms(3), of t]
  have "post (optimsoc_thread_resume env t s1) (\<lambda>s'. moved s1 V' (cores s) (remove1 t R @ [t]) W A s' \<and>
      k_cores s' = k_cores s1 \<and> has_state s' THREAD_RUNNABLE t)" by (auto elim: post_mono)
  then show "post (optimsoc_thread_resume env t s1) (\<lambda>s'. moved s V (cores s) (remove1 t R @ [t]) W A s' \<and>
      k_cores s' = k_cores s \<and> has_state s' THREAD_RUNNABLE t)"
  proof (rule post_mono)
    fix s' assume "moved s1 V' (cores s) (remove1 t R @ [t]) W A s' \<and> k_cores s' = k_cores s1 \<and>
      has_state s' THREAD_RUNNABLE t"
    then show "moved s V (cores s) (remove1 t R @ [t]) W A s' \<and> k_cores s' = k_cores s \<and>
      has_state s' THREAD_RUNNABLE t"
      using s1 moved_from [of s1 V' "cores s" "remove1 t R @ [t]" W A s' s V] q1(3)
      by (auto simp: moved_def)
  qed
qed

theorem suspend_resume_witness:
  "post (bnd (optimsoc_thread_suspend demo_env 0 768 demo_state) (optimsoc_thread_resume demo_env 768))
     (\<lambda>s'. has_state s' THREAD_RUNNABLE 768 \<and> k_cores s' = k_cores demo_state)"
proof -
  have "(768::ptr) \<in> set [768, 896, 960]" "True \<or> hd [768, 896, 960] \<noteq> (768::ptr)" by simp_all
  from suspend_resume [OF demo_kq demo_kst demo_env_ok(1) demo_core(1) this] show ?thesis
    by (rule post_mono) blast
qed

subsection \<open>Creation, and what goes wrong\<close>

text \<open>
  a new thread with an identifier attribute gets the next free number (or the forced
  one), the name made from the number, an empty join list of its own and the queue its flags
  ask for; nothing else changes but the number counter.
\<close>

theorem create_registers:
  fixes a :: thread_attr
  assumes "kq s V b R W A" and "kst s C R W A"
    and "alloc_ok (o_mal env)" and "alloc_ok (o_tcb_mal env)" and "at_identifier a = Some n"
    and "i = (if at_flags a AND OPTIMSOC_THREAD_FLAG_FORCEID \<noteq> 0 then at_force_id a else k_next_id s)"
    and "susp \<longleftrightarrow> at_flags a AND OPTIMSOC_THREAD_FLAG_CREATE_SUSPENDED \<noteq> 0"
  shows "post (optimsoc_thread_create env [] start (Some a) s) (\<lambda>(t, s').
    t \<noteq> 0 \<and> k_threads s t = None \<and>
    (\<exists>j. V j = None \<and> j \<noteq> 0 \<and> moved s (V(j \<mapsto> (True, []))) C
      (if susp then R else R @ [t]) (if susp then W @ [t] else W) (A @ [t]) s' \<and>
      (\<exists>cb. k_threads s' t = Some cb \<and> t_id cb = i \<and> t_flags cb = at_flags a \<and> t_joinlist cb = j \<and>
        t_name cb = take 63 (''thread '' @ dec_of (unat i)))) \<and>
    k_cores s' = k_cores s \<and> (\<forall>x. x \<noteq> t \<longrightarrow> k_threads s' x = k_threads s x) \<and>
    k_next_id s' = (if at_flags a AND OPTIMSOC_THREAD_FLAG_FORCEID \<noteq> 0 then k_next_id s else k_next_id s + 1))"
  by (rule create_moved [OF assms])

theorem create_registers_witness:
  "post (optimsoc_thread_create demo_env [] 80
      (Some \<lparr>at_args = 0, at_flags = 0x20000000, at_force_id = 0, at_identifier = Some ''x'',
             at_extra_data = 0\<rparr>) demo_state)
    (\<lambda>(t, s'). k_threads demo_state t = None \<and> k_next_id s' = k_next_id demo_state + 1)"
  by (rule post_mono [OF create_registers [OF demo_kq demo_kst demo_env_ok, OF _ refl refl]]) auto

lemma create_without_name:
  "optimsoc_thread_create env fs start None s \<in> {flt NoMem, flt NullDeref}"
  by (auto simp: optimsoc_thread_create_def optimsoc_thread_attr_init_def optimsoc_context_create_def
      thread_name_def Let_def case_prod_beta)

text \<open>
  Without an identifier, in particular with the default attributes, a thread is never
  created: the test of the identifier is the wrong way round and the default name is made
  by \<open>strndup\<close> of the null pointer.
\<close>

theorem create_unnamed_fails:
  "optimsoc_thread_create env fs start None s \<in> {flt NoMem, flt NullDeref}"
  by (rule create_without_name)

text \<open>
  After a thread was taken from the head of the ready queue, taking out the new head
  by its address writes through the pointer to the freed entry, if two more threads wait
  behind it or it is not the last.
\<close>

theorem remove_after_schedule:
  assumes "lrep (k_lists s) (k_ready s) q ((a, t) # (b, u) # n # ns)"
    and "c < length (k_cores s)" and "c < length (k_frame s)"
    and "k_threads s t = Some cb" and "t \<noteq> 0"
  shows "bnd (optimsoc_schedule c s) (optimsoc_thread_remove u) = flt UseAfterFree"
proof -
  from remove_head_lrep [OF assms(1)] obtain m where
    m: "optimsoc_list_remove_head (k_ready s) (k_lists s) = ok (t, m)" by blast
  with stale_head_remove [OF assms(1)]
  have rem: "optimsoc_list_remove (k_ready s) u m = flt UseAfterFree" by simp
  have "optimsoc_schedule c s = ok ((set_core c ((k_cores s ! c)\<lparr>active_thread := t\<rparr>) (s\<lparr>k_lists := m\<rparr>))
      \<lparr>k_frame := (k_frame s)[c := t_ctx cb]\<rparr>)"
    using assms(2-5) m
    by (simp add: optimsoc_schedule_def k_remove_head_def get_core_def Let_def
        optimsoc_context_restore_def optimsoc_context_copy_def set_core_def)
  with rem show ?thesis by (simp add: optimsoc_thread_remove_def k_remove_def)
qed

theorem remove_after_schedule_witness:
  "bnd (optimsoc_schedule 0 demo_state) (optimsoc_thread_remove 896) = flt UseAfterFree"
  by (rule remove_after_schedule [where t = 768 and q = 0 and a = 10 and b = 11 and n = "(12, 960)" and ns = "[]"])
    (simp_all add: demo_state_def demo_lists_def lrep_def)

end
