(* ===== verification/Vmm.thy ===== *)
theory Vmm
  imports Threads
begin

section \<open>Virtual memory (libruntime/vmm.c)\<close>

text \<open>
  Two-level page tables of the OpenRISC 1000. Memory is a map from the bases of allocated
  blocks to their words; a directory is a block of 256 entries, a page table one of 2048.
  The field macros are words functions of the same name. A load-linked and the following
  store-conditional may be disturbed: the functions that use them take the list of what
  the other cores do to the memory between the two in the attempts that fail; the attempt
  after the list is used up succeeds.
\<close>

subsection \<open>Addresses and page table entries\<close>

definition OR1K_ADDR_PN_GET :: "u32 \<Rightarrow> u32" where
  "OR1K_ADDR_PN_GET addr = drop_bit 13 addr"

definition OR1K_ADDR_PN_SET :: "u32 \<Rightarrow> u32 \<Rightarrow> u32" where
  "OR1K_ADDR_PN_SET addr pn = addr OR push_bit 13 (pn AND 0x7ffff)"

definition OR1K_ADDR_OFFSET_GET :: "u32 \<Rightarrow> u32" where
  "OR1K_ADDR_OFFSET_GET addr = addr AND 0x1fff"

definition OR1K_ADDR_OFFSET_SET :: "u32 \<Rightarrow> u32 \<Rightarrow> u32" where
  "OR1K_ADDR_OFFSET_SET addr offset = addr OR (offset AND 0x1fff)"

definition OR1K_ADDR_L1_INDEX_GET :: "u32 \<Rightarrow> u32" where
  "OR1K_ADDR_L1_INDEX_GET addr = drop_bit 24 addr"

definition OR1K_ADDR_L1_INDEX_SET :: "u32 \<Rightarrow> u32 \<Rightarrow> u32" where
  "OR1K_ADDR_L1_INDEX_SET addr idx = (addr AND 0x00ffffff) OR push_bit 24 idx"

definition OR1K_ADDR_L2_INDEX_GET :: "u32 \<Rightarrow> u32" where
  "OR1K_ADDR_L2_INDEX_GET addr = drop_bit 13 addr AND 0x7ff"

text \<open>The mask of the next macro has seven digits: it drops bits 28 to 31.\<close>

definition OR1K_ADDR_L2_INDEX_SET :: "u32 \<Rightarrow> u32 \<Rightarrow> u32" where
  "OR1K_ADDR_L2_INDEX_SET addr idx = (addr AND 0xff001ff) OR push_bit 13 (idx AND 0x7ff)"

definition OR1K_PTE_PPN_GET :: "u32 \<Rightarrow> u32" where
  "OR1K_PTE_PPN_GET pte = drop_bit 13 pte"

definition OR1K_PTE_PPN_SET :: "u32 \<Rightarrow> u32 \<Rightarrow> u32" where
  "OR1K_PTE_PPN_SET pte ppn = pte OR push_bit 13 ppn"

definition OR1K_PTE_PRESENT_GET :: "u32 \<Rightarrow> u32" where
  "OR1K_PTE_PRESENT_GET pte = drop_bit 10 pte AND 1"

definition OR1K_PTE_PRESENT_SET :: "u32 \<Rightarrow> u32 \<Rightarrow> u32" where
  "OR1K_PTE_PRESENT_SET pte present = (pte AND NOT (push_bit 10 1)) OR push_bit 10 (present AND 1)"

definition OR1K_PTE_LAST_GET :: "u32 \<Rightarrow> u32" where
  "OR1K_PTE_LAST_GET pte = drop_bit 9 pte AND 1"

definition OR1K_PTE_PPI_GET :: "u32 \<Rightarrow> u32" where
  "OR1K_PTE_PPI_GET pte = drop_bit 6 pte AND 7"

definition OR1K_PTE_PPI_SET :: "u32 \<Rightarrow> u32 \<Rightarrow> u32" where
  "OR1K_PTE_PPI_SET pte ppi = pte OR push_bit 6 (ppi AND 7)"

definition OR1K_PTABLE :: "u32 \<Rightarrow> u32" where
  "OR1K_PTABLE pte = pte AND 0xffffe000"

text \<open>\<open>(1 << USER) | (1 << WRITE) | (1 << EXEC)\<close>\<close>

definition PPI_ALL :: u32 where
  "PPI_ALL = push_bit 0 1 OR push_bit 1 1 OR push_bit 2 1"

subsection \<open>Memory\<close>

type_synonym vmem = "ptr \<Rightarrow> u32 list option"

definition vm_load :: "ptr \<Rightarrow> u32 \<Rightarrow> vmem \<Rightarrow> u32 exec" where
  "vm_load p i m =
     (case m p of None \<Rightarrow> flt UseAfterFree
      | Some ws \<Rightarrow> if unat i < length ws then ok (ws ! unat i) else flt OutOfBounds)"

definition vm_store :: "ptr \<Rightarrow> u32 \<Rightarrow> u32 \<Rightarrow> vmem \<Rightarrow> vmem exec" where
  "vm_store p i w m =
     (case m p of None \<Rightarrow> flt UseAfterFree
      | Some ws \<Rightarrow> if unat i < length ws then ok (m(p \<mapsto> ws[unat i := w])) else flt OutOfBounds)"

definition vm_free :: "ptr \<Rightarrow> vmem \<Rightarrow> vmem exec" where
  "vm_free p m = (if p = 0 then ok m else case m p of None \<Rightarrow> flt BadPtr | Some _ \<Rightarrow> ok (m(p := None)))"

text \<open>\<open>memalign\<close> gets the alignment, the size, and what is allocated.\<close>

type_synonym aligner = "u32 \<Rightarrow> u32 \<Rightarrow> (ptr \<Rightarrow> bool) \<Rightarrow> ptr"

definition VERIFY_DIR_ADDR :: "ptr \<Rightarrow> unit exec" where
  "VERIFY_DIR_ADDR dir = assert_c (dir \<noteq> 0 \<and> dir AND 0x3ff = 0)"

definition optimsoc_vmm_create_page_dir :: "aligner \<Rightarrow> vmem \<Rightarrow> (ptr \<times> vmem) exec" where
  "optimsoc_vmm_create_page_dir ma m =
     (let dir = ma 0x400 0x400 (\<lambda>p. m p \<noteq> None) in
      if dir = 0 then flt NoMem else ok (dir, m(dir \<mapsto> replicate 256 0)))"

definition optimsoc_vmm_create_page_table :: "aligner \<Rightarrow> vmem \<Rightarrow> (ptr \<times> vmem) exec" where
  "optimsoc_vmm_create_page_table ma m =
     (let table = ma 0x2000 0x2000 (\<lambda>p. m p \<noteq> None) in
      if table = 0 then flt NoMem else ok (table, m(table \<mapsto> replicate 2048 0)))"

subsection \<open>Mapping\<close>

text \<open>The loop that publishes a new page table: the directory entry, and the memory.\<close>

fun vmm_publish :: "(vmem \<Rightarrow> vmem) list \<Rightarrow> ptr \<Rightarrow> u32 \<Rightarrow> ptr \<Rightarrow> u32 \<Rightarrow> vmem \<Rightarrow> (u32 \<times> vmem) exec" where
  "vmm_publish [] dir i table dirpte m =
     (let pte = OR1K_PTE_PPN_SET (OR1K_PTE_PRESENT_SET dirpte 1) (OR1K_PTE_PPN_GET table) in
      bnd (vm_store dir i pte m) (\<lambda>m'. ok (pte, m')))"
| "vmm_publish (f # fs) dir i table dirpte m =
     bnd (vm_load dir i (f m)) (\<lambda>pte.
       if OR1K_PTE_PRESENT_GET pte = 1 then bnd (vm_free table (f m)) (\<lambda>m'. ok (pte, m'))
       else vmm_publish fs dir i table pte (f m))"

definition vmm_leaf :: "u32 \<Rightarrow> u32" where
  "vmm_leaf paddr =
     OR1K_PTE_PPI_SET
       (OR1K_PTE_PRESENT_SET (OR1K_PTE_PPN_SET 0 (OR1K_PTE_PPN_GET paddr)) 1) PPI_ALL"

fun vmm_set_entry :: "(vmem \<Rightarrow> vmem) list \<Rightarrow> ptr \<Rightarrow> u32 \<Rightarrow> u32 \<Rightarrow> vmem \<Rightarrow> (int \<times> vmem) exec" where
  "vmm_set_entry [] table i paddr m = bnd (vm_store table i (vmm_leaf paddr) m) (\<lambda>m'. ok (1, m'))"
| "vmm_set_entry (f # fs) table i paddr m =
     bnd (vm_load table i (f m)) (\<lambda>pte.
       if OR1K_PTE_PRESENT_GET pte = 1 then ok (0, f m) else vmm_set_entry fs table i paddr (f m))"

definition optimsoc_vmm_map ::
    "aligner \<Rightarrow> (vmem \<Rightarrow> vmem) list \<Rightarrow> (vmem \<Rightarrow> vmem) list \<Rightarrow> ptr \<Rightarrow> u32 \<Rightarrow> u32 \<Rightarrow> vmem \<Rightarrow> (int \<times> vmem) exec" where
  "optimsoc_vmm_map ma fs gs directory vaddr paddr m =
     bnd (VERIFY_DIR_ADDR directory) (\<lambda>_.
       bnd (vm_load directory (OR1K_ADDR_L1_INDEX_GET vaddr) m) (\<lambda>dirpte.
         bnd (if OR1K_PTE_PRESENT_GET dirpte = 0 then
                bnd (optimsoc_vmm_create_page_table ma m) (\<lambda>(table, m1).
                  bnd (vmm_publish fs directory (OR1K_ADDR_L1_INDEX_GET vaddr) table dirpte m1)
                    (\<lambda>(dirpte', m2). ok (table, dirpte', m2)))
              else ok (OR1K_PTABLE dirpte, dirpte, m)) (\<lambda>(table, dirpte', m2).
           bnd (assert_c (OR1K_PTE_LAST_GET dirpte' = 0)) (\<lambda>_.
             bnd (vm_load table (OR1K_ADDR_L2_INDEX_GET vaddr) m2) (\<lambda>pte.
               if OR1K_PTE_PRESENT_GET pte = 1 then ok (0, m2)
               else vmm_set_entry gs table (OR1K_ADDR_L2_INDEX_GET vaddr) paddr m2)))))"

definition optimsoc_vmm_unmap :: "ptr \<Rightarrow> u32 \<Rightarrow> vmem \<Rightarrow> (int \<times> vmem) exec" where
  "optimsoc_vmm_unmap directory vaddr m =
     bnd (VERIFY_DIR_ADDR directory) (\<lambda>_.
       bnd (vm_load directory (OR1K_ADDR_L1_INDEX_GET vaddr) m) (\<lambda>dirpte.
         if OR1K_PTE_PRESENT_GET dirpte = 0 then ok (0, m)
         else
           bnd (assert_c (OR1K_PTE_LAST_GET dirpte = 0)) (\<lambda>_.
             bnd (vm_load (OR1K_PTABLE dirpte) (OR1K_ADDR_L2_INDEX_GET vaddr) m) (\<lambda>pte.
               if OR1K_PTE_PRESENT_GET pte = 0 then ok (0, m)
               else bnd (vm_store (OR1K_PTABLE dirpte) (OR1K_ADDR_L2_INDEX_GET vaddr) 0 m)
                      (\<lambda>m'. ok (1, m'))))))"

subsection \<open>Lookup and translation\<close>

definition optimsoc_vmm_lookup :: "ptr \<Rightarrow> u32 \<Rightarrow> vmem \<Rightarrow> u32 exec" where
  "optimsoc_vmm_lookup directory vaddr m =
     bnd (VERIFY_DIR_ADDR directory) (\<lambda>_.
       bnd (vm_load directory (OR1K_ADDR_L1_INDEX_GET vaddr) m) (\<lambda>dirpte.
         if OR1K_PTE_PRESENT_GET dirpte = 0 then ok 0
         else
           bnd (assert_c (OR1K_PTE_LAST_GET dirpte = 0)) (\<lambda>_.
             bnd (vm_load (OR1K_PTABLE dirpte) (OR1K_ADDR_L2_INDEX_GET vaddr) m) (\<lambda>pte.
               if OR1K_PTE_PRESENT_GET pte = 0 then ok 0 else ok pte))))"

text \<open>The second component is what is written through \<open>paddr\<close>, if anything is.\<close>

definition optimsoc_vmm_virt2phys :: "ptr \<Rightarrow> u32 \<Rightarrow> vmem \<Rightarrow> (int \<times> u32 option) exec" where
  "optimsoc_vmm_virt2phys directory vaddr m =
     bnd (VERIFY_DIR_ADDR directory) (\<lambda>_.
       bnd (optimsoc_vmm_lookup directory vaddr m) (\<lambda>pte.
         if pte = 0 then ok (0, None)
         else
           bnd (assert_c (OR1K_PTE_LAST_GET pte = 0)) (\<lambda>_.
             let addr = OR1K_ADDR_PN_SET 0 (OR1K_PTE_PPN_GET pte) in
             ok (1, Some (OR1K_ADDR_OFFSET_SET addr (OR1K_ADDR_OFFSET_GET vaddr))))))"

text \<open>The inner loop of \<open>optimsoc_vmm_phys2virt\<close>, over the \<open>n\<close> entries from \<open>j\<close> on.\<close>

fun phys2virt_table :: "nat \<Rightarrow> u32 \<Rightarrow> ptr \<Rightarrow> u32 \<Rightarrow> u32 \<Rightarrow> vmem \<Rightarrow> u32 option exec" where
  "phys2virt_table 0 j table dirindex paddr m = ok None"
| "phys2virt_table (Suc n) j table dirindex paddr m =
     bnd (vm_load table j m) (\<lambda>pte.
       if OR1K_PTE_PRESENT_GET pte \<noteq> 0 \<and> OR1K_PTE_PPN_GET paddr = OR1K_PTE_PPN_GET pte
       then ok (Some (OR1K_ADDR_OFFSET_SET
                  (OR1K_ADDR_L2_INDEX_SET (OR1K_ADDR_L1_INDEX_SET 0 dirindex) j)
                  (OR1K_ADDR_OFFSET_GET paddr)))
       else phys2virt_table n (j + 1) table dirindex paddr m)"

text \<open>The outer loop skips an entry whose protection index is zero.\<close>

fun phys2virt_dir :: "nat \<Rightarrow> u32 \<Rightarrow> ptr \<Rightarrow> u32 \<Rightarrow> vmem \<Rightarrow> (int \<times> u32 option) exec" where
  "phys2virt_dir 0 i directory paddr m = ok (0, None)"
| "phys2virt_dir (Suc n) i directory paddr m =
     bnd (vm_load directory i m) (\<lambda>pte.
       if OR1K_PTE_PPI_GET pte = 0 then phys2virt_dir n (i + 1) directory paddr m
       else
         bnd (assert_c (OR1K_PTE_LAST_GET pte = 0)) (\<lambda>_.
           bnd (phys2virt_table 2048 0 (OR1K_PTABLE pte) i paddr m) (\<lambda>r.
             case r of Some vaddr \<Rightarrow> ok (1, Some vaddr)
             | None \<Rightarrow> phys2virt_dir n (i + 1) directory paddr m)))"

definition optimsoc_vmm_phys2virt :: "ptr \<Rightarrow> u32 \<Rightarrow> vmem \<Rightarrow> (int \<times> u32 option) exec" where
  "optimsoc_vmm_phys2virt directory paddr m =
     bnd (VERIFY_DIR_ADDR directory) (\<lambda>_. phys2virt_dir 256 0 directory paddr m)"

subsection \<open>The translation look-aside buffers\<close>

text \<open>
  The macros of the special purpose registers come from the support library: the field
  setters of the translate and match registers and the addresses of the registers.
\<close>

record mmu_regs =
  TR_PPN_SET :: "u32 \<Rightarrow> u32 \<Rightarrow> u32"
  TR_SXE_SET :: "u32 \<Rightarrow> u32 \<Rightarrow> u32"
  TR_UXE_SET :: "u32 \<Rightarrow> u32 \<Rightarrow> u32"
  TR_URE_SET :: "u32 \<Rightarrow> u32 \<Rightarrow> u32"
  TR_SRE_SET :: "u32 \<Rightarrow> u32 \<Rightarrow> u32"
  TR_SWE_SET :: "u32 \<Rightarrow> u32 \<Rightarrow> u32"
  TR_UWE_SET :: "u32 \<Rightarrow> u32 \<Rightarrow> u32"
  TR_ADDR :: "u32 \<Rightarrow> u32 \<Rightarrow> u32"
  MR_V_SET :: "u32 \<Rightarrow> u32 \<Rightarrow> u32"
  MR_VPN_SET :: "u32 \<Rightarrow> u32 \<Rightarrow> u32"
  MR_ADDR :: "u32 \<Rightarrow> u32 \<Rightarrow> u32"

text \<open>Both functions return their writes to special purpose registers, in order.\<close>

definition optimsoc_set_itlb :: "mmu_regs \<Rightarrow> u32 \<Rightarrow> u32 \<Rightarrow> (u32 \<times> u32) list" where
  "optimsoc_set_itlb R vaddr pte =
     (let index = OR1K_ADDR_L2_INDEX_GET vaddr AND 0x3f;
          tr = TR_PPN_SET R 0 (OR1K_PTE_PPN_GET pte);
          tr = (if OR1K_PTE_PPI_GET pte AND push_bit 2 1 \<noteq> 0 then
                  let tr = TR_SXE_SET R tr 1 in
                  if OR1K_PTE_PPI_GET pte AND push_bit 0 1 \<noteq> 0 then TR_UXE_SET R tr 1 else tr
                else tr);
          mr = MR_VPN_SET R (MR_V_SET R 0 1) (OR1K_ADDR_PN_GET vaddr)
      in [(TR_ADDR R 0 index, tr), (MR_ADDR R 0 index, mr)])"

definition optimsoc_set_dtlb :: "mmu_regs \<Rightarrow> u32 \<Rightarrow> u32 \<Rightarrow> (u32 \<times> u32) list" where
  "optimsoc_set_dtlb R vaddr pte =
     (let index = OR1K_ADDR_L2_INDEX_GET vaddr AND 0x3f;
          tr = TR_PPN_SET R 0 (OR1K_PTE_PPN_GET pte);
          tr = (if OR1K_PTE_PPI_GET pte AND push_bit 0 1 \<noteq> 0 then TR_URE_SET R tr 1 else tr);
          tr = TR_SRE_SET R tr 1;
          tr = (if OR1K_PTE_PPI_GET pte AND push_bit 1 1 \<noteq> 0 then
                  let tr = TR_SWE_SET R tr 1 in
                  if OR1K_PTE_PPI_GET pte AND push_bit 0 1 \<noteq> 0 then TR_UWE_SET R tr 1 else tr
                else tr);
          mr = MR_VPN_SET R (MR_V_SET R 0 1) (OR1K_ADDR_PN_GET vaddr)
      in [(TR_ADDR R 0 index, tr), (MR_ADDR R 0 index, mr)])"

text \<open>
  A TLB miss at the address \<open>eear\<close> either writes the buffer or calls the registered fault
  handler with the address.
\<close>

datatype tlb_action = Fill "(u32 \<times> u32) list" | CallHandler ptr u32

definition tlb_miss :: "(u32 \<Rightarrow> u32 \<Rightarrow> (u32 \<times> u32) list) \<Rightarrow> ptr \<Rightarrow> ptr \<Rightarrow> u32 \<Rightarrow> vmem \<Rightarrow> tlb_action exec" where
  "tlb_miss set_tlb handler dir eear m =
     bnd (VERIFY_DIR_ADDR dir) (\<lambda>_.
       bnd (optimsoc_vmm_lookup dir eear m) (\<lambda>pte.
         if pte \<noteq> 0 then ok (Fill (set_tlb eear pte))
         else bnd (assert_c (handler \<noteq> 0)) (\<lambda>_. ok (CallHandler handler eear))))"

definition optimsoc_dtlb_miss ::
    "mmu_regs \<Rightarrow> ptr \<Rightarrow> nat \<Rightarrow> u32 \<Rightarrow> kstate \<Rightarrow> vmem \<Rightarrow> tlb_action exec" where
  "optimsoc_dtlb_miss R dfault_handler c eear s m =
     bnd (optimsoc_thread_get_pagedir_current c s) (\<lambda>dir.
       tlb_miss (optimsoc_set_dtlb R) dfault_handler dir eear m)"

definition optimsoc_itlb_miss ::
    "mmu_regs \<Rightarrow> ptr \<Rightarrow> nat \<Rightarrow> u32 \<Rightarrow> kstate \<Rightarrow> vmem \<Rightarrow> tlb_action exec" where
  "optimsoc_itlb_miss R ifault_handler c eear s m =
     bnd (optimsoc_thread_get_pagedir_current c s) (\<lambda>dir.
       tlb_miss (optimsoc_set_itlb R) ifault_handler dir eear m)"

definition optimsoc_dpage_fault :: "ptr \<Rightarrow> u32 \<Rightarrow> tlb_action exec" where
  "optimsoc_dpage_fault dfault_handler eear =
     bnd (assert_c (dfault_handler \<noteq> 0)) (\<lambda>_. ok (CallHandler dfault_handler eear))"

definition optimsoc_ipage_fault :: "ptr \<Rightarrow> u32 \<Rightarrow> tlb_action exec" where
  "optimsoc_ipage_fault ifault_handler eear =
     bnd (assert_c (ifault_handler \<noteq> 0)) (\<lambda>_. ok (CallHandler ifault_handler eear))"

subsection \<open>Destruction and copy\<close>

fun destroy_tables :: "nat \<Rightarrow> u32 \<Rightarrow> ptr \<Rightarrow> vmem \<Rightarrow> vmem exec" where
  "destroy_tables 0 i dir m = ok m"
| "destroy_tables (Suc n) i dir m =
     bnd (vm_load dir i m) (\<lambda>pte.
       if OR1K_PTE_PRESENT_GET pte = 0 then destroy_tables n (i + 1) dir m
       else
         bnd (assert_c (OR1K_PTE_LAST_GET pte = 0)) (\<lambda>_.
           bnd (assert_c (OR1K_PTABLE pte \<noteq> 0)) (\<lambda>_.
             bnd (vm_free (OR1K_PTABLE pte) m) (destroy_tables n (i + 1) dir))))"

definition optimsoc_vmm_destroy_page_dir :: "ptr \<Rightarrow> vmem \<Rightarrow> vmem exec" where
  "optimsoc_vmm_destroy_page_dir dir m =
     bnd (VERIFY_DIR_ADDR dir) (\<lambda>_. bnd (destroy_tables 256 0 dir m) (vm_free dir))"

text \<open>
  The copy of an address space of another tile. \<open>r\<close> is the memory of that tile, as the DMA
  transfers read it; the pages come from \<open>page_alloc\<close>, which gets the number of pages
  drawn before. The list collects the page transfers: local page, remote page.
\<close>

fun dir_copy_table :: "nat \<Rightarrow> u32 \<Rightarrow> (nat \<Rightarrow> u32) \<Rightarrow> u32 list \<Rightarrow> ptr \<Rightarrow> (u32 \<times> u32) list \<Rightarrow> vmem
    \<Rightarrow> ((u32 \<times> u32) list \<times> vmem) exec" where
  "dir_copy_table 0 j page_alloc remote_table local_table pages m = ok (pages, m)"
| "dir_copy_table (Suc n) j page_alloc remote_table local_table pages m =
     (if OR1K_PTE_PRESENT_GET (remote_table ! unat j) \<noteq> 0 then
        let local_page = push_bit 13 (page_alloc (length pages));
            remote_page = OR1K_ADDR_PN_SET 0 (OR1K_PTE_PPN_GET (remote_table ! unat j)) in
        bnd (vm_store local_table j (vmm_leaf local_page) m)
          (dir_copy_table n (j + 1) page_alloc remote_table local_table
             (pages @ [(local_page, remote_page)]))
      else dir_copy_table n (j + 1) page_alloc remote_table local_table pages m)"

fun dir_copy_dir :: "nat \<Rightarrow> u32 \<Rightarrow> aligner \<Rightarrow> (nat \<Rightarrow> u32) \<Rightarrow> vmem \<Rightarrow> u32 list \<Rightarrow> ptr \<Rightarrow> (u32 \<times> u32) list \<Rightarrow> vmem
    \<Rightarrow> ((u32 \<times> u32) list \<times> vmem) exec" where
  "dir_copy_dir 0 i ma page_alloc r remote_dir local_dir pages m = ok (pages, m)"
| "dir_copy_dir (Suc n) i ma page_alloc r remote_dir local_dir pages m =
     (if OR1K_PTE_PRESENT_GET (remote_dir ! unat i) = 1 then
        bnd (optimsoc_vmm_create_page_table ma m) (\<lambda>(local_table, m1).
          bnd (vm_store local_dir i
                 (OR1K_PTE_PPN_SET (OR1K_PTE_PRESENT_SET 0 1) (OR1K_PTE_PPN_GET local_table)) m1) (\<lambda>m2.
            case r (OR1K_PTABLE (remote_dir ! unat i)) of None \<Rightarrow> flt BadPtr
            | Some remote_table \<Rightarrow>
                if length remote_table < 2048 then flt OutOfBounds
                else
                  bnd (dir_copy_table 2048 0 page_alloc remote_table local_table pages m2)
                    (\<lambda>(pages', m3). dir_copy_dir n (i + 1) ma page_alloc r remote_dir local_dir pages' m3)))
      else dir_copy_dir n (i + 1) ma page_alloc r remote_dir local_dir pages m)"

definition optimsoc_vmm_dir_copy ::
    "aligner \<Rightarrow> (nat \<Rightarrow> u32) \<Rightarrow> vmem \<Rightarrow> ptr \<Rightarrow> vmem \<Rightarrow> (ptr \<times> (u32 \<times> u32) list \<times> vmem) exec" where
  "optimsoc_vmm_dir_copy ma page_alloc r remote_addr m =
     bnd (optimsoc_vmm_create_page_dir ma m) (\<lambda>(local_dir, m1).
       case r remote_addr of None \<Rightarrow> flt BadPtr
       | Some remote_dir \<Rightarrow>
           if length remote_dir < 256 then flt OutOfBounds
           else bnd (dir_copy_dir 256 0 ma page_alloc r remote_dir local_dir [] m1)
                  (\<lambda>(pages, m2). ok (local_dir, pages, m2)))"

end
