(* ===== verification/Vmm_Props.thy ===== *)
theory Vmm_Props
  imports Vmm
begin

section \<open>Correctness of the page tables\<close>

text \<open>
  Well-formed directories, the translation they stand for as a map from page numbers to
  page numbers, and what each operation does to it.
\<close>

subsection \<open>Bits of the macros\<close>

lemma mask_consts:
  "(0x7ff :: u32) = mask 11" "(0x1fff :: u32) = mask 13" "(0x7ffff :: u32) = mask 19"
  "(7 :: u32) = mask 3" "(0x3ff :: u32) = mask 10" "(0xffffe000 :: u32) = NOT (mask 13)"
  "(0x00ffffff :: u32) = mask 24"
  by (simp_all add: mask_eq_exp_minus_1)

lemma bit_one_u32: "bit (1 :: u32) n \<longleftrightarrow> n = 0"
  by (simp add: bit_1_iff)

lemma bit_1024: "bit (1024 :: u32) n \<longleftrightarrow> n = 10"
proof -
  have "bit (push_bit 10 (1 :: u32)) n \<longleftrightarrow> n = 10"
    unfolding bit_push_bit_iff bit_1_iff by auto
  then show ?thesis by simp
qed

lemma bit_1024_int: "bit (1024 :: int) n \<longleftrightarrow> n = 10"
proof -
  have "bit (push_bit 10 (1 :: int)) n \<longleftrightarrow> n = 10"
    unfolding bit_push_bit_iff bit_1_iff by auto
  then show ?thesis by simp
qed

lemma eq_zero_bits: "(w :: u32) = 0 \<longleftrightarrow> (\<forall>n<32. \<not> bit w n)"
  by (auto simp: bit_eq_iff dest: bit_imp_le_length)

lemmas pte_defs = OR1K_PTE_PPN_GET_def OR1K_PTE_PPN_SET_def OR1K_PTE_PRESENT_GET_def
  OR1K_PTE_PRESENT_SET_def OR1K_PTE_LAST_GET_def OR1K_PTE_PPI_GET_def OR1K_PTE_PPI_SET_def
  OR1K_PTABLE_def PPI_ALL_def

lemmas addr_defs = OR1K_ADDR_PN_GET_def OR1K_ADDR_PN_SET_def OR1K_ADDR_OFFSET_GET_def
  OR1K_ADDR_OFFSET_SET_def OR1K_ADDR_L1_INDEX_GET_def OR1K_ADDR_L1_INDEX_SET_def
  OR1K_ADDR_L2_INDEX_GET_def OR1K_ADDR_L2_INDEX_SET_def

lemma l1_bound: "unat (OR1K_ADDR_L1_INDEX_GET v) < 256"
proof -
  have "unat v < 2 ^ 32" using unsigned_less [of v] by simp
  then show ?thesis
    unfolding OR1K_ADDR_L1_INDEX_GET_def unsigned_drop_bit_eq
    by (simp add: drop_bit_eq_div div_less_iff_less_mult take_bit_nat_eq_self)
qed

lemma l2_bound: "unat (OR1K_ADDR_L2_INDEX_GET v) < 2048"
proof -
  have "OR1K_ADDR_L2_INDEX_GET v = take_bit 11 (drop_bit 13 v)"
    by (simp add: OR1K_ADDR_L2_INDEX_GET_def mask_consts take_bit_eq_mask)
  then have "unat (OR1K_ADDR_L2_INDEX_GET v) = take_bit 11 (unat (drop_bit 13 v))"
    by (simp only: unsigned_take_bit_eq)
  then show ?thesis using take_bit_nat_less_exp [of 11 "unat (drop_bit 13 v)"] by simp
qed

lemma present_bit: "OR1K_PTE_PRESENT_GET w = (if bit w 10 then 1 else 0)"
  unfolding OR1K_PTE_PRESENT_GET_def
  by (rule bit_eqI, case_tac n) (auto simp: bit_simps bit_one_u32)

lemma last_bit: "OR1K_PTE_LAST_GET w = (if bit w 9 then 1 else 0)"
  unfolding OR1K_PTE_LAST_GET_def
  by (rule bit_eqI, case_tac n) (auto simp: bit_simps bit_one_u32)

lemma leaf_bits:
  "bit (vmm_leaf p) n \<longleftrightarrow> n < 32 \<and> (13 \<le> n \<and> bit p n \<or> n = 10 \<or> 6 \<le> n \<and> n \<le> 8)"
  by (auto simp: vmm_leaf_def pte_defs mask_consts bit_simps bit_one_u32 bit_1024 bit_1024_int)

lemma leaf_fields:
  "OR1K_PTE_PRESENT_GET (vmm_leaf p) = 1" "OR1K_PTE_LAST_GET (vmm_leaf p) = 0"
  "OR1K_PTE_PPN_GET (vmm_leaf p) = OR1K_ADDR_PN_GET p"
  subgoal by (simp add: present_bit leaf_bits)
  subgoal by (simp add: last_bit leaf_bits)
  subgoal by (rule bit_eqI) (auto simp: OR1K_PTE_PPN_GET_def OR1K_ADDR_PN_GET_def bit_simps leaf_bits
        dest: bit_imp_le_length)
  done

definition dir_pte :: "ptr \<Rightarrow> u32" where
  "dir_pte table = OR1K_PTE_PPN_SET (OR1K_PTE_PRESENT_SET 0 1) (OR1K_PTE_PPN_GET table)"

lemma dir_pte_bits: "bit (dir_pte t) n \<longleftrightarrow> n < 32 \<and> (13 \<le> n \<and> bit t n \<or> n = 10)"
  by (auto simp: dir_pte_def pte_defs bit_simps bit_one_u32 bit_1024 bit_1024_int)

lemma dir_pte_fields:
  "OR1K_PTE_PRESENT_GET (dir_pte t) = 1" "OR1K_PTE_LAST_GET (dir_pte t) = 0"
  "OR1K_PTE_PPI_GET (dir_pte t) = 0"
  "t AND 0x1fff = 0 \<Longrightarrow> OR1K_PTABLE (dir_pte t) = t"
  subgoal by (simp add: present_bit dir_pte_bits)
  subgoal by (simp add: last_bit dir_pte_bits)
  subgoal by (rule bit_eqI) (auto simp: OR1K_PTE_PPI_GET_def mask_consts bit_simps dir_pte_bits)
  subgoal premises al
  proof -
    have "\<not> bit t n" if "n < 13" for n
    proof -
      from that have "n < 32" by simp
      moreover have "\<not> bit (t AND mask 13) n" using al by (simp add: mask_consts)
      ultimately show ?thesis using that by (simp add: bit_simps)
    qed
    then have "bit t n \<Longrightarrow> 13 \<le> n" for n by (meson not_le)
    then show ?thesis
      by (intro bit_eqI) (auto simp: OR1K_PTABLE_def mask_consts bit_simps dir_pte_bits not_less)
  qed
  done

lemma page_split:
  "OR1K_ADDR_PN_GET v = OR1K_ADDR_PN_GET w \<longleftrightarrow>
     OR1K_ADDR_L1_INDEX_GET v = OR1K_ADDR_L1_INDEX_GET w \<and>
     OR1K_ADDR_L2_INDEX_GET v = OR1K_ADDR_L2_INDEX_GET w"
proof
  have l1: "OR1K_ADDR_L1_INDEX_GET x = drop_bit 11 (OR1K_ADDR_PN_GET x)" for x
    by (simp add: addr_defs)
  have l2: "OR1K_ADDR_L2_INDEX_GET x = take_bit 11 (OR1K_ADDR_PN_GET x)" for x
    by (simp add: addr_defs mask_consts take_bit_eq_mask)
  show "OR1K_ADDR_PN_GET v = OR1K_ADDR_PN_GET w \<Longrightarrow>
      OR1K_ADDR_L1_INDEX_GET v = OR1K_ADDR_L1_INDEX_GET w \<and>
      OR1K_ADDR_L2_INDEX_GET v = OR1K_ADDR_L2_INDEX_GET w" by (simp add: l1 l2)
  assume "OR1K_ADDR_L1_INDEX_GET v = OR1K_ADDR_L1_INDEX_GET w \<and>
      OR1K_ADDR_L2_INDEX_GET v = OR1K_ADDR_L2_INDEX_GET w"
  then have "push_bit 11 (drop_bit 11 (OR1K_ADDR_PN_GET v)) + take_bit 11 (OR1K_ADDR_PN_GET v) =
      push_bit 11 (drop_bit 11 (OR1K_ADDR_PN_GET w)) + take_bit 11 (OR1K_ADDR_PN_GET w)"
    by (simp add: l1 l2)
  then show "OR1K_ADDR_PN_GET v = OR1K_ADDR_PN_GET w" by (simp add: bits_ident)
qed

lemma phys_addr:
  "OR1K_ADDR_OFFSET_SET (OR1K_ADDR_PN_SET 0 (OR1K_ADDR_PN_GET p)) (OR1K_ADDR_OFFSET_GET v) =
    (p AND NOT (mask 13)) OR (v AND mask 13)"
  by (rule bit_eqI) (auto simp: addr_defs mask_consts bit_simps dest: bit_imp_le_length)

text \<open>The masks of \<open>phys2virt\<close>: the upper half of the directory index is lost.\<close>

lemma l2_set_loses:
  "OR1K_ADDR_L1_INDEX_GET (OR1K_ADDR_L2_INDEX_SET (OR1K_ADDR_L1_INDEX_SET 0 i) j) = i AND 15"
proof -
  have c: "(0xff001ff :: u32) = push_bit 20 (mask 8) OR mask 9" "(15::u32) = mask 4"
    by (simp_all add: mask_eq_exp_minus_1 push_bit_eq_mult)
  show ?thesis
    unfolding addr_defs c mask_consts
    by (rule bit_eqI) (auto simp: bit_simps)
qed

subsection \<open>Well-formed directories and the translation they hold\<close>

definition present :: "u32 \<Rightarrow> bool" where
  "present pte \<longleftrightarrow> OR1K_PTE_PRESENT_GET pte \<noteq> 0"

definition table_ok :: "vmem \<Rightarrow> ptr \<Rightarrow> u32 \<Rightarrow> bool" where
  "table_ok m dir d \<longleftrightarrow>
     OR1K_PTE_LAST_GET d = 0 \<and> OR1K_PTE_PPI_GET d = 0 \<and> OR1K_PTABLE d \<noteq> 0 \<and> OR1K_PTABLE d \<noteq> dir \<and>
     (\<exists>ts. m (OR1K_PTABLE d) = Some ts \<and> length ts = 2048 \<and> (\<forall>e\<in>set ts. OR1K_PTE_LAST_GET e = 0))"

definition dir_ok :: "vmem \<Rightarrow> ptr \<Rightarrow> u32 list \<Rightarrow> bool" where
  "dir_ok m dir ds \<longleftrightarrow>
     length ds = 256 \<and> (\<forall>d\<in>set ds. \<not> present d \<longrightarrow> d = 0) \<and>
     (\<forall>d\<in>set ds. present d \<longrightarrow> table_ok m dir d) \<and>
     (\<forall>i<256. \<forall>j<256. i \<noteq> j \<longrightarrow> present (ds ! i) \<longrightarrow> present (ds ! j) \<longrightarrow>
        OR1K_PTABLE (ds ! i) \<noteq> OR1K_PTABLE (ds ! j))"

definition vm_wf :: "vmem \<Rightarrow> ptr \<Rightarrow> bool" where
  "vm_wf m dir \<longleftrightarrow> dir \<noteq> 0 \<and> dir AND 0x3ff = 0 \<and> (\<exists>ds. m dir = Some ds \<and> dir_ok m dir ds)"

definition dirent :: "vmem \<Rightarrow> ptr \<Rightarrow> u32 \<Rightarrow> u32" where
  "dirent m dir v = the (m dir) ! unat (OR1K_ADDR_L1_INDEX_GET v)"

definition leafent :: "vmem \<Rightarrow> ptr \<Rightarrow> u32 \<Rightarrow> u32" where
  "leafent m dir v = the (m (OR1K_PTABLE (dirent m dir v))) ! unat (OR1K_ADDR_L2_INDEX_GET v)"

definition vm_entry :: "vmem \<Rightarrow> ptr \<Rightarrow> u32 \<Rightarrow> u32" where
  "vm_entry m dir v =
     (if present (dirent m dir v) \<and> present (leafent m dir v) then leafent m dir v else 0)"

text \<open>The physical page number the page of \<open>v\<close> is mapped to.\<close>

definition vm_trans :: "vmem \<Rightarrow> ptr \<Rightarrow> u32 \<Rightarrow> u32 option" where
  "vm_trans m dir v =
     (if vm_entry m dir v = 0 then None else Some (OR1K_PTE_PPN_GET (vm_entry m dir v)))"

lemma present_simps [simp]: "\<not> present 0" "present (vmm_leaf p)" "present (dir_pte t)"
  by (simp_all add: present_def leaf_fields dir_pte_fields) (simp add: OR1K_PTE_PRESENT_GET_def)

lemma present_get: "OR1K_PTE_PRESENT_GET d = 0 \<longleftrightarrow> \<not> present d" "OR1K_PTE_PRESENT_GET d = 1 \<longleftrightarrow> present d"
  by (auto simp: present_def present_bit)

lemma present_nonzero: "present d \<Longrightarrow> d \<noteq> 0"
  by auto

lemma vm_wfD:
  assumes "vm_wf m dir"
  shows "VERIFY_DIR_ADDR dir = ok ()"
    and "\<exists>ds. m dir = Some ds \<and> dir_ok m dir ds"
    and "vm_load dir (OR1K_ADDR_L1_INDEX_GET v) m = ok (dirent m dir v)"
    and "\<not> present (dirent m dir v) \<Longrightarrow> dirent m dir v = 0"
    and "present (dirent m dir v) \<Longrightarrow> table_ok m dir (dirent m dir v)"
proof -
  from assms obtain ds where ds: "m dir = Some ds" "dir_ok m dir ds" "dir \<noteq> 0" "dir AND 0x3ff = 0"
    by (auto simp: vm_wf_def)
  then show "VERIFY_DIR_ADDR dir = ok ()" "\<exists>ds. m dir = Some ds \<and> dir_ok m dir ds"
    by (simp_all add: VERIFY_DIR_ADDR_def)
  have "dirent m dir v \<in> set ds" using ds l1_bound [of v] by (auto simp: dirent_def dir_ok_def)
  with ds show "vm_load dir (OR1K_ADDR_L1_INDEX_GET v) m = ok (dirent m dir v)"
    "\<not> present (dirent m dir v) \<Longrightarrow> dirent m dir v = 0"
    "present (dirent m dir v) \<Longrightarrow> table_ok m dir (dirent m dir v)"
    using l1_bound [of v] by (auto simp: vm_load_def dirent_def dir_ok_def)
qed

lemma table_okD:
  assumes "table_ok m dir d"
  shows "OR1K_PTE_LAST_GET d = 0"
    and "vm_load (OR1K_PTABLE d) (OR1K_ADDR_L2_INDEX_GET v) m =
      ok (the (m (OR1K_PTABLE d)) ! unat (OR1K_ADDR_L2_INDEX_GET v))"
    and "vm_store (OR1K_PTABLE d) (OR1K_ADDR_L2_INDEX_GET v) e m =
      ok (m(OR1K_PTABLE d \<mapsto> (the (m (OR1K_PTABLE d)))[unat (OR1K_ADDR_L2_INDEX_GET v) := e]))"
    and "OR1K_PTE_LAST_GET (the (m (OR1K_PTABLE d)) ! unat (OR1K_ADDR_L2_INDEX_GET v)) = 0"
  using assms l2_bound [of v] by (auto simp: table_ok_def vm_load_def vm_store_def)

lemma lookup_wf:
  assumes "vm_wf m dir"
  shows "optimsoc_vmm_lookup dir v m = ok (vm_entry m dir v)"
proof (cases "present (dirent m dir v)")
  case False
  with vm_wfD [OF assms] show ?thesis
    by (simp add: optimsoc_vmm_lookup_def vm_entry_def present_get)
next
  case True
  with vm_wfD(1,3,4,5) [OF assms] table_okD(1) [OF vm_wfD(5) [OF assms True]]
    table_okD(2) [OF vm_wfD(5) [OF assms True], of v] show ?thesis
    by (simp add: optimsoc_vmm_lookup_def vm_entry_def present_get leafent_def)
qed

lemma entry_last: "vm_wf m dir \<Longrightarrow> OR1K_PTE_LAST_GET (vm_entry m dir v) = 0"
  using table_okD(4) [OF vm_wfD(5), of m dir v v]
  by (auto simp: vm_entry_def leafent_def last_bit)

lemma virt2phys_wf:
  assumes "vm_wf m dir"
  shows "optimsoc_vmm_virt2phys dir v m =
    ok (case vm_trans m dir v of None \<Rightarrow> (0, None)
        | Some ppn \<Rightarrow> (1, Some (OR1K_ADDR_OFFSET_SET (OR1K_ADDR_PN_SET 0 ppn) (OR1K_ADDR_OFFSET_GET v))))"
  using vm_wfD(1) [OF assms] lookup_wf [OF assms, of v] entry_last [OF assms, of v]
  by (simp add: optimsoc_vmm_virt2phys_def vm_trans_def Let_def)

text \<open>Writing one entry of a table that is there.\<close>

lemma write_entry:
  fixes m dir v e
  defines "P \<equiv> OR1K_PTABLE (dirent m dir v)"
  defines "m' \<equiv> m(P \<mapsto> (the (m P))[unat (OR1K_ADDR_L2_INDEX_GET v) := e])"
  assumes wf: "vm_wf m dir" and pr: "present (dirent m dir v)" and e: "OR1K_PTE_LAST_GET e = 0"
  shows "vm_wf m' dir"
    and "vm_entry m' dir w = (if OR1K_ADDR_PN_GET w = OR1K_ADDR_PN_GET v
           then (if present e then e else 0) else vm_entry m dir w)"
proof -
  from vm_wfD(2) [OF wf] obtain ds where ds: "m dir = Some ds" "dir_ok m dir ds" by blast
  from vm_wfD(5) [OF wf pr] obtain ts where ts: "m P = Some ts" "length ts = 2048"
    "\<forall>e\<in>set ts. OR1K_PTE_LAST_GET e = 0" "P \<noteq> dir" by (auto simp: table_ok_def P_def)
  have dir: "m' dir = Some ds" using ts ds by (simp add: m'_def)
  have dirent: "dirent m' dir w = dirent m dir w" for w using dir ds by (simp add: dirent_def)
  have tab: "table_ok m' dir d" if "table_ok m dir d" for d
    using that ts e set_update_subset_insert [of ts "unat (OR1K_ADDR_L2_INDEX_GET v)" e]
    by (auto simp: table_ok_def m'_def)
  have "dir_ok m' dir ds" using ds(2) tab by (simp add: dir_ok_def)
  with wf dir show "vm_wf m' dir" by (auto simp: vm_wf_def)
  have "leafent m' dir w = (if OR1K_ADDR_PN_GET w = OR1K_ADDR_PN_GET v then e else leafent m dir w)"
    if w: "present (dirent m dir w)" for w
  proof (cases "OR1K_ADDR_L1_INDEX_GET w = OR1K_ADDR_L1_INDEX_GET v")
    case True
    then have d: "dirent m dir w = dirent m dir v" by (simp add: dirent_def)
    have u: "unat (OR1K_ADDR_L2_INDEX_GET v) = unat (OR1K_ADDR_L2_INDEX_GET w) \<longleftrightarrow>
        OR1K_ADDR_L2_INDEX_GET w = OR1K_ADDR_L2_INDEX_GET v" by (auto simp: word_unat_eq_iff)
    have "leafent m' dir w = ts[unat (OR1K_ADDR_L2_INDEX_GET v) := e] ! unat (OR1K_ADDR_L2_INDEX_GET w)"
      unfolding leafent_def dirent d P_def [symmetric] by (simp add: m'_def ts(1))
    moreover have "leafent m dir w = ts ! unat (OR1K_ADDR_L2_INDEX_GET w)"
      unfolding leafent_def d P_def [symmetric] by (simp add: ts(1))
    ultimately show ?thesis
      using True l2_bound [of v] ts(2) u by (simp add: page_split nth_list_update)
  next
    case False
    then have "unat (OR1K_ADDR_L1_INDEX_GET w) \<noteq> unat (OR1K_ADDR_L1_INDEX_GET v)"
      by (simp add: word_unat_eq_iff)
    then have "OR1K_PTABLE (dirent m dir w) \<noteq> P"
      using ds l1_bound w pr by (simp add: P_def dirent_def dir_ok_def)
    then have "leafent m' dir w = leafent m dir w"
      unfolding leafent_def dirent by (simp add: m'_def)
    with False show ?thesis by (simp add: page_split)
  qed
  moreover have "OR1K_ADDR_PN_GET w = OR1K_ADDR_PN_GET v \<Longrightarrow> dirent m dir w = dirent m dir v"
    by (simp add: page_split dirent_def)
  ultimately show "vm_entry m' dir w = (if OR1K_ADDR_PN_GET w = OR1K_ADDR_PN_GET v
           then (if present e then e else 0) else vm_entry m dir w)"
    using pr by (auto simp: vm_entry_def dirent)
qed

text \<open>\<open>memalign\<close> returns the null pointer or a fresh block at an aligned address.\<close>

definition aligner_ok :: "aligner \<Rightarrow> bool" where
  "aligner_ok ma \<longleftrightarrow>
     (\<forall>live. (ma 0x2000 0x2000 live \<noteq> 0 \<longrightarrow> \<not> live (ma 0x2000 0x2000 live) \<and>
        ma 0x2000 0x2000 live AND 0x1fff = 0) \<and>
      (ma 0x400 0x400 live \<noteq> 0 \<longrightarrow> \<not> live (ma 0x400 0x400 live) \<and>
        ma 0x400 0x400 live AND 0x3ff = 0))"

text \<open>Publishing an empty table changes the directory and no translation.\<close>

lemma publish_empty:
  fixes m dir v T
  defines "i \<equiv> unat (OR1K_ADDR_L1_INDEX_GET v)"
  defines "m' \<equiv> m(T \<mapsto> replicate 2048 0, dir \<mapsto> (the (m dir))[i := dir_pte T])"
  assumes wf: "vm_wf m dir" and np: "\<not> present (dirent m dir v)"
    and T: "T \<noteq> 0" "m T = None" "T AND 0x1fff = 0"
  shows "vm_wf m' dir" and "vm_entry m' dir w = vm_entry m dir w" and "dirent m' dir v = dir_pte T"
proof -
  from vm_wfD(2) [OF wf] obtain ds where ds: "m dir = Some ds" "dir_ok m dir ds" by blast
  let ?ds = "ds[i := dir_pte T]"
  have neq: "T \<noteq> dir" using T ds by auto
  have i: "i < 256" using l1_bound by (simp add: i_def)
  have m': "m' dir = Some ?ds" "m' T = Some (replicate 2048 0)" "\<And>p. p \<noteq> T \<Longrightarrow> p \<noteq> dir \<Longrightarrow> m' p = m p"
    using ds neq by (auto simp: m'_def)
  have PT: "OR1K_PTABLE (dir_pte T) = T" by (rule dir_pte_fields(4) [OF T(3)])
  have old: "OR1K_PTABLE d \<noteq> T \<and> table_ok m' dir d" if "table_ok m dir d" for d
  proof -
    have "OR1K_PTABLE d \<noteq> T" "OR1K_PTABLE d \<noteq> dir" using that T(2) by (auto simp: table_ok_def)
    with m'(3) that show ?thesis by (simp add: table_ok_def)
  qed
  have new: "table_ok m' dir (dir_pte T)"
    using T neq PT m'(2) last_bit [of 0] by (auto simp: table_ok_def dir_pte_fields)
  have "dir_ok m' dir ?ds"
    unfolding dir_ok_def
  proof (intro conjI allI impI ballI)
    show "length ?ds = 256" using ds by (simp add: dir_ok_def)
    fix d assume "d \<in> set ?ds"
    then have d: "d = dir_pte T \<or> d \<in> set ds" using set_update_subset_insert by fastforce
    show "d = 0" if "\<not> present d" using d ds(2) that by (auto simp: dir_ok_def)
    show "table_ok m' dir d" if "present d" using d ds(2) that old new by (auto simp: dir_ok_def)
  next
    fix a b :: nat assume ab: "a < 256" "b < 256" "a \<noteq> b" "present (?ds ! a)" "present (?ds ! b)"
    have "OR1K_PTABLE (ds ! x) \<noteq> T" if "x < 256" "present (ds ! x)" for x
      using old ds(2) that by (auto simp: dir_ok_def)
    note this [of a] this [of b]
    moreover have "OR1K_PTABLE (ds ! a) \<noteq> OR1K_PTABLE (ds ! b)"
      if "present (ds ! a)" "present (ds ! b)" using ab ds(2) that by (simp add: dir_ok_def)
    moreover have "length ds = 256" using ds(2) by (simp add: dir_ok_def)
    ultimately show "OR1K_PTABLE (?ds ! a) \<noteq> OR1K_PTABLE (?ds ! b)"
      using ab PT i by (simp add: nth_list_update split: if_splits)
  qed
  with wf m'(1) show "vm_wf m' dir" by (auto simp: vm_wf_def)
  have len: "length ds = 256" using ds by (simp add: dir_ok_def)
  then show dv: "dirent m' dir v = dir_pte T" using m'(1) i by (simp add: dirent_def i_def)
  show "vm_entry m' dir w = vm_entry m dir w"
  proof (cases "OR1K_ADDR_L1_INDEX_GET w = OR1K_ADDR_L1_INDEX_GET v")
    case True
    then have "dirent m' dir w = dir_pte T" "dirent m dir w = dirent m dir v"
      using dv by (simp_all add: dirent_def)
    moreover have "leafent m' dir w = 0"
      using m'(2) l2_bound [of w] calculation(1) by (simp add: leafent_def PT)
    ultimately show ?thesis using np by (simp add: vm_entry_def)
  next
    case False
    then have "unat (OR1K_ADDR_L1_INDEX_GET w) \<noteq> i" by (simp add: i_def word_unat_eq_iff)
    then have d: "dirent m' dir w = dirent m dir w" using m'(1) ds(1) by (simp add: dirent_def)
    show ?thesis
    proof (cases "present (dirent m dir w)")
      case True
      from vm_wfD(5) [OF wf True] old have "OR1K_PTABLE (dirent m dir w) \<noteq> T"
        "OR1K_PTABLE (dirent m dir w) \<noteq> dir" by (auto simp: table_ok_def)
      then have "leafent m' dir w = leafent m dir w" using m'(3) by (simp add: leafent_def d)
      then show ?thesis by (simp add: vm_entry_def d)
    next
      case False
      then show ?thesis by (simp add: vm_entry_def d)
    qed
  qed
qed

text \<open>The second half of \<open>optimsoc_vmm_map\<close>, once the directory entry is there.\<close>

lemma map_leaf:
  assumes wf: "vm_wf m dir" and pr: "present (dirent m dir v)"
  shows "\<exists>r m'. bnd (vm_load (OR1K_PTABLE (dirent m dir v)) (OR1K_ADDR_L2_INDEX_GET v) m) (\<lambda>pte.
      if OR1K_PTE_PRESENT_GET pte = 1 then ok (0, m)
      else vmm_set_entry [] (OR1K_PTABLE (dirent m dir v)) (OR1K_ADDR_L2_INDEX_GET v) p m) = ok (r, m') \<and>
    vm_wf m' dir \<and> r = (if vm_trans m dir v = None then 1 else 0) \<and>
    (\<forall>w. vm_trans m' dir w = (if OR1K_ADDR_PN_GET w = OR1K_ADDR_PN_GET v \<and> vm_trans m dir v = None
       then Some (OR1K_ADDR_PN_GET p) else vm_trans m dir w))"
proof -
  note tab = vm_wfD(5) [OF wf pr]
  have load: "vm_load (OR1K_PTABLE (dirent m dir v)) (OR1K_ADDR_L2_INDEX_GET v) m = ok (leafent m dir v)"
    using table_okD(2) [OF tab] by (simp add: leafent_def)
  show ?thesis
  proof (cases "present (leafent m dir v)")
    case True
    then have "vm_trans m dir v \<noteq> None"
      using pr present_nonzero by (simp add: vm_trans_def vm_entry_def)
    with True wf load show ?thesis by (auto simp: present_get)
  next
    case False
    then have none: "vm_trans m dir v = None" by (simp add: vm_trans_def vm_entry_def)
    note w = write_entry [OF wf pr leaf_fields(2) [of p]]
    have "vmm_leaf p \<noteq> 0" using present_nonzero by simp
    with False load table_okD(3) [OF tab, of v "vmm_leaf p"] w none show ?thesis
      by (auto simp: present_get vm_trans_def leaf_fields)
  qed
qed

lemma map_wf:
  assumes wf: "vm_wf m dir" and ma: "aligner_ok ma"
  shows "post (optimsoc_vmm_map ma [] [] dir v p m) (\<lambda>(r, m').
    vm_wf m' dir \<and> r = (if vm_trans m dir v = None then 1 else 0) \<and>
    (\<forall>w. vm_trans m' dir w = (if OR1K_ADDR_PN_GET w = OR1K_ADDR_PN_GET v \<and> vm_trans m dir v = None
       then Some (OR1K_ADDR_PN_GET p) else vm_trans m dir w)))"
proof (cases "present (dirent m dir v)")
  case True
  with map_leaf [OF wf True, of p] vm_wfD(1,3) [OF wf] table_okD(1) [OF vm_wfD(5) [OF wf True]]
  show ?thesis by (auto simp: optimsoc_vmm_map_def present_get)
next
  case False
  define T where "T = ma 0x2000 0x2000 (\<lambda>p. m p \<noteq> None)"
  have create: "optimsoc_vmm_create_page_table ma m =
    (if T = 0 then flt NoMem else ok (T, m(T \<mapsto> replicate 2048 0)))"
    by (simp add: optimsoc_vmm_create_page_table_def T_def Let_def)
  have d0: "dirent m dir v = 0" by (rule vm_wfD(4) [OF wf False])
  show ?thesis
  proof (cases "T = 0")
    case True
    with False vm_wfD(1,3) [OF wf] show ?thesis
      by (simp add: optimsoc_vmm_map_def present_get create)
  next
    case T: False
    with ma have T': "m T = None" "T AND 0x1fff = 0" unfolding aligner_ok_def T_def by blast+
    let ?i = "OR1K_ADDR_L1_INDEX_GET v"
    let ?m = "m(T \<mapsto> replicate 2048 0, dir \<mapsto> (the (m dir))[unat ?i := dir_pte T])"
    note pe = publish_empty [OF wf False T T']
    have same: "vm_trans ?m dir w = vm_trans m dir w" for w by (simp only: vm_trans_def pe(2))
    from vm_wfD(2) [OF wf] obtain ds where ds: "m dir = Some ds" "length ds = 256"
      by (auto simp: dir_ok_def)
    then have "T \<noteq> dir" using T' by auto
    then have "vm_store dir ?i (dir_pte T) (m(T \<mapsto> replicate 2048 0)) = ok ?m"
      using ds l1_bound [of v] by (simp add: vm_store_def)
    then have pub: "vmm_publish [] dir ?i T 0 (m(T \<mapsto> replicate 2048 0)) = ok (dir_pte T, ?m)"
      by (simp add: dir_pte_def Let_def)
    have "present (dirent ?m dir v)" using pe(3) by simp
    note leaf = map_leaf [OF pe(1) this, of p, unfolded pe(3) dir_pte_fields(4) [OF T'(2)] same]
    have "optimsoc_vmm_map ma [] [] dir v p m =
      bnd (vm_load T (OR1K_ADDR_L2_INDEX_GET v) ?m) (\<lambda>pte.
        if OR1K_PTE_PRESENT_GET pte = 1 then ok (0, ?m)
        else vmm_set_entry [] T (OR1K_ADDR_L2_INDEX_GET v) p ?m)"
      using T vm_wfD(1,3) [OF wf] pub
      by (simp add: optimsoc_vmm_map_def present_get create d0 dir_pte_fields del: vmm_publish.simps)
    with leaf show ?thesis by auto
  qed
qed

lemma same_page_trans:
  "OR1K_ADDR_PN_GET w = OR1K_ADDR_PN_GET v \<Longrightarrow> vm_trans m dir w = vm_trans m dir v"
  by (simp add: vm_trans_def vm_entry_def leafent_def dirent_def page_split)

lemma unmap_wf:
  assumes wf: "vm_wf m dir"
  shows "\<exists>m'. optimsoc_vmm_unmap dir v m = ok (if vm_trans m dir v = None then 0 else 1, m') \<and>
    vm_wf m' dir \<and>
    (\<forall>w. vm_trans m' dir w = (if OR1K_ADDR_PN_GET w = OR1K_ADDR_PN_GET v then None else vm_trans m dir w))"
proof (cases "present (dirent m dir v) \<and> present (leafent m dir v)")
  case False
  then have none: "vm_trans m dir v = None" by (auto simp: vm_trans_def vm_entry_def)
  have "optimsoc_vmm_unmap dir v m = ok (0, m)"
  proof (cases "present (dirent m dir v)")
    case True
    with False vm_wfD(1,3) [OF wf] table_okD(1) [OF vm_wfD(5) [OF wf True]]
      table_okD(2) [OF vm_wfD(5) [OF wf True], of v]
    show ?thesis by (simp add: optimsoc_vmm_unmap_def present_get leafent_def)
  next
    case np: False
    with vm_wfD(1,3) [OF wf] show ?thesis by (simp add: optimsoc_vmm_unmap_def present_get)
  qed
  moreover have "vm_trans m dir w = None" if "OR1K_ADDR_PN_GET w = OR1K_ADDR_PN_GET v" for w
    using none same_page_trans [OF that] by simp
  ultimately show ?thesis using wf none by auto
next
  case True
  then have pr: "present (dirent m dir v)" by simp
  note tab = vm_wfD(5) [OF wf pr]
  have "OR1K_PTE_LAST_GET 0 = 0" by (simp add: last_bit)
  note w = write_entry [OF wf pr this]
  have "vm_trans m dir v \<noteq> None" using True present_nonzero by (simp add: vm_trans_def vm_entry_def)
  with True vm_wfD(1,3) [OF wf] table_okD(1) [OF tab] table_okD(2) [OF tab, of v]
    table_okD(3) [OF tab, of v 0] w
  show ?thesis
    by (auto simp: optimsoc_vmm_unmap_def present_get leafent_def vm_trans_def)
qed

lemma phys2virt_dir_skips:
  assumes "m dir = Some ds" and "length ds = 256" and "\<forall>d\<in>set ds. OR1K_PTE_PPI_GET d = 0"
    and "unat i + n \<le> 256"
  shows "phys2virt_dir n i dir p m = ok (0, None)"
  using assms(4)
proof (induction n arbitrary: i)
  case (Suc n)
  then have "unat (i + 1) + n \<le> 256" by (simp add: unat_word_ariths)
  moreover have "OR1K_PTE_PPI_GET (ds ! unat i) = 0" using assms Suc.prems by simp
  ultimately show ?case using assms(1,2) Suc by (simp add: vm_load_def)
qed simp

lemma wf_ppi:
  assumes "vm_wf m dir"
  obtains ds where "m dir = Some ds" "length ds = 256" "\<forall>d\<in>set ds. OR1K_PTE_PPI_GET d = 0"
proof -
  from assms obtain ds where ds: "m dir = Some ds" "dir_ok m dir ds" by (auto simp: vm_wf_def)
  moreover have "OR1K_PTE_PPI_GET 0 = 0" by (simp add: OR1K_PTE_PPI_GET_def)
  ultimately have "\<forall>d\<in>set ds. OR1K_PTE_PPI_GET d = 0" by (auto simp: dir_ok_def table_ok_def)
  with ds that show thesis by (auto simp: dir_ok_def)
qed

subsection \<open>The empty directory and a concrete one\<close>

lemma create_dir_wf:
  assumes "aligner_ok ma"
  shows "post (optimsoc_vmm_create_page_dir ma m) (\<lambda>(dir, m').
    m dir = None \<and> m' = m(dir \<mapsto> replicate 256 0) \<and> vm_wf m' dir \<and> (\<forall>v. vm_trans m' dir v = None))"
proof (cases "ma 0x400 0x400 (\<lambda>p. m p \<noteq> None) = 0")
  case False
  with assms have "\<not> m (ma 0x400 0x400 (\<lambda>p. m p \<noteq> None)) \<noteq> None"
    "ma 0x400 0x400 (\<lambda>p. m p \<noteq> None) AND 0x3ff = 0" unfolding aligner_ok_def by blast+
  with False show ?thesis
    by (simp add: optimsoc_vmm_create_page_dir_def Let_def vm_wf_def dir_ok_def vm_trans_def
        vm_entry_def dirent_def l1_bound)
qed (simp add: optimsoc_vmm_create_page_dir_def Let_def)

definition demo_aligner :: aligner where
  "demo_aligner al sz used =
     (case List.find (\<lambda>p. \<not> used p) [0x10000, 0x20000, 0x30000, 0x40000] of None \<Rightarrow> 0 | Some p \<Rightarrow> p)"

lemma demo_aligner_ok: "aligner_ok demo_aligner"
  by (auto simp: aligner_ok_def demo_aligner_def split: if_splits)

definition demo_vm :: vmem where
  "demo_vm = [0x10000 \<mapsto> replicate 256 0]"

lemma demo_vm_wf: "vm_wf demo_vm 0x10000" "vm_trans demo_vm 0x10000 v = None"
  by (simp_all add: demo_vm_def vm_wf_def dir_ok_def vm_trans_def vm_entry_def dirent_def l1_bound
      )

subsection \<open>Properties\<close>

text \<open>
  C6: mapping refines the update of a partial map. A page that is not mapped yet becomes
  mapped to the page of \<open>paddr\<close> and the call returns one; a page that is mapped stays as it
  is and the call returns zero. No other page is affected and the directory stays
  well-formed, whether a page table had to be created or not.
\<close>

theorem map_refines:
  assumes "vm_wf m dir" and "aligner_ok ma"
  shows "post (optimsoc_vmm_map ma [] [] dir v p m) (\<lambda>(r, m').
    vm_wf m' dir \<and> r = (if vm_trans m dir v = None then 1 else 0) \<and>
    (\<forall>w. vm_trans m' dir w = (if OR1K_ADDR_PN_GET w = OR1K_ADDR_PN_GET v \<and> vm_trans m dir v = None
       then Some (OR1K_ADDR_PN_GET p) else vm_trans m dir w)))"
  by (rule map_wf [OF assms])

theorem map_refines_witness:
  "post (optimsoc_vmm_map demo_aligner [] [] 0x10000 0x2004 0x80000 demo_vm)
     (\<lambda>(r, m'). r = 1 \<and> vm_wf m' 0x10000)"
  using map_refines [OF demo_vm_wf(1) demo_aligner_ok, of "0x2004" "0x80000"]
  by (rule post_mono) (auto simp: demo_vm_wf)

text \<open>
  C13: unmapping refines the removal from the partial map, on mapped and unmapped pages.
\<close>

theorem unmap_refines:
  assumes "vm_wf m dir"
  shows "\<exists>m'. optimsoc_vmm_unmap dir v m = ok (if vm_trans m dir v = None then 0 else 1, m') \<and>
    vm_wf m' dir \<and>
    (\<forall>w. vm_trans m' dir w = (if OR1K_ADDR_PN_GET w = OR1K_ADDR_PN_GET v then None else vm_trans m dir w))"
  by (rule unmap_wf [OF assms])

theorem unmap_refines_witness:
  "\<exists>m'. optimsoc_vmm_unmap 0x10000 0x2004 demo_vm = ok (0, m') \<and> vm_wf m' 0x10000"
  using unmap_refines [OF demo_vm_wf(1), of "0x2004"] by (auto simp: demo_vm_wf)

text \<open>
  C14: what was mapped is what the translation returns: after \<open>optimsoc_vmm_map\<close> of a free
  page, every address of that page translates to the same offset in the physical page.
\<close>

theorem map_then_virt2phys:
  assumes "vm_wf m dir" and "aligner_ok ma" and "vm_trans m dir v = None"
    and "OR1K_ADDR_PN_GET w = OR1K_ADDR_PN_GET v"
  shows "post (bnd (optimsoc_vmm_map ma [] [] dir v p m) (\<lambda>(_, m'). optimsoc_vmm_virt2phys dir w m'))
    (\<lambda>r. r = (1, Some ((p AND NOT (mask 13)) OR (w AND mask 13))))"
proof (rule post_bndI [OF map_wf [OF assms(1,2), of v p]])
  fix x assume x: "case x of (r, m') \<Rightarrow> vm_wf m' dir \<and> r = (if vm_trans m dir v = None then 1 else 0) \<and>
    (\<forall>w. vm_trans m' dir w = (if OR1K_ADDR_PN_GET w = OR1K_ADDR_PN_GET v \<and> vm_trans m dir v = None
       then Some (OR1K_ADDR_PN_GET p) else vm_trans m dir w))"
  obtain r m' where xm: "x = (r, m')" by (cases x)
  with x assms(3,4) have "vm_wf m' dir" "vm_trans m' dir w = Some (OR1K_ADDR_PN_GET p)" by auto
  with virt2phys_wf [of m' dir w] xm phys_addr [of p w]
  show "post (case x of (_, m') \<Rightarrow> optimsoc_vmm_virt2phys dir w m')
    (\<lambda>r. r = (1, Some ((p AND NOT (mask 13)) OR (w AND mask 13))))" by simp
qed

theorem map_then_virt2phys_witness:
  "post (bnd (optimsoc_vmm_map demo_aligner [] [] 0x10000 0x2004 0x80000 demo_vm)
      (\<lambda>(_, m'). optimsoc_vmm_virt2phys 0x10000 0x2010 m'))
    (\<lambda>r. r = (1, Some 0x80010))"
proof -
  have "OR1K_ADDR_PN_GET 0x2010 = OR1K_ADDR_PN_GET 0x2004" by (simp add: OR1K_ADDR_PN_GET_def)
  from map_then_virt2phys [OF demo_vm_wf(1) demo_aligner_ok demo_vm_wf(2) this, of "0x80000"]
  show ?thesis by (simp add: mask_eq_exp_minus_1)
qed

text \<open>
  The reverse translation finds nothing: on every well-formed directory, whatever is
  mapped, \<open>optimsoc_vmm_phys2virt\<close> returns zero, because it takes a directory entry for
  invalid when its protection index is zero, which \<open>optimsoc_vmm_map\<close> leaves it.
\<close>

theorem phys2virt_finds_nothing:
  assumes "vm_wf m dir"
  shows "optimsoc_vmm_phys2virt dir p m = ok (0, None)"
proof -
  from assms obtain ds where "m dir = Some ds" "length ds = 256" "\<forall>d\<in>set ds. OR1K_PTE_PPI_GET d = 0"
    by (rule wf_ppi)
  then show ?thesis
    using vm_wfD(1) [OF assms] phys2virt_dir_skips [of m dir ds 0 256 p]
    by (simp add: optimsoc_vmm_phys2virt_def del: phys2virt_dir.simps)
qed

theorem phys2virt_finds_nothing_witness: "optimsoc_vmm_phys2virt 0x10000 0x80010 demo_vm = ok (0, None)"
  by (rule phys2virt_finds_nothing [OF demo_vm_wf(1)])

text \<open>
  C32: the race of two cores that create the same page table. When another core has
  published its table between the load and the store, the loser frees its own table and then
  goes on with the pointer to it.
\<close>

theorem map_race_use_after_free:
  assumes "vm_wf m dir" and "\<not> present (dirent m dir v)"
    and "T = ma 0x2000 0x2000 (\<lambda>p. m p \<noteq> None)" and "T \<noteq> 0"
    and "m' = f (m(T \<mapsto> replicate 2048 0))" and "m' T \<noteq> None"
    and "m' dir = Some ds" and "length ds = 256"
    and "present (ds ! unat (OR1K_ADDR_L1_INDEX_GET v))"
    and "OR1K_PTE_LAST_GET (ds ! unat (OR1K_ADDR_L1_INDEX_GET v)) = 0"
  shows "optimsoc_vmm_map ma [f] [] dir v p m = flt UseAfterFree"
proof -
  have create: "optimsoc_vmm_create_page_table ma m = ok (T, m(T \<mapsto> replicate 2048 0))"
    using assms(3,4) by (simp add: optimsoc_vmm_create_page_table_def Let_def)
  have load: "vm_load dir (OR1K_ADDR_L1_INDEX_GET v) m' = ok (ds ! unat (OR1K_ADDR_L1_INDEX_GET v))"
    using assms(7,8) l1_bound [of v] by (simp add: vm_load_def)
  obtain ts where ts: "m' T = Some ts" using assms(6) by auto
  have "vmm_publish [f] dir (OR1K_ADDR_L1_INDEX_GET v) T d (m(T \<mapsto> replicate 2048 0)) =
      ok (ds ! unat (OR1K_ADDR_L1_INDEX_GET v), m'(T := None))" for d
    using load assms(4,5,9) ts by (simp add: present_get vm_free_def)
  then show ?thesis
    using assms(2,10) vm_wfD(1,3) [OF assms(1)] create
    by (simp add: optimsoc_vmm_map_def present_get vm_load_def del: vmm_publish.simps)
qed

theorem map_race_use_after_free_witness:
  "optimsoc_vmm_map demo_aligner [\<lambda>m. m(0x10000 \<mapsto> replicate 256 (dir_pte 0x30000))] []
     0x10000 0x2004 0x80000 demo_vm = flt UseAfterFree"
proof (rule map_race_use_after_free [OF demo_vm_wf(1), where T = "0x20000"
      and f = "\<lambda>m. m(0x10000 \<mapsto> replicate 256 (dir_pte 0x30000))"
      and m' = "[0x10000 \<mapsto> replicate 256 (dir_pte 0x30000), 0x20000 \<mapsto> replicate 2048 0]" and ds = "replicate 256 (dir_pte 0x30000)"])
  show "\<not> present (dirent demo_vm 0x10000 0x2004)"
    by (simp add: dirent_def demo_vm_def l1_bound)
qed (auto simp: demo_aligner_def demo_vm_def l1_bound dir_pte_fields fun_upd_twist)

end
