(* ===== verification/Baremetal.thy ===== *)
theory Baremetal
  imports Prelude
begin

section \<open>Drivers (libbaremetal: util.c, mp_simple.c, dma.c, uart.c)\<close>

text \<open>
  The register-level drivers below the runtime and the message passing library. What is read
  from the network adapter is a record of its registers; what is written to a device is the
  list of the writes, in order. The receive registers of the message passing hardware are
  word queues, one per endpoint; a read of an empty queue yields zero.
\<close>

subsection \<open>Bit fields (optimsoc-baremetal.h)\<close>

text \<open>The shift instruction of the target uses the low five bits of its operand.\<close>

definition shl :: "u32 \<Rightarrow> nat \<Rightarrow> u32" where
  "shl x n = push_bit (n mod 32) x"

definition shr :: "u32 \<Rightarrow> nat \<Rightarrow> u32" where
  "shr x n = drop_bit (n mod 32) x"

definition extract_bits :: "u32 \<Rightarrow> nat \<Rightarrow> nat \<Rightarrow> u32" where
  "extract_bits x m l = shr x l AND NOT (shl (NOT 0) (m - l + 1))"

definition set_bits_c :: "u32 \<Rightarrow> u32 \<Rightarrow> nat \<Rightarrow> nat \<Rightarrow> u32" where
  "set_bits_c x v m l =
     (if m \<noteq> 31 then
        ((shl (NOT 0) (m + 1) OR NOT (shl (NOT 0) l)) AND x) OR
        shl (v AND NOT (shl (NOT 0) (m - l + 1))) l
      else
        (NOT (shl (NOT 0) l) AND x) OR shl (v AND NOT (shl (NOT 0) (m - l + 1))) l)"

text \<open>The macro \<open>SET\<close> of \<open>mp_simple.c\<close> and \<open>control.c\<close> has no special case.\<close>

definition SET_FIELD :: "u32 \<Rightarrow> u32 \<Rightarrow> nat \<Rightarrow> nat \<Rightarrow> u32" where
  "SET_FIELD x v m l =
     ((shl (NOT 0) (m + 1) OR NOT (shl (NOT 0) l)) AND x) OR
     shl (v AND NOT (shl (NOT 0) (m - l + 1))) l"

abbreviation (input) OPTIMSOC_DEST_MSB :: nat where "OPTIMSOC_DEST_MSB \<equiv> 31"
abbreviation (input) OPTIMSOC_DEST_LSB :: nat where "OPTIMSOC_DEST_LSB \<equiv> 27"
abbreviation (input) OPTIMSOC_CLASS_MSB :: nat where "OPTIMSOC_CLASS_MSB \<equiv> 26"
abbreviation (input) OPTIMSOC_CLASS_LSB :: nat where "OPTIMSOC_CLASS_LSB \<equiv> 24"
abbreviation (input) OPTIMSOC_CLASS_NUM :: nat where "OPTIMSOC_CLASS_NUM \<equiv> 8"
abbreviation (input) OPTIMSOC_SRC_MSB :: nat where "OPTIMSOC_SRC_MSB \<equiv> 23"
abbreviation (input) OPTIMSOC_SRC_LSB :: nat where "OPTIMSOC_SRC_LSB \<equiv> 19"

subsection \<open>The network adapter and utility functions (util.c)\<close>

record na_regs =
  na_tileid :: u32
  na_ct_num :: u32
  na_ct_list :: "nat \<Rightarrow> u16"
  na_gmem_size :: u32
  na_gmem_tile :: u32
  na_seed :: u32
  na_numep :: u32

definition optimsoc_get_tileid :: "na_regs \<Rightarrow> u32" where
  "optimsoc_get_tileid na = na_tileid na"

definition optimsoc_get_numct :: "na_regs \<Rightarrow> u32" where
  "optimsoc_get_numct na = na_ct_num na"

definition optimsoc_get_tilerank :: "na_regs \<Rightarrow> u32 \<Rightarrow> int" where
  "optimsoc_get_tilerank na tile =
     (case List.find (\<lambda>i. ucast (na_ct_list na i) = tile) [0..<unat (optimsoc_get_numct na)] of
        None \<Rightarrow> -1 | Some i \<Rightarrow> int i)"

definition optimsoc_get_ctrank :: "na_regs \<Rightarrow> int" where
  "optimsoc_get_ctrank na = optimsoc_get_tilerank na (optimsoc_get_tileid na)"

definition optimsoc_get_ranktile :: "na_regs \<Rightarrow> u32 \<Rightarrow> u32" where
  "optimsoc_get_ranktile na rank = ucast (na_ct_list na (unat rank))"

definition optimsoc_mainmem_size :: "na_regs \<Rightarrow> u32" where
  "optimsoc_mainmem_size na = na_gmem_size na"

definition optimsoc_mainmem_tile :: "na_regs \<Rightarrow> u32" where
  "optimsoc_mainmem_tile na = na_gmem_tile na"

definition optimsoc_noc_maxpacketsize :: nat where
  "optimsoc_noc_maxpacketsize = 32"

definition optimsoc_get_seed :: "na_regs \<Rightarrow> u32" where
  "optimsoc_get_seed na = na_seed na"

text \<open>Trace events: the identifier of an event and its value, in order.\<close>

fun trace_name :: "string \<Rightarrow> (nat \<times> u32) list" where
  "trace_name [] = []"
| "trace_name (c # cs) = (0x21, of_char c) # trace_name cs"

definition optimsoc_trace_definesection :: "u32 \<Rightarrow> string \<Rightarrow> (nat \<times> u32) list" where
  "optimsoc_trace_definesection i name = (0x20, i) # trace_name name"

definition optimsoc_trace_section :: "u32 \<Rightarrow> (nat \<times> u32) list" where
  "optimsoc_trace_section i = [(0x22, i)]"

definition optimsoc_trace_kernelsection :: "(nat \<times> u32) list" where
  "optimsoc_trace_kernelsection = [(0x23, 0)]"

text \<open>
  The mutex word. \<open>or1k_sync_tsl\<close> sets it and returns what it was; the list says what the
  other holders do to the word between the attempts, so an empty list with a taken mutex is
  a lock call that never returns.
\<close>

definition optimsoc_mutex_init :: "u32 \<Rightarrow> u32" where
  "optimsoc_mutex_init w = 0"

fun optimsoc_mutex_lock :: "(u32 \<Rightarrow> u32) list \<Rightarrow> u32 \<Rightarrow> u32 option" where
  "optimsoc_mutex_lock [] w = (if w = 0 then Some 1 else None)"
| "optimsoc_mutex_lock (f # fs) w = (if w = 0 then Some 1 else optimsoc_mutex_lock fs (f 1))"

definition optimsoc_mutex_unlock :: "u32 \<Rightarrow> u32" where
  "optimsoc_mutex_unlock w = 0"

subsection \<open>Simple message passing (mp_simple.c)\<close>

text \<open>
  \<open>mp_handler\<close> says for which classes a handler is registered; what the handlers do is the
  matter of the libraries above, so the interrupt handler returns the packets it hands over,
  each with its endpoint, class and words.
\<close>

record mps_state =
  mps_rx :: "nat \<Rightarrow> u32 list"
  mps_buffer :: "u32 list"
  mps_handlers :: "bool list"
  mps_ready :: "u32 list"
  mps_num_endpoints :: u16
  mps_log :: "(nat \<times> nat \<times> u32 list) list"

definition optimsoc_mp_simple_init :: "na_regs \<Rightarrow> u32 list \<Rightarrow> mps_state \<Rightarrow> mps_state" where
  "optimsoc_mp_simple_init na junk s =
     s\<lparr>mps_handlers := replicate OPTIMSOC_CLASS_NUM False,
       mps_num_endpoints := ucast (na_numep na),
       mps_ready := replicate (unat (optimsoc_get_numct na)) 0,
       mps_buffer := take optimsoc_noc_maxpacketsize (junk @ replicate optimsoc_noc_maxpacketsize 0)\<rparr>"

definition optimsoc_mp_simple_num_endpoints :: "mps_state \<Rightarrow> u16" where
  "optimsoc_mp_simple_num_endpoints s = mps_num_endpoints s"

definition optimsoc_mp_simple_addhandler :: "nat \<Rightarrow> mps_state \<Rightarrow> mps_state exec" where
  "optimsoc_mp_simple_addhandler cls s =
     (if cls < length (mps_handlers s)
      then ok (s\<lparr>mps_handlers := (mps_handlers s)[cls := True]\<rparr>) else flt OutOfBounds)"

text \<open>The writes to the enable register, each with its endpoint.\<close>

definition optimsoc_mp_simple_enable :: "nat \<Rightarrow> (nat \<times> u32) list" where
  "optimsoc_mp_simple_enable endpoint = [(endpoint, 1)]"

text \<open>The writes of a send: the size and the words, to the send register of the endpoint.\<close>

definition optimsoc_mp_simple_send :: "nat \<Rightarrow> nat \<Rightarrow> u32 list \<Rightarrow> (nat \<times> u32) list exec" where
  "optimsoc_mp_simple_send endpoint sz buf =
     (if sz \<le> length buf
      then ok ((endpoint, word_of_nat sz) # map (Pair endpoint) (take sz buf))
      else flt OutOfBounds)"

definition optimsoc_mp_simple_ctready ::
    "na_regs \<Rightarrow> u32 \<Rightarrow> nat \<Rightarrow> mps_state \<Rightarrow> (int \<times> (nat \<times> u32) list) exec" where
  "optimsoc_mp_simple_ctready na rank endpoint s =
     (if unat rank < length (mps_ready s) then
        if shr (mps_ready s ! unat rank) endpoint AND 1 \<noteq> 0 then ok (1, [])
        else
          (let tile = optimsoc_get_ranktile na rank;
               req = shl tile OPTIMSOC_DEST_LSB;
               req = SET_FIELD req (word_of_nat (OPTIMSOC_CLASS_NUM - 1)) OPTIMSOC_CLASS_MSB OPTIMSOC_CLASS_LSB;
               req = SET_FIELD req (optimsoc_get_tileid na) OPTIMSOC_SRC_MSB OPTIMSOC_SRC_LSB;
               req = SET_FIELD req (word_of_nat endpoint AND 0xff) 9 2
           in ok (0, [(endpoint, 1), (endpoint, req)]))
      else flt OutOfBounds)"

text \<open>A read of the receive register.\<close>

definition mps_recv :: "nat \<Rightarrow> mps_state \<Rightarrow> u32 \<times> mps_state" where
  "mps_recv ep s =
     (case mps_rx s ep of [] \<Rightarrow> (0, s) | w # ws \<Rightarrow> (w, s\<lparr>mps_rx := (mps_rx s)(ep := ws)\<rparr>))"

fun mps_drop :: "nat \<Rightarrow> nat \<Rightarrow> mps_state \<Rightarrow> mps_state" where
  "mps_drop 0 ep s = s"
| "mps_drop (Suc n) ep s = mps_drop n ep (snd (mps_recv ep s))"

fun mps_fill :: "nat \<Rightarrow> nat \<Rightarrow> nat \<Rightarrow> mps_state \<Rightarrow> mps_state" where
  "mps_fill 0 i ep s = s"
| "mps_fill (Suc n) i ep s =
     (let (w, s1) = mps_recv ep s in
      mps_fill n (Suc i) ep (s1\<lparr>mps_buffer := (mps_buffer s1)[i := w]\<rparr>))"

text \<open>
  A message of the control class with the ready flag marks its sender. The rank of an
  unknown tile is \<open>-1\<close>, and the array is indexed with it.
\<close>

definition mps_mark_ready :: "na_regs \<Rightarrow> u32 \<Rightarrow> mps_state \<Rightarrow> mps_state exec" where
  "mps_mark_ready na header s =
     (if shr (header AND 2) 1 \<noteq> 0 then
        let domain = optimsoc_get_tilerank na (extract_bits header OPTIMSOC_SRC_MSB OPTIMSOC_SRC_LSB);
            endpoint = unat (extract_bits header 9 2)
        in if 0 \<le> domain \<and> nat domain < length (mps_ready s)
           then ok (s\<lparr>mps_ready := (mps_ready s)[nat domain := mps_ready s ! nat domain OR shl 1 endpoint]\<rparr>)
           else flt OutOfBounds
      else ok s)"

text \<open>
  One endpoint in the loop of \<open>_irq_handler\<close>: whether it was empty, and the new state. A
  message that is too large is read out and dropped, and the code goes on with whatever the
  buffer holds.
\<close>

definition mps_service :: "na_regs \<Rightarrow> nat \<Rightarrow> mps_state \<Rightarrow> (bool \<times> mps_state) exec" where
  "mps_service na ep s =
     (let (sz, s1) = mps_recv ep s in
      if sz = 0 then ok (True, s1)
      else
        let s2 = (if optimsoc_noc_maxpacketsize < unat sz then mps_drop (unat sz) ep s1
                  else mps_fill (unat sz) 0 ep s1);
            header = mps_buffer s2 ! 0;
            cls = unat (extract_bits header OPTIMSOC_CLASS_MSB OPTIMSOC_CLASS_LSB)
        in bnd (if cls = OPTIMSOC_CLASS_NUM - 1 then mps_mark_ready na header s2 else ok s2) (\<lambda>s3.
             if mps_handlers s3 ! cls
             then ok (False, s3\<lparr>mps_log := mps_log s3 @ [(ep, cls, take (unat sz) (mps_buffer s3))]\<rparr>)
             else ok (False, s3)))"

fun mps_pass :: "na_regs \<Rightarrow> nat list \<Rightarrow> nat \<Rightarrow> mps_state \<Rightarrow> (nat \<times> mps_state) exec" where
  "mps_pass na [] n s = ok (n, s)"
| "mps_pass na (ep # eps) n s =
     bnd (mps_service na ep s) (\<lambda>(e, s1). mps_pass na eps (if e then n + 1 else n) s1)"

partial_function (option) irq_handler :: "na_regs \<Rightarrow> mps_state \<Rightarrow> (fault + mps_state) option" where
  "irq_handler na s =
     bnd (mps_pass na [0..<unat (mps_num_endpoints s)] 0 s) (\<lambda>(n, s1).
       if n = unat (mps_num_endpoints s1) then ok s1 else irq_handler na s1)"

subsection \<open>DMA (dma.c)\<close>

datatype dma_success = DMA_SUCCESS | DMA_ERR_NOTINITIALIZED | DMA_ERR_NOSLOT | DMA_ERR_NOTALLOCATED

datatype dma_flag = DMA_SLOT_FREE | DMA_SLOT_ALLOC | DMA_SLOT_WAIT

record dma_state =
  dma_initialized :: bool
  dma_slots :: "(dma_flag \<times> u32) list"
  dma_writes :: "(u32 \<times> u32) list"

abbreviation (input) DMA_SLOTS :: nat where "DMA_SLOTS \<equiv> 4"
abbreviation (input) DMA_BASE :: u32 where "DMA_BASE \<equiv> 0xe0200000"

definition dma_init :: "dma_state \<Rightarrow> dma_state" where
  "dma_init s = s\<lparr>dma_slots := map (\<lambda>i. (DMA_SLOT_FREE, word_of_nat i)) [0..<DMA_SLOTS],
                  dma_initialized := True\<rparr>"

text \<open>The first free slot, marked; \<open>None\<close> is the null pointer.\<close>

definition dma_alloc_slot :: "dma_state \<Rightarrow> nat option \<times> dma_state" where
  "dma_alloc_slot s =
     (case List.find (\<lambda>i. fst (dma_slots s ! i) = DMA_SLOT_FREE) [0..<DMA_SLOTS] of
        None \<Rightarrow> (None, s)
      | Some i \<Rightarrow> (Some i, s\<lparr>dma_slots := (dma_slots s)[i := (DMA_SLOT_ALLOC, snd (dma_slots s ! i))]\<rparr>))"

definition dma_alloc :: "dma_state \<Rightarrow> dma_success \<times> u32 option \<times> dma_state" where
  "dma_alloc s =
     (if \<not> dma_initialized s then (DMA_ERR_NOTINITIALIZED, None, s)
      else case dma_alloc_slot s of
        (None, s1) \<Rightarrow> (DMA_ERR_NOSLOT, None, s1)
      | (Some i, s1) \<Rightarrow> (DMA_SUCCESS, Some (snd (dma_slots s1 ! i)), s1))"

definition dma_free :: "u32 \<Rightarrow> dma_state \<Rightarrow> (dma_success \<times> dma_state) exec" where
  "dma_free i s =
     (if \<not> dma_initialized s then ok (DMA_ERR_NOTINITIALIZED, s)
      else bnd (assert_c (unat i < DMA_SLOTS)) (\<lambda>_.
        if fst (dma_slots s ! unat i) = DMA_SLOT_ALLOC
        then ok (DMA_SUCCESS, s\<lparr>dma_slots := (dma_slots s)[unat i := (DMA_SLOT_FREE, snd (dma_slots s ! unat i))]\<rparr>)
        else ok (DMA_ERR_NOTALLOCATED, s)))"

definition dma_transfer :: "ptr \<Rightarrow> u32 \<Rightarrow> ptr \<Rightarrow> u32 \<Rightarrow> u32 \<Rightarrow> u32 \<Rightarrow> dma_state \<Rightarrow> (dma_success \<times> dma_state) exec" where
  "dma_transfer local remote_tile remote sz dir i s =
     (if \<not> dma_initialized s then ok (DMA_ERR_NOTINITIALIZED, s)
      else if unat i \<ge> DMA_SLOTS then flt OutOfBounds
      else
        let base = DMA_BASE + 0x20 * snd (dma_slots s ! unat i)
        in ok (DMA_SUCCESS, s\<lparr>dma_writes := dma_writes s @
             [(base, local), (base + 4, sz), (base + 8, remote_tile), (base + 0xc, remote),
              (base + 0x10, dir), (base + 0x14, 1)]\<rparr>))"

text \<open>Polling reads the status register of the slot; \<open>status\<close> is the sequence of the answers.\<close>

fun dma_wait_loop :: "u32 list \<Rightarrow> dma_success option" where
  "dma_wait_loop [] = None"
| "dma_wait_loop (p # ps) = (if p = 0 then dma_wait_loop ps else Some DMA_SUCCESS)"

definition dma_wait :: "u32 list \<Rightarrow> dma_state \<Rightarrow> dma_success option" where
  "dma_wait status s =
     (if \<not> dma_initialized s then Some DMA_ERR_NOTINITIALIZED else dma_wait_loop status)"

subsection \<open>Character output (uart.c)\<close>

text \<open>
  \<open>text\<close> is what \<open>vsnprintf\<close> made of the format. Each character is a one-word packet to the
  tile of the UART.
\<close>

definition uart_header :: "na_regs \<Rightarrow> u32 \<Rightarrow> u32" where
  "uart_header na uarttile =
     set_bits_c (set_bits_c (set_bits_c 0 uarttile OPTIMSOC_DEST_MSB OPTIMSOC_DEST_LSB)
        0 OPTIMSOC_CLASS_MSB OPTIMSOC_CLASS_LSB)
        (optimsoc_get_tileid na) OPTIMSOC_SRC_MSB OPTIMSOC_SRC_LSB"

definition uart_printf :: "na_regs \<Rightarrow> bool \<Rightarrow> u32 \<Rightarrow> string \<Rightarrow> (nat \<times> u32) list" where
  "uart_printf na has_uart uarttile txt =
     (if has_uart
      then concat (map (\<lambda>c. [(0, 1), (0, set_bits_c (uart_header na uarttile) (of_char c) 7 0)]) (take 127 txt))
      else [])"

definition lcd_word :: "na_regs \<Rightarrow> u32 \<Rightarrow> u32 \<Rightarrow> u32 \<Rightarrow> u32 \<Rightarrow> u32" where
  "lcd_word na uarttile row col c =
     set_bits_c (set_bits_c (set_bits_c (set_bits_c (uart_header na uarttile) 1 13 13) row 12 12) col 11 8) c 7 0"

definition lcd_set :: "na_regs \<Rightarrow> bool \<Rightarrow> bool \<Rightarrow> u32 \<Rightarrow> u32 \<Rightarrow> u32 \<Rightarrow> u32 \<Rightarrow> (nat \<times> u32) list" where
  "lcd_set na has_uart lcd_enable uarttile row col c =
     (if has_uart \<and> lcd_enable then [(0, 1), (0, lcd_word na uarttile row col c)] else [])"

text \<open>In \<open>lcd_init\<close> the blank is set before the row and the column.\<close>

definition lcd_init :: "na_regs \<Rightarrow> u32 \<Rightarrow> (nat \<times> u32) list" where
  "lcd_init na uarttile =
     (let b = set_bits_c (set_bits_c (uart_header na uarttile) 1 13 13) 32 7 0 in
      concat (map (\<lambda>r. concat (map (\<lambda>c.
        [(0, 1), (0, set_bits_c (set_bits_c b (word_of_nat r) 12 12) (word_of_nat c) 11 8)]) [0..<16])) [0..<2]))"

end
