(* ===== verification/Baremetal_Props.thy ===== *)
theory Baremetal_Props
  imports Baremetal
begin

section \<open>Correctness of the drivers\<close>

subsection \<open>Bit fields\<close>

lemma bit_shl: "bit (shl x n) k \<longleftrightarrow> k < 32 \<and> n mod 32 \<le> k \<and> bit x (k - n mod 32)"
  by (auto simp: shl_def bit_simps)

lemma bit_shr: "bit (shr x n) k \<longleftrightarrow> bit x (n mod 32 + k)"
  by (simp add: shr_def bit_simps)

lemma bit_word_lt: "bit (x :: u32) n \<Longrightarrow> n < 32"
  using bit_imp_le_length [of x n] by simp

lemma bit_all: "bit (NOT 0 :: u32) n \<longleftrightarrow> n < 32" "bit (- 1 :: u32) n \<longleftrightarrow> n < 32"
  by (simp_all add: bit_simps)

lemma bit_extract:
  assumes "l \<le> m" and "m < 32" and "m - l + 1 < 32"
  shows "bit (extract_bits x m l) n \<longleftrightarrow> n \<le> m - l \<and> bit x (l + n)"
  using assms by (auto simp: extract_bits_def bit_shl bit_shr bit_simps bit_all dest: bit_word_lt)

lemma bit_set_field:
  assumes "l \<le> m" and "m < 31"
  shows "bit (SET_FIELD x v m l) n \<longleftrightarrow> (if l \<le> n \<and> n \<le> m then bit v (n - l) else bit x n)"
  using assms by (auto simp: SET_FIELD_def bit_shl bit_simps bit_all dest: bit_word_lt)

lemma bit_set_bits:
  assumes "l \<le> m" and "m < 32" and "m - l + 1 < 32"
  shows "bit (set_bits_c x v m l) n \<longleftrightarrow> n < 32 \<and> (if l \<le> n \<and> n \<le> m then bit v (n - l) else bit x n)"
proof (cases "m = 31")
  case True
  with assms show ?thesis
    by (auto simp: set_bits_c_def bit_shl bit_simps bit_all dest: bit_word_lt)
next
  case False
  with assms show ?thesis
    by (auto simp: set_bits_c_def bit_shl bit_simps bit_all dest: bit_word_lt)
qed

lemma extract_set:
  assumes "l \<le> m" and "m < 32" and "m - l + 1 < 32"
  shows "extract_bits (set_bits_c x v m l) m l = take_bit (m - l + 1) v"
  by (rule bit_eqI) (use assms in \<open>auto simp: bit_extract bit_set_bits bit_take_bit_iff\<close>)

lemma extract_set_other:
  assumes "l \<le> m" "m < 32" "m - l + 1 < 32" "l' \<le> m'" "m' < 32" "m' - l' + 1 < 32" "m' < l \<or> m < l'"
  shows "extract_bits (set_bits_c x v m l) m' l' = extract_bits x m' l'"
  by (rule bit_eqI) (use assms in \<open>auto simp: bit_extract bit_set_bits\<close>)

subsection \<open>The interrupt handler of the message passing hardware\<close>

text \<open>A packet in a receive queue: its size, then its words.\<close>

definition mps_enc :: "u32 list \<Rightarrow> u32 list" where
  "mps_enc p = word_of_nat (length p) # p"

definition pkt_class :: "u32 list \<Rightarrow> nat" where
  "pkt_class p = unat (extract_bits (p ! 0) OPTIMSOC_CLASS_MSB OPTIMSOC_CLASS_LSB)"

definition pkt_ok :: "bool list \<Rightarrow> u32 list \<Rightarrow> bool" where
  "pkt_ok h p \<longleftrightarrow> p \<noteq> [] \<and> length p \<le> 32 \<and> pkt_class p \<noteq> 7 \<and> h ! pkt_class p"

definition mps_rep :: "mps_state \<Rightarrow> (nat \<Rightarrow> u32 list list) \<Rightarrow> bool" where
  "mps_rep s P \<longleftrightarrow>
     length (mps_buffer s) = 32 \<and>
     (\<forall>ep < unat (mps_num_endpoints s). mps_rx s ep = concat (map mps_enc (P ep)) \<and>
        (\<forall>p \<in> set (P ep). pkt_ok (mps_handlers s) p))"

lemma mps_fill_words:
  "mps_rx s ep = p @ rest \<Longrightarrow> i + length p \<le> length (mps_buffer s) \<Longrightarrow>
   mps_fill (length p) i ep s =
     s\<lparr>mps_rx := (mps_rx s)(ep := rest),
       mps_buffer := take i (mps_buffer s) @ p @ drop (i + length p) (mps_buffer s)\<rparr>"
proof (induction p arbitrary: i s)
  case Nil
  then show ?case by (simp add: fun_upd_idem)
next
  case (Cons w p)
  let ?s = "s\<lparr>mps_rx := (mps_rx s)(ep := p @ rest), mps_buffer := (mps_buffer s)[i := w]\<rparr>"
  have "mps_fill (length (w # p)) i ep s = mps_fill (length p) (Suc i) ep ?s"
    using Cons.prems(1) by (simp add: mps_recv_def)
  also have "\<dots> = ?s\<lparr>mps_rx := (mps_rx ?s)(ep := rest),
      mps_buffer := take (Suc i) (mps_buffer ?s) @ p @ drop (Suc i + length p) (mps_buffer ?s)\<rparr>"
    using Cons.prems(2) by (intro Cons.IH) simp_all
  finally show ?case
    using Cons.prems(2) by (simp add: take_Suc_conv_app_nth del: fun_upd_apply)
qed

text \<open>What the log holds of one endpoint.\<close>

definition log_of :: "mps_state \<Rightarrow> nat \<Rightarrow> u32 list list" where
  "log_of s ep = map (\<lambda>x. snd (snd x)) (filter (\<lambda>x. fst x = ep) (mps_log s))"

lemma service_empty:
  assumes "mps_rep s P" and "ep < unat (mps_num_endpoints s)" and "P ep = []"
  shows "mps_service na ep s = ok (True, s)"
  using assms by (simp add: mps_rep_def mps_service_def mps_recv_def)

lemma service_packet:
  assumes rep: "mps_rep s P" and ep: "ep < unat (mps_num_endpoints s)" and P: "P ep = p # ps"
  shows "\<exists>s'. mps_service na ep s = ok (False, s') \<and> mps_rep s' (P(ep := ps)) \<and>
    mps_num_endpoints s' = mps_num_endpoints s \<and>
    (\<forall>e. log_of s' e = log_of s e @ (if e = ep then [p] else []))"
proof -
  from assms have rx: "mps_rx s ep = word_of_nat (length p) # p @ concat (map mps_enc ps)"
    and p: "p \<noteq> []" "length p \<le> 32" "pkt_class p \<noteq> 7" "mps_handlers s ! pkt_class p"
    and buf: "length (mps_buffer s) = 32"
    by (auto simp: mps_rep_def mps_enc_def pkt_ok_def)
  have u: "unat (word_of_nat (length p) :: u32) = length p" using p(2) by (simp add: unsigned_of_nat take_bit_nat_eq_self)
  let ?s1 = "s\<lparr>mps_rx := (mps_rx s)(ep := p @ concat (map mps_enc ps))\<rparr>"
  let ?s2 = "s\<lparr>mps_rx := (mps_rx s)(ep := concat (map mps_enc ps)),
      mps_buffer := p @ drop (length p) (mps_buffer s)\<rparr>"
  have fill: "mps_fill (length p) 0 ep ?s1 = ?s2"
    using mps_fill_words [of ?s1 ep p "concat (map mps_enc ps)" 0] p(2) buf by simp
  have nz: "(word_of_nat (length p) :: u32) \<noteq> 0" using p(1) u by (metis length_0_conv unat_0)
  have hd: "mps_buffer ?s2 ! 0 = p ! 0" using p(1) by (cases p) auto
  let ?s3 = "?s2\<lparr>mps_log := mps_log s @ [(ep, pkt_class p, p)]\<rparr>"
  have "mps_service na ep s = ok (False, ?s3)"
    using rx nz u p buf hd
    by (simp add: mps_service_def mps_recv_def fill optimsoc_noc_maxpacketsize_def Let_def
        pkt_class_def del: mps_fill.simps)
  moreover have "mps_rep ?s3 (P(ep := ps))"
    using rep P p(2) by (auto simp: mps_rep_def)
  ultimately show ?thesis by (auto simp: log_of_def)
qed

lemma pass_packets:
  assumes "mps_rep s P" and "set eps \<subseteq> {..<unat (mps_num_endpoints s)}"
  shows "\<exists>k s' P'. mps_pass na eps n s = ok (n + k, s') \<and> mps_rep s' P' \<and> k \<le> length eps \<and>
    mps_num_endpoints s' = mps_num_endpoints s \<and>
    (\<forall>e. log_of s' e @ P' e = log_of s e @ P e) \<and>
    (\<forall>e. length (P' e) \<le> length (P e)) \<and>
    (if k = length eps then P' = P \<and> s' = s \<and> (\<forall>e\<in>set eps. P e = [])
     else \<exists>e \<in> set eps. length (P' e) < length (P e))"
  using assms
proof (induction eps arbitrary: s P n)
  case Nil
  then show ?case by auto
next
  case (Cons ep eps)
  then have ep: "ep < unat (mps_num_endpoints s)" by simp
  show ?case
  proof (cases "P ep")
    case Nil
    from Cons.IH [OF Cons.prems(1), of "n + 1"] Cons.prems(2) obtain k s' P' where
      IH: "mps_pass na eps (n + 1) s = ok (n + 1 + k, s')" "mps_rep s' P'" "k \<le> length eps"
      "mps_num_endpoints s' = mps_num_endpoints s"
      "\<forall>e. log_of s' e @ P' e = log_of s e @ P e" "\<forall>e. length (P' e) \<le> length (P e)"
      "if k = length eps then P' = P \<and> s' = s \<and> (\<forall>e\<in>set eps. P e = [])
       else \<exists>e \<in> set eps. length (P' e) < length (P e)" by auto
    have "mps_pass na (ep # eps) n s = ok (n + Suc k, s')"
      using service_empty [OF Cons.prems(1) ep Nil, of na] IH(1) by simp
    with IH Nil show ?thesis
      by (intro exI [of _ "Suc k"] exI [of _ s'] exI [of _ P']) (auto split: if_splits)
  next
    case (Cons p ps)
    from service_packet [OF Cons.prems(1) ep Cons, of na] obtain s1 where
      s1: "mps_service na ep s = ok (False, s1)" "mps_rep s1 (P(ep := ps))"
        "mps_num_endpoints s1 = mps_num_endpoints s"
        "\<And>e. log_of s1 e = log_of s e @ (if e = ep then [p] else [])" by blast
    from Cons.IH [OF s1(2), of n] s1(3) Cons.prems(2) obtain k s' P' where
      IH: "mps_pass na eps n s1 = ok (n + k, s')" "mps_rep s' P'" "k \<le> length eps"
      "mps_num_endpoints s' = mps_num_endpoints s"
      "\<And>e. log_of s' e @ P' e = log_of s1 e @ (P(ep := ps)) e"
      "\<And>e. length (P' e) \<le> length ((P(ep := ps)) e)" by auto
    have "mps_pass na (ep # eps) n s = ok (n + k, s')" using s1(1) IH(1) by simp
    moreover have "log_of s' e @ P' e = log_of s e @ P e" for e
      using IH(5) [of e] s1(4) [of e] Cons by auto
    moreover have "length (P' e) \<le> length (P e)" for e
      using IH(6) [of e] Cons by (auto split: if_splits)
    moreover have "length (P' ep) < length (P ep)" using IH(6) [of ep] Cons by simp
    ultimately show ?thesis
      using IH by (intro exI [of _ k] exI [of _ s'] exI [of _ P']) auto
  qed
qed

lemma sum_drops:
  assumes "\<And>e. f e \<le> (g e :: nat)" and "e \<in> set [0..<n]" and "f e < g e"
  shows "(\<Sum>e<n. f e) < (\<Sum>e<n. g e)"
  using assms by (intro sum_strict_mono_ex1) auto

text \<open>The handler returns, and every packet was handed over, per endpoint in order.\<close>

lemma irq_delivers:
  assumes "mps_rep s P"
  shows "\<exists>s'. irq_handler na s = ok s' \<and> mps_rep s' (\<lambda>_. []) \<and>
    (\<forall>ep < unat (mps_num_endpoints s). log_of s' ep = log_of s ep @ P ep)"
  using assms
proof (induction "\<Sum>e < unat (mps_num_endpoints s). length (P e)" arbitrary: s P rule: less_induct)
  case less
  let ?n = "unat (mps_num_endpoints s)"
  from pass_packets [OF less.prems, of "[0..<?n]" na 0] obtain k s' P' where
    p: "mps_pass na [0..<?n] 0 s = ok (k, s')" "mps_rep s' P'" "k \<le> ?n"
      "mps_num_endpoints s' = mps_num_endpoints s"
      "\<And>e. log_of s' e @ P' e = log_of s e @ P e" "\<And>e. length (P' e) \<le> length (P e)"
      "if k = ?n then P' = P \<and> s' = s \<and> (\<forall>e\<in>set [0..<?n]. P e = [])
       else \<exists>e \<in> set [0..<?n]. length (P' e) < length (P e)" by (auto simp: atLeast0LessThan)
  show ?case
  proof (cases "k = ?n")
    case True
    with p(7) have "s' = s" "\<forall>e<?n. P e = []" by auto
    moreover have "irq_handler na s = ok s'" using p(1,4) True by (subst irq_handler.simps) simp
    moreover have "mps_rep s (\<lambda>_. [])" using calculation less.prems by (auto simp: mps_rep_def)
    ultimately show ?thesis by auto
  next
    case False
    with p(7) obtain e where "e \<in> set [0..<?n]" "length (P' e) < length (P e)" by auto
    from sum_drops [where f = "\<lambda>e. length (P' e)" and g = "\<lambda>e. length (P e)", OF p(6) this] p(4)
    have "(\<Sum>e < unat (mps_num_endpoints s'). length (P' e)) < (\<Sum>e < ?n. length (P e))" by simp
    from less.hyps [OF this p(2)] obtain s'' where
      s'': "irq_handler na s' = ok s''" "mps_rep s'' (\<lambda>_. [])"
        "\<forall>ep < unat (mps_num_endpoints s'). log_of s'' ep = log_of s' ep @ P' ep" by blast
    have "irq_handler na s = ok s''" using p(1,4) False s''(1) by (subst irq_handler.simps) simp
    with s'' p(4,5) show ?thesis by auto
  qed
qed

subsection \<open>Properties\<close>

text \<open>
  bit fields. What is set in a field is read back from it, cut to the width of the
  field, and every field that does not overlap is unchanged, up to the most significant bit
  of the word.
\<close>

theorem field_roundtrip:
  assumes "l \<le> m" and "m < 32" and "m - l + 1 < 32"
  shows "extract_bits (set_bits_c x v m l) m l = take_bit (m - l + 1) v \<and>
    (\<forall>m' l'. l' \<le> m' \<longrightarrow> m' < 32 \<longrightarrow> m' - l' + 1 < 32 \<longrightarrow> m' < l \<or> m < l' \<longrightarrow>
       extract_bits (set_bits_c x v m l) m' l' = extract_bits x m' l')"
  using assms extract_set extract_set_other by blast

theorem field_roundtrip_witness:
  "extract_bits (set_bits_c 0xffffffff 5 31 27) 31 27 = 5 \<and>
   extract_bits (set_bits_c 0xffffffff 5 31 27) 26 24 = extract_bits 0xffffffff 26 24"
proof -
  have "take_bit (31 - 27 + 1) (5::u32) = 5" by simp
  with field_roundtrip [of 27 31 "0xffffffff" 5] show ?thesis by simp
qed


definition demo_na :: na_regs where
  "demo_na = \<lparr>na_tileid = 0, na_ct_num = 2, na_ct_list = (\<lambda>i. word_of_nat i), na_gmem_size = 0,
     na_gmem_tile = 0, na_seed = 0, na_numep = 2\<rparr>"

definition demo_mps :: mps_state where
  "demo_mps = \<lparr>mps_rx = (\<lambda>ep. if ep = 1 then [2, 0x02000000, 7, 1, 0x02000001] else []),
     mps_buffer = replicate 32 0, mps_handlers = replicate 8 True, mps_ready = [0, 0],
     mps_num_endpoints = 2, mps_log = []\<rparr>"

lemma demo_mps_rep:
  "mps_rep demo_mps (\<lambda>ep. if ep = 1 then [[0x02000000, 7], [0x02000001]] else [])"
proof -
  have "pkt_class [0x02000000, 7] = 2" "pkt_class [0x02000001] = 2"
    by (simp_all add: pkt_class_def extract_bits_def shl_def shr_def mask_eq_exp_minus_1)
  then show ?thesis
    by (simp add: mps_rep_def demo_mps_def mps_enc_def pkt_ok_def All_less_Suc numeral_2_eq_2)
qed


text \<open>
  A message that is too large is dropped, but the handler runs all the same, on the
  packet that was in the buffer before.
\<close>

theorem oversize_redelivers:
  assumes "mps_rx s ep = w # ws" and "32 < unat w" and "length (mps_buffer s) = 32"
    and "cls = unat (extract_bits (mps_buffer s ! 0) OPTIMSOC_CLASS_MSB OPTIMSOC_CLASS_LSB)"
    and "cls \<noteq> 7" and "mps_handlers s ! cls"
  shows "\<exists>s'. mps_service na ep s = ok (False, s') \<and>
    mps_log s' = mps_log s @ [(ep, cls, mps_buffer s)]"
proof -
  have drop: "mps_buffer (mps_drop n ep s) = mps_buffer s \<and> mps_handlers (mps_drop n ep s) = mps_handlers s \<and>
      mps_log (mps_drop n ep s) = mps_log s" for n s
    by (induction n arbitrary: s) (auto simp: mps_recv_def split: list.splits)
  have "w \<noteq> 0" using assms(2) by auto
  then show ?thesis
    using assms drop by (auto simp: mps_service_def mps_recv_def optimsoc_noc_maxpacketsize_def Let_def)
qed

theorem oversize_redelivers_witness:
  "\<exists>s'. mps_service demo_na 0 (demo_mps\<lparr>mps_rx := (\<lambda>_. 40 # replicate 40 0)\<rparr>) = ok (False, s') \<and>
     mps_log s' = [(0, 0, replicate 32 0)]"
  using oversize_redelivers [of "demo_mps\<lparr>mps_rx := (\<lambda>_. 40 # replicate 40 0)\<rparr>" 0 40 "replicate 40 0" 0 demo_na]
  by (simp add: demo_mps_def extract_bits_def shl_def shr_def)

text \<open>
  The ready message of a tile that is not a compute tile is an access out of bounds: its
  rank is \<open>-1\<close>, and the handler indexes the array of the ranks with it.
\<close>

theorem ready_of_unknown_tile:
  assumes "optimsoc_get_tilerank na (extract_bits h OPTIMSOC_SRC_MSB OPTIMSOC_SRC_LSB) = -1"
    and "bit h 1"
  shows "mps_mark_ready na h s = flt OutOfBounds"
proof -
  have "bit (shr (h AND 2) 1) 0"
    using assms(2) by (simp add: bit_shr bit_simps bit_numeral_rec)
  then have "shr (h AND 2) 1 \<noteq> 0" by auto
  with assms(1) show ?thesis by (simp add: mps_mark_ready_def Let_def)
qed

theorem ready_of_unknown_tile_witness:
  "mps_mark_ready \<lparr>na_tileid = 0, na_ct_num = 1, na_ct_list = (\<lambda>_. 0), na_gmem_size = 0,
     na_gmem_tile = 0, na_seed = 0, na_numep = 1\<rparr> 0x00180002 demo_mps = flt OutOfBounds"
  by (rule ready_of_unknown_tile)
    (simp_all add: optimsoc_get_tilerank_def optimsoc_get_numct_def extract_bits_def shl_def shr_def
      bit_numeral_rec mask_eq_exp_minus_1)

text \<open>
  The rank of a compute tile and the tile of a rank are inverse to each other when the
  list of compute tiles has no duplicates.
\<close>

theorem rank_of_tile:
  assumes "inj_on (na_ct_list na) {..<unat (na_ct_num na)}" and "unat r < unat (na_ct_num na)"
  shows "optimsoc_get_tilerank na (optimsoc_get_ranktile na r) = int (unat r)"
proof -
  have inj: "(ucast x :: u32) = ucast y \<longleftrightarrow> x = y" for x y :: u16
  proof
    assume "(ucast x :: u32) = ucast y"
    then have "unat (ucast x :: u32) = unat (ucast y :: u32)" by simp
    then show "x = y"
      using unsigned_less [of x, where 'a = nat] unsigned_less [of y, where 'a = nat]
      by (simp add: unsigned_ucast_eq take_bit_nat_eq_self word_unat_eq_iff)
  qed simp
  have "List.find (\<lambda>i. (ucast (na_ct_list na i) :: u32) = ucast (na_ct_list na (unat r)))
      [0..<unat (na_ct_num na)] = Some (unat r)"
    using assms by (auto simp: find_Some_iff inj intro!: exI [of _ "unat r"] dest!: inj_onD [OF assms(1)])
  then show ?thesis
    by (simp add: optimsoc_get_tilerank_def optimsoc_get_ranktile_def optimsoc_get_numct_def)
qed

theorem rank_of_tile_witness:
  "optimsoc_get_tilerank \<lparr>na_tileid = 0, na_ct_num = 2, na_ct_list = (\<lambda>i. of_nat i), na_gmem_size = 0,
     na_gmem_tile = 0, na_seed = 0, na_numep = 1\<rparr>
     (optimsoc_get_ranktile \<lparr>na_tileid = 0, na_ct_num = 2, na_ct_list = (\<lambda>i. of_nat i), na_gmem_size = 0,
     na_gmem_tile = 0, na_seed = 0, na_numep = 1\<rparr> 1) = 1"
proof -
  have "{..<2 :: nat} = {0, 1}" by auto
  then show ?thesis by (subst rank_of_tile) (simp_all add: inj_on_def)
qed

subsection \<open>DMA slots\<close>

definition dma_wf :: "dma_state \<Rightarrow> bool" where
  "dma_wf s \<longleftrightarrow> dma_initialized s \<and> length (dma_slots s) = DMA_SLOTS \<and>
     (\<forall>i < DMA_SLOTS. snd (dma_slots s ! i) = word_of_nat i)"

definition dma_taken :: "dma_state \<Rightarrow> nat set" where
  "dma_taken s = {i. i < DMA_SLOTS \<and> fst (dma_slots s ! i) \<noteq> DMA_SLOT_FREE}"

lemma unat_slot: "i < DMA_SLOTS \<Longrightarrow> unat (word_of_nat i :: u32) = i"
  by (simp add: unsigned_of_nat take_bit_nat_eq_self)

text \<open>
  a DMA slot is never given out twice. An allocation succeeds exactly while a slot is
  free, its handle is that of a free slot, which is taken afterwards; freeing the handle
  gives back just this slot.
\<close>

theorem dma_alloc_fresh:
  assumes "dma_wf s"
  shows "case dma_alloc s of (r, h, s') \<Rightarrow> dma_wf s' \<and>
    (if dma_taken s = {..<DMA_SLOTS} then r = DMA_ERR_NOSLOT \<and> h = None \<and> s' = s
     else \<exists>i. r = DMA_SUCCESS \<and> h = Some (word_of_nat i) \<and> i < DMA_SLOTS \<and> i \<notin> dma_taken s \<and>
       dma_taken s' = insert i (dma_taken s) \<and>
       (\<exists>s''. dma_free (word_of_nat i) s' = ok (DMA_SUCCESS, s'') \<and> dma_taken s'' = dma_taken s))"
proof (cases "List.find (\<lambda>i. fst (dma_slots s ! i) = DMA_SLOT_FREE) [0..<DMA_SLOTS]")
  case None
  then have "dma_taken s = {..<DMA_SLOTS}" by (auto simp: find_None_iff dma_taken_def)
  with assms None show ?thesis by (simp add: dma_alloc_def dma_alloc_slot_def dma_wf_def)
next
  case (Some i)
  then have i: "i < DMA_SLOTS" "fst (dma_slots s ! i) = DMA_SLOT_FREE"
    by (auto simp: find_Some_iff)
  let ?s = "s\<lparr>dma_slots := (dma_slots s)[i := (DMA_SLOT_ALLOC, snd (dma_slots s ! i))]\<rparr>"
  have run: "dma_alloc s = (DMA_SUCCESS, Some (word_of_nat i), ?s)"
    using assms Some i by (simp add: dma_alloc_def dma_alloc_slot_def dma_wf_def)
  have "dma_taken s \<noteq> {..<DMA_SLOTS}" "i \<notin> dma_taken s" using i by (auto simp: dma_taken_def)
  moreover have "dma_taken ?s = insert i (dma_taken s)"
    using assms i by (auto simp: dma_taken_def dma_wf_def nth_list_update)
  moreover have "dma_wf ?s" using assms i by (auto simp: dma_wf_def nth_list_update)
  moreover have "\<exists>s''. dma_free (word_of_nat i) ?s = ok (DMA_SUCCESS, s'') \<and> dma_taken s'' = dma_taken s"
    using assms i by (auto simp: dma_free_def dma_wf_def unat_slot dma_taken_def nth_list_update)
  ultimately show ?thesis using i run by auto
qed

theorem dma_alloc_fresh_witness:
  "case dma_alloc (dma_init \<lparr>dma_initialized = False, dma_slots = [], dma_writes = []\<rparr>) of
     (r, h, s') \<Rightarrow> dma_wf s'"
proof -
  have "dma_wf (dma_init \<lparr>dma_initialized = False, dma_slots = [], dma_writes = []\<rparr>)"
    by (simp add: dma_wf_def dma_init_def)
  from dma_alloc_fresh [OF this] show ?thesis by (auto split: prod.splits)
qed

end
