(* ===== verification/Endpoints.thy ===== *)
theory Endpoints
  imports Baremetal
begin

section \<open>Endpoints (libmp/endpoints.c)\<close>

text \<open>
  An endpoint is a ring of message slots; endpoint handles are kept in a linked list. The
  memory of the library is a record of maps, one for each structure type, from addresses to
  the structures that are allocated there. The buffer structure of an endpoint and its
  arrays are reached through the endpoint only and never released, so they are part of its
  record; their addresses are kept in \<open>m_blocks\<close>, because \<open>malloc\<close> may not hand them out
  again. Fields the code leaves uninitialised take their values from the parameter \<open>junk\<close>.
\<close>

subsection \<open>Data\<close>

text \<open>
  \<open>eb_data ! i\<close> is the slot \<open>i\<close> as an offset in words into the data field, which is
  \<open>eb_field\<close>.
\<close>

record ebuf =
  eb_data :: "nat list"
  eb_field :: "u32 list"
  eb_data_size :: "u32 list"
  eb_type :: u32
  eb_size :: u32
  eb_read_ptr :: u32
  eb_write_ptr :: u32

record endpoint =
  ep_buffer :: ebuf
  ep_flags :: u32
  ep_remotedomain :: u32
  ep_remote :: ptr
  ep_remotecredit :: u32

record handle =
  eh_type :: u32
  eh_ep :: ptr
  eh_domain :: u32
  eh_node :: u32
  eh_port :: u32

record listelem =
  le_next :: ptr
  le_handle :: ptr

abbreviation (input) LOCAL :: u32 where "LOCAL \<equiv> 0"
abbreviation (input) REMOTE :: u32 where "REMOTE \<equiv> 1"
abbreviation (input) MESSAGE :: u32 where "MESSAGE \<equiv> 0"
abbreviation (input) CHANNEL :: u32 where "CHANNEL \<equiv> 1"
abbreviation (input) MAX_MESSAGE_SIZE :: u32 where "MAX_MESSAGE_SIZE \<equiv> 64"
abbreviation (input) MAX_PACKET_SIZE :: u32 where "MAX_PACKET_SIZE \<equiv> 64"
abbreviation (input) MAX_ENDPOINTS :: nat where "MAX_ENDPOINTS \<equiv> 100"

text \<open>
  The state of the library on one tile. \<open>cr_buffer\<close> and \<open>cr_done\<close> are \<open>ctrl_request\<close>, and
  \<open>mp_out\<close> is what was handed to \<open>optimsoc_mp_simple_send\<close>, each packet with the hardware
  endpoint it is sent on.
\<close>

record mpm =
  m_eps :: "ptr \<Rightarrow> endpoint option"
  m_handles :: "ptr \<Rightarrow> handle option"
  m_elems :: "ptr \<Rightarrow> listelem option"
  m_blocks :: "ptr \<Rightarrow> bool"
  eplist_first :: ptr
  eplist_last :: ptr
  eplist_localnum :: u32
  eplist_remotenum :: u32
  cr_buffer :: "u32 list"
  cr_done :: u32
  timeout_insns :: u32
  mp_control :: u32
  mp_data :: u32
  mp_out :: "(nat \<times> u32 list) list"

definition m_live :: "mpm \<Rightarrow> ptr \<Rightarrow> bool" where
  "m_live m p \<longleftrightarrow> m_eps m p \<noteq> None \<or> m_handles m p \<noteq> None \<or> m_elems m p \<noteq> None \<or> m_blocks m p"

definition ep_at :: "mpm \<Rightarrow> ptr \<Rightarrow> endpoint exec" where
  "ep_at m p = (if p = 0 then flt NullDeref else case m_eps m p of None \<Rightarrow> flt BadPtr | Some e \<Rightarrow> ok e)"

definition handle_at :: "mpm \<Rightarrow> ptr \<Rightarrow> handle exec" where
  "handle_at m p = (if p = 0 then flt NullDeref else case m_handles m p of None \<Rightarrow> flt BadPtr | Some e \<Rightarrow> ok e)"

definition elem_at :: "mpm \<Rightarrow> ptr \<Rightarrow> listelem exec" where
  "elem_at m p = (if p = 0 then flt NullDeref else case m_elems m p of None \<Rightarrow> flt UseAfterFree | Some e \<Rightarrow> ok e)"

definition set_ep :: "ptr \<Rightarrow> endpoint \<Rightarrow> mpm \<Rightarrow> mpm" where
  "set_ep p e m = m\<lparr>m_eps := (m_eps m)(p \<mapsto> e)\<rparr>"

definition set_buf :: "ptr \<Rightarrow> endpoint \<Rightarrow> ebuf \<Rightarrow> mpm \<Rightarrow> mpm" where
  "set_buf p e b = set_ep p (e\<lparr>ep_buffer := b\<rparr>)"

subsection \<open>The list of handles\<close>

definition endpoints_init :: "mpm \<Rightarrow> mpm" where
  "endpoints_init m = m\<lparr>eplist_first := 0, eplist_last := 0, eplist_localnum := 0, eplist_remotenum := 0\<rparr>"

text \<open>The result of this allocation is not checked.\<close>

definition endpoint_add :: "allocator \<Rightarrow> ptr \<Rightarrow> mpm \<Rightarrow> mpm exec" where
  "endpoint_add mal eph m =
     (let e = mal (m_live m) in
      if e = 0 then flt NullDeref
      else
        let m1 = m\<lparr>m_elems := (m_elems m)(e \<mapsto> \<lparr>le_next = 0, le_handle = eph\<rparr>)\<rparr> in
        bnd (if eplist_first m1 = 0 then ok (m1\<lparr>eplist_first := e, eplist_last := e\<rparr>)
             else bnd (elem_at m1 (eplist_last m1)) (\<lambda>l.
               ok (m1\<lparr>m_elems := (m_elems m1)(eplist_last m1 \<mapsto> l\<lparr>le_next := e\<rparr>), eplist_last := e\<rparr>))) (\<lambda>m2.
        bnd (handle_at m2 eph) (\<lambda>h.
          ok (if eh_type h = LOCAL then m2\<lparr>eplist_localnum := eplist_localnum m2 + 1\<rparr>
              else m2\<lparr>eplist_remotenum := eplist_remotenum m2 + 1\<rparr>))))"

partial_function (option) endpoint_lookup :: "mpm \<Rightarrow> u32 \<Rightarrow> u32 \<Rightarrow> u32 \<Rightarrow> ptr \<Rightarrow> (fault + ptr) option" where
  "endpoint_lookup m domain node port lit =
     (if lit = 0 then ok 0
      else bnd (elem_at m lit) (\<lambda>l. bnd (handle_at m (le_handle l)) (\<lambda>h.
        if eh_domain h = domain \<and> eh_node h = node \<and> eh_port h = port then ok (le_handle l)
        else endpoint_lookup m domain node port (le_next l))))"

text \<open>
  An endpoint that is not found, of another tile, is asked for there: \<open>remote\<close> is the call
  of \<open>control_get_endpoint\<close>, and its new handle is added to the list.
\<close>

definition endpoint_get ::
    "allocator \<Rightarrow> u32 \<Rightarrow> (mpm \<Rightarrow> (ptr \<times> 'i \<times> mpm) exec) \<Rightarrow> u32 \<Rightarrow> u32 \<Rightarrow> u32 \<Rightarrow> 'i \<Rightarrow> mpm \<Rightarrow> (ptr \<times> 'i \<times> mpm) exec" where
  "endpoint_get mal tile remote domain node port inp m =
     bnd (endpoint_lookup m domain node port (eplist_first m)) (\<lambda>eph.
       if eph = 0 \<and> domain \<noteq> tile then
         bnd (remote m) (\<lambda>(ep, inp1, m1).
           let eph = mal (m_live m1) in
           if eph = 0 then flt NullDeref
           else
             let h = \<lparr>eh_type = REMOTE, eh_ep = ep, eh_domain = domain, eh_node = node, eh_port = port\<rparr> in
             bnd (endpoint_add mal eph (m1\<lparr>m_handles := (m_handles m1)(eph \<mapsto> h)\<rparr>)) (\<lambda>m2. ok (eph, inp1, m2)))
       else ok (eph, inp, m))"

partial_function (option) endpoint_verify_loop :: "mpm \<Rightarrow> ptr \<Rightarrow> ptr \<Rightarrow> (fault + ptr) option" where
  "endpoint_verify_loop m eph lit =
     (if lit = 0 then ok 0
      else bnd (elem_at m lit) (\<lambda>l.
        if le_handle l = eph then ok eph else endpoint_verify_loop m eph (le_next l)))"

definition endpoint_verify :: "ptr \<Rightarrow> mpm \<Rightarrow> ptr exec" where
  "endpoint_verify eph m = endpoint_verify_loop m eph (eplist_first m)"

text \<open>
  The loop of the deletion: the element after \<open>lit\<close> is released and then read, and \<open>lit\<close>
  advances in the body and again in the head of the loop.
\<close>

partial_function (option) endpoint_delete_loop :: "mpm \<Rightarrow> ptr \<Rightarrow> ptr \<Rightarrow> (fault + mpm) option" where
  "endpoint_delete_loop m eph lit =
     (if lit = 0 then ok m
      else bnd (elem_at m lit) (\<lambda>l.
        bnd (if le_next l = 0 then ok False
             else bnd (elem_at m (le_next l)) (\<lambda>n. ok (le_handle n = eph))) (\<lambda>hit.
          if hit then
            let m1 = m\<lparr>m_elems := (m_elems m)(le_next l := None)\<rparr> in
            bnd (elem_at m1 (le_next l)) (\<lambda>n.
              ok (m1\<lparr>m_elems := (m_elems m1)(lit \<mapsto> l\<lparr>le_next := le_next n\<rparr>)\<rparr>))
          else bnd (elem_at m (le_next l)) (\<lambda>n. endpoint_delete_loop m eph (le_next n)))))"

definition endpoint_delete :: "ptr \<Rightarrow> mpm \<Rightarrow> mpm exec" where
  "endpoint_delete eph m =
     bnd (handle_at m eph) (\<lambda>h.
       let m1 = (if eh_type h = LOCAL then m\<lparr>eplist_localnum := eplist_localnum m - 1\<rparr>
                 else m\<lparr>eplist_remotenum := eplist_remotenum m - 1\<rparr>) in
       bnd (elem_at m1 (eplist_first m1)) (\<lambda>f.
         if le_handle f = eph then
           let m2 = m1\<lparr>m_elems := (m_elems m1)(eplist_first m1 := None)\<rparr> in
           if eplist_first m2 = eplist_last m2 then ok (m2\<lparr>eplist_first := 0, eplist_last := 0\<rparr>)
           else bnd (elem_at m2 (eplist_first m2)) (\<lambda>g. ok (m2\<lparr>eplist_first := le_next g\<rparr>))
         else endpoint_delete_loop m1 eph (eplist_first m1)))"

partial_function (option) port_used :: "mpm \<Rightarrow> u32 \<Rightarrow> ptr \<Rightarrow> (fault + bool) option" where
  "port_used m p lit =
     (if lit = 0 then ok False
      else bnd (elem_at m lit) (\<lambda>l. bnd (handle_at m (le_handle l)) (\<lambda>h.
        if eh_port h = p then ok True else port_used m p (le_next l))))"

text \<open>\<open>None\<close> in the result is the return value \<open>-1\<close>.\<close>

fun generate_portnum_from :: "mpm \<Rightarrow> nat list \<Rightarrow> u32 option exec" where
  "generate_portnum_from m [] = ok None"
| "generate_portnum_from m (p # ps) =
     bnd (port_used m (word_of_nat p) (eplist_first m)) (\<lambda>b.
       if b then generate_portnum_from m ps else ok (Some (word_of_nat p)))"

definition endpoint_generate_portnum :: "mpm \<Rightarrow> u32 option exec" where
  "endpoint_generate_portnum m = generate_portnum_from m [0..<MAX_ENDPOINTS]"

definition endpoints_localnum :: "mpm \<Rightarrow> u32" where
  "endpoints_localnum m = eplist_localnum m"

subsection \<open>Creation\<close>

definition ep_block :: "allocator \<Rightarrow> mpm \<Rightarrow> mpm exec" where
  "ep_block mal m =
     (let p = mal (m_live m) in if p = 0 then flt NoMem else ok (m\<lparr>m_blocks := (m_blocks m)(p := True)\<rparr>))"

definition max_element_bytes :: "u32 \<Rightarrow> int \<Rightarrow> u32" where
  "max_element_bytes buffer_type overwrite =
     (if overwrite > 0 then word_of_int overwrite
      else if buffer_type = MESSAGE then MAX_MESSAGE_SIZE else MAX_PACKET_SIZE)"

text \<open>The number of words of a block of \<open>n\<close> bytes, the contents of fresh memory from \<open>junk\<close>.\<close>

definition fresh_words :: "(nat \<Rightarrow> u32) \<Rightarrow> u32 \<Rightarrow> u32 list" where
  "fresh_words junk n = map junk [0..<unat n div 4]"

text \<open>
  The structure of the buffer is zeroed by \<open>calloc\<close>, and its type is never set. Of the endpoint
  the code sets the buffer only, and of the handle it does not set the type.
\<close>

definition endpoint_create ::
    "allocator \<Rightarrow> (nat \<Rightarrow> u32) \<Rightarrow> u32 \<Rightarrow> u32 \<Rightarrow> u32 \<Rightarrow> u32 \<Rightarrow> u32 \<Rightarrow> int \<Rightarrow> mpm \<Rightarrow> (ptr \<times> mpm) exec" where
  "endpoint_create mal junk tile node port buffer_type buffer_size overwrite_max_size m =
     (let ep = mal (m_live m) in
      if ep = 0 then flt NoMem
      else
        bnd (ep_block mal (m\<lparr>m_blocks := (m_blocks m)(ep := True)\<rparr>)) (\<lambda>m.
        bnd (ep_block mal m) (\<lambda>m.
        bnd (ep_block mal m) (\<lambda>m.
        let bytes = max_element_bytes buffer_type overwrite_max_size;
            wds = drop_bit 2 (bytes + 3)
        in
        bnd (ep_block mal m) (\<lambda>m.
        if unat (buffer_size * 4) div 4 < unat buffer_size then flt OutOfBounds
        else
          let b = \<lparr>eb_data = map (\<lambda>i. unat (word_of_nat i * wds)) [0..<unat buffer_size],
                   eb_field = fresh_words junk (bytes * buffer_size),
                   eb_data_size = fresh_words junk (buffer_size * 4),
                   eb_type = MESSAGE, eb_size = buffer_size, eb_read_ptr = 0, eb_write_ptr = 0\<rparr>;
              e = \<lparr>ep_buffer = b, ep_flags = junk 0, ep_remotedomain = junk 1, ep_remote = junk 2,
                   ep_remotecredit = junk 3\<rparr>;
              m = set_ep ep e (m\<lparr>m_blocks := (m_blocks m)(ep := False)\<rparr>);
              eph = mal (m_live m)
          in
          if eph = 0 then flt NoMem
          else
            let h = \<lparr>eh_type = junk 4, eh_ep = ep, eh_domain = tile, eh_node = node, eh_port = port\<rparr> in
            bnd (endpoint_add mal eph (m\<lparr>m_handles := (m_handles m)(eph \<mapsto> h)\<rparr>)) (\<lambda>m. ok (eph, m)))))))"

subsection \<open>The ring of an endpoint\<close>

text \<open>The next position; the list is the interference with the compare-and-swap.\<close>

definition ring_next :: "u32 \<Rightarrow> u32 \<Rightarrow> u32" where
  "ring_next sz p = (let n = p + 1 in if sz \<le> n then n - sz else n)"

definition endpoint_pop :: "(ebuf \<Rightarrow> ebuf) list \<Rightarrow> ptr \<Rightarrow> mpm \<Rightarrow> (u32 \<times> mpm) exec" where
  "endpoint_pop fs ep m = bnd (ep_at m ep) (\<lambda>e.
     let (p, b) = cas_loop eb_read_ptr (\<lambda>v b. b\<lparr>eb_read_ptr := v\<rparr>)
                    (ring_next (eb_size (ep_buffer e))) fs (ep_buffer e)
     in ok (p, set_buf ep e b m))"

definition endpoint_push :: "(ebuf \<Rightarrow> ebuf) list \<Rightarrow> ptr \<Rightarrow> mpm \<Rightarrow> (u32 \<times> mpm) exec" where
  "endpoint_push fs ep m = bnd (ep_at m ep) (\<lambda>e.
     let (p, b) = cas_loop eb_write_ptr (\<lambda>v b. b\<lparr>eb_write_ptr := v\<rparr>)
                    (ring_next (eb_size (ep_buffer e))) fs (ep_buffer e)
     in ok (p, set_buf ep e b m))"

definition endpoint_full :: "ptr \<Rightarrow> mpm \<Rightarrow> bool exec" where
  "endpoint_full ep m = bnd (ep_at m ep) (\<lambda>e. let b = ep_buffer e in
     ok (if eb_write_ptr b \<ge> eb_read_ptr b then eb_write_ptr b - eb_read_ptr b = eb_size b - 1
         else eb_read_ptr b - eb_write_ptr b = 1))"

definition set_data_size :: "ptr \<Rightarrow> u32 \<Rightarrow> u32 \<Rightarrow> mpm \<Rightarrow> mpm exec" where
  "set_data_size ep i v m = bnd (ep_at m ep) (\<lambda>e. let b = ep_buffer e in
     if unat i < length (eb_data_size b)
     then ok (set_buf ep e (b\<lparr>eb_data_size := (eb_data_size b)[unat i := v]\<rparr>) m) else flt OutOfBounds)"

text \<open>\<open>None\<close> in the result is the return value \<open>-1\<close>.\<close>

definition endpoint_alloc :: "(ebuf \<Rightarrow> ebuf) list \<Rightarrow> ptr \<Rightarrow> u32 \<Rightarrow> mpm \<Rightarrow> (u32 option \<times> mpm) exec" where
  "endpoint_alloc fs ep sz m = bnd (ep_at m ep) (\<lambda>e.
     if (if eb_type (ep_buffer e) = MESSAGE then sz > MAX_MESSAGE_SIZE else sz > MAX_PACKET_SIZE)
     then ok (None, m)
     else bnd (endpoint_full ep m) (\<lambda>full.
       if \<not> full then
         bnd (endpoint_push fs ep m) (\<lambda>(p, m1).
         bnd (set_data_size ep p 0 m1) (\<lambda>m2. ok (Some p, m2)))
       else ok (None, m)))"

definition field_write :: "u32 \<Rightarrow> u32 \<Rightarrow> u32 \<Rightarrow> ebuf \<Rightarrow> ebuf exec" where
  "field_write slot i v b =
     (if unat slot < length (eb_data b) \<and> eb_data b ! unat slot + unat i < length (eb_field b)
      then ok (b\<lparr>eb_field := (eb_field b)[eb_data b ! unat slot + unat i := v]\<rparr>) else flt OutOfBounds)"

definition field_read :: "u32 \<Rightarrow> u32 \<Rightarrow> ebuf \<Rightarrow> u32 exec" where
  "field_read slot i b =
     (if unat slot < length (eb_data b) \<and> eb_data b ! unat slot + unat i < length (eb_field b)
      then ok (eb_field b ! (eb_data b ! unat slot + unat i)) else flt OutOfBounds)"

fun endpoint_write_loop :: "nat \<Rightarrow> nat \<Rightarrow> u32 \<Rightarrow> u32 \<Rightarrow> u32 list \<Rightarrow> ebuf \<Rightarrow> ebuf exec" where
  "endpoint_write_loop 0 i slot offset buffer b = ok b"
| "endpoint_write_loop (Suc n) i slot offset buffer b =
     (if i < length buffer
      then bnd (field_write slot (word_of_nat i + offset) (buffer ! i) b)
             (endpoint_write_loop n (Suc i) slot offset buffer)
      else flt OutOfBounds)"

definition endpoint_write :: "ptr \<Rightarrow> u32 \<Rightarrow> u32 \<Rightarrow> u32 list \<Rightarrow> u32 \<Rightarrow> mpm \<Rightarrow> mpm exec" where
  "endpoint_write ep slot offset buffer sz m = bnd (ep_at m ep) (\<lambda>e.
     bnd (endpoint_write_loop (unat sz) 0 slot offset buffer (ep_buffer e)) (\<lambda>b. ok (set_buf ep e b m)))"

definition endpoint_write_complete :: "ptr \<Rightarrow> u32 \<Rightarrow> u32 \<Rightarrow> mpm \<Rightarrow> mpm exec" where
  "endpoint_write_complete ep slot sz m = set_data_size ep slot sz m"

definition buf_size_at :: "u32 \<Rightarrow> ebuf \<Rightarrow> u32 exec" where
  "buf_size_at i b = (if unat i < length (eb_data_size b) then ok (eb_data_size b ! unat i) else flt OutOfBounds)"

definition endpoint_msg_available :: "ptr \<Rightarrow> mpm \<Rightarrow> bool exec" where
  "endpoint_msg_available ep m = bnd (ep_at m ep) (\<lambda>e. let b = ep_buffer e in
     if eb_write_ptr b = eb_read_ptr b then ok False
     else bnd (buf_size_at (eb_read_ptr b) b) (\<lambda>s. ok (s \<noteq> 0)))"

definition endpoint_empty :: "ptr \<Rightarrow> mpm \<Rightarrow> bool exec" where
  "endpoint_empty ep m = bnd (endpoint_msg_available ep m) (\<lambda>a. ok (\<not> a))"

fun field_read_loop :: "nat \<Rightarrow> nat \<Rightarrow> u32 \<Rightarrow> ebuf \<Rightarrow> u32 list exec" where
  "field_read_loop 0 i slot b = ok []"
| "field_read_loop (Suc n) i slot b =
     bnd (field_read slot (word_of_nat i) b) (\<lambda>w.
     bnd (field_read_loop n (Suc i) slot b) (\<lambda>ws. ok (w # ws)))"

text \<open>
  The part of \<open>endpoint_msg_recv\<close> after a message is available: the size it reports and the
  words it writes to the buffer of the caller. A message larger than that buffer stays.
\<close>

definition endpoint_msg_take :: "(ebuf \<Rightarrow> ebuf) list \<Rightarrow> ptr \<Rightarrow> u32 \<Rightarrow> mpm \<Rightarrow> (u32 \<times> u32 list \<times> mpm) exec" where
  "endpoint_msg_take fs ep buffer_size m = bnd (ep_at m ep) (\<lambda>e.
     bnd (buf_size_at (eb_read_ptr (ep_buffer e)) (ep_buffer e)) (\<lambda>received.
       if received > buffer_size then ok (0, [], m)
       else
         bnd (endpoint_pop fs ep m) (\<lambda>(p, m1). bnd (ep_at m1 ep) (\<lambda>e1.
         bnd (field_read_loop (unat (drop_bit 2 (received + 3))) 0 p (ep_buffer e1)) (\<lambda>ws.
           ok (received, ws, m1))))))"

definition buf_credit :: "ebuf \<Rightarrow> u32" where
  "buf_credit b =
     (let wrptr = eb_write_ptr b; rdptr = eb_read_ptr b in
      if wrptr \<ge> rdptr then eb_size b - 1 - wrptr + rdptr else rdptr - 1 - wrptr)"

definition endpoint_channel_get_credit :: "ptr \<Rightarrow> mpm \<Rightarrow> u32 exec" where
  "endpoint_channel_get_credit ep m = bnd (ep_at m ep) (\<lambda>e. ok (buf_credit (ep_buffer e)))"

definition endpoint_channel_get_fillstate :: "ptr \<Rightarrow> mpm \<Rightarrow> u32 exec" where
  "endpoint_channel_get_fillstate ep m = bnd (ep_at m ep) (\<lambda>e.
     bnd (endpoint_channel_get_credit ep m) (\<lambda>c. ok (eb_size (ep_buffer e) - c - 1)))"

definition endpoint_channel_add_credit :: "ptr \<Rightarrow> u32 \<Rightarrow> mpm \<Rightarrow> mpm exec" where
  "endpoint_channel_add_credit ep credit m = bnd (ep_at m ep) (\<lambda>e.
     ok (set_ep ep (e\<lparr>ep_remotecredit := ep_remotecredit e + credit\<rparr>) m))"

end
