(* ===== verification/Control.thy ===== *)
theory Control
  imports Endpoints
begin

section \<open>The control protocol of the message passing library (libmp/control.c)\<close>

text \<open>
  Requests and responses between the tiles. A tile reacts to a packet in
  \<open>control_msg_handler\<close>, which runs in the interrupt handler; a blocking request writes the
  packet into \<open>ctrl_request\<close>, sends it, and waits until the handler has put the response
  there. What arrives while a function waits is its parameter \<open>inp\<close>, a list of receive
  buffers with the length of the packet in each; a wait for which the list holds no end
  does not return.
\<close>

subsection \<open>Packets\<close>

abbreviation (input) NOC_CLASS_MP :: u32 where "NOC_CLASS_MP \<equiv> 2"
abbreviation (input) CTRL_REQUEST_MSB :: nat where "CTRL_REQUEST_MSB \<equiv> 18"
abbreviation (input) CTRL_REQUEST_LSB :: nat where "CTRL_REQUEST_LSB \<equiv> 15"
abbreviation (input) GETEP_REQ :: u32 where "GETEP_REQ \<equiv> 0"
abbreviation (input) GETEP_RESP :: u32 where "GETEP_RESP \<equiv> 1"
abbreviation (input) MSG_ALLOC_REQ :: u32 where "MSG_ALLOC_REQ \<equiv> 2"
abbreviation (input) MSG_ALLOC_RESP :: u32 where "MSG_ALLOC_RESP \<equiv> 3"
abbreviation (input) MSG_DATA :: u32 where "MSG_DATA \<equiv> 4"
abbreviation (input) MSG_COMPLETE :: u32 where "MSG_COMPLETE \<equiv> 5"
abbreviation (input) CHAN_CONNECT_REQ :: u32 where "CHAN_CONNECT_REQ \<equiv> 6"
abbreviation (input) CHAN_CONNECT_RESP :: u32 where "CHAN_CONNECT_RESP \<equiv> 7"
abbreviation (input) CHAN_DATA :: u32 where "CHAN_DATA \<equiv> 8"
abbreviation (input) CHAN_CREDIT :: u32 where "CHAN_CREDIT \<equiv> 9"
abbreviation (input) CTRL_REQUEST_ACK :: u32 where "CTRL_REQUEST_ACK \<equiv> 1"
abbreviation (input) CTRL_REQUEST_NACK :: u32 where "CTRL_REQUEST_NACK \<equiv> 0"

definition ctrl_header :: "u32 \<Rightarrow> u32 \<Rightarrow> u32 \<Rightarrow> u32" where
  "ctrl_header dest tile req =
     shl dest OPTIMSOC_DEST_LSB OR shl NOC_CLASS_MP OPTIMSOC_CLASS_LSB OR
     shl tile OPTIMSOC_SRC_LSB OR shl req CTRL_REQUEST_LSB"

definition buf_at :: "u32 list \<Rightarrow> nat \<Rightarrow> u32 exec" where
  "buf_at b i = (if i < length b then ok (b ! i) else flt OutOfBounds)"

definition mp_send :: "nat \<Rightarrow> nat \<Rightarrow> u32 list \<Rightarrow> mpm \<Rightarrow> mpm exec" where
  "mp_send hw n buf m =
     (if n \<le> length buf then ok (m\<lparr>mp_out := mp_out m @ [(hw, take n buf)]\<rparr>) else flt OutOfBounds)"

definition cr_put :: "nat \<Rightarrow> u32 \<Rightarrow> mpm \<Rightarrow> mpm exec" where
  "cr_put i v m = (if i < length (cr_buffer m) then ok (m\<lparr>cr_buffer := (cr_buffer m)[i := v]\<rparr>) else flt OutOfBounds)"

fun cr_puts :: "nat \<Rightarrow> u32 list \<Rightarrow> mpm \<Rightarrow> mpm exec" where
  "cr_puts i [] m = ok m"
| "cr_puts i (v # vs) m = bnd (cr_put i v m) (cr_puts (Suc i) vs)"

definition cr_send :: "nat \<Rightarrow> mpm \<Rightarrow> mpm exec" where
  "cr_send n m = mp_send 0 n (cr_buffer m) m"

subsection \<open>The handler\<close>

definition handle_getep :: "allocator \<Rightarrow> u32 \<Rightarrow> u32 \<Rightarrow> u32 list \<Rightarrow> mpm \<Rightarrow> mpm exec" where
  "handle_getep mal tile src buf m =
     bnd (buf_at buf 1) (\<lambda>node. bnd (buf_at buf 2) (\<lambda>port.
     bnd (endpoint_get mal tile (\<lambda>_. None) tile node port () m) (\<lambda>(eph, _, m1).
     bnd (if eph \<noteq> 0 then bnd (handle_at m1 eph) (\<lambda>h. ok (eh_ep h)) else ok (-1)) (\<lambda>r.
       mp_send 1 2 [ctrl_header src tile GETEP_RESP, r] m1))))"

definition handle_alloc :: "u32 \<Rightarrow> u32 \<Rightarrow> u32 list \<Rightarrow> mpm \<Rightarrow> mpm exec" where
  "handle_alloc tile src buf m =
     bnd (buf_at buf 1) (\<lambda>ep. bnd (buf_at buf 2) (\<lambda>sz.
     bnd (endpoint_alloc [] ep sz m) (\<lambda>(rv, m1).
       let h = ctrl_header src tile MSG_ALLOC_RESP in
       case rv of Some p \<Rightarrow> mp_send 1 3 [h, CTRL_REQUEST_ACK, p] m1
       | None \<Rightarrow> mp_send 1 2 [h, CTRL_REQUEST_NACK] m1)))"

definition handle_msg_data :: "u32 list \<Rightarrow> u32 \<Rightarrow> mpm \<Rightarrow> mpm exec" where
  "handle_msg_data buf len m =
     bnd (buf_at buf 1) (\<lambda>ep. bnd (buf_at buf 2) (\<lambda>slot. bnd (buf_at buf 3) (\<lambda>offset.
       endpoint_write ep slot offset (drop 4 buf) (len - 4) m)))"

definition handle_complete :: "u32 list \<Rightarrow> mpm \<Rightarrow> mpm exec" where
  "handle_complete buf m =
     bnd (buf_at buf 1) (\<lambda>ep. bnd (buf_at buf 2) (\<lambda>slot. bnd (buf_at buf 3) (\<lambda>sz.
       endpoint_write_complete ep slot sz m)))"

definition handle_connect :: "u32 \<Rightarrow> u32 \<Rightarrow> u32 list \<Rightarrow> mpm \<Rightarrow> mpm exec" where
  "handle_connect tile src buf m =
     bnd (buf_at buf 1) (\<lambda>ep. bnd (buf_at buf 2) (\<lambda>dom. bnd (buf_at buf 3) (\<lambda>rem.
     bnd (ep_at m ep) (\<lambda>e.
       let m1 = set_ep ep (e\<lparr>ep_remotedomain := dom, ep_remote := rem\<rparr>) m in
       bnd (endpoint_channel_get_credit ep m1) (\<lambda>c.
         mp_send 1 2 [ctrl_header src tile CHAN_CONNECT_RESP, c] m1)))))"

definition handle_chan_data :: "u32 list \<Rightarrow> u32 \<Rightarrow> mpm \<Rightarrow> mpm exec" where
  "handle_chan_data buf len m =
     bnd (buf_at buf 1) (\<lambda>ep. bnd (buf_at buf 2) (\<lambda>offset. bnd (buf_at buf 3) (\<lambda>eom.
     bnd (ep_at m ep) (\<lambda>e. let w = eb_write_ptr (ep_buffer e) in
     bnd (endpoint_write ep w offset (drop 4 buf) (len - 4) m) (\<lambda>m1.
       if eom \<noteq> 0 then
         bnd (set_data_size ep w (offset * 4 + eom) m1) (\<lambda>m2.
         bnd (endpoint_push [] ep m2) (\<lambda>(_, m3). ok m3))
       else ok m1)))))"

definition handle_credit :: "u32 list \<Rightarrow> mpm \<Rightarrow> mpm exec" where
  "handle_credit buf m =
     bnd (buf_at buf 1) (\<lambda>ep. bnd (buf_at buf 2) (\<lambda>credit. bnd (ep_at m ep) (\<lambda>e.
       ok (set_ep ep (e\<lparr>ep_remotecredit := (if credit = 0 then 0 else ep_remotecredit e + credit)\<rparr>) m))))"

definition handle_response :: "u32 list \<Rightarrow> mpm \<Rightarrow> mpm exec" where
  "handle_response buf m =
     (if 5 \<le> length buf then bnd (cr_puts 0 (take 5 buf) m) (\<lambda>m1. ok (m1\<lparr>cr_done := 1\<rparr>)) else flt OutOfBounds)"

text \<open>An unknown request is printed and ignored.\<close>

definition control_msg_handler :: "allocator \<Rightarrow> u32 \<Rightarrow> u32 list \<Rightarrow> u32 \<Rightarrow> mpm \<Rightarrow> mpm exec" where
  "control_msg_handler mal tile buf len m =
     bnd (buf_at buf 0) (\<lambda>h.
       let src = extract_bits h OPTIMSOC_SRC_MSB OPTIMSOC_SRC_LSB;
           req = extract_bits h CTRL_REQUEST_MSB CTRL_REQUEST_LSB
       in if req = GETEP_REQ then handle_getep mal tile src buf m
          else if req = MSG_ALLOC_REQ then handle_alloc tile src buf m
          else if req = MSG_DATA then handle_msg_data buf len m
          else if req = MSG_COMPLETE then handle_complete buf m
          else if req = CHAN_CONNECT_REQ then handle_connect tile src buf m
          else if req = CHAN_DATA then handle_chan_data buf len m
          else if req = CHAN_CREDIT then handle_credit buf m
          else if req = GETEP_RESP \<or> req = MSG_ALLOC_RESP \<or> req = CHAN_CONNECT_RESP
          then handle_response buf m
          else ok m)"

subsection \<open>Requests\<close>

type_synonym inputs = "(u32 list \<times> u32) list"

fun control_wait_response :: "allocator \<Rightarrow> u32 \<Rightarrow> inputs \<Rightarrow> mpm \<Rightarrow> (inputs \<times> mpm) exec" where
  "control_wait_response mal tile [] m = (if cr_done m = 0 then None else ok ([], m))"
| "control_wait_response mal tile (p # ps) m =
     (if cr_done m = 0
      then bnd (control_msg_handler mal tile (fst p) (snd p) m) (control_wait_response mal tile ps)
      else ok (p # ps, m))"

definition cr_reset :: "mpm \<Rightarrow> mpm" where
  "cr_reset m = m\<lparr>cr_done := 0\<rparr>"

definition backoff :: "mpm \<Rightarrow> mpm" where
  "backoff m = m\<lparr>timeout_insns := timeout_insns m * 10\<rparr>"

text \<open>
  \<open>ready\<close> are the answers of \<open>optimsoc_mp_simple_ctready\<close>; \<open>runtime\<close> is the build with the
  runtime, where an endpoint that does not exist yet is an assertion failure.
\<close>

partial_function (option) get_endpoint_loop ::
    "allocator \<Rightarrow> u32 \<Rightarrow> bool \<Rightarrow> u32 \<Rightarrow> u32 \<Rightarrow> u32 \<Rightarrow> inputs \<Rightarrow> mpm \<Rightarrow> (fault + ptr \<times> inputs \<times> mpm) option" where
  "get_endpoint_loop mal tile runtime domain node port inp m =
     bnd (cr_puts 0 [ctrl_header domain tile GETEP_REQ, node, port] m) (\<lambda>m1.
     bnd (cr_send 3 (cr_reset m1)) (\<lambda>m2.
     bnd (control_wait_response mal tile inp m2) (\<lambda>(inp1, m3).
     bnd (buf_at (cr_buffer m3) 1) (\<lambda>ep.
       if ep = -1 then
         if runtime then flt AssertFail
         else get_endpoint_loop mal tile runtime domain node port inp1 (backoff m3)
       else ok (ep, inp1, m3)))))"

definition control_get_endpoint ::
    "allocator \<Rightarrow> u32 \<Rightarrow> bool \<Rightarrow> bool list \<Rightarrow> u32 \<Rightarrow> u32 \<Rightarrow> u32 \<Rightarrow> inputs \<Rightarrow> mpm \<Rightarrow> (ptr \<times> inputs \<times> mpm) exec" where
  "control_get_endpoint mal tile runtime ready domain node port inp m =
     (if True \<in> set ready then get_endpoint_loop mal tile runtime domain node port inp m else None)"

partial_function (option) control_msg_alloc_loop ::
    "allocator \<Rightarrow> u32 \<Rightarrow> handle \<Rightarrow> u32 \<Rightarrow> inputs \<Rightarrow> mpm \<Rightarrow> (fault + u32 \<times> inputs \<times> mpm) option" where
  "control_msg_alloc_loop mal tile h sz inp m =
     bnd (cr_puts 0 [ctrl_header (eh_domain h) tile MSG_ALLOC_REQ, eh_ep h, sz] m) (\<lambda>m1.
     bnd (cr_send 3 (cr_reset m1)) (\<lambda>m2.
     bnd (control_wait_response mal tile inp m2) (\<lambda>(inp1, m3).
     bnd (buf_at (cr_buffer m3) 1) (\<lambda>r.
       if r = CTRL_REQUEST_NACK then control_msg_alloc_loop mal tile h sz inp1 (backoff m3)
       else bnd (buf_at (cr_buffer m3) 2) (\<lambda>p. ok (p, inp1, m3))))))"

definition control_msg_alloc ::
    "allocator \<Rightarrow> u32 \<Rightarrow> ptr \<Rightarrow> u32 \<Rightarrow> inputs \<Rightarrow> mpm \<Rightarrow> (u32 \<times> inputs \<times> mpm) exec" where
  "control_msg_alloc mal tile to_ep sz inp m =
     bnd (handle_at m to_ep) (\<lambda>h. control_msg_alloc_loop mal tile h sz inp m)"

text \<open>
  \<open>wordsperpacket\<close> is what remains of a packet after four words of header; the buffer of
  \<open>ctrl_request\<close> has room for twelve.
\<close>

abbreviation (input) wordsperpacket :: nat where "wordsperpacket \<equiv> optimsoc_noc_maxpacketsize - 4"

fun cr_copy :: "nat \<Rightarrow> nat \<Rightarrow> nat \<Rightarrow> u32 list \<Rightarrow> mpm \<Rightarrow> mpm exec" where
  "cr_copy 0 d i data m = ok m"
| "cr_copy (Suc n) d i data m =
     bnd (buf_at data (i + d)) (\<lambda>v. bnd (cr_put (4 + d) v m) (cr_copy n (Suc d) i data))"

function msg_data_loop :: "u32 \<Rightarrow> handle \<Rightarrow> u32 \<Rightarrow> nat \<Rightarrow> nat \<Rightarrow> u32 list \<Rightarrow> mpm \<Rightarrow> mpm exec" where
  "msg_data_loop tile h address wds i data m =
     (if i < wds then
        bnd (cr_puts 0 [ctrl_header (eh_domain h) tile MSG_DATA, eh_ep h, address, word_of_nat i] m) (\<lambda>m1.
        let sz = min (wds - i) wordsperpacket in
        bnd (cr_copy sz 0 i data m1) (\<lambda>m2.
        bnd (cr_send (4 + sz) m2) (\<lambda>m3.
          msg_data_loop tile h address wds (i + wordsperpacket) data m3)))
      else ok m)"
  by pat_completeness auto
termination
  by (relation "measure (\<lambda>(_, _, _, wds, i, _, _). wds - i)") (auto simp: optimsoc_noc_maxpacketsize_def)

definition control_msg_data :: "u32 \<Rightarrow> ptr \<Rightarrow> u32 \<Rightarrow> u32 list \<Rightarrow> u32 \<Rightarrow> mpm \<Rightarrow> mpm exec" where
  "control_msg_data tile eph address data sz m =
     bnd (assert_c (sz mod 4 = 0)) (\<lambda>_.
     bnd (handle_at m eph) (\<lambda>h.
     bnd (msg_data_loop tile h address (unat (drop_bit 2 (sz + 3))) 0 data m) (\<lambda>m1.
     bnd (cr_puts 0 [ctrl_header (eh_domain h) tile MSG_COMPLETE, eh_ep h, address, sz] m1) (cr_send 4))))"

definition control_channel_connect ::
    "allocator \<Rightarrow> u32 \<Rightarrow> ptr \<Rightarrow> ptr \<Rightarrow> inputs \<Rightarrow> mpm \<Rightarrow> (u32 \<times> inputs \<times> mpm) exec" where
  "control_channel_connect mal tile from_h to_h inp m =
     bnd (handle_at m to_h) (\<lambda>t. bnd (handle_at m from_h) (\<lambda>f.
     bnd (cr_puts 0 [ctrl_header (eh_domain t) tile CHAN_CONNECT_REQ, eh_ep t, eh_domain f, eh_ep f] m) (\<lambda>m1.
     bnd (cr_send 4 (cr_reset m1)) (\<lambda>m2.
     bnd (control_wait_response mal tile inp m2) (\<lambda>(inp1, m3).
     bnd (buf_at (cr_buffer m3) 1) (\<lambda>c. ok (c, inp1, m3)))))))"

function channel_send_loop :: "u32 \<Rightarrow> handle \<Rightarrow> nat \<Rightarrow> nat \<Rightarrow> u32 list \<Rightarrow> u32 \<Rightarrow> mpm \<Rightarrow> mpm exec" where
  "channel_send_loop tile h wds i data sz m =
     (if i < wds then
        let eom = (if i + wordsperpacket \<ge> wds then sz - word_of_nat (i * wordsperpacket) else 0) in
        bnd (cr_puts 0 [ctrl_header (eh_domain h) tile CHAN_DATA, eh_ep h, word_of_nat i, eom] m) (\<lambda>m1.
        let n = min (wds - i) wordsperpacket in
        bnd (cr_copy n 0 i data m1) (\<lambda>m2.
        bnd (cr_send (4 + n) m2) (\<lambda>m3.
          channel_send_loop tile h wds (i + wordsperpacket) data sz m3)))
      else ok m)"
  by pat_completeness auto
termination
  by (relation "measure (\<lambda>(_, _, wds, i, _, _, _). wds - i)") (auto simp: optimsoc_noc_maxpacketsize_def)

definition control_channel_send :: "u32 \<Rightarrow> ptr \<Rightarrow> u32 list \<Rightarrow> u32 \<Rightarrow> mpm \<Rightarrow> mpm exec" where
  "control_channel_send tile eph data sz m =
     bnd (handle_at m eph) (\<lambda>h. channel_send_loop tile h (unat (drop_bit 2 (sz + 3))) 0 data sz m)"

definition control_channel_sendcredit :: "u32 \<Rightarrow> ptr \<Rightarrow> u32 \<Rightarrow> mpm \<Rightarrow> mpm exec" where
  "control_channel_sendcredit tile eph credit m =
     bnd (handle_at m eph) (\<lambda>h. bnd (ep_at m (eh_ep h)) (\<lambda>e.
     bnd (cr_puts 0 [ctrl_header (ep_remotedomain e) tile CHAN_CREDIT, ep_remote e, credit] m) (cr_send 3)))"

text \<open>The set-up of the driver, with the writes to its enable registers.\<close>

definition control_init :: "na_regs \<Rightarrow> u32 list \<Rightarrow> mps_state \<Rightarrow> (mps_state \<times> (nat \<times> u32) list) exec" where
  "control_init na junk s =
     bnd (optimsoc_mp_simple_addhandler (unat NOC_CLASS_MP) (optimsoc_mp_simple_init na junk s)) (\<lambda>s1.
       ok (s1, optimsoc_mp_simple_enable 0 @ optimsoc_mp_simple_enable 1))"

end
