(* ===== verification/Mp.thy ===== *)
theory Mp
  imports Control
begin

section \<open>The message passing interface (libmp/mp.c)\<close>

text \<open>
  The functions an application calls, in terms of the endpoints and of the control
  protocol. Waiting for data or for credit is a loop over the packets that arrive; the
  payload of an application is its words, and what it receives from a channel is bytes, most
  significant first.
\<close>

subsection \<open>Initialisation and endpoints\<close>

abbreviation (input) OPTIMSOC_MP_DATA_FIFO :: u32 where "OPTIMSOC_MP_DATA_FIFO \<equiv> 0"
abbreviation (input) OPTIMSOC_MP_CONTROL_FIFO :: u32 where "OPTIMSOC_MP_CONTROL_FIFO \<equiv> 0"

definition optimsoc_mp_initialize ::
    "na_regs \<Rightarrow> u32 list \<Rightarrow> mps_state \<Rightarrow> mpm \<Rightarrow> (mps_state \<times> (nat \<times> u32) list \<times> mpm) exec" where
  "optimsoc_mp_initialize na junk s m =
     bnd (control_init na junk s) (\<lambda>(s1, w).
       ok (s1, w, (endpoints_init m)\<lparr>mp_control := OPTIMSOC_MP_CONTROL_FIFO, mp_data := OPTIMSOC_MP_DATA_FIFO\<rparr>))"

definition optimsoc_mp_error_string :: "int \<Rightarrow> string" where
  "optimsoc_mp_error_string errno =
     (if errno = -1 then ''not initialized''
      else if errno = -2 then ''domains not supported''
      else if errno = -3 then ''buffer overflow''
      else ''unknown error'')"

definition optimsoc_mp_endpoint_create ::
    "allocator \<Rightarrow> (nat \<Rightarrow> u32) \<Rightarrow> u32 \<Rightarrow> u32 \<Rightarrow> u32 \<Rightarrow> u32 \<Rightarrow> u32 \<Rightarrow> int \<Rightarrow> mpm \<Rightarrow> (ptr \<times> mpm) exec" where
  "optimsoc_mp_endpoint_create mal junk tile node port buffer_type buffer_size overwrite_max_size m =
     endpoint_create mal junk tile node port buffer_type buffer_size overwrite_max_size m"

definition optimsoc_mp_endpoint_get ::
    "allocator \<Rightarrow> u32 \<Rightarrow> bool \<Rightarrow> bool list \<Rightarrow> u32 \<Rightarrow> u32 \<Rightarrow> u32 \<Rightarrow> inputs \<Rightarrow> mpm \<Rightarrow> (ptr \<times> inputs \<times> mpm) exec" where
  "optimsoc_mp_endpoint_get mal tile runtime ready domain node port inp m =
     endpoint_get mal tile (control_get_endpoint mal tile runtime ready domain node port inp) domain node port inp m"

subsection \<open>Waiting\<close>

fun wait_until ::
    "(mpm \<Rightarrow> bool exec) \<Rightarrow> allocator \<Rightarrow> u32 \<Rightarrow> inputs \<Rightarrow> mpm \<Rightarrow> (inputs \<times> mpm) exec" where
  "wait_until c mal tile [] m = bnd (c m) (\<lambda>b. if b then ok ([], m) else None)"
| "wait_until c mal tile (p # ps) m = bnd (c m) (\<lambda>b.
     if b then ok (p # ps, m)
     else bnd (control_msg_handler mal tile (fst p) (snd p) m) (wait_until c mal tile ps))"

definition has_credit :: "ptr \<Rightarrow> mpm \<Rightarrow> bool exec" where
  "has_credit ep m = bnd (ep_at m ep) (\<lambda>e. ok (ep_remotecredit e \<noteq> 0))"

definition not_empty :: "ptr \<Rightarrow> mpm \<Rightarrow> bool exec" where
  "not_empty ep m = bnd (endpoint_empty ep m) (\<lambda>e. ok (\<not> e))"

subsection \<open>Channels\<close>

definition optimsoc_mp_channel_connect ::
    "allocator \<Rightarrow> u32 \<Rightarrow> ptr \<Rightarrow> ptr \<Rightarrow> inputs \<Rightarrow> mpm \<Rightarrow> (inputs \<times> mpm) exec" where
  "optimsoc_mp_channel_connect mal tile from_h to_h inp m =
     bnd (handle_at m from_h) (\<lambda>f.
     bnd (control_channel_connect mal tile from_h to_h inp m) (\<lambda>(c, inp1, m1).
     bnd (endpoint_channel_add_credit (eh_ep f) c m1) (\<lambda>m2. ok (inp1, m2))))"

definition word_bytes :: "u32 \<Rightarrow> u8 list" where
  "word_bytes w = [ucast (drop_bit 24 w), ucast (drop_bit 16 w), ucast (drop_bit 8 w), ucast w]"

text \<open>\<open>memcpy\<close> of \<open>n\<close> bytes out of a slot.\<close>

definition copy_slot :: "nat \<Rightarrow> u32 \<Rightarrow> ebuf \<Rightarrow> u8 list exec" where
  "copy_slot n slot b = bnd (field_read_loop ((n + 3) div 4) 0 slot b) (\<lambda>ws.
     ok (take n (concat (map word_bytes ws))))"

text \<open>The part of the reception after the endpoint is not empty: return code, size, bytes.\<close>

definition channel_take ::
    "(ebuf \<Rightarrow> ebuf) list \<Rightarrow> u32 \<Rightarrow> ptr \<Rightarrow> u32 \<Rightarrow> mpm \<Rightarrow> (int \<times> u32 \<times> u8 list \<times> mpm) exec" where
  "channel_take fs tile eph buffer_size m =
     bnd (handle_at m eph) (\<lambda>h.
     bnd (endpoint_pop fs (eh_ep h) m) (\<lambda>(p, m1).
     bnd (ep_at m1 (eh_ep h)) (\<lambda>e.
     bnd (buf_size_at p (ep_buffer e)) (\<lambda>received.
     let (ret, n) = (if received \<le> buffer_size then (0, received) else (-3, buffer_size)) in
     bnd (copy_slot (unat n) p (ep_buffer e)) (\<lambda>bytes.
     bnd (control_channel_sendcredit tile eph 1 m1) (\<lambda>m2. ok (ret, n, bytes, m2)))))))"

definition optimsoc_mp_channel_recv ::
    "(ebuf \<Rightarrow> ebuf) list \<Rightarrow> allocator \<Rightarrow> u32 \<Rightarrow> ptr \<Rightarrow> u32 \<Rightarrow> inputs \<Rightarrow> mpm \<Rightarrow> (inputs \<times> int \<times> u32 \<times> u8 list \<times> mpm) exec" where
  "optimsoc_mp_channel_recv fs mal tile eph buffer_size inp m =
     bnd (handle_at m eph) (\<lambda>h.
     bnd (wait_until (not_empty (eh_ep h)) mal tile inp m) (\<lambda>(inp1, m1).
     bnd (channel_take fs tile eph buffer_size m1) (\<lambda>r. ok (inp1, r))))"

definition optimsoc_mp_channel_pause :: "u32 \<Rightarrow> ptr \<Rightarrow> mpm \<Rightarrow> mpm exec" where
  "optimsoc_mp_channel_pause tile eph m = control_channel_sendcredit tile eph (-1) m"

definition optimsoc_mp_channel_continue :: "u32 \<Rightarrow> ptr \<Rightarrow> mpm \<Rightarrow> mpm exec" where
  "optimsoc_mp_channel_continue tile eph m =
     bnd (handle_at m eph) (\<lambda>h. bnd (ep_at m (eh_ep h)) (\<lambda>e.
       control_channel_sendcredit tile eph (eb_size (ep_buffer e) - 1) m))"

text \<open>Taking one credit, with the interference of others on the credit word.\<close>

definition take_credit :: "(endpoint \<Rightarrow> endpoint) list \<Rightarrow> ptr \<Rightarrow> mpm \<Rightarrow> mpm exec" where
  "take_credit fs ep m = bnd (ep_at m ep) (\<lambda>e.
     ok (set_ep ep (snd (cas_loop ep_remotecredit (\<lambda>v e. e\<lparr>ep_remotecredit := v\<rparr>) (\<lambda>c. c - 1) fs e)) m))"

definition optimsoc_mp_channel_send ::
    "(endpoint \<Rightarrow> endpoint) list \<Rightarrow> allocator \<Rightarrow> u32 \<Rightarrow> ptr \<Rightarrow> ptr \<Rightarrow> u32 list \<Rightarrow> u32 \<Rightarrow> inputs \<Rightarrow> mpm \<Rightarrow> (inputs \<times> mpm) exec" where
  "optimsoc_mp_channel_send fs mal tile from_h to_h buffer sz inp m =
     bnd (handle_at m from_h) (\<lambda>f.
     bnd (has_credit (eh_ep f) m) (\<lambda>c.
     bnd (if c then ok ()
          else bnd (endpoint_full (eh_ep f) m) (\<lambda>full. assert_c (\<not> full))) (\<lambda>_.
     bnd (wait_until (has_credit (eh_ep f)) mal tile inp m) (\<lambda>(inp1, m1).
     bnd (take_credit fs (eh_ep f) m1) (\<lambda>m2.
     bnd (if mp_data m2 = OPTIMSOC_MP_DATA_FIFO then control_channel_send tile to_h buffer sz m2 else ok m2) (\<lambda>m3.
       ok (inp1, m3)))))))"

text \<open>The variant that does not wait: \<open>-1\<close> without a credit. It takes the credit after sending.\<close>

definition optimsoc_mp_channel_send_i :: "u32 \<Rightarrow> ptr \<Rightarrow> ptr \<Rightarrow> u32 list \<Rightarrow> u32 \<Rightarrow> mpm \<Rightarrow> (int \<times> mpm) exec" where
  "optimsoc_mp_channel_send_i tile from_h to_h buffer sz m =
     bnd (handle_at m from_h) (\<lambda>f.
     bnd (has_credit (eh_ep f) m) (\<lambda>c.
       if \<not> c then ok (-1, m)
       else
         bnd (control_channel_send tile to_h buffer sz m) (\<lambda>m1.
         bnd (ep_at m1 (eh_ep f)) (\<lambda>e.
           ok (0, set_ep (eh_ep f) (e\<lparr>ep_remotecredit := ep_remotecredit e - 1\<rparr>) m1)))))"

subsection \<open>Messages\<close>

definition optimsoc_mp_msg_send ::
    "allocator \<Rightarrow> u32 \<Rightarrow> ptr \<Rightarrow> u32 list \<Rightarrow> u32 \<Rightarrow> inputs \<Rightarrow> mpm \<Rightarrow> (inputs \<times> mpm) exec" where
  "optimsoc_mp_msg_send mal tile to_h data sz inp m =
     bnd (control_msg_alloc mal tile to_h sz inp m) (\<lambda>(addr, inp1, m1).
     bnd (control_msg_data tile to_h addr data sz m1) (\<lambda>m2. ok (inp1, m2)))"

definition endpoint_msg_recv ::
    "(ebuf \<Rightarrow> ebuf) list \<Rightarrow> allocator \<Rightarrow> u32 \<Rightarrow> ptr \<Rightarrow> u32 \<Rightarrow> inputs \<Rightarrow> mpm \<Rightarrow> (inputs \<times> u32 \<times> u32 list \<times> mpm) exec" where
  "endpoint_msg_recv fs mal tile ep buffer_size inp m =
     bnd (wait_until (endpoint_msg_available ep) mal tile inp m) (\<lambda>(inp1, m1).
     bnd (endpoint_msg_take fs ep buffer_size m1) (\<lambda>r. ok (inp1, r)))"

definition optimsoc_mp_msg_recv ::
    "(ebuf \<Rightarrow> ebuf) list \<Rightarrow> allocator \<Rightarrow> u32 \<Rightarrow> ptr \<Rightarrow> u32 \<Rightarrow> inputs \<Rightarrow> mpm \<Rightarrow> (inputs \<times> u32 \<times> u32 list \<times> mpm) exec" where
  "optimsoc_mp_msg_recv fs mal tile eph buffer_size inp m =
     bnd (handle_at m eph) (\<lambda>h.
     bnd (wait_until (not_empty (eh_ep h)) mal tile inp m) (\<lambda>(inp1, m1).
       endpoint_msg_recv fs mal tile (eh_ep h) buffer_size inp1 m1))"

end
