(* ===== verification/Ring.thy ===== *)
theory Ring
  imports Endpoints
begin

section \<open>The ring of message slots as a queue\<close>

text \<open>
  The ring of an endpoint represents a queue of messages, one slot less than its size. The
  lemmas give the effect of the pointer and data operations of \<open>Endpoints\<close> on this queue.
\<close>

subsection \<open>Positions\<close>

definition ring_ok :: "ebuf \<Rightarrow> bool" where
  "ring_ok b \<longleftrightarrow> eb_read_ptr b < eb_size b \<and> eb_write_ptr b < eb_size b \<and>
     length (eb_data b) = unat (eb_size b) \<and> length (eb_data_size b) = unat (eb_size b)"

definition fill_of :: "ebuf \<Rightarrow> nat" where
  "fill_of b =
     (if eb_read_ptr b \<le> eb_write_ptr b then unat (eb_write_ptr b) - unat (eb_read_ptr b)
      else unat (eb_write_ptr b) + unat (eb_size b) - unat (eb_read_ptr b))"

definition slot_of :: "ebuf \<Rightarrow> nat \<Rightarrow> nat" where
  "slot_of b k = (unat (eb_read_ptr b) + k) mod unat (eb_size b)"

lemma ring_ok_nat:
  assumes "ring_ok b"
  shows "unat (eb_read_ptr b) < unat (eb_size b)" and "unat (eb_write_ptr b) < unat (eb_size b)"
  using assms by (simp_all add: ring_ok_def word_less_nat_alt)

lemma fill_less: "ring_ok b \<Longrightarrow> fill_of b < unat (eb_size b)"
  using ring_ok_nat [of b] by (auto simp: fill_of_def word_le_nat_alt)

lemma slot_less: "ring_ok b \<Longrightarrow> slot_of b k < unat (eb_size b)"
  using ring_ok_nat [of b] by (simp add: slot_of_def)

lemma slot_fill: "ring_ok b \<Longrightarrow> slot_of b (fill_of b) = unat (eb_write_ptr b)"
  using ring_ok_nat [of b] by (auto simp: fill_of_def slot_of_def word_le_nat_alt)

lemma slot_inj: "slot_of b j = slot_of b k \<Longrightarrow> j < unat (eb_size b) \<Longrightarrow> k < unat (eb_size b) \<Longrightarrow> j = k"
  unfolding slot_of_def by (rule mod_add_inj)

lemma unat_ring_next:
  assumes "p < sz"
  shows "unat (ring_next sz p) = (unat p + 1) mod unat sz"
proof -
  have le: "unat p + 1 \<le> unat sz" using assms by (simp add: word_less_nat_alt)
  then have "unat p + 1 < 2 ^ 32" using unsigned_less [of sz, where 'a = nat] by simp
  then have n: "unat (p + 1) = unat p + 1"
    by (simp add: unat_word_ariths)
  show ?thesis
  proof (cases "sz \<le> p + 1")
    case True
    then have "unat sz = unat p + 1" using le n by (simp add: word_le_nat_alt)
    with n have "p + 1 = sz" by (simp add: word_unat_eq_iff)
    with \<open>unat sz = unat p + 1\<close> show ?thesis by (simp add: ring_next_def)
  next
    case False
    then show ?thesis using n by (simp add: ring_next_def word_le_nat_alt)
  qed
qed

lemma ring_next_less: "p < sz \<Longrightarrow> ring_next sz p < sz"
  unfolding word_less_nat_alt [of "ring_next sz p"]
  by (simp add: unat_ring_next) (metis gr_implies_not_zero mod_less_divisor neq0_conv word_less_nat_alt)

lemma full_iff:
  assumes "ring_ok b"
  shows "(if eb_write_ptr b \<ge> eb_read_ptr b then eb_write_ptr b - eb_read_ptr b = eb_size b - 1
          else eb_read_ptr b - eb_write_ptr b = 1) \<longleftrightarrow> fill_of b = unat (eb_size b) - 1"
proof -
  have pos: "1 \<le> eb_size b"
    using ring_ok_nat [OF assms] by (simp add: word_le_nat_alt)
  show ?thesis
    using ring_ok_nat [OF assms] pos
    by (auto simp: fill_of_def word_unat_eq_iff unat_sub word_le_nat_alt)
qed

lemma credit_fill:
  assumes "ring_ok b"
  shows "unat (buf_credit b) = unat (eb_size b) - 1 - fill_of b"
proof (cases "eb_read_ptr b \<le> eb_write_ptr b")
  case True
  have w: "unat (eb_write_ptr b) \<le> unat (eb_size b) - 1" using ring_ok_nat [OF assms] by simp
  have s1: "unat (eb_size b - 1) = unat (eb_size b) - 1"
    using ring_ok_nat [OF assms] by (subst unat_sub) (auto simp: word_le_nat_alt)
  have s2: "unat (eb_size b - 1 - eb_write_ptr b) = unat (eb_size b) - 1 - unat (eb_write_ptr b)"
    using w s1 by (subst unat_sub) (auto simp: word_le_nat_alt)
  have r: "unat (eb_read_ptr b) \<le> unat (eb_write_ptr b)" using True by (simp add: word_le_nat_alt)
  have "unat (eb_size b - 1 - eb_write_ptr b + eb_read_ptr b) =
      unat (eb_size b) - 1 - unat (eb_write_ptr b) + unat (eb_read_ptr b)"
    using s2 w r unsigned_less [of "eb_size b", where 'a = nat] by (simp add: unat_word_ariths)
  then show ?thesis using True w r by (simp add: buf_credit_def fill_of_def Let_def)
next
  case False
  then have r: "unat (eb_write_ptr b) < unat (eb_read_ptr b)" by (simp add: word_le_nat_alt)
  have "unat (eb_read_ptr b - 1) = unat (eb_read_ptr b) - 1"
    using r by (subst unat_sub) (auto simp: word_le_nat_alt)
  moreover from this have "unat (eb_read_ptr b - 1 - eb_write_ptr b) = unat (eb_read_ptr b) - 1 - unat (eb_write_ptr b)"
    using r by (subst unat_sub) (auto simp: word_le_nat_alt)
  ultimately show ?thesis using False r ring_ok_nat [OF assms] by (simp add: buf_credit_def fill_of_def Let_def)
qed

subsection \<open>Pushing and popping\<close>

abbreviation pushed :: "ebuf \<Rightarrow> ebuf" where
  "pushed b \<equiv> b\<lparr>eb_write_ptr := ring_next (eb_size b) (eb_write_ptr b)\<rparr>"

abbreviation popped :: "ebuf \<Rightarrow> ebuf" where
  "popped b \<equiv> b\<lparr>eb_read_ptr := ring_next (eb_size b) (eb_read_ptr b)\<rparr>"

lemma ring_ok_pushed: "ring_ok b \<Longrightarrow> ring_ok (pushed b)"
  by (simp add: ring_ok_def ring_next_less)

lemma ring_ok_popped: "ring_ok b \<Longrightarrow> ring_ok (popped b)"
  by (simp add: ring_ok_def ring_next_less)

lemma slot_pushed [simp]: "slot_of (pushed b) k = slot_of b k"
  by (simp add: slot_of_def)

lemma slot_popped: "ring_ok b \<Longrightarrow> slot_of (popped b) k = slot_of b (Suc k)"
  by (simp add: slot_of_def ring_ok_def unat_ring_next mod_add_left_eq)

lemma fill_unique: "ring_ok b \<Longrightarrow> n < unat (eb_size b) \<Longrightarrow> slot_of b n = unat (eb_write_ptr b) \<Longrightarrow> fill_of b = n"
  by (metis slot_inj slot_fill fill_less)

lemma fill_pushed:
  assumes "ring_ok b" and "fill_of b < unat (eb_size b) - 1"
  shows "fill_of (pushed b) = Suc (fill_of b)"
proof (rule fill_unique [OF ring_ok_pushed [OF assms(1)]])
  show "Suc (fill_of b) < unat (eb_size (pushed b))" using assms by simp
  have "slot_of b (Suc (fill_of b)) = (slot_of b (fill_of b) + 1) mod unat (eb_size b)"
    by (simp add: slot_of_def mod_Suc_eq)
  then show "slot_of (pushed b) (Suc (fill_of b)) = unat (eb_write_ptr (pushed b))"
    using assms(1) slot_fill [OF assms(1)] by (simp add: unat_ring_next ring_ok_def)
qed

lemma fill_popped:
  assumes "ring_ok b" and "fill_of b = Suc n"
  shows "fill_of (popped b) = n"
  by (rule fill_unique [OF ring_ok_popped [OF assms(1)]])
    (use assms fill_less [OF assms(1)] slot_fill [OF assms(1)] in \<open>simp_all add: slot_popped\<close>)

lemma fill_zero_iff: "ring_ok b \<Longrightarrow> fill_of b = 0 \<longleftrightarrow> eb_write_ptr b = eb_read_ptr b"
  using ring_ok_nat [of b] by (auto simp: fill_of_def word_le_nat_alt word_unat_eq_iff)

subsection \<open>Slot contents\<close>

text \<open>Slots of \<open>W\<close> words, next to each other.\<close>

definition laid :: "nat \<Rightarrow> ebuf \<Rightarrow> bool" where
  "laid W b \<longleftrightarrow> eb_data b = map (\<lambda>i. i * W) [0..<unat (eb_size b)] \<and>
     unat (eb_size b) * W \<le> length (eb_field b)"

lemma laid_index:
  assumes "laid W b" and "s < unat (eb_size b)" and "k < W"
  shows "s * W + k < length (eb_field b)"
proof -
  have "s * W + k < Suc s * W" using assms by simp
  also have "\<dots> \<le> unat (eb_size b) * W" using assms(2) by (intro mult_le_mono1) simp
  finally show ?thesis using assms(1) by (simp add: laid_def)
qed

lemma laid_field [simp]: "laid W (b\<lparr>eb_field := F\<rparr>) \<longleftrightarrow>
    eb_data b = map (\<lambda>i. i * W) [0..<unat (eb_size b)] \<and> unat (eb_size b) * W \<le> length F"
  by (simp add: laid_def)

lemma laid_other [simp]:
  "laid W (b\<lparr>eb_read_ptr := p\<rparr>) = laid W b" "laid W (b\<lparr>eb_write_ptr := p\<rparr>) = laid W b"
  "laid W (b\<lparr>eb_data_size := d\<rparr>) = laid W b"
  by (simp_all add: laid_def)

lemma unat_of_nat_add:
  assumes "unat off + i < 2 ^ 32"
  shows "unat (word_of_nat i + (off :: u32)) = unat off + i"
proof -
  have "i < 2 ^ 32" using assms by linarith
  then have "unat (word_of_nat i :: u32) = i" by (simp add: unsigned_of_nat take_bit_nat_eq_self)
  then have "unat (word_of_nat i + off) = (i + unat off) mod 2 ^ 32"
    by (simp only: unat_word_ariths) simp
  also have "\<dots> = unat off + i" using assms by (simp add: add.commute)
  finally show ?thesis .
qed

lemma write_loop:
  assumes "laid W b" and "unat slot < unat (eb_size b)" and "unat off + i + n \<le> W"
    and "i + n \<le> length buf" and "W < 2 ^ 32"
  shows "\<exists>F. endpoint_write_loop n i slot off buf b = ok (b\<lparr>eb_field := F\<rparr>) \<and>
    length F = length (eb_field b) \<and>
    (\<forall>k. i \<le> k \<longrightarrow> k < i + n \<longrightarrow> F ! (unat slot * W + unat off + k) = buf ! k) \<and>
    (\<forall>j. j < unat slot * W + unat off + i \<or> unat slot * W + unat off + i + n \<le> j \<longrightarrow> F ! j = eb_field b ! j)"
  using assms
proof (induction n arbitrary: i b)
  case 0
  show ?case by (rule exI [of _ "eb_field b"]) simp
next
  case (Suc n)
  let ?at = "unat slot * W + unat off + i"
  have u: "unat (word_of_nat i + off) = unat off + i"
    by (rule unat_of_nat_add) (use Suc.prems(3,5) in linarith)
  have d: "unat slot < length (eb_data b)" "eb_data b ! unat slot = unat slot * W"
    using Suc.prems(1,2) by (simp_all add: laid_def)
  have l: "?at < length (eb_field b)"
    using laid_index [OF Suc.prems(1,2), of "unat off + i"] Suc.prems(3) by (simp add: add.assoc)
  let ?b = "b\<lparr>eb_field := (eb_field b)[?at := buf ! i]\<rparr>"
  have w: "field_write slot (word_of_nat i + off) (buf ! i) b = ok ?b"
    using d l u by (simp add: field_write_def add.assoc)
  have "laid W ?b" using Suc.prems(1) by (simp add: laid_def)
  moreover have "unat slot < unat (eb_size ?b)" "unat off + Suc i + n \<le> W" "Suc i + n \<le> length buf"
    using Suc.prems by simp_all
  ultimately have "\<exists>F. endpoint_write_loop n (Suc i) slot off buf ?b = ok (?b\<lparr>eb_field := F\<rparr>) \<and>
      length F = length (eb_field ?b) \<and>
      (\<forall>k. Suc i \<le> k \<longrightarrow> k < Suc i + n \<longrightarrow> F ! (unat slot * W + unat off + k) = buf ! k) \<and>
      (\<forall>j. j < unat slot * W + unat off + Suc i \<or> unat slot * W + unat off + Suc i + n \<le> j \<longrightarrow>
         F ! j = eb_field ?b ! j)"
    by (rule Suc.IH) (rule Suc.prems)
  then obtain F where F: "endpoint_write_loop n (Suc i) slot off buf ?b = ok (?b\<lparr>eb_field := F\<rparr>)"
      "length F = length (eb_field b)"
      and F3: "\<forall>k. Suc i \<le> k \<longrightarrow> k < Suc i + n \<longrightarrow> F ! (unat slot * W + unat off + k) = buf ! k"
      and F4: "\<forall>j. j < unat slot * W + unat off + Suc i \<or> unat slot * W + unat off + Suc i + n \<le> j \<longrightarrow>
         F ! j = eb_field ?b ! j"
    by (elim exE conjE) simp
  have at: "F ! ?at = buf ! i" using F4 [rule_format, of ?at] l by simp
  have "F ! (unat slot * W + unat off + k) = buf ! k" if "i \<le> k" "k < i + Suc n" for k
  proof (cases "k = i")
    case True
    with at show ?thesis by simp
  next
    case False
    with that show ?thesis by (intro F3 [rule_format]) simp_all
  qed
  moreover have "F ! j = eb_field b ! j" if "j < ?at \<or> ?at + Suc n \<le> j" for j
    using that F4 [rule_format, of j] by auto
  moreover have "endpoint_write_loop (Suc n) i slot off buf b = ok (b\<lparr>eb_field := F\<rparr>)"
    using Suc.prems(4) w F(1) by simp
  ultimately show ?case using F(2) by (intro exI [of _ F]) auto
qed

text \<open>The whole of a message, into its slot.\<close>

lemma write_message:
  assumes "laid W b" and "unat slot < unat (eb_size b)" and "length ws \<le> W" and "W < 2 ^ 30"
  shows "\<exists>F. endpoint_write_loop (length ws) 0 slot 0 (ws @ j) b = ok (b\<lparr>eb_field := F\<rparr>) \<and>
    length F = length (eb_field b) \<and> (\<forall>k < length ws. F ! (unat slot * W + k) = ws ! k) \<and>
    (\<forall>i. i < unat slot * W \<or> unat slot * W + W \<le> i \<longrightarrow> F ! i = eb_field b ! i)"
proof -
  have "\<exists>F. endpoint_write_loop (length ws) 0 slot 0 (ws @ j) b = ok (b\<lparr>eb_field := F\<rparr>) \<and>
      length F = length (eb_field b) \<and>
      (\<forall>k. 0 \<le> k \<longrightarrow> k < 0 + length ws \<longrightarrow> F ! (unat slot * W + unat (0::u32) + k) = (ws @ j) ! k) \<and>
      (\<forall>i. i < unat slot * W + unat (0::u32) + 0 \<or> unat slot * W + unat (0::u32) + 0 + length ws \<le> i \<longrightarrow>
         F ! i = eb_field b ! i)"
    by (rule write_loop [OF assms(1,2)]) (use assms(3,4) in simp_all)
  then obtain F where "endpoint_write_loop (length ws) 0 slot 0 (ws @ j) b = ok (b\<lparr>eb_field := F\<rparr>)"
      "length F = length (eb_field b)" "\<forall>k < length ws. F ! (unat slot * W + k) = ws ! k"
      "\<forall>i. i < unat slot * W \<or> unat slot * W + length ws \<le> i \<longrightarrow> F ! i = eb_field b ! i"
    by (auto simp: nth_append)
  with assms(3) show ?thesis by (intro exI [of _ F]) auto
qed

lemma read_loop:
  assumes "laid W b" and "unat slot < unat (eb_size b)" and "i + n \<le> W" and "W < 2 ^ 32"
  shows "field_read_loop n i slot b = ok (map (\<lambda>k. eb_field b ! (unat slot * W + k)) [i..<i + n])"
  using assms
proof (induction n arbitrary: i)
  case (Suc n)
  have "unat (word_of_nat i :: u32) = i"
    using Suc.prems(3,4) by (simp add: unsigned_of_nat take_bit_nat_eq_self)
  moreover have "unat slot * W + i < length (eb_field b)"
    using laid_index [OF Suc.prems(1,2), of i] Suc.prems(3) by simp
  ultimately have "field_read slot (word_of_nat i) b = ok (eb_field b ! (unat slot * W + i))"
    using Suc.prems(1,2) by (simp add: field_read_def laid_def)
  moreover have "[i..<i + Suc n] = i # [Suc i..<Suc i + n]"
    by (simp add: upt_conv_Cons)
  ultimately show ?case using Suc by simp
qed simp

lemma field_read_loop_popped [simp]: "field_read_loop n i slot (b\<lparr>eb_read_ptr := p\<rparr>) = field_read_loop n i slot b"
  by (induction n arbitrary: i) (simp_all add: field_read_def)

subsection \<open>The queue\<close>

type_synonym msg = "u32 list \<times> u32"

definition msg_ok :: "nat \<Rightarrow> msg \<Rightarrow> bool" where
  "msg_ok W d \<longleftrightarrow> snd d \<noteq> 0 \<and> length (fst d) = (unat (snd d) + 3) div 4 \<and> length (fst d) \<le> W"

definition at_slot :: "nat \<Rightarrow> ebuf \<Rightarrow> nat \<Rightarrow> msg \<Rightarrow> bool" where
  "at_slot W b s d \<longleftrightarrow> eb_data_size b ! s = snd d \<and> (\<forall>j < length (fst d). eb_field b ! (s * W + j) = fst d ! j)"

definition holds :: "nat \<Rightarrow> ebuf \<Rightarrow> msg list \<Rightarrow> bool" where
  "holds W b ds \<longleftrightarrow> ring_ok b \<and> laid W b \<and> W < 2 ^ 30 \<and> fill_of b = length ds \<and>
     (\<forall>k < length ds. msg_ok W (ds ! k) \<and> at_slot W b (slot_of b k) (ds ! k))"

lemma holds_popped:
  assumes "holds W b (d # ds)"
  shows "holds W (popped b) ds"
proof -
  have "ring_ok b" "fill_of b = Suc (length ds)" using assms by (simp_all add: holds_def)
  then have "ring_ok (popped b)" "fill_of (popped b) = length ds" "\<And>k. slot_of (popped b) k = slot_of b (Suc k)"
    by (simp_all add: ring_ok_popped fill_popped slot_popped)
  then show ?thesis using assms by (auto simp: holds_def at_slot_def)
qed

lemma holds_head:
  assumes "holds W b (d # ds)"
  shows "eb_write_ptr b \<noteq> eb_read_ptr b \<and> unat (eb_read_ptr b) < unat (eb_size b) \<and>
    buf_size_at (eb_read_ptr b) b = ok (snd d) \<and> snd d \<noteq> 0 \<and>
    field_read_loop ((unat (snd d) + 3) div 4) 0 (eb_read_ptr b) b = ok (fst d)"
proof -
  have r: "ring_ok b" "laid W b" "W < 2 ^ 30" "fill_of b = Suc (length ds)" "msg_ok W d"
      "at_slot W b (slot_of b 0) d"
    using assms by (auto simp: holds_def)
  have s: "slot_of b 0 = unat (eb_read_ptr b)" using ring_ok_nat [OF r(1)] by (simp add: slot_of_def)
  have "field_read_loop (length (fst d)) 0 (eb_read_ptr b) b =
      ok (map (\<lambda>k. eb_field b ! (unat (eb_read_ptr b) * W + k)) [0..<length (fst d)])"
    using read_loop [OF r(2), of "eb_read_ptr b" 0 "length (fst d)"] r ring_ok_nat [OF r(1)] by (simp add: msg_ok_def)
  also have "map (\<lambda>k. eb_field b ! (unat (eb_read_ptr b) * W + k)) [0..<length (fst d)] = fst d"
    using r(6) s by (intro nth_equalityI) (auto simp: at_slot_def)
  finally show ?thesis
    using r s fill_zero_iff [OF r(1)] ring_ok_nat [OF r(1)]
    by (auto simp: msg_ok_def at_slot_def buf_size_at_def ring_ok_def)
qed

text \<open>Filling the slot at the write pointer and pushing it appends a message.\<close>

lemma holds_pushed:
  assumes "holds W b ds" and "length ds < unat (eb_size b) - 1" and "msg_ok W d"
    and "length F = length (eb_field b)"
    and "\<And>k. k < length (fst d) \<Longrightarrow> F ! (unat (eb_write_ptr b) * W + k) = fst d ! k"
    and "\<And>j. j < unat (eb_write_ptr b) * W \<or> unat (eb_write_ptr b) * W + W \<le> j \<Longrightarrow> F ! j = eb_field b ! j"
  shows "holds W (pushed (b\<lparr>eb_field := F, eb_data_size := (eb_data_size b)[unat (eb_write_ptr b) := snd d]\<rparr>))
    (ds @ [d])" (is "holds W (pushed ?b) _")
proof -
  have r: "ring_ok b" "laid W b" "W < 2 ^ 30" "fill_of b = length ds" using assms(1) by (auto simp: holds_def)
  have rb: "ring_ok ?b" using r(1) by (simp add: ring_ok_def)
  have fb: "fill_of ?b = length ds" unfolding r(4) [symmetric] by (simp add: fill_of_def)
  have sl: "slot_of ?b k = slot_of b k" for k by (simp add: slot_of_def)
  have w: "slot_of b (length ds) = unat (eb_write_ptr b)" using slot_fill [OF r(1)] r(4) by simp
  have old: "at_slot W ?b (slot_of b k) (ds ! k)" if k: "k < length ds" for k
  proof -
    have "slot_of b k \<noteq> slot_of b (length ds)"
    proof
      assume "slot_of b k = slot_of b (length ds)"
      then have "k = length ds" by (rule slot_inj) (use k assms(2) in simp_all)
      with k show False by simp
    qed
    then have ne: "slot_of b k \<noteq> unat (eb_write_ptr b)" using w by simp
    have a: "at_slot W b (slot_of b k) (ds ! k)" and m: "msg_ok W (ds ! k)"
      using assms(1) k by (auto simp: holds_def)
    have "F ! (slot_of b k * W + j) = eb_field b ! (slot_of b k * W + j)" if j: "j < length (fst (ds ! k))" for j
    proof (rule assms(6))
      have jW: "j < W" using j m by (simp add: msg_ok_def)
      show "slot_of b k * W + j < unat (eb_write_ptr b) * W \<or>
          unat (eb_write_ptr b) * W + W \<le> slot_of b k * W + j"
      proof (cases "slot_of b k < unat (eb_write_ptr b)")
        case True
        then have "Suc (slot_of b k) * W \<le> unat (eb_write_ptr b) * W" by (intro mult_le_mono1) simp
        with jW show ?thesis by simp
      next
        case False
        with ne have "Suc (unat (eb_write_ptr b)) * W \<le> slot_of b k * W" by (intro mult_le_mono1) simp
        then show ?thesis by simp
      qed
    qed
    with a ne show ?thesis by (simp add: at_slot_def)
  qed
  have new: "at_slot W ?b (slot_of b (length ds)) d"
    using assms(5) w ring_ok_nat [OF r(1)] r(1) by (simp add: at_slot_def ring_ok_def)
  have f: "fill_of (pushed ?b) = Suc (length ds)"
    using fill_pushed [OF rb] fb assms(2) by simp
  have "\<forall>k < length (ds @ [d]). msg_ok W ((ds @ [d]) ! k) \<and>
      at_slot W (pushed ?b) (slot_of (pushed ?b) k) ((ds @ [d]) ! k)"
  proof (intro allI impI)
    fix k assume "k < length (ds @ [d])"
    then consider "k < length ds" | "k = length ds" by (auto simp: less_Suc_eq)
    then show "msg_ok W ((ds @ [d]) ! k) \<and> at_slot W (pushed ?b) (slot_of (pushed ?b) k) ((ds @ [d]) ! k)"
    proof cases
      case 1
      then have "msg_ok W (ds ! k)" using assms(1) by (simp add: holds_def)
      with old [OF 1] 1 sl show ?thesis by (simp add: nth_append at_slot_def slot_of_def)
    next
      case 2
      with new assms(3) sl show ?thesis by (simp add: at_slot_def slot_of_def)
    qed
  qed
  moreover have "laid W (pushed ?b)" using r(2) assms(4) by (simp add: laid_def)
  ultimately show ?thesis
    using ring_ok_pushed [OF rb] f r(3) by (simp only: holds_def) simp
qed

end
