(* ===== verification/Flow.thy ===== *)
theory Flow
  imports Prelude
begin

section \<open>Credit-based flow control\<close>

text \<open>
  Two parties and an ordered network between them. The sender takes a credit for each
  message it sends; the receiver queues what arrives, and returns a credit for each message
  it consumes. The relation \<open>chan_step\<close> interleaves the operations of the two parties with
  the deliveries of the network in any order. The locale \<open>credit_channel\<close> states what the
  four operations promise and proves what follows for every run.
\<close>

record ('s, 'r, 'p, 'd, 'e) chan =
  ch_snd :: 's
  ch_rcv :: 'r
  ch_fwd :: "'p list"
  ch_back :: "'p list"
  ch_sent :: "'d list"
  ch_got :: "'e list"

inductive chan_step ::
    "('d \<Rightarrow> bool) \<Rightarrow> ('d \<Rightarrow> 's \<Rightarrow> ('p list \<times> 's) exec) \<Rightarrow> ('j \<Rightarrow> 'p \<Rightarrow> 'r \<Rightarrow> 'r exec) \<Rightarrow>
     ('r \<Rightarrow> ('e \<times> 'p list \<times> 'r) exec) \<Rightarrow> ('j \<Rightarrow> 'p \<Rightarrow> 's \<Rightarrow> 's exec) \<Rightarrow>
     ('s, 'r, 'p, 'd, 'e) chan \<Rightarrow> ('s, 'r, 'p, 'd, 'e) chan \<Rightarrow> bool"
  for valid snd_op dlv_op rcv_op crd_op
where
  chan_send: "valid d \<Longrightarrow> snd_op d (ch_snd c) = ok (ps, s) \<Longrightarrow>
    chan_step valid snd_op dlv_op rcv_op crd_op c
      (c\<lparr>ch_snd := s, ch_fwd := ch_fwd c @ ps, ch_sent := ch_sent c @ [d]\<rparr>)"
| chan_deliver: "ch_fwd c = p # ps \<Longrightarrow> dlv_op j p (ch_rcv c) = ok r \<Longrightarrow>
    chan_step valid snd_op dlv_op rcv_op crd_op c (c\<lparr>ch_rcv := r, ch_fwd := ps\<rparr>)"
| chan_recv: "rcv_op (ch_rcv c) = ok (e, ps, r) \<Longrightarrow>
    chan_step valid snd_op dlv_op rcv_op crd_op c
      (c\<lparr>ch_rcv := r, ch_back := ch_back c @ ps, ch_got := ch_got c @ [e]\<rparr>)"
| chan_credit: "ch_back c = p # ps \<Longrightarrow> crd_op j p (ch_snd c) = ok s \<Longrightarrow>
    chan_step valid snd_op dlv_op rcv_op crd_op c (c\<lparr>ch_snd := s, ch_back := ps\<rparr>)"

inductive_cases chan_stepE: "chan_step valid snd_op dlv_op rcv_op crd_op c c'"

locale credit_channel =
  fixes S :: "'s \<Rightarrow> nat \<Rightarrow> bool"
    and R :: "'r \<Rightarrow> 'd list \<Rightarrow> bool"
    and cap :: nat
    and valid :: "'d \<Rightarrow> bool"
    and pkt :: "'d \<Rightarrow> 'p"
    and cred :: 'p
    and out :: "'d \<Rightarrow> 'e"
    and snd_op :: "'d \<Rightarrow> 's \<Rightarrow> ('p list \<times> 's) exec"
    and dlv_op :: "'j \<Rightarrow> 'p \<Rightarrow> 'r \<Rightarrow> 'r exec"
    and rcv_op :: "'r \<Rightarrow> ('e \<times> 'p list \<times> 'r) exec"
    and crd_op :: "'j \<Rightarrow> 'p \<Rightarrow> 's \<Rightarrow> 's exec"
  assumes snd_law: "S s (Suc n) \<Longrightarrow> valid d \<Longrightarrow> \<exists>s'. snd_op d s = ok ([pkt d], s') \<and> S s' n"
    and snd_wait: "S s 0 \<Longrightarrow> valid d \<Longrightarrow> snd_op d s \<noteq> ok x"
    and dlv_law: "R r q \<Longrightarrow> length q < cap \<Longrightarrow> valid d \<Longrightarrow>
      \<exists>r'. dlv_op j (pkt d) r = ok r' \<and> R r' (q @ [d])"
    and rcv_law: "R r (d # q) \<Longrightarrow> \<exists>r'. rcv_op r = ok (out d, [cred], r') \<and> R r' q"
    and rcv_wait: "R r [] \<Longrightarrow> rcv_op r \<noteq> ok y"
    and crd_law: "S s n \<Longrightarrow> n < cap \<Longrightarrow> \<exists>s'. crd_op j cred s = ok s' \<and> S s' (Suc n)"
begin

definition agrees :: "('s, 'r, 'p, 'd, 'e) chan \<Rightarrow> nat \<Rightarrow> 'd list \<Rightarrow> 'd list \<Rightarrow> nat \<Rightarrow> bool" where
  "agrees c n q f k \<longleftrightarrow> S (ch_snd c) n \<and> R (ch_rcv c) q \<and> ch_fwd c = map pkt f \<and>
     ch_back c = replicate k cred \<and> n + length f + length q + k = cap \<and> (\<forall>d \<in> set f. valid d) \<and>
     map out (ch_sent c) = ch_got c @ map out (q @ f)"

lemma agrees_acct: "agrees c n q f k \<Longrightarrow> map out (ch_sent c) = ch_got c @ map out (q @ f)"
  and agrees_rcv: "agrees c n q f k \<Longrightarrow> R (ch_rcv c) q"
  by (simp_all add: agrees_def)

lemma agrees_start:
  "S s cap \<Longrightarrow> R r [] \<Longrightarrow> ch_snd c = s \<Longrightarrow> ch_rcv c = r \<Longrightarrow> ch_fwd c = [] \<Longrightarrow> ch_back c = [] \<Longrightarrow>
    ch_sent c = [] \<Longrightarrow> ch_got c = [] \<Longrightarrow> agrees c cap [] [] 0"
  by (simp add: agrees_def)

lemma agrees_step:
  assumes "chan_step valid snd_op dlv_op rcv_op crd_op c c'" and "agrees c n q f k"
  shows "\<exists>n q f k. agrees c' n q f k"
  using assms(1)
proof cases
  case (chan_send d ps s)
  from assms(2) have a: "S (ch_snd c) n" by (simp add: agrees_def)
  obtain n' where n': "n = Suc n'"
    using snd_wait [of "ch_snd c" d "(ps, s)"] a chan_send by (cases n) auto
  with snd_law [of "ch_snd c" n' d] a chan_send have "ps = [pkt d]" "S s n'" by auto
  then have "agrees c' n' q (f @ [d]) k"
    using assms(2) chan_send n' by (auto simp: agrees_def)
  then show ?thesis by blast
next
  case (chan_deliver p ps j r)
  from assms(2) chan_deliver(2) obtain d f' where f: "f = d # f'" "p = pkt d" "ps = map pkt f'"
    by (cases f) (auto simp: agrees_def)
  have "length q < cap" "valid d" "R (ch_rcv c) q" using assms(2) f by (auto simp: agrees_def)
  with dlv_law [of "ch_rcv c" q d j] chan_deliver f have "R r (q @ [d])" by auto
  then have "agrees c' n (q @ [d]) f' k"
    using assms(2) chan_deliver f by (auto simp: agrees_def)
  then show ?thesis by blast
next
  case (chan_recv e ps r)
  from assms(2) have R: "R (ch_rcv c) q" by (simp add: agrees_def)
  obtain d q' where q: "q = d # q'"
    using rcv_wait [of "ch_rcv c" "(e, ps, r)"] R chan_recv by (cases q) auto
  with rcv_law [of "ch_rcv c" d q'] R chan_recv have "e = out d" "ps = [cred]" "R r q'" by auto
  then have "agrees c' n q' f (Suc k)"
    using assms(2) chan_recv q by (auto simp: agrees_def simp flip: replicate_append_same)
  then show ?thesis by blast
next
  case (chan_credit p ps j s)
  from assms(2) chan_credit(2) obtain k' where k: "k = Suc k'" "p = cred" "ps = replicate k' cred"
    by (cases k) (auto simp: agrees_def)
  have "n < cap" "S (ch_snd c) n" using assms(2) k by (auto simp: agrees_def)
  with crd_law [of "ch_snd c" n j] chan_credit k have "S s (Suc n)" by auto
  then have "agrees c' (Suc n) q f k'"
    using assms(2) chan_credit k by (auto simp: agrees_def)
  then show ?thesis by blast
qed

lemma agrees_run:
  assumes "(chan_step valid snd_op dlv_op rcv_op crd_op)\<^sup>*\<^sup>* c c'" and "agrees c n q f k"
  shows "\<exists>n q f k. agrees c' n q f k"
  using assms
proof (induction arbitrary: n q f k rule: rtranclp_induct)
  case (step c' c'')
  then show ?case using agrees_step by meson
qed blast

text \<open>In every state of a run, what the network holds can be delivered, and nothing is lost.\<close>

lemma run_facts:
  assumes "agrees c n q f k"
  shows "(\<exists>rest. map out (ch_sent c) = ch_got c @ rest \<and> length rest \<le> cap) \<and>
    (\<forall>p ps j. ch_fwd c = p # ps \<longrightarrow> (\<exists>r. dlv_op j p (ch_rcv c) = ok r)) \<and>
    (\<forall>p ps j. ch_back c = p # ps \<longrightarrow> (\<exists>s. crd_op j p (ch_snd c) = ok s))"
proof (intro conjI allI impI)
  show "\<exists>rest. map out (ch_sent c) = ch_got c @ rest \<and> length rest \<le> cap"
    using assms by (intro exI [of _ "map out (q @ f)"]) (simp add: agrees_def)
next
  fix p ps j assume "ch_fwd c = p # ps"
  with assms obtain d where "p = pkt d" "valid d" "length q < cap" "R (ch_rcv c) q"
    by (cases f) (auto simp: agrees_def)
  with dlv_law show "\<exists>r. dlv_op j p (ch_rcv c) = ok r" by blast
next
  fix p ps j assume "ch_back c = p # ps"
  with assms have "p = cred" "n < cap" "S (ch_snd c) n" by (cases k; auto simp: agrees_def)+
  with crd_law show "\<exists>s. crd_op j p (ch_snd c) = ok s" by blast
qed

text \<open>
  When nothing can be delivered or received any more, everything sent was received and the
  sender has all of its credit.
\<close>

lemma quiet_facts:
  assumes "agrees c n q f k" and "ch_fwd c = []" and "ch_back c = []" and "\<forall>x. rcv_op (ch_rcv c) \<noteq> ok x"
  shows "S (ch_snd c) cap \<and> map out (ch_sent c) = ch_got c"
proof -
  have "f = []" "k = 0" using assms by (auto simp: agrees_def)
  moreover have "q = []"
  proof (cases q)
    case (Cons d q')
    then have "R (ch_rcv c) (d # q')" using assms(1) by (simp add: agrees_def)
    from rcv_law [OF this] assms(4) show ?thesis by blast
  qed
  ultimately show ?thesis using assms(1) by (auto simp: agrees_def)
qed

end

end
