(* ===== verification/Mp_Chan.thy ===== *)
theory Mp_Chan
  imports Mp Ring Flow
begin

section \<open>The channels of the message passing library as a credit channel\<close>

subsection \<open>Packet headers\<close>

lemma bit_less_exp: "x < 2 ^ n \<Longrightarrow> bit x k \<Longrightarrow> k < n" for x :: u32
  by (metis bit_take_bit_iff less_mask_eq take_bit_eq_mask)

lemma fields_of_header:
  assumes t: "tile < 2 ^ 5" and r: "req < 2 ^ 4" and c: "cls < 2 ^ 3"
    and h: "h = shl dest 27 OR shl cls 24 OR shl tile 19 OR shl req 15"
  shows "extract_bits h 18 15 = req" and "extract_bits h 23 19 = tile"
    and "extract_bits h 26 24 = cls" and "extract_bits h 31 27 = take_bit 5 dest"
proof -
  note less = bit_less_exp [OF t] bit_less_exp [OF r] bit_less_exp [OF c]
  have hb: "bit h k \<longleftrightarrow> k < 32 \<and> (27 \<le> k \<and> bit dest (k - 27) \<or> 24 \<le> k \<and> bit cls (k - 24) \<or>
      19 \<le> k \<and> bit tile (k - 19) \<or> 15 \<le> k \<and> bit req (k - 15))" for k
    unfolding h shl_def by (auto simp: bit_simps dest: bit_imp_le_length)
  have eb: "bit (extract_bits h m l) k \<longleftrightarrow> k < m - l + 1 \<and> bit h (l + k)" if "l < 32" "m - l + 1 < 32" for m l k
    using that unfolding extract_bits_def shl_def shr_def by (auto simp: bit_simps dest: bit_imp_le_length)
  show "extract_bits h 18 15 = req" "extract_bits h 23 19 = tile" "extract_bits h 26 24 = cls"
      "extract_bits h 31 27 = take_bit 5 dest"
    by (rule bit_word_eqI; simp add: eb hb bit_take_bit_iff; use less in fastforce)+
qed

lemma ctrl_header_fields:
  assumes "tile < 2 ^ 5" and "req < 2 ^ 4"
  shows "extract_bits (ctrl_header dest tile req) CTRL_REQUEST_MSB CTRL_REQUEST_LSB = req"
    and "extract_bits (ctrl_header dest tile req) OPTIMSOC_SRC_MSB OPTIMSOC_SRC_LSB = tile"
    and "extract_bits (ctrl_header dest tile req) OPTIMSOC_CLASS_MSB OPTIMSOC_CLASS_LSB = NOC_CLASS_MP"
    and "extract_bits (ctrl_header dest tile req) OPTIMSOC_DEST_MSB OPTIMSOC_DEST_LSB = take_bit 5 dest"
  by (rule fields_of_header [OF assms _ ctrl_header_def]; simp)+

subsection \<open>Filling the request buffer\<close>

lemma cr_puts_eq:
  assumes "i + length vs \<le> length (cr_buffer m)"
  shows "cr_puts i vs m = ok (m\<lparr>cr_buffer := take i (cr_buffer m) @ vs @ drop (i + length vs) (cr_buffer m)\<rparr>)"
  using assms
proof (induction vs arbitrary: i m)
  case (Cons v vs)
  let ?m = "m\<lparr>cr_buffer := (cr_buffer m)[i := v]\<rparr>"
  have "i < length (cr_buffer m)" using Cons.prems by simp
  then have "cr_puts i (v # vs) m = cr_puts (Suc i) vs ?m" by (simp add: cr_put_def)
  also have "\<dots> = ok (?m\<lparr>cr_buffer := take (Suc i) (cr_buffer ?m) @ vs @ drop (Suc i + length vs) (cr_buffer ?m)\<rparr>)"
    using Cons.prems by (intro Cons.IH) simp
  finally show ?case
    using \<open>i < length (cr_buffer m)\<close> by (simp add: take_Suc_conv_app_nth upd_conv_take_nth_drop add.commute)
qed simp

lemma cr_copy_eq:
  assumes "i + d + n \<le> length data"
  shows "cr_copy n d i data m = cr_puts (4 + d) (take n (drop (i + d) data)) m"
  using assms
proof (induction n arbitrary: d m)
  case (Suc n)
  have "drop (i + d) data = data ! (i + d) # drop (i + Suc d) data"
    using Suc.prems by (simp add: Cons_nth_drop_Suc)
  then have "cr_puts (4 + d) (take (Suc n) (drop (i + d) data)) m =
      bnd (cr_put (4 + d) (data ! (i + d)) m) (cr_puts (4 + Suc d) (take n (drop (i + Suc d) data)))"
    by simp
  moreover have "buf_at data (i + d) = ok (data ! (i + d))"
    using Suc.prems by (simp add: buf_at_def)
  moreover have "cr_copy n (Suc d) i data = cr_puts (4 + Suc d) (take n (drop (i + Suc d) data))"
    using Suc by (intro ext Suc.IH) simp
  ultimately show ?case by simp
qed simp

text \<open>One packet: four words of header and \<open>n\<close> of data.\<close>

lemma cr_packet:
  assumes "length (cr_buffer m) = 16" and "length hs = 4" and "n \<le> 12" and "i + n \<le> length data"
  shows "bnd (cr_puts 0 hs m) (\<lambda>m1. bnd (cr_copy n 0 i data m1) (cr_send (4 + n))) =
    ok (m\<lparr>cr_buffer := hs @ take n (drop i data) @ drop (4 + n) (cr_buffer m),
          mp_out := mp_out m @ [(0, hs @ take n (drop i data))]\<rparr>)"
proof -
  let ?m = "m\<lparr>cr_buffer := hs @ drop 4 (cr_buffer m)\<rparr>"
  have p1: "cr_puts 0 hs m = ok ?m"
    using assms by (subst cr_puts_eq) simp_all
  have l: "length (take n (drop i data)) = n" using assms(4) by simp
  have "cr_copy n 0 i data ?m = cr_puts 4 (take n (drop i data)) ?m"
    using assms(4) by (subst cr_copy_eq) simp_all
  also have "\<dots> = ok (?m\<lparr>cr_buffer := take 4 (cr_buffer ?m) @ take n (drop i data) @
      drop (4 + length (take n (drop i data))) (cr_buffer ?m)\<rparr>)"
    using assms l by (intro cr_puts_eq) simp
  finally have p2: "cr_copy n 0 i data ?m =
      ok (m\<lparr>cr_buffer := hs @ take n (drop i data) @ drop (4 + n) (cr_buffer m)\<rparr>)"
    using assms(2) l by (simp add: add.commute)
  show ?thesis
    using p1 p2 assms l by (simp add: cr_send_def mp_send_def)
qed

subsection \<open>The two ends of a channel\<close>

record chan_cfg =
  cf_mal :: allocator
  cf_stile :: u32
  cf_rtile :: u32
  cf_from :: ptr
  cf_to :: ptr
  cf_eph :: ptr
  cf_sep :: ptr
  cf_rep :: ptr
  cf_bufsize :: u32
  cf_width :: nat
  cf_cap :: nat

definition snd_ok :: "chan_cfg \<Rightarrow> mpm \<Rightarrow> nat \<Rightarrow> bool" where
  "snd_ok g m n \<longleftrightarrow> cf_stile g < 2 ^ 5 \<and> cf_rtile g < 2 ^ 5 \<and> cf_from g \<noteq> 0 \<and> cf_to g \<noteq> 0 \<and> cf_sep g \<noteq> 0 \<and>
     cf_cap g < 2 ^ 32 \<and>
     (\<exists>f t e. m_handles m (cf_from g) = Some f \<and> eh_ep f = cf_sep g \<and>
        m_handles m (cf_to g) = Some t \<and> eh_ep t = cf_rep g \<and> eh_domain t = cf_rtile g \<and>
        m_eps m (cf_sep g) = Some e \<and> unat (ep_remotecredit e) = n) \<and>
     mp_data m = OPTIMSOC_MP_DATA_FIFO \<and> length (cr_buffer m) = 16 \<and> mp_out m = []"

definition rcv_ok :: "chan_cfg \<Rightarrow> mpm \<Rightarrow> msg list \<Rightarrow> bool" where
  "rcv_ok g m q \<longleftrightarrow> cf_eph g \<noteq> 0 \<and> cf_rep g \<noteq> 0 \<and> cf_rtile g < 2 ^ 5 \<and> 12 \<le> cf_width g \<and>
     (\<exists>h e. m_handles m (cf_eph g) = Some h \<and> eh_ep h = cf_rep g \<and> m_eps m (cf_rep g) = Some e \<and>
        ep_remotedomain e = cf_stile g \<and> ep_remote e = cf_sep g \<and>
        holds (cf_width g) (ep_buffer e) q \<and> unat (eb_size (ep_buffer e)) = Suc (cf_cap g)) \<and>
     (\<forall>d \<in> set q. snd d \<le> cf_bufsize g) \<and> length (cr_buffer m) = 16 \<and> mp_out m = []"

text \<open>A message that fits one packet of the request buffer, and its packet.\<close>

definition chan_valid :: "chan_cfg \<Rightarrow> msg \<Rightarrow> bool" where
  "chan_valid g d \<longleftrightarrow> msg_ok 12 d \<and> snd d \<le> 48 \<and> snd d \<le> cf_bufsize g"

definition chan_pkt :: "chan_cfg \<Rightarrow> msg \<Rightarrow> u32 list" where
  "chan_pkt g d = [ctrl_header (cf_rtile g) (cf_stile g) CHAN_DATA, cf_rep g, 0, snd d] @ fst d"

definition chan_cred :: "chan_cfg \<Rightarrow> u32 list" where
  "chan_cred g = [ctrl_header (cf_stile g) (cf_rtile g) CHAN_CREDIT, cf_sep g, 1]"

definition chan_out :: "msg \<Rightarrow> int \<times> u32 \<times> u8 list" where
  "chan_out d = (0, snd d, take (unat (snd d)) (concat (map word_bytes (fst d))))"

text \<open>
  The operations of the tiles: an operation hands its packets to the network; a packet is
  delivered in the receive buffer, with the words \<open>j\<close> of an earlier packet after it.
\<close>

definition flush :: "mpm \<Rightarrow> u32 list list \<times> mpm" where
  "flush m = (map snd (mp_out m), m\<lparr>mp_out := []\<rparr>)"

definition chan_snd :: "chan_cfg \<Rightarrow> msg \<Rightarrow> mpm \<Rightarrow> (u32 list list \<times> mpm) exec" where
  "chan_snd g d m =
     bnd (optimsoc_mp_channel_send [] (cf_mal g) (cf_stile g) (cf_from g) (cf_to g) (fst d) (snd d) [] m)
       (\<lambda>(_, m1). ok (flush m1))"

definition chan_dlv :: "chan_cfg \<Rightarrow> u32 list \<Rightarrow> u32 list \<Rightarrow> mpm \<Rightarrow> mpm exec" where
  "chan_dlv g j p m =
     control_msg_handler (cf_mal g) (cf_rtile g) (p @ j) (word_of_nat (length p)) m"

definition chan_rcv :: "chan_cfg \<Rightarrow> mpm \<Rightarrow> ((int \<times> u32 \<times> u8 list) \<times> u32 list list \<times> mpm) exec" where
  "chan_rcv g m =
     bnd (optimsoc_mp_channel_recv [] (cf_mal g) (cf_rtile g) (cf_eph g) (cf_bufsize g) [] m)
       (\<lambda>(_, ret, n, bytes, m1). ok ((ret, n, bytes), flush m1))"

definition chan_crd :: "chan_cfg \<Rightarrow> u32 list \<Rightarrow> u32 list \<Rightarrow> mpm \<Rightarrow> mpm exec" where
  "chan_crd g j p m =
     control_msg_handler (cf_mal g) (cf_stile g) (p @ j) (word_of_nat (length p)) m"

subsection \<open>The laws\<close>

lemma words_of_size:
  assumes "(sz :: u32) \<le> 2 ^ 31"
  shows "unat (drop_bit 2 (sz + 3)) = (unat sz + 3) div 4"
proof -
  have "unat sz \<le> 2 ^ 31" using assms by (simp add: word_le_nat_alt)
  then have "unat (sz + 3) = unat sz + 3" by (simp add: unat_word_ariths)
  then have "drop_bit 2 (unat (sz + 3)) = (unat sz + 3) div 4" by (simp add: drop_bit_eq_div)
  then show ?thesis unfolding unat_drop_bit_eq .
qed

lemma chan_valid_words:
  assumes "chan_valid g d"
  shows "unat (drop_bit 2 (snd d + 3)) = length (fst d)" and "0 < length (fst d)" and "length (fst d) \<le> 12"
proof -
  have "snd d \<le> 2 ^ 31" using assms unfolding chan_valid_def word_le_nat_alt by simp
  then show "unat (drop_bit 2 (snd d + 3)) = length (fst d)"
    using assms words_of_size by (simp add: chan_valid_def msg_ok_def)
  have "snd d \<noteq> 0" and l: "length (fst d) = (unat (snd d) + 3) div 4" and le: "length (fst d) \<le> 12"
    using assms by (simp_all add: chan_valid_def msg_ok_def)
  then have "0 < unat (snd d)" by (simp add: unat_gt_0)
  with l show "0 < length (fst d)" by simp
  show "length (fst d) \<le> 12" by (rule le)
qed

lemma channel_send_one:
  assumes "length (cr_buffer m) = 16" and "0 < wds" and "wds \<le> 12" and "wds \<le> length data"
  shows "channel_send_loop tile h wds 0 data sz m =
    (let p = [ctrl_header (eh_domain h) tile CHAN_DATA, eh_ep h, 0, sz] @ take wds data
     in ok (m\<lparr>cr_buffer := p @ drop (4 + wds) (cr_buffer m), mp_out := mp_out m @ [(0, p)]\<rparr>))"
proof -
  have w: "min wds wordsperpacket = wds" "\<not> wordsperpacket < wds" "wds \<le> wordsperpacket"
    using assms(3) by (simp_all add: optimsoc_noc_maxpacketsize_def)
  have stop: "channel_send_loop tile h wds wordsperpacket data sz = (\<lambda>m. ok m)"
    by (rule ext, subst channel_send_loop.simps) (use w in simp)
  let ?h = "[ctrl_header (eh_domain h) tile CHAN_DATA, eh_ep h, 0, sz]"
  have "channel_send_loop tile h wds 0 data sz m =
      bnd (bnd (cr_puts 0 ?h m) (\<lambda>m1. bnd (cr_copy wds 0 0 data m1) (cr_send (4 + wds)))) (\<lambda>m3. ok m3)"
    using assms(2) w stop
    by (subst channel_send_loop.simps) (simp add: bnd_assoc Let_def del: cr_puts.simps channel_send_loop.simps)
  also have "\<dots> = ok (m\<lparr>cr_buffer := ?h @ take wds (drop 0 data) @ drop (4 + wds) (cr_buffer m),
      mp_out := mp_out m @ [(0, ?h @ take wds (drop 0 data))]\<rparr>)"
    by (subst cr_packet) (use assms in simp_all)
  finally show ?thesis by (simp add: Let_def)
qed

lemma chan_snd_law:
  assumes S: "snd_ok g m (Suc n)" and v: "chan_valid g d"
  shows "\<exists>m'. chan_snd g d m = ok ([chan_pkt g d], m') \<and> snd_ok g m' n"
proof -
  from S obtain f t e where ft: "m_handles m (cf_from g) = Some f" "eh_ep f = cf_sep g"
      "m_handles m (cf_to g) = Some t" "eh_ep t = cf_rep g" "eh_domain t = cf_rtile g"
      "m_eps m (cf_sep g) = Some e" "unat (ep_remotecredit e) = Suc n"
      and o: "mp_data m = 0" "length (cr_buffer m) = 16" "mp_out m = []"
      "cf_from g \<noteq> 0" "cf_to g \<noteq> 0" "cf_sep g \<noteq> 0"
    by (auto simp: snd_ok_def)
  note w = chan_valid_words [OF v]
  let ?e = "e\<lparr>ep_remotecredit := ep_remotecredit e - 1\<rparr>"
  let ?m = "set_ep (cf_sep g) ?e m"
  have "ep_remotecredit e \<noteq> 0" using ft(7) by auto
  then have c: "has_credit (cf_sep g) m = ok True" using ft o by (simp add: has_credit_def ep_at_def)
  then have c': "wait_until (has_credit (cf_sep g)) (cf_mal g) (cf_stile g) [] m = ok ([], m)" by simp
  have t: "take_credit [] (cf_sep g) m = ok ?m" using ft o by (simp add: take_credit_def ep_at_def)
  have "control_channel_send (cf_stile g) (cf_to g) (fst d) (snd d) ?m =
      channel_send_loop (cf_stile g) t (length (fst d)) 0 (fst d) (snd d) ?m"
    using ft o w by (simp add: control_channel_send_def handle_at_def set_ep_def del: channel_send_loop.simps)
  also have "\<dots> = ok (?m\<lparr>cr_buffer := chan_pkt g d @ drop (4 + length (fst d)) (cr_buffer m),
      mp_out := [(0, chan_pkt g d)]\<rparr>)"
    using w o ft by (subst channel_send_one) (simp_all add: set_ep_def chan_pkt_def)
  finally have "chan_snd g d m = ok (flush (?m\<lparr>cr_buffer := chan_pkt g d @ drop (4 + length (fst d)) (cr_buffer m),
      mp_out := [(0, chan_pkt g d)]\<rparr>))"
    using ft o c c' t
    by (simp add: chan_snd_def optimsoc_mp_channel_send_def handle_at_def set_ep_def del: wait_until.simps)
  moreover have "unat (ep_remotecredit ?e) = n"
    using ft(7) by (simp add: unat_sub word_le_nat_alt)
  then have "snd_ok g (snd (flush (?m\<lparr>cr_buffer := chan_pkt g d @ drop (4 + length (fst d)) (cr_buffer m),
      mp_out := [(0, chan_pkt g d)]\<rparr>))) n"
    using S ft o w by (simp add: snd_ok_def flush_def set_ep_def chan_pkt_def)
  ultimately show ?thesis by (auto simp: flush_def)
qed

lemma chan_snd_wait:
  assumes "snd_ok g m 0"
  shows "chan_snd g d m \<noteq> ok x"
proof -
  from assms obtain f e where "m_handles m (cf_from g) = Some f" "eh_ep f = cf_sep g"
      "m_eps m (cf_sep g) = Some e" "unat (ep_remotecredit e) = 0" "cf_from g \<noteq> 0" "cf_sep g \<noteq> 0"
    by (auto simp: snd_ok_def)
  then have "has_credit (cf_sep g) m = ok False" "handle_at m (cf_from g) = ok f" "eh_ep f = cf_sep g"
    by (simp_all add: has_credit_def ep_at_def handle_at_def unat_eq_0)
  then show ?thesis
    by (simp add: chan_snd_def optimsoc_mp_channel_send_def bnd_ok_iff)
qed

lemma chan_dlv_law:
  assumes R: "rcv_ok g m q" and l: "length q < cf_cap g" and v: "chan_valid g d" and t: "cf_stile g < 2 ^ 5"
  shows "\<exists>m'. chan_dlv g j (chan_pkt g d) m = ok m' \<and> rcv_ok g m' (q @ [d])"
proof -
  from R obtain h e where he: "m_handles m (cf_eph g) = Some h" "eh_ep h = cf_rep g" "m_eps m (cf_rep g) = Some e"
      "ep_remotedomain e = cf_stile g" "ep_remote e = cf_sep g"
      and H: "holds (cf_width g) (ep_buffer e) q" and sz: "unat (eb_size (ep_buffer e)) = Suc (cf_cap g)"
      and o: "cf_rep g \<noteq> 0" "12 \<le> cf_width g"
    by (auto simp: rcv_ok_def)
  let ?b = "ep_buffer e" and ?w = "eb_write_ptr (ep_buffer e)" and ?W = "cf_width g" and ?n = "length (fst d)"
  note w = chan_valid_words [OF v]
  have r: "ring_ok ?b" "laid ?W ?b" "?W < 2 ^ 30" using H by (auto simp: holds_def)
  have un: "unat (word_of_nat ?n :: u32) = ?n" using w by (simp add: unsigned_of_nat take_bit_nat_eq_self)
  from write_message [OF r(2), of ?w "fst d" j] obtain F where
    F: "endpoint_write_loop ?n 0 ?w 0 (fst d @ j) ?b = ok (?b\<lparr>eb_field := F\<rparr>)"
      "length F = length (eb_field ?b)" "\<forall>k < ?n. F ! (unat ?w * ?W + k) = fst d ! k"
      "\<forall>i. i < unat ?w * ?W \<or> unat ?w * ?W + ?W \<le> i \<longrightarrow> F ! i = eb_field ?b ! i"
    using w o r ring_ok_nat [OF r(1)] by auto
  let ?b' = "?b\<lparr>eb_field := F, eb_data_size := (eb_data_size ?b)[unat ?w := snd d]\<rparr>"
  let ?m = "set_ep (cf_rep g) (e\<lparr>ep_buffer := pushed ?b'\<rparr>) m"
  have H': "holds ?W (pushed ?b') (q @ [d])"
    by (rule holds_pushed [OF H]) (use l sz v w F o in \<open>auto simp: chan_valid_def msg_ok_def\<close>)
  have len: "word_of_nat (length (chan_pkt g d)) - 4 = (word_of_nat ?n :: u32)"
    by (simp add: chan_pkt_def)
  have dl: "unat ?w < length (eb_data_size ?b)" using r(1) ring_ok_nat [OF r(1)] by (simp add: ring_ok_def)
  have dr: "drop 4 (chan_pkt g d @ j) = fst d @ j" by (simp add: chan_pkt_def)
  have x: "buf_at (chan_pkt g d @ j) 0 = ok (ctrl_header (cf_rtile g) (cf_stile g) CHAN_DATA)"
      "buf_at (chan_pkt g d @ j) 1 = ok (cf_rep g)" "buf_at (chan_pkt g d @ j) 2 = ok 0"
      "buf_at (chan_pkt g d @ j) 3 = ok (snd d)"
    by (simp_all add: buf_at_def chan_pkt_def)
  have "chan_dlv g j (chan_pkt g d) m =
      handle_chan_data (chan_pkt g d @ j) (word_of_nat (length (chan_pkt g d))) m"
    using x ctrl_header_fields (1) [OF t, of CHAN_DATA "cf_rtile g"]
    by (simp add: chan_dlv_def control_msg_handler_def Let_def)
  also have "\<dots> = ok ?m"
    using x he o F(1) un dl len dr v
    by (simp add: handle_chan_data_def ep_at_def endpoint_write_def set_buf_def set_ep_def set_data_size_def
        endpoint_push_def Let_def chan_valid_def msg_ok_def)
  finally have "chan_dlv g j (chan_pkt g d) m = ok ?m" .
  moreover have "rcv_ok g ?m (q @ [d])"
    using R he H' sz v by (auto simp: rcv_ok_def set_ep_def chan_valid_def)
  ultimately show ?thesis by blast
qed

lemma chan_rcv_law:
  assumes R: "rcv_ok g m (d # q)"
  shows "\<exists>m'. chan_rcv g m = ok (chan_out d, [chan_cred g], m') \<and> rcv_ok g m' q"
proof -
  from R obtain h e where he: "m_handles m (cf_eph g) = Some h" "eh_ep h = cf_rep g" "m_eps m (cf_rep g) = Some e"
      "ep_remotedomain e = cf_stile g" "ep_remote e = cf_sep g"
      and H: "holds (cf_width g) (ep_buffer e) (d # q)" and sz: "unat (eb_size (ep_buffer e)) = Suc (cf_cap g)"
      and o: "cf_eph g \<noteq> 0" "cf_rep g \<noteq> 0" "mp_out m = []" "length (cr_buffer m) = 16" "snd d \<le> cf_bufsize g"
    by (auto simp: rcv_ok_def)
  let ?b = "ep_buffer e" and ?p = "eb_read_ptr (ep_buffer e)"
  let ?e = "e\<lparr>ep_buffer := popped ?b\<rparr>"
  let ?m = "set_ep (cf_rep g) ?e m"
  let ?m2 = "?m\<lparr>cr_buffer := chan_cred g @ drop 3 (cr_buffer m), mp_out := [(0, chan_cred g)]\<rparr>"
  note hd = holds_head [OF H]
  have av: "endpoint_msg_available (cf_rep g) m = ok True"
    using he o hd by (simp add: endpoint_msg_available_def ep_at_def)
  have "field_read_loop ((unat (snd d) + 3) div 4) 0 ?p (popped ?b) = ok (fst d)"
    using hd field_read_loop_popped by simp
  then have cp: "copy_slot (unat (snd d)) ?p (popped ?b) = ok (take (unat (snd d)) (concat (map word_bytes (fst d))))"
    by (simp add: copy_slot_def)
  have bs: "buf_size_at ?p (popped ?b) = ok (snd d)"
    using hd by (simp add: buf_size_at_def split: if_splits)
  have pop: "endpoint_pop [] (cf_rep g) m = ok (?p, ?m)"
    using he o by (simp add: endpoint_pop_def ep_at_def set_buf_def)
  have cs: "control_channel_sendcredit (cf_rtile g) (cf_eph g) 1 ?m = ok ?m2"
    using he o
    by (simp add: control_channel_sendcredit_def handle_at_def ep_at_def set_ep_def cr_puts_eq cr_send_def
        mp_send_def chan_cred_def numeral_3_eq_3 del: cr_puts.simps)
  have "handle_at m (cf_eph g) = ok h" "ep_at ?m (cf_rep g) = ok ?e" "ep_buffer ?e = popped ?b"
    using he o by (simp_all add: handle_at_def ep_at_def set_ep_def)
  then have "channel_take [] (cf_rtile g) (cf_eph g) (cf_bufsize g) m =
      ok (0, snd d, take (unat (snd d)) (concat (map word_bytes (fst d))), ?m2)"
    using he(2) pop bs cp cs o by (simp add: channel_take_def)
  then have "chan_rcv g m = ok (chan_out d, flush ?m2)"
    using he o av
    by (simp add: chan_rcv_def optimsoc_mp_channel_recv_def handle_at_def not_empty_def endpoint_empty_def chan_out_def)
  moreover have "rcv_ok g (snd (flush ?m2)) q"
    using R he holds_popped [OF H] sz o by (auto simp: rcv_ok_def flush_def set_ep_def chan_cred_def)
  ultimately show ?thesis by (simp add: flush_def)
qed

lemma chan_rcv_wait:
  assumes "rcv_ok g m []"
  shows "chan_rcv g m \<noteq> ok y"
proof -
  from assms obtain h e where "m_handles m (cf_eph g) = Some h" "eh_ep h = cf_rep g" "m_eps m (cf_rep g) = Some e"
      "holds (cf_width g) (ep_buffer e) []" "cf_eph g \<noteq> 0" "cf_rep g \<noteq> 0"
    by (auto simp: rcv_ok_def)
  then have "handle_at m (cf_eph g) = ok h" "not_empty (cf_rep g) m = ok False" "eh_ep h = cf_rep g"
    using fill_zero_iff [of "ep_buffer e"]
    by (simp_all add: handle_at_def not_empty_def endpoint_empty_def endpoint_msg_available_def ep_at_def holds_def)
  then show ?thesis by (simp add: chan_rcv_def optimsoc_mp_channel_recv_def)
qed

lemma chan_crd_law:
  assumes S: "snd_ok g m n" and n: "n < cf_cap g" and t: "cf_rtile g < 2 ^ 5"
  shows "\<exists>m'. chan_crd g j (chan_cred g) m = ok m' \<and> snd_ok g m' (Suc n)"
proof -
  from S obtain e where e: "m_eps m (cf_sep g) = Some e" "unat (ep_remotecredit e) = n" "cf_sep g \<noteq> 0"
      and c: "cf_cap g < 2 ^ 32"
    by (auto simp: snd_ok_def)
  let ?m = "set_ep (cf_sep g) (e\<lparr>ep_remotecredit := ep_remotecredit e + 1\<rparr>) m"
  have "buf_at (chan_cred g @ j) 0 = ok (ctrl_header (cf_stile g) (cf_rtile g) CHAN_CREDIT)"
      "buf_at (chan_cred g @ j) 1 = ok (cf_sep g)" "buf_at (chan_cred g @ j) 2 = ok 1"
    by (simp_all add: buf_at_def chan_cred_def)
  then have "chan_crd g j (chan_cred g) m = ok ?m"
    using e ctrl_header_fields (1) [OF t, of CHAN_CREDIT "cf_stile g"]
    by (simp add: chan_crd_def control_msg_handler_def handle_credit_def ep_at_def Let_def)
  moreover have "unat (ep_remotecredit e + 1) = Suc n"
    using e(2) n c by (simp add: unat_word_ariths)
  then have "snd_ok g ?m (Suc n)" using S e by (auto simp: snd_ok_def set_ep_def)
  ultimately show ?thesis by blast
qed

text \<open>The library's channels satisfy the contract.\<close>

interpretation cc: credit_channel "snd_ok g" "rcv_ok g" "cf_cap g"
  "\<lambda>d. chan_valid g d \<and> cf_stile g < 2 ^ 5 \<and> cf_rtile g < 2 ^ 5"
  "chan_pkt g" "chan_cred g" chan_out "chan_snd g" "chan_dlv g" "chan_rcv g" "chan_crd g"
  for g
proof
  show "\<exists>s'. chan_crd g j (chan_cred g) s = ok s' \<and> snd_ok g s' (Suc n)" if "snd_ok g s n" "n < cf_cap g" for s n j
    using chan_crd_law [OF that] that(1) by (simp add: snd_ok_def)
qed (simp_all add: chan_snd_law chan_snd_wait chan_dlv_law chan_rcv_law chan_rcv_wait)

end
