(* ===== verification/Mp_Props.thy ===== *)
theory Mp_Props
  imports Mp_Chan
begin

section \<open>Properties of the message passing library\<close>

subsection \<open>The list of endpoint handles\<close>

fun chain :: "(ptr \<Rightarrow> listelem option) \<Rightarrow> ptr \<Rightarrow> ptr list \<Rightarrow> bool" where
  "chain f p [] \<longleftrightarrow> p = 0"
| "chain f p (a # as) \<longleftrightarrow> p = a \<and> a \<noteq> 0 \<and> (case f a of None \<Rightarrow> False | Some l \<Rightarrow> chain f (le_next l) as)"

definition elem_handle :: "mpm \<Rightarrow> ptr \<Rightarrow> ptr" where
  "elem_handle m a = le_handle (the (m_elems m a))"

definition handles_of :: "mpm \<Rightarrow> ptr list \<Rightarrow> handle list" where
  "handles_of m as = map (\<lambda>a. the (m_handles m (elem_handle m a))) as"

definition list_ok :: "mpm \<Rightarrow> ptr list \<Rightarrow> bool" where
  "list_ok m as \<longleftrightarrow> chain (m_elems m) (eplist_first m) as \<and> distinct as \<and>
     (as \<noteq> [] \<longrightarrow> eplist_last m = last as) \<and>
     (\<forall>a \<in> set as. elem_handle m a \<noteq> 0 \<and> m_handles m (elem_handle m a) \<noteq> None)"

lemma chain_elem: "chain f p as \<Longrightarrow> a \<in> set as \<Longrightarrow> a \<noteq> 0 \<and> f a \<noteq> None"
  by (induction as arbitrary: p) (auto split: option.splits)

lemma chain_upd_other: "a \<notin> set as \<Longrightarrow> chain (f(a := x)) p as = chain f p as"
  by (induction as arbitrary: p) (auto split: option.splits)

lemma chain_append:
  assumes "chain f p as" and "e \<noteq> 0" and "e \<notin> set as" and "distinct as" and "as \<noteq> []"
    and "f (last as) = Some l"
  shows "chain (f(e \<mapsto> \<lparr>le_next = 0, le_handle = h\<rparr>, last as \<mapsto> l\<lparr>le_next := e\<rparr>)) p (as @ [e])"
  using assms
proof (induction as arbitrary: p)
  case (Cons a as)
  then obtain la where a: "f a = Some la" "a \<noteq> e" "chain f (le_next la) as" "p = a" "a \<noteq> 0"
    by (auto split: option.splits)
  show ?case
  proof (cases "as = []")
    case True
    with Cons a show ?thesis by simp
  next
    case False
    with Cons.prems have "last as \<noteq> a" by auto
    with Cons a False show ?thesis by simp
  qed
qed simp

lemma lookup_eq:
  assumes "chain (m_elems m) p as"
    and "\<forall>a \<in> set as. elem_handle m a \<noteq> 0 \<and> m_handles m (elem_handle m a) \<noteq> None"
  shows "endpoint_lookup m domain node port p = ok
    (case List.find (\<lambda>a. let h = the (m_handles m (elem_handle m a)) in
         eh_domain h = domain \<and> eh_node h = node \<and> eh_port h = port) as of
       None \<Rightarrow> 0 | Some a \<Rightarrow> elem_handle m a)"
  using assms
proof (induction as arbitrary: p)
  case Nil
  then show ?case by (subst endpoint_lookup.simps) simp
next
  case (Cons a as)
  then obtain l h where "m_elems m a = Some l" "p = a" "a \<noteq> 0" "chain (m_elems m) (le_next l) as"
      "le_handle l \<noteq> 0" "m_handles m (le_handle l) = Some h" "elem_handle m a = le_handle l"
    by (auto simp: elem_handle_def split: option.splits)
  then show ?case
    using Cons.IH [of "le_next l"] Cons.prems(2)
    by (subst endpoint_lookup.simps) (simp add: elem_at_def handle_at_def Let_def)
qed

lemma port_used_eq:
  assumes "chain (m_elems m) p as"
    and "\<forall>a \<in> set as. elem_handle m a \<noteq> 0 \<and> m_handles m (elem_handle m a) \<noteq> None"
  shows "port_used m pt p = ok (pt \<in> eh_port ` set (handles_of m as))"
  using assms
proof (induction as arbitrary: p)
  case Nil
  then show ?case by (subst port_used.simps) (simp add: handles_of_def)
next
  case (Cons a as)
  then obtain l h where "m_elems m a = Some l" "p = a" "a \<noteq> 0" "chain (m_elems m) (le_next l) as"
      "le_handle l \<noteq> 0" "m_handles m (le_handle l) = Some h" "elem_handle m a = le_handle l"
    by (auto simp: elem_handle_def split: option.splits)
  then show ?case
    using Cons.IH [of "le_next l"] Cons.prems(2)
    by (subst port_used.simps) (auto simp: elem_at_def handle_at_def handles_of_def)
qed

lemma delete_loop_eq:
  assumes "chain (m_elems m) p as" and "distinct as"
  shows "case endpoint_delete_loop m h p of None \<Rightarrow> False
    | Some (Inl f) \<Rightarrow> f = UseAfterFree \<or> f = NullDeref | Some (Inr m') \<Rightarrow> m' = m"
  using assms
proof (induction as arbitrary: p rule: induct_list012)
  case 1
  then show ?case by (subst endpoint_delete_loop.simps) simp
next
  case (2 a)
  then obtain l where "m_elems m a = Some l" "p = a" "a \<noteq> 0" "le_next l = 0"
    by (auto split: option.splits)
  then show ?case by (subst endpoint_delete_loop.simps) (simp add: elem_at_def)
next
  case (3 a b as)
  then obtain l n where ab: "m_elems m a = Some l" "p = a" "a \<noteq> 0" "le_next l = b" "b \<noteq> 0"
      "m_elems m b = Some n" "chain (m_elems m) (le_next n) as"
    by (auto split: option.splits)
  show ?case
  proof (cases "le_handle n = h")
    case True
    with ab show ?thesis by (subst endpoint_delete_loop.simps) (simp add: elem_at_def)
  next
    case False
    with ab have "endpoint_delete_loop m h p = endpoint_delete_loop m h (le_next n)"
      by (subst endpoint_delete_loop.simps) (simp add: elem_at_def)
    with 3 ab show ?thesis by simp
  qed
qed

lemma not_live: "\<not> m_live m p \<Longrightarrow>
    m_eps m p = None \<and> m_handles m p = None \<and> m_elems m p = None \<and> \<not> m_blocks m p"
  by (simp add: m_live_def)

lemma endpoint_add_ok:
  assumes "list_ok m as" and "alloc_ok mal" and "eph \<noteq> 0" and "m_handles m eph \<noteq> None"
  shows "endpoint_add mal eph m = flt NullDeref \<or>
    (\<exists>m' e. endpoint_add mal eph m = ok m' \<and> list_ok m' (as @ [e]) \<and> elem_handle m' e = eph \<and>
       (\<forall>a \<in> set as. elem_handle m' a = elem_handle m a) \<and> m_eps m' = m_eps m \<and> m_handles m' = m_handles m)"
proof (cases "mal (m_live m) = 0")
  case True
  then show ?thesis by (simp add: endpoint_add_def Let_def)
next
  case False
  let ?e = "mal (m_live m)"
  from alloc_okD [OF assms(2) False] have fr: "m_elems m ?e = None" using not_live by blast
  have ch: "chain (m_elems m) (eplist_first m) as" "distinct as" using assms(1) by (simp_all add: list_ok_def)
  have ni: "?e \<notin> set as" using chain_elem [OF ch(1)] fr by blast
  from assms(4) obtain h where h: "m_handles m eph = Some h" by auto
  let ?n = "\<lparr>le_next = 0, le_handle = eph\<rparr>"
  define cnt where "cnt = (\<lambda>m :: mpm. if eh_type h = LOCAL then m\<lparr>eplist_localnum := eplist_localnum m + 1\<rparr>
      else m\<lparr>eplist_remotenum := eplist_remotenum m + 1\<rparr>)"
  have c: "m_elems (cnt x) = m_elems x" "eplist_first (cnt x) = eplist_first x" "eplist_last (cnt x) = eplist_last x"
      "m_handles (cnt x) = m_handles x" "m_eps (cnt x) = m_eps x" for x
    by (simp_all add: cnt_def)
  show ?thesis
  proof (cases "as = []")
    case True
    let ?m = "m\<lparr>m_elems := (m_elems m)(?e \<mapsto> ?n), eplist_first := ?e, eplist_last := ?e\<rparr>"
    have "eplist_first m = 0" using ch True by simp
    then have r: "endpoint_add mal eph m = ok (cnt ?m)"
      using False h assms(3) by (simp add: endpoint_add_def Let_def handle_at_def cnt_def)
    have "list_ok (cnt ?m) (as @ [?e])" "elem_handle (cnt ?m) ?e = eph"
      using True False h assms(3) by (simp_all add: list_ok_def elem_handle_def c)
    with r True show ?thesis using c by (intro disjI2 exI [of _ "cnt ?m"] exI [of _ ?e]) simp
  next
    case nempty: False
    have la: "eplist_last m = last as" "last as \<in> set as" using assms(1) nempty by (simp_all add: list_ok_def)
    then obtain l where l: "m_elems m (last as) = Some l" "last as \<noteq> 0"
      using chain_elem [OF ch(1), of "last as"] by auto
    have l3: "last as \<noteq> ?e" using la(2) ni by metis
    have ne: "eplist_first m \<noteq> 0" using ch nempty by (cases as) auto
    let ?f = "(m_elems m)(?e \<mapsto> ?n, last as \<mapsto> l\<lparr>le_next := ?e\<rparr>)"
    let ?m = "m\<lparr>m_elems := ?f, eplist_last := ?e\<rparr>"
    have r: "endpoint_add mal eph m = ok (cnt ?m)"
      using False h assms(3) la l l3 ne
      by (simp add: endpoint_add_def Let_def handle_at_def elem_at_def cnt_def)
    have chn: "chain ?f (eplist_first m) (as @ [?e])"
      by (rule chain_append [OF ch(1) False ni ch(2) nempty l(1)])
    have old: "elem_handle (cnt ?m) a = elem_handle m a" if "a \<in> set as" for a
      using that ni l l3 by (auto simp: elem_handle_def c)
    have new: "elem_handle (cnt ?m) ?e = eph" using l l3 by (simp add: elem_handle_def c)
    have "list_ok (cnt ?m) (as @ [?e])"
      using assms(1,3) h ni chn old new ch(2) by (auto simp: list_ok_def c)
    with r old new show ?thesis using c by (intro disjI2 exI [of _ "cnt ?m"] exI [of _ ?e]) simp
  qed
qed

subsection \<open>Creation\<close>

lemma ep_block_ok:
  "ep_block mal m = flt NoMem \<or> (\<exists>p. ep_block mal m = ok (m\<lparr>m_blocks := (m_blocks m)(p := True)\<rparr>))"
  unfolding ep_block_def Let_def by (cases "mal (m_live m) = 0"; simp; blast)

text \<open>Blocks do not show in the list or in the endpoints.\<close>

lemma list_ok_blocks [simp]: "list_ok (m\<lparr>m_blocks := x\<rparr>) as = list_ok m as"
  by (simp add: list_ok_def elem_handle_def)

lemma list_ok_set_ep [simp]: "list_ok (set_ep p e m) as = list_ok m as"
  by (simp add: list_ok_def elem_handle_def set_ep_def)

lemma list_ok_new_handle:
  assumes "list_ok m as" and "m_handles m h = None"
  shows "list_ok (m\<lparr>m_handles := (m_handles m)(h \<mapsto> x)\<rparr>) as"
  using assms by (auto simp: list_ok_def elem_handle_def)

definition new_buf :: "(nat \<Rightarrow> u32) \<Rightarrow> u32 \<Rightarrow> u32 \<Rightarrow> ebuf" where
  "new_buf junk bytes n =
     \<lparr>eb_data = map (\<lambda>i. unat (word_of_nat i * drop_bit 2 (bytes + 3))) [0..<unat n],
      eb_field = fresh_words junk (bytes * n), eb_data_size = fresh_words junk (n * 4),
      eb_type = MESSAGE, eb_size = n, eb_read_ptr = 0, eb_write_ptr = 0\<rparr>"

lemma new_buf_holds:
  assumes "0 < n" and "unat n \<le> 2 ^ 20"
  shows "holds 16 (new_buf junk 64 n) []"
proof -
  have n: "0 < unat n" using assms(1) by (simp add: unat_gt_0)
  have n4: "unat (n * 4) = unat n * 4" and n64: "unat (64 * n) = 64 * unat n"
    using assms(2) by (simp_all add: unat_word_ariths)
  have "unat (word_of_nat i * drop_bit 2 (64 + 3) :: u32) = i * 16" if "i < unat n" for i
    using that assms(2) by (simp add: unat_word_ariths unsigned_of_nat take_bit_nat_eq_self)
  then show ?thesis
    using n n4 n64 by (simp add: holds_def ring_ok_def laid_def fill_of_def new_buf_def fresh_words_def word_less_nat_alt)
qed

lemma bnd_block:
  "bnd (ep_block mal (m\<lparr>m_blocks := Y\<rparr>)) f = flt NoMem \<or>
    (\<exists>X. bnd (ep_block mal (m\<lparr>m_blocks := Y\<rparr>)) f = f (m\<lparr>m_blocks := X\<rparr>))"
  using ep_block_ok [of mal "m\<lparr>m_blocks := Y\<rparr>"] by auto

lemma bnd_block_step:
  assumes "\<And>X. f (m\<lparr>m_blocks := X\<rparr>) = flt NoMem \<or> (\<exists>Z. f (m\<lparr>m_blocks := X\<rparr>) = g (m\<lparr>m_blocks := Z\<rparr>))"
  shows "bnd (ep_block mal (m\<lparr>m_blocks := Y\<rparr>)) f = flt NoMem \<or>
    (\<exists>Z. bnd (ep_block mal (m\<lparr>m_blocks := Y\<rparr>)) f = g (m\<lparr>m_blocks := Z\<rparr>))"
  using bnd_block [of mal Y m f] assms by metis

text \<open>What creation does, up to the addresses.\<close>

lemma endpoint_create_eq:
  assumes "alloc_ok mal" and "unat n \<le> 2 ^ 20" and "r = endpoint_create mal junk tile node port bt n 0 m"
  shows "r = flt NoMem \<or> (\<exists>ep X h m1.
    m1 = set_ep ep \<lparr>ep_buffer = new_buf junk 64 n, ep_flags = junk 0, ep_remotedomain = junk 1,
           ep_remote = junk 2, ep_remotecredit = junk 3\<rparr> (m\<lparr>m_blocks := X\<rparr>) \<and>
    ep \<noteq> 0 \<and> m_eps m ep = None \<and> h \<noteq> 0 \<and> m_handles m h = None \<and>
    r = bnd (endpoint_add mal h (m1\<lparr>m_handles := (m_handles m1)(h \<mapsto>
          \<lparr>eh_type = junk 4, eh_ep = ep, eh_domain = tile, eh_node = node, eh_port = port\<rparr>)\<rparr>)) (\<lambda>m. ok (h, m)))"
proof (cases "mal (m_live m) = 0")
  case True
  then show ?thesis using assms(3) by (simp add: endpoint_create_def)
next
  case False
  let ?ep = "mal (m_live m)"
  from alloc_okD [OF assms(1) False] have ep: "m_eps m ?ep = None" using not_live by blast
  have n4: "\<not> unat (n * 4) div 4 < unat n"
    using assms(2) by (simp add: unat_word_ariths)
  have mb: "max_element_bytes bt 0 = 64" by (simp add: max_element_bytes_def)
  define g where "g = (\<lambda>m :: mpm.
      let b = new_buf junk 64 n;
          e = \<lparr>ep_buffer = b, ep_flags = junk 0, ep_remotedomain = junk 1, ep_remote = junk 2, ep_remotecredit = junk 3\<rparr>;
          m = set_ep ?ep e (m\<lparr>m_blocks := (m_blocks m)(?ep := False)\<rparr>);
          eph = mal (m_live m)
      in if eph = 0 then flt NoMem
         else bnd (endpoint_add mal eph (m\<lparr>m_handles := (m_handles m)(eph \<mapsto>
           \<lparr>eh_type = junk 4, eh_ep = ?ep, eh_domain = tile, eh_node = node, eh_port = port\<rparr>)\<rparr>)) (\<lambda>m. ok (eph, m)))"
  have r: "r = bnd (ep_block mal (m\<lparr>m_blocks := (m_blocks m)(?ep := True)\<rparr>)) (\<lambda>m. bnd (ep_block mal m) (\<lambda>m.
      bnd (ep_block mal m) (\<lambda>m. bnd (ep_block mal m) g)))"
    unfolding assms(3) endpoint_create_def g_def new_buf_def Let_def mb using False n4 by simp
  have "r = flt NoMem \<or> (\<exists>X. r = g (m\<lparr>m_blocks := X\<rparr>))"
    unfolding r by (rule bnd_block_step, rule bnd_block_step, rule bnd_block_step, rule bnd_block)
  then consider "r = flt NoMem" | X where "r = g (m\<lparr>m_blocks := X\<rparr>)" by blast
  then show ?thesis
  proof cases
    case 2
    let ?m1 = "set_ep ?ep \<lparr>ep_buffer = new_buf junk 64 n, ep_flags = junk 0, ep_remotedomain = junk 1,
           ep_remote = junk 2, ep_remotecredit = junk 3\<rparr> (m\<lparr>m_blocks := X(?ep := False)\<rparr>)"
    show ?thesis
    proof (cases "mal (m_live ?m1) = 0")
      case True
      with 2 show ?thesis by (simp add: g_def Let_def)
    next
      case nz: False
      from alloc_okD [OF assms(1) nz] have "m_handles ?m1 (mal (m_live ?m1)) = None" using not_live by blast
      then have "m_handles m (mal (m_live ?m1)) = None" by (simp add: set_ep_def)
      with 2 nz False ep show ?thesis
        by (intro disjI2 exI [of _ ?ep] exI [of _ "X(?ep := False)"] exI [of _ "mal (m_live ?m1)"] exI [of _ ?m1])
          (simp add: g_def Let_def)
    qed
  qed simp
qed

subsection \<open>The properties of the handle list\<close>

definition mp0 :: mpm where
  "mp0 = \<lparr>m_eps = (\<lambda>_. None), m_handles = (\<lambda>_. None), m_elems = (\<lambda>_. None), m_blocks = (\<lambda>_. False),
     eplist_first = 0, eplist_last = 0, eplist_localnum = 0, eplist_remotenum = 0,
     cr_buffer = replicate 16 0, cr_done = 0, timeout_insns = 1000, mp_control = 0, mp_data = 0, mp_out = []\<rparr>"

lemma find_snoc: "List.find P xs = None \<Longrightarrow> P y \<Longrightarrow> List.find P (xs @ [y]) = Some y"
  by (induction xs) (auto split: if_splits)

lemma list_ok_mp0: "list_ok mp0 []"
  by (simp add: list_ok_def mp0_def)

text \<open>
  a created endpoint is found. Creation returns a handle of an endpoint with an empty ring
  of the requested size, puts it at the end of the list, and a lookup of its tile, node and
  port on this tile returns it; the only failures are those of an allocation, of which the
  last one, for the list element, is not checked and ends in a null pointer access.
\<close>

theorem create_then_get:
  assumes "list_ok m as" and "alloc_ok mal" and "0 < n" and "unat n \<le> 2 ^ 20"
    and "\<forall>h \<in> set (handles_of m as). \<not> (eh_domain h = tile \<and> eh_node h = node \<and> eh_port h = port)"
  shows "case endpoint_create mal junk tile node port bt n 0 m of None \<Rightarrow> False
    | Some (Inl f) \<Rightarrow> f = NoMem \<or> f = NullDeref
    | Some (Inr (h, m')) \<Rightarrow>
        (\<exists>e. list_ok m' (as @ [e])) \<and>
        endpoint_get mal tile rem tile node port () m' = ok (h, (), m') \<and>
        (\<exists>hd ep. m_handles m' h = Some hd \<and> m_eps m' (eh_ep hd) = Some ep \<and> m_eps m (eh_ep hd) = None \<and>
           holds 16 (ep_buffer ep) [] \<and> eb_size (ep_buffer ep) = n)"
proof -
  let ?r = "endpoint_create mal junk tile node port bt n 0 m"
  consider "?r = flt NoMem" | ep X h m1 where
      "m1 = set_ep ep \<lparr>ep_buffer = new_buf junk 64 n, ep_flags = junk 0, ep_remotedomain = junk 1,
           ep_remote = junk 2, ep_remotecredit = junk 3\<rparr> (m\<lparr>m_blocks := X\<rparr>)"
      "ep \<noteq> 0" "m_eps m ep = None" "h \<noteq> 0" "m_handles m h = None"
      "?r = bnd (endpoint_add mal h (m1\<lparr>m_handles := (m_handles m1)(h \<mapsto>
          \<lparr>eh_type = junk 4, eh_ep = ep, eh_domain = tile, eh_node = node, eh_port = port\<rparr>)\<rparr>)) (\<lambda>m. ok (h, m))"
    using endpoint_create_eq [OF assms(2,4) refl] by metis
  then show ?thesis
  proof cases
    case (2 ep X h m1)
    let ?hd = "\<lparr>eh_type = junk 4, eh_ep = ep, eh_domain = tile, eh_node = node, eh_port = port\<rparr>"
    let ?m2 = "m1\<lparr>m_handles := (m_handles m1)(h \<mapsto> ?hd)\<rparr>"
    have l1: "list_ok m1 as" "m_handles m1 = m_handles m" "m_elems m1 = m_elems m"
      using assms(1) by (simp_all add: 2(1)) (simp_all add: set_ep_def)
    have l2: "list_ok ?m2 as" by (rule list_ok_new_handle) (use l1 2 in simp_all)
    have "m_handles ?m2 h \<noteq> None" by simp
    from endpoint_add_ok [OF l2 assms(2) 2(4) this] consider "endpoint_add mal h ?m2 = flt NullDeref"
      | m' e where "endpoint_add mal h ?m2 = ok m'" "list_ok m' (as @ [e])" "elem_handle m' e = h"
          "\<forall>a \<in> set as. elem_handle m' a = elem_handle ?m2 a" "m_eps m' = m_eps ?m2" "m_handles m' = m_handles ?m2"
      by blast
    then show ?thesis
    proof cases
      case 1
      with 2(6) show ?thesis by simp
    next
      case add: (2 m' e)
      have no: "\<not> (eh_domain x = tile \<and> eh_node x = node \<and> eh_port x = port)"
        if a: "a \<in> set as" and x: "x = the (m_handles m' (elem_handle m' a))" for a x
      proof -
        have eh: "elem_handle m' a = elem_handle m a" using add(4) a l1 by (simp add: elem_handle_def)
        then have "m_handles m (elem_handle m' a) \<noteq> None" using assms(1) a by (simp add: list_ok_def)
        then have "elem_handle m' a \<noteq> h" using 2(5) by metis
        then have "x = the (m_handles m (elem_handle m a))" using x add(6) l1 eh by simp
        then have "x \<in> set (handles_of m as)" using a by (simp add: handles_of_def)
        then show ?thesis using assms(5) by blast
      qed
      have "List.find (\<lambda>a. let h = the (m_handles m' (elem_handle m' a)) in
          eh_domain h = tile \<and> eh_node h = node \<and> eh_port h = port) as = None"
        using no by (simp add: find_None_iff Let_def)
      then have fd: "List.find (\<lambda>a. let h = the (m_handles m' (elem_handle m' a)) in
          eh_domain h = tile \<and> eh_node h = node \<and> eh_port h = port) (as @ [e]) = Some e"
        by (rule find_snoc) (use add(3,6) in simp)
      have "endpoint_lookup m' tile node port (eplist_first m') = ok h"
        by (subst lookup_eq [where as = "as @ [e]"]) (use add(2,3) fd in \<open>simp_all add: list_ok_def\<close>)
      then have get: "endpoint_get mal tile rem tile node port () m' = ok (h, (), m')"
        using 2(4) by (simp add: endpoint_get_def)
      have "m_handles m' h = Some ?hd" "m_eps m' ep = m_eps m1 ep" using add(5,6) by simp_all
      moreover have "m_eps m1 ep = Some \<lparr>ep_buffer = new_buf junk 64 n, ep_flags = junk 0, ep_remotedomain = junk 1,
           ep_remote = junk 2, ep_remotecredit = junk 3\<rparr>" by (simp add: 2(1) set_ep_def)
      ultimately have "\<exists>hd ep. m_handles m' h = Some hd \<and> m_eps m' (eh_ep hd) = Some ep \<and> m_eps m (eh_ep hd) = None \<and>
           holds 16 (ep_buffer ep) [] \<and> eb_size (ep_buffer ep) = n"
        using new_buf_holds [OF assms(3,4), of junk] 2(3) by (simp add: new_buf_def)
      with add(1,2) get 2(6) show ?thesis by auto
    qed
  qed simp
qed

theorem create_then_get_witness:
  "case endpoint_create (first_fit 9) (\<lambda>_. 0) 1 2 3 0 4 0 mp0 of
     Some (Inr (h, m')) \<Rightarrow> endpoint_get (first_fit 9) 1 (\<lambda>_. None) 1 2 3 () m' = ok (h, (), m') | _ \<Rightarrow> False"
proof -
  have "\<exists>h m'. endpoint_create (first_fit 9) (\<lambda>_. 0) 1 2 3 0 4 0 mp0 = ok (h, m')"
    by (simp add: endpoint_create_def mp0_def ep_block_def endpoint_add_def Let_def first_fit_def m_live_def
        max_element_bytes_def set_ep_def handle_at_def upt_rec)
  then obtain h m' where r: "endpoint_create (first_fit 9) (\<lambda>_. 0) 1 2 3 0 4 0 mp0 = ok (h, m')" by blast
  have "endpoint_get (first_fit 9) 1 (\<lambda>_. None) 1 2 3 () m' = ok (h, (), m')"
    using create_then_get [OF list_ok_mp0 alloc_ok_first_fit [of 9], where n = 4 and tile = 1 and node = 2 and port = 3 and junk = "\<lambda>_. 0" and bt = 0 and rem = "\<lambda>_. None"] r
    by (simp add: handles_of_def)
  with r show ?thesis by simp
qed

text \<open>
  Deletion never removes an endpoint from a list of two or more. The element is read after
  it was released, or the list runs past its end, or the call returns with the list unchanged
  and only the counter decremented.
\<close>

theorem delete_never_removes:
  assumes "list_ok m as" and "2 \<le> length as" and "h \<in> elem_handle m ` set as"
  shows "case endpoint_delete h m of None \<Rightarrow> False
    | Some (Inl f) \<Rightarrow> f = UseAfterFree \<or> f = NullDeref
    | Some (Inr m') \<Rightarrow> m_elems m' = m_elems m \<and> list_ok m' as \<and>
        (eplist_localnum m' = eplist_localnum m - 1 \<or> eplist_remotenum m' = eplist_remotenum m - 1)"
proof -
  from assms(2) obtain a b bs where as: "as = a # b # bs" by (metis Suc_le_length_iff numeral_2_eq_2)
  have ch: "chain (m_elems m) (eplist_first m) as" "distinct as" "eplist_last m = last as"
    using assms(1) as by (simp_all add: list_ok_def)
  then obtain l where l: "m_elems m a = Some l" "eplist_first m = a" "a \<noteq> 0"
    using as by (auto split: option.splits)
  have "last as \<noteq> a" using ch(2) as by auto
  then have fl: "eplist_first m \<noteq> eplist_last m" using ch(3) l by simp
  from assms(1,3) obtain x where x: "m_handles m h = Some x" "h \<noteq> 0" by (auto simp: list_ok_def)
  define m1 where "m1 = (if eh_type x = LOCAL then m\<lparr>eplist_localnum := eplist_localnum m - 1\<rparr>
      else m\<lparr>eplist_remotenum := eplist_remotenum m - 1\<rparr>)"
  have m1: "m_elems m1 = m_elems m" "eplist_first m1 = a" "eplist_last m1 = eplist_last m" "m_handles m1 = m_handles m"
      "eplist_localnum m1 = eplist_localnum m - 1 \<or> eplist_remotenum m1 = eplist_remotenum m - 1"
    using l by (simp_all add: m1_def)
  have r: "endpoint_delete h m = (if le_handle l = h then flt UseAfterFree else endpoint_delete_loop m1 h a)"
    using x l m1 fl by (simp add: endpoint_delete_def handle_at_def elem_at_def Let_def flip: m1_def)
  have "list_ok m1 as" using assms(1) m1 l by (simp add: list_ok_def elem_handle_def)
  moreover have "case endpoint_delete_loop m1 h a of None \<Rightarrow> False
      | Some (Inl f) \<Rightarrow> f = UseAfterFree \<or> f = NullDeref | Some (Inr m') \<Rightarrow> m' = m1"
    by (rule delete_loop_eq [where as = as]) (use ch m1 l in simp_all)
  ultimately show ?thesis
    using r m1 by (auto split: option.splits sum.splits)
qed

definition demo_handle :: "u32 \<Rightarrow> handle" where
  "demo_handle p = \<lparr>eh_type = 0, eh_ep = 30, eh_domain = 1, eh_node = 0, eh_port = p\<rparr>"

definition mp_two :: mpm where
  "mp_two = mp0\<lparr>m_elems := [1 \<mapsto> \<lparr>le_next = 2, le_handle = 11\<rparr>, 2 \<mapsto> \<lparr>le_next = 0, le_handle = 12\<rparr>],
     m_handles := [11 \<mapsto> demo_handle 0, 12 \<mapsto> demo_handle 1], eplist_first := 1, eplist_last := 2, eplist_localnum := 2\<rparr>"

lemma list_ok_two: "list_ok mp_two [1, 2]"
  by (simp add: list_ok_def mp_two_def elem_handle_def)

theorem delete_never_removes_witness:
  "\<not> (\<exists>m'. endpoint_delete 12 mp_two = ok m' \<and> m_elems m' \<noteq> m_elems mp_two)"
proof -
  have "12 \<in> elem_handle mp_two ` set [1, 2]" by (simp add: mp_two_def elem_handle_def)
  from delete_never_removes [OF list_ok_two _ this] show ?thesis
    by (auto split: option.splits sum.splits)
qed

text \<open>
  The generated port number is the smallest one below 100 that no endpoint of the list
  uses, whatever its tile and node; \<open>-1\<close> is returned exactly when there is none.
\<close>

theorem portnum_free:
  assumes "list_ok m as"
  shows "endpoint_generate_portnum m = ok
    (case List.find (\<lambda>p. word_of_nat p \<notin> eh_port ` set (handles_of m as)) [0..<MAX_ENDPOINTS] of
       None \<Rightarrow> None | Some p \<Rightarrow> Some (word_of_nat p))"
proof -
  have "generate_portnum_from m ps = ok
      (case List.find (\<lambda>p. word_of_nat p \<notin> eh_port ` set (handles_of m as)) ps of
         None \<Rightarrow> None | Some p \<Rightarrow> Some (word_of_nat p))" for ps
    using assms by (induction ps) (simp_all add: port_used_eq [where as = as] list_ok_def)
  then show ?thesis by (simp add: endpoint_generate_portnum_def)
qed

theorem portnum_free_witness: "endpoint_generate_portnum mp_two = ok (Some 2)"
proof -
  have h: "handles_of mp_two [1, 2] = [demo_handle 0, demo_handle 1]"
    by (simp add: handles_of_def mp_two_def elem_handle_def)
  have "List.find (\<lambda>p. word_of_nat p \<notin> eh_port ` set [demo_handle 0, demo_handle 1]) [0..<MAX_ENDPOINTS] = Some 2"
    by (simp add: demo_handle_def upt_rec)
  with portnum_free [OF list_ok_two] h show ?thesis by simp
qed

end
