(* ===== verification/Mp_Flow.thy ===== *)
theory Mp_Flow
  imports Mp_Props
begin

section \<open>Properties of channels and messages\<close>

subsection \<open>Channels\<close>

abbreviation lib_step :: "chan_cfg \<Rightarrow> (mpm, mpm, u32 list, msg, int \<times> u32 \<times> u8 list) chan \<Rightarrow> _ \<Rightarrow> bool" where
  "lib_step g \<equiv> chan_step (\<lambda>d. chan_valid g d \<and> cf_stile g < 2 ^ 5 \<and> cf_rtile g < 2 ^ 5)
     (chan_snd g) (chan_dlv g) (chan_rcv g) (chan_crd g)"

definition chan_start :: "mpm \<Rightarrow> mpm \<Rightarrow> (mpm, mpm, u32 list, msg, int \<times> u32 \<times> u8 list) chan" where
  "chan_start s r = \<lparr>ch_snd = s, ch_rcv = r, ch_fwd = [], ch_back = [], ch_sent = [], ch_got = []\<rparr>"

lemma run_agrees:
  assumes "snd_ok g s (cf_cap g)" and "rcv_ok g r []" and "(lib_step g)\<^sup>*\<^sup>* (chan_start s r) c"
  shows "\<exists>n q f k. cc.agrees g c n q f k"
  by (rule cc.agrees_run [OF assms(3)], rule cc.agrees_start [OF assms(1,2)]) (simp_all add: chan_start_def)


text \<open>A channel of capacity three between two tiles.\<close>

definition demo_cfg :: chan_cfg where
  "demo_cfg = \<lparr>cf_mal = first_fit 9, cf_stile = 1, cf_rtile = 2, cf_from = 2, cf_to = 3, cf_eph = 4, cf_sep = 5,
     cf_rep = 6, cf_bufsize = 64, cf_width = 16, cf_cap = 3\<rparr>"

definition demo_ep :: "u32 \<Rightarrow> endpoint" where
  "demo_ep c = \<lparr>ep_buffer = new_buf (\<lambda>_. 0) 64 4, ep_flags = 0, ep_remotedomain = 1, ep_remote = 5, ep_remotecredit = c\<rparr>"

definition demo_snd :: mpm where
  "demo_snd = mp0\<lparr>m_eps := [5 \<mapsto> demo_ep 3],
     m_handles := [2 \<mapsto> \<lparr>eh_type = 0, eh_ep = 5, eh_domain = 1, eh_node = 0, eh_port = 0\<rparr>,
                   3 \<mapsto> \<lparr>eh_type = 1, eh_ep = 6, eh_domain = 2, eh_node = 0, eh_port = 0\<rparr>]\<rparr>"

definition demo_rcv :: mpm where
  "demo_rcv = mp0\<lparr>m_eps := [6 \<mapsto> demo_ep 0],
     m_handles := [4 \<mapsto> \<lparr>eh_type = 0, eh_ep = 6, eh_domain = 2, eh_node = 0, eh_port = 0\<rparr>]\<rparr>"

lemma demo_snd_ok: "snd_ok demo_cfg demo_snd (cf_cap demo_cfg)"
  by (simp add: snd_ok_def demo_cfg_def demo_snd_def mp0_def demo_ep_def)

lemma demo_rcv_ok: "rcv_ok demo_cfg demo_rcv []"
proof -
  have "holds 16 (new_buf (\<lambda>_. 0) 64 4) []" by (rule new_buf_holds) simp_all
  moreover have "eb_size (new_buf (\<lambda>_. 0) 64 4) = 4" by (simp add: new_buf_def)
  ultimately show ?thesis by (simp add: rcv_ok_def demo_cfg_def demo_rcv_def mp0_def demo_ep_def)
qed

definition demo_msg :: msg where
  "demo_msg = ([0x68656c6c, 0x6f000000], 5)"

lemma demo_msg_ok: "chan_valid demo_cfg demo_msg \<and> cf_stile demo_cfg < 2 ^ 5 \<and> cf_rtile demo_cfg < 2 ^ 5"
  by (simp add: chan_valid_def msg_ok_def demo_msg_def demo_cfg_def)

lemma demo_out: "chan_out demo_msg = (0, 5, [0x68, 0x65, 0x6c, 0x6c, 0x6f])"
  by (simp add: chan_out_def demo_msg_def word_bytes_def)

text \<open>Sending, delivering and receiving one message.\<close>

lemma demo_run:
  "\<exists>c. (lib_step demo_cfg)\<^sup>*\<^sup>* (chan_start demo_snd demo_rcv) c \<and> ch_sent c = [demo_msg] \<and>
     ch_got c = [chan_out demo_msg] \<and> ch_fwd c = [] \<and> ch_back c = [chan_cred demo_cfg]"
proof -
  let ?g = demo_cfg and ?c = "chan_start demo_snd demo_rcv"
  have "snd_ok ?g demo_snd (Suc 2)" using demo_snd_ok by (simp add: demo_cfg_def)
  from chan_snd_law [OF this] demo_msg_ok obtain s where s: "chan_snd ?g demo_msg demo_snd = ok ([chan_pkt ?g demo_msg], s)"
    by blast
  have "length ([] :: msg list) < cf_cap ?g" by (simp add: demo_cfg_def)
  from chan_dlv_law [OF demo_rcv_ok this] demo_msg_ok obtain r where
    r: "chan_dlv ?g [] (chan_pkt ?g demo_msg) demo_rcv = ok r" "rcv_ok ?g r [demo_msg]" by fastforce
  from chan_rcv_law [OF r(2)] obtain r' where r': "chan_rcv ?g r = ok (chan_out demo_msg, [chan_cred ?g], r')" by blast
  have st: "lib_step ?g ?c (?c\<lparr>ch_snd := s, ch_fwd := ch_fwd ?c @ [chan_pkt ?g demo_msg], ch_sent := ch_sent ?c @ [demo_msg]\<rparr>)"
    (is "lib_step _ _ ?c1")
    by (rule chan_send) (use demo_msg_ok s in \<open>simp_all add: chan_start_def\<close>)
  have dl: "lib_step ?g ?c1 (?c1\<lparr>ch_rcv := r, ch_fwd := []\<rparr>)" (is "lib_step _ _ ?c2")
    by (rule chan_deliver) (use r in \<open>simp_all add: chan_start_def\<close>)
  have rc: "lib_step ?g ?c2 (?c2\<lparr>ch_rcv := r', ch_back := ch_back ?c2 @ [chan_cred ?g], ch_got := ch_got ?c2 @ [chan_out demo_msg]\<rparr>)"
    (is "lib_step _ _ ?c3")
    by (rule chan_recv) (use r' in simp)
  have "(lib_step ?g)\<^sup>*\<^sup>* ?c ?c3"
    using st dl rc by (meson rtranclp.rtrancl_into_rtrancl rtranclp.rtrancl_refl)
  moreover have "ch_sent ?c3 = [demo_msg]" "ch_got ?c3 = [chan_out demo_msg]" "ch_fwd ?c3 = []"
      "ch_back ?c3 = [chan_cred ?g]"
    by (simp_all add: chan_start_def)
  ultimately show ?thesis by blast
qed




text \<open>
  Pausing a channel whose sender has no credit opens it. The pause sends the credit
  \<open>-1\<close>, which the handler adds; the branch that resets the credit is for the value zero,
  which no function sends. From zero the sum is the largest credit there is.
\<close>

theorem pause_opens:
  assumes "rcv_ok g r q" and "snd_ok g s 0" and "cf_rtile g < 2 ^ 5"
  shows "\<exists>r' p s'. optimsoc_mp_channel_pause (cf_rtile g) (cf_eph g) r = ok r' \<and> map snd (mp_out r') = [p] \<and>
    chan_crd g j p s = ok s' \<and> snd_ok g s' (2 ^ 32 - 1)"
proof -
  from assms(1) obtain h e where he: "m_handles r (cf_eph g) = Some h" "eh_ep h = cf_rep g" "m_eps r (cf_rep g) = Some e"
      "ep_remotedomain e = cf_stile g" "ep_remote e = cf_sep g"
      and o: "cf_eph g \<noteq> 0" "cf_rep g \<noteq> 0" "mp_out r = []" "length (cr_buffer r) = 16"
    by (auto simp: rcv_ok_def)
  let ?p = "[ctrl_header (cf_stile g) (cf_rtile g) CHAN_CREDIT, cf_sep g, -1]"
  have 1: "optimsoc_mp_channel_pause (cf_rtile g) (cf_eph g) r =
      ok (r\<lparr>cr_buffer := ?p @ drop 3 (cr_buffer r), mp_out := [(0, ?p)]\<rparr>)"
    using he o
    by (simp add: optimsoc_mp_channel_pause_def control_channel_sendcredit_def handle_at_def ep_at_def cr_puts_eq
        cr_send_def mp_send_def numeral_3_eq_3 del: cr_puts.simps)
  from assms(2) obtain f where f: "m_eps s (cf_sep g) = Some f" "unat (ep_remotecredit f) = 0" "cf_sep g \<noteq> 0"
    by (auto simp: snd_ok_def)
  then have z: "ep_remotecredit f = 0" by (simp add: unat_eq_0)
  let ?s = "set_ep (cf_sep g) (f\<lparr>ep_remotecredit := -1\<rparr>) s"
  have "buf_at (?p @ j) 0 = ok (ctrl_header (cf_stile g) (cf_rtile g) CHAN_CREDIT)"
      "buf_at (?p @ j) 1 = ok (cf_sep g)" "buf_at (?p @ j) 2 = ok (-1)"
    by (simp_all add: buf_at_def)
  then have 2: "chan_crd g j ?p s = ok ?s"
    using f z ctrl_header_fields (1) [OF assms(3), of CHAN_CREDIT "cf_stile g"]
    by (simp add: chan_crd_def control_msg_handler_def handle_credit_def ep_at_def Let_def)
  have "unat (-1 :: u32) = 2 ^ 32 - 1" by (simp add: unsigned_minus_1_eq_mask mask_eq_exp_minus_1)
  then have 3: "snd_ok g ?s (2 ^ 32 - 1)" using assms(2) f by (auto simp: snd_ok_def set_ep_def)
  from 1 2 3 show ?thesis by (intro exI [of _ ?s] exI [of _ ?p] exI) (rule conjI, assumption, simp)
qed

theorem pause_opens_witness:
  "\<exists>r' p s'. optimsoc_mp_channel_pause 2 4 demo_rcv = ok r' \<and> map snd (mp_out r') = [p] \<and>
     chan_crd demo_cfg [] p (demo_snd\<lparr>m_eps := [5 \<mapsto> demo_ep 0]\<rparr>) = ok s' \<and> snd_ok demo_cfg s' 4294967295"
proof -
  have "snd_ok demo_cfg (demo_snd\<lparr>m_eps := [5 \<mapsto> demo_ep 0]\<rparr>) 0"
    by (simp add: snd_ok_def demo_cfg_def demo_snd_def mp0_def demo_ep_def)
  from pause_opens [OF demo_rcv_ok this, of "[]"] show ?thesis by (simp add: demo_cfg_def)
qed

subsection \<open>Messages\<close>

lemma msg_data_one:
  assumes "length (cr_buffer m) = 16" and "0 < wds" and "wds \<le> 12" and "wds \<le> length data"
  shows "msg_data_loop tile h a wds 0 data m =
    (let p = [ctrl_header (eh_domain h) tile MSG_DATA, eh_ep h, a, 0] @ take wds data
     in ok (m\<lparr>cr_buffer := p @ drop (4 + wds) (cr_buffer m), mp_out := mp_out m @ [(0, p)]\<rparr>))"
proof -
  have w: "min wds wordsperpacket = wds" "\<not> wordsperpacket < wds"
    using assms(3) by (simp_all add: optimsoc_noc_maxpacketsize_def)
  have stop: "msg_data_loop tile h a wds wordsperpacket data = (\<lambda>m. ok m)"
    by (rule ext, subst msg_data_loop.simps) (use w in simp)
  let ?h = "[ctrl_header (eh_domain h) tile MSG_DATA, eh_ep h, a, 0]"
  have "msg_data_loop tile h a wds 0 data m =
      bnd (bnd (cr_puts 0 ?h m) (\<lambda>m1. bnd (cr_copy wds 0 0 data m1) (cr_send (4 + wds)))) (\<lambda>m3. ok m3)"
    using assms(2) w stop
    by (subst msg_data_loop.simps) (simp add: bnd_assoc Let_def del: cr_puts.simps msg_data_loop.simps)
  also have "\<dots> = ok (m\<lparr>cr_buffer := ?h @ take wds (drop 0 data) @ drop (4 + wds) (cr_buffer m),
      mp_out := mp_out m @ [(0, ?h @ take wds (drop 0 data))]\<rparr>)"
    by (subst cr_packet) (use assms in simp_all)
  finally show ?thesis by (simp add: Let_def)
qed

lemma msg_data_packets:
  assumes "m_handles s to_h = Some t" and "to_h \<noteq> 0" and "length (cr_buffer s) = 16" and "sz mod 4 = 0"
    and "unat (drop_bit 2 (sz + 3)) = length ws" and "0 < length ws" and "length ws \<le> 12"
  shows "\<exists>s'. control_msg_data tile to_h a ws sz s = ok s' \<and>
    mp_out s' = mp_out s @ [(0, [ctrl_header (eh_domain t) tile MSG_DATA, eh_ep t, a, 0] @ ws),
      (0, [ctrl_header (eh_domain t) tile MSG_COMPLETE, eh_ep t, a, sz])]"
  using assms
  by (simp add: control_msg_data_def handle_at_def msg_data_one Let_def cr_puts_eq cr_send_def mp_send_def
      del: msg_data_loop.simps cr_puts.simps)

text \<open>
  C19: a message of up to 48 bytes arrives. The request for a slot is acknowledged, the packets
  of \<open>control_msg_data\<close> are accepted by the receiver, and afterwards the message stands at the
  end of the queue of the endpoint, behind those that were there.
\<close>

theorem msg_transfer:
  assumes s: "m_handles s to_h = Some t" "to_h \<noteq> 0" "length (cr_buffer s) = 16" "tile < 2 ^ 5"
    and r: "m_eps r (eh_ep t) = Some e" "eh_ep t \<noteq> 0" "holds W (ep_buffer e) q"
      "length q < unat (eb_size (ep_buffer e)) - 1" "12 \<le> W"
    and d: "msg_ok 12 d" "snd d \<le> 48" "snd d mod 4 = 0"
  shows "\<exists>a r1 s' p1 p2 r2 r3 e3.
    control_msg_handler mal rt ([ctrl_header (eh_domain t) tile MSG_ALLOC_REQ, eh_ep t, snd d] @ j0) 3 r = ok r1 \<and>
    mp_out r1 = mp_out r @ [(1, [ctrl_header tile rt MSG_ALLOC_RESP, CTRL_REQUEST_ACK, a])] \<and>
    control_msg_data tile to_h a (fst d) (snd d) s = ok s' \<and> mp_out s' = mp_out s @ [(0, p1), (0, p2)] \<and>
    control_msg_handler mal rt (p1 @ j1) (word_of_nat (length p1)) r1 = ok r2 \<and>
    control_msg_handler mal rt (p2 @ j2) (word_of_nat (length p2)) r2 = ok r3 \<and>
    m_eps r3 (eh_ep t) = Some e3 \<and> holds W (ep_buffer e3) (q @ [d])"
proof -
  let ?b = "ep_buffer e" and ?w = "eb_write_ptr (ep_buffer e)" and ?n = "length (fst d)"
  let ?sz = "eb_data_size ?b"
  have rr: "ring_ok ?b" "laid W ?b" "W < 2 ^ 30" "fill_of ?b = length q" using r(3) by (auto simp: holds_def)
  have sl: "unat ?w < unat (eb_size ?b)" "unat ?w < length ?sz" using rr(1) ring_ok_nat by (auto simp: ring_ok_def)
  have n12: "?n \<le> 12" "0 < ?n" "unat (drop_bit 2 (snd d + 3)) = ?n"
    using chan_valid_words [of "demo_cfg\<lparr>cf_bufsize := snd d\<rparr>" d] d by (simp_all add: chan_valid_def)
  let ?b1 = "pushed ?b\<lparr>eb_data_size := ?sz[unat ?w := 0]\<rparr>"
  let ?r1 = "(set_ep (eh_ep t) (e\<lparr>ep_buffer := ?b1\<rparr>) r)\<lparr>mp_out := mp_out r @
      [(1, [ctrl_header tile rt MSG_ALLOC_RESP, CTRL_REQUEST_ACK, ?w])]\<rparr>"
  have full: "endpoint_full (eh_ep t) r = ok False"
    using full_iff [OF rr(1)] rr(4) r by (simp add: endpoint_full_def ep_at_def Let_def)
  have le64: "\<not> 64 < snd d" using d(2) unfolding word_less_nat_alt word_le_nat_alt by simp
  have al: "endpoint_alloc [] (eh_ep t) (snd d) r = ok (Some ?w, set_ep (eh_ep t) (e\<lparr>ep_buffer := ?b1\<rparr>) r)"
    using full le64 r sl
    by (simp add: endpoint_alloc_def ep_at_def endpoint_push_def set_buf_def set_ep_def set_data_size_def Let_def)
  note hf = ctrl_header_fields [OF s(4)]
  have 1: "control_msg_handler mal rt ([ctrl_header (eh_domain t) tile MSG_ALLOC_REQ, eh_ep t, snd d] @ j0) 3 r = ok ?r1"
    using al hf(1) [of MSG_ALLOC_REQ] hf(2) [of MSG_ALLOC_REQ]
    by (simp add: control_msg_handler_def handle_alloc_def buf_at_def mp_send_def Let_def set_ep_def)
  let ?p1 = "[ctrl_header (eh_domain t) tile MSG_DATA, eh_ep t, ?w, 0] @ fst d"
  let ?p2 = "[ctrl_header (eh_domain t) tile MSG_COMPLETE, eh_ep t, ?w, snd d]"
  have 2: "\<exists>s'. control_msg_data tile to_h ?w (fst d) (snd d) s = ok s' \<and> mp_out s' = mp_out s @ [(0, ?p1), (0, ?p2)]"
    by (rule msg_data_packets) (use s d n12 in simp_all)
  have "laid W ?b1" using rr(2) by simp
  from write_message [OF this, of ?w "fst d" j1] obtain F where
    F: "endpoint_write_loop ?n 0 ?w 0 (fst d @ j1) ?b1 = ok (?b1\<lparr>eb_field := F\<rparr>)"
      "length F = length (eb_field ?b)" "\<forall>k < ?n. F ! (unat ?w * W + k) = fst d ! k"
      "\<forall>i. i < unat ?w * W \<or> unat ?w * W + W \<le> i \<longrightarrow> F ! i = eb_field ?b ! i"
    using n12 r(5) rr sl by auto
  let ?r2 = "set_ep (eh_ep t) (e\<lparr>ep_buffer := ?b1\<lparr>eb_field := F\<rparr>\<rparr>) ?r1"
  have un: "unat (word_of_nat ?n :: u32) = ?n" using n12 by (simp add: unsigned_of_nat take_bit_nat_eq_self)
  have len: "word_of_nat (length ?p1) - 4 = (word_of_nat ?n :: u32)" by simp
  have 3: "control_msg_handler mal rt (?p1 @ j1) (word_of_nat (length ?p1)) ?r1 = ok ?r2"
    using hf(1) [of MSG_DATA] F(1) un r
    by (simp add: control_msg_handler_def handle_msg_data_def buf_at_def endpoint_write_def ep_at_def set_ep_def
        set_buf_def Let_def)
  let ?b3 = "pushed (?b\<lparr>eb_field := F, eb_data_size := ?sz[unat ?w := snd d]\<rparr>)"
  let ?c3 = "?b1\<lparr>eb_field := F, eb_data_size := ?sz[unat ?w := snd d]\<rparr>"
  have eqb: "?c3 = ?b3" by (rule ebuf.equality) simp_all
  let ?r3 = "set_ep (eh_ep t) (e\<lparr>ep_buffer := ?c3\<rparr>) ?r1"
  have 4: "control_msg_handler mal rt (?p2 @ j2) (word_of_nat (length ?p2)) ?r2 = ok ?r3"
    using hf(1) [of MSG_COMPLETE] r sl
    by (simp add: control_msg_handler_def handle_complete_def buf_at_def endpoint_write_complete_def set_data_size_def
        ep_at_def set_ep_def set_buf_def Let_def)
  have "msg_ok W d" using d(1) r(5) by (simp add: msg_ok_def)
  then have 5: "holds W ?c3 (q @ [d])"
    unfolding eqb by (intro holds_pushed [OF r(3,4)]) (use F in auto)
  have 6: "m_eps ?r3 (eh_ep t) = Some (e\<lparr>ep_buffer := ?c3\<rparr>)" by (simp add: set_ep_def)
  have "mp_out ?r1 = mp_out r @ [(1, [ctrl_header tile rt MSG_ALLOC_RESP, CTRL_REQUEST_ACK, ?w])]" by simp
  moreover from 5 have "holds W (ep_buffer (e\<lparr>ep_buffer := ?c3\<rparr>)) (q @ [d])" by simp
  ultimately show ?thesis using 1 2 3 4 6 by blast
qed

definition demo_text :: msg where
  "demo_text = ([0x68656c6c, 0x6f212121], 8)"

theorem msg_transfer_witness:
  "\<exists>a r1 s' p1 p2 r2 r3 e3.
    control_msg_handler (first_fit 9) 2 [ctrl_header 2 1 MSG_ALLOC_REQ, 6, 8] 3 demo_rcv = ok r1 \<and>
    control_msg_data 1 3 a (fst demo_text) 8 demo_snd = ok s' \<and> mp_out s' = [(0, p1), (0, p2)] \<and>
    control_msg_handler (first_fit 9) 2 p1 (word_of_nat (length p1)) r1 = ok r2 \<and>
    control_msg_handler (first_fit 9) 2 p2 (word_of_nat (length p2)) r2 = ok r3 \<and>
    m_eps r3 6 = Some e3 \<and> holds 16 (ep_buffer e3) [demo_text]"
proof -
  let ?t = "\<lparr>eh_type = 1, eh_ep = 6, eh_domain = 2, eh_node = 0, eh_port = 0\<rparr> :: handle"
  have s: "m_handles demo_snd 3 = Some ?t" "length (cr_buffer demo_snd) = 16" "mp_out demo_snd = []"
    by (simp_all add: demo_snd_def mp0_def)
  have r: "m_eps demo_rcv (eh_ep ?t) = Some (demo_ep 0)" by (simp add: demo_rcv_def)
  have h: "holds 16 (ep_buffer (demo_ep 0)) []" "eb_size (ep_buffer (demo_ep 0)) = 4"
    using new_buf_holds [of 4 "\<lambda>_. 0"] by (simp_all add: demo_ep_def new_buf_def)
  have d: "msg_ok 12 demo_text" "snd demo_text \<le> 48" "snd demo_text mod 4 = 0" "snd demo_text = 8"
    by (simp_all add: demo_text_def msg_ok_def)
  have "length ([] :: msg list) < unat (eb_size (ep_buffer (demo_ep 0))) - 1" using h by simp
  from msg_transfer [OF s(1) _ s(2) _ r _ h(1) this _ d(1-3), of 1 "first_fit 9" 2 "[]" "[]" "[]"] d(4) s(3)
  show ?thesis by fastforce
qed

lemma cr_copy_overflow:
  assumes "length (cr_buffer m) = 16" and "d \<le> 12" and "12 < d + n" and "i + d + n \<le> length data"
  shows "cr_copy n d i data m = flt OutOfBounds"
  using assms
proof (induction n arbitrary: d m)
  case (Suc n)
  have b: "buf_at data (i + d) = ok (data ! (i + d))" using Suc.prems by (simp add: buf_at_def)
  show ?case
  proof (cases "d = 12")
    case True
    with b Suc.prems show ?thesis by (simp add: cr_put_def)
  next
    case False
    have "cr_copy n (Suc d) i data (m\<lparr>cr_buffer := (cr_buffer m)[4 + d := data ! (i + d)]\<rparr>) = flt OutOfBounds"
      using Suc.prems False by (intro Suc.IH) simp_all
    with b Suc.prems False show ?thesis by (simp add: cr_put_def)
  qed
qed simp

text \<open>
  C33: a message of more than 48 bytes writes past the request buffer, although an endpoint
  accepts up to 64: the buffer of \<open>ctrl_request\<close> has sixteen words, four of which are the
  header, and \<open>wordsperpacket\<close> is computed from the packet size of the network.
\<close>

theorem msg_too_long:
  assumes "m_handles s to_h = Some t" and "to_h \<noteq> 0" and "length (cr_buffer s) = 16"
    and "sz mod 4 = 0" and "48 < sz" and "sz \<le> MAX_MESSAGE_SIZE" and "(unat sz + 3) div 4 \<le> length data"
  shows "control_msg_data tile to_h a data sz s = flt OutOfBounds"
proof -
  have u: "48 < unat sz" "unat sz \<le> 64" using assms(5,6) unfolding word_less_nat_alt word_le_nat_alt by simp_all
  have "sz \<le> 2 ^ 31" using u unfolding word_le_nat_alt by simp
  from words_of_size [OF this] have w: "unat (drop_bit 2 (sz + 3)) = (unat sz + 3) div 4" .
  define n where "n = (unat sz + 3) div 4"
  have n: "12 < n" "n \<le> 16" "n \<le> length data" using u assms(7) unfolding n_def by auto
  have "min n wordsperpacket = n" using n by (simp add: optimsoc_noc_maxpacketsize_def)
  let ?h = "[ctrl_header (eh_domain t) tile MSG_DATA, eh_ep t, a, 0]"
  let ?s = "s\<lparr>cr_buffer := ?h @ drop 4 (cr_buffer s)\<rparr>"
  have "cr_puts 0 ?h s = ok ?s" using assms(3) by (subst cr_puts_eq) (simp_all add: eval_nat_numeral)
  moreover have "cr_copy n 0 0 data ?s = flt OutOfBounds"
    by (rule cr_copy_overflow) (use assms(3) n in simp_all)
  ultimately have "msg_data_loop tile t a n 0 data s = flt OutOfBounds"
    using n \<open>min n wordsperpacket = n\<close>
    by (subst msg_data_loop.simps) (simp add: Let_def del: cr_puts.simps msg_data_loop.simps)
  then show ?thesis
    using assms(1,2,4) w n_def by (simp add: control_msg_data_def handle_at_def del: msg_data_loop.simps)
qed

theorem msg_too_long_witness:
  "control_msg_data 1 3 0 (replicate 16 0) 64 demo_snd = flt OutOfBounds"
proof (rule msg_too_long)
  show "m_handles demo_snd 3 = Some \<lparr>eh_type = 1, eh_ep = 6, eh_domain = 2, eh_node = 0, eh_port = 0\<rparr>"
    by (simp add: demo_snd_def)
qed (simp_all add: demo_snd_def mp0_def)

end
