(* ===== verification/Mp_Types.thy ===== *)
theory Mp_Types
  imports Mp_Flow
begin

section \<open>Typing of the message passing memory\<close>

text \<open>
  The handler of the control packets takes the addresses of endpoints and the numbers of slots from the
  network and does not check them. A typing gives for each address of an endpoint the words of a slot and the number
  of slots, and for each handle its endpoint. Packets that respect the typing are handled
  without a fault, and the memory keeps its type.
\<close>

subsection \<open>Calls that return\<close>

definition sure :: "'a exec \<Rightarrow> ('a \<Rightarrow> bool) \<Rightarrow> bool" where
  "sure r P \<longleftrightarrow> (\<exists>x. r = ok x \<and> P x)"

lemma sure_simps [simp]: "\<not> sure None P" "\<not> sure (flt f) P" "sure (ok x) P \<longleftrightarrow> P x"
  by (simp_all add: sure_def)

lemma sure_bnd: "sure (bnd r f) P \<longleftrightarrow> sure r (\<lambda>x. sure (f x) P)"
  by (auto simp: sure_def bnd_ok_iff)

lemma sure_mono: "sure r P \<Longrightarrow> (\<And>x. P x \<Longrightarrow> Q x) \<Longrightarrow> sure r Q"
  by (auto simp: sure_def)

lemma sure_bndI: "sure r P \<Longrightarrow> (\<And>x. P x \<Longrightarrow> sure (f x) Q) \<Longrightarrow> sure (bnd r f) Q"
  unfolding sure_bnd by (rule sure_mono)

subsection \<open>Types\<close>

type_synonym ep_typing = "ptr \<Rightarrow> (nat \<times> u32) option"
type_synonym handle_typing = "ptr \<Rightarrow> ptr option"

text \<open>The messages in the ring fit their slots.\<close>

definition buf_typed :: "nat \<Rightarrow> ebuf \<Rightarrow> bool" where
  "buf_typed W b \<longleftrightarrow> ring_ok b \<and> laid W b \<and> W < 2 ^ 29 \<and>
     (\<forall>k < fill_of b. (unat (eb_data_size b ! slot_of b k) + 3) div 4 \<le> W)"

definition mp_typed :: "ep_typing \<Rightarrow> handle_typing \<Rightarrow> mpm \<Rightarrow> bool" where
  "mp_typed G D m \<longleftrightarrow>
     (\<forall>p W n. G p = Some (W, n) \<longrightarrow> p \<noteq> 0 \<and> (\<exists>e. m_eps m p = Some e \<and> buf_typed W (ep_buffer e) \<and> eb_size (ep_buffer e) = n)) \<and>
     (\<forall>h p. D h = Some p \<longrightarrow> h \<noteq> 0 \<and> (\<exists>x. m_handles m h = Some x \<and> eh_ep x = p)) \<and>
     (\<exists>as. list_ok m as) \<and> length (cr_buffer m) = 16"

text \<open>The words of a packet as its request uses them.\<close>

definition packet_typed :: "ep_typing \<Rightarrow> u32 list \<Rightarrow> u32 \<Rightarrow> bool" where
  "packet_typed G buf len \<longleftrightarrow>
     5 \<le> length buf \<and>
     (let req = extract_bits (buf ! 0) CTRL_REQUEST_MSB CTRL_REQUEST_LSB; n = unat (len - 4) in
      (req \<in> {MSG_ALLOC_REQ, CHAN_CONNECT_REQ, CHAN_CREDIT} \<longrightarrow> G (buf ! 1) \<noteq> None) \<and>
      (req = MSG_DATA \<longrightarrow> 4 + n \<le> length buf \<and>
         (\<exists>W s. G (buf ! 1) = Some (W, s) \<and> buf ! 2 < s \<and> unat (buf ! 3) + n \<le> W)) \<and>
      (req = MSG_COMPLETE \<longrightarrow>
         (\<exists>W s. G (buf ! 1) = Some (W, s) \<and> buf ! 2 < s \<and> (unat (buf ! 3) + 3) div 4 \<le> W)) \<and>
      (req = CHAN_DATA \<longrightarrow> 4 + n \<le> length buf \<and>
         (\<exists>W s. G (buf ! 1) = Some (W, s) \<and> unat (buf ! 2) + n \<le> W \<and> (unat (buf ! 2 * 4 + buf ! 3) + 3) div 4 \<le> W)))"

text \<open>What a tile does: it handles a packet, or a program takes a message or data of a channel if there is any.\<close>

datatype mp_op = Packet "u32 list" u32 | TakeMessage ptr u32 | TakeChannel ptr u32

fun op_typed :: "ep_typing \<Rightarrow> handle_typing \<Rightarrow> mp_op \<Rightarrow> bool" where
  "op_typed G D (Packet buf len) \<longleftrightarrow> packet_typed G buf len"
| "op_typed G D (TakeMessage ep n) \<longleftrightarrow> G ep \<noteq> None"
| "op_typed G D (TakeChannel h n) \<longleftrightarrow> (\<exists>p. D h = Some p \<and> G p \<noteq> None)"

fun op_run :: "allocator \<Rightarrow> u32 \<Rightarrow> mp_op \<Rightarrow> mpm \<Rightarrow> mpm exec" where
  "op_run mal tile (Packet buf len) m = control_msg_handler mal tile buf len m"
| "op_run mal tile (TakeMessage ep n) m = bnd (endpoint_msg_available ep m) (\<lambda>a.
     if a then bnd (endpoint_msg_take [] ep n m) (\<lambda>(_, _, m1). ok m1) else ok m)"
| "op_run mal tile (TakeChannel h n) m = bnd (handle_at m h) (\<lambda>x. bnd (not_empty (eh_ep x) m) (\<lambda>a.
     if a then bnd (channel_take [] tile h n m) (\<lambda>(_, _, _, m1). ok m1) else ok m))"

fun ops_run :: "allocator \<Rightarrow> u32 \<Rightarrow> mp_op list \<Rightarrow> mpm \<Rightarrow> mpm exec" where
  "ops_run mal tile [] m = ok m"
| "ops_run mal tile (x # xs) m = bnd (op_run mal tile x m) (ops_run mal tile xs)"

subsection \<open>The ring\<close>

lemma buf_typed_field: "buf_typed W b \<Longrightarrow> length F = length (eb_field b) \<Longrightarrow> buf_typed W (b\<lparr>eb_field := F\<rparr>)"
  by (simp add: buf_typed_def ring_ok_def laid_def fill_of_def slot_of_def)

lemma slot_size [simp]: "slot_of (b\<lparr>eb_data_size := ds\<rparr>) k = slot_of b k"
  by (simp add: slot_of_def)

lemma slot_write [simp]: "slot_of (b\<lparr>eb_write_ptr := p\<rparr>) k = slot_of b k"
  by (simp add: slot_of_def)

lemma fill_size [simp]: "fill_of (b\<lparr>eb_data_size := ds\<rparr>) = fill_of b"
  by (simp add: fill_of_def)

lemma buf_typed_size:
  assumes "buf_typed W b" and "(unat v + 3) div 4 \<le> W"
  shows "buf_typed W (b\<lparr>eb_data_size := (eb_data_size b)[i := v]\<rparr>)"
proof -
  have "length (eb_data_size b) = unat (eb_size b)" "ring_ok b" using assms(1) by (auto simp: buf_typed_def ring_ok_def)
  then have l: "slot_of b k < length (eb_data_size b)" for k by (simp add: slot_less)
  have "(unat (eb_data_size b ! slot_of b k) + 3) div 4 \<le> W \<Longrightarrow>
      (unat ((eb_data_size b)[i := v] ! slot_of b k) + 3) div 4 \<le> W" for k
    using l [of k] assms(2) by (cases "i = slot_of b k") simp_all
  with assms(1) show ?thesis by (auto simp: buf_typed_def ring_ok_def)
qed

lemma fill_pushed_full:
  assumes "ring_ok b" and "fill_of b = unat (eb_size b) - 1"
  shows "fill_of (pushed b) = 0"
proof (rule fill_unique [OF ring_ok_pushed [OF assms(1)]])
  note n = ring_ok_nat [OF assms(1)]
  show "0 < unat (eb_size (pushed b))" using n by simp
  have "unat (eb_write_ptr (pushed b)) = (unat (eb_write_ptr b) + 1) mod unat (eb_size b)"
    using assms(1) by (simp add: unat_ring_next ring_ok_def)
  also have "unat (eb_write_ptr b) = (unat (eb_read_ptr b) + (unat (eb_size b) - 1)) mod unat (eb_size b)"
    using slot_fill [OF assms(1)] unfolding assms(2) slot_of_def by (rule sym)
  also have "(\<dots> + 1) mod unat (eb_size b) = (unat (eb_read_ptr b) + (unat (eb_size b) - 1) + 1) mod unat (eb_size b)"
    by (rule mod_add_left_eq)
  also have "\<dots> = unat (eb_read_ptr b)" using n by simp
  finally show "slot_of (pushed b) 0 = unat (eb_write_ptr (pushed b))" using n by (simp add: slot_of_def)
qed

text \<open>Pushing a slot whose size fits; a full ring wraps to an empty one.\<close>

lemma buf_typed_push:
  assumes "buf_typed W b" and "(unat v + 3) div 4 \<le> W"
  shows "buf_typed W (pushed (b\<lparr>eb_data_size := (eb_data_size b)[unat (eb_write_ptr b) := v]\<rparr>))" (is "buf_typed W (pushed ?b)")
proof -
  have t: "buf_typed W ?b" by (rule buf_typed_size [OF assms])
  then have r: "ring_ok ?b" by (simp add: buf_typed_def)
  have w: "unat (eb_write_ptr b) < length (eb_data_size b)" using r by (simp add: ring_ok_def word_less_nat_alt)
  have s: "slot_of b (fill_of b) = unat (eb_write_ptr b)" using assms(1) by (simp add: buf_typed_def slot_fill)
  show ?thesis
  proof (cases "fill_of ?b < unat (eb_size ?b) - 1")
    case True
    have "fill_of (pushed ?b) = Suc (fill_of b)" using fill_pushed [OF r True] by simp
    then show ?thesis
      using t s w assms(2) ring_ok_pushed [OF r] by (auto simp: buf_typed_def less_Suc_eq)
  next
    case False
    with fill_less [OF r] have "fill_of ?b = unat (eb_size ?b) - 1" by simp
    then have "fill_of (pushed ?b) = 0" by (rule fill_pushed_full [OF r])
    then show ?thesis using t ring_ok_pushed [OF r] by (simp add: buf_typed_def)
  qed
qed

lemma buf_typed_pop:
  assumes "buf_typed W b" and "eb_write_ptr b \<noteq> eb_read_ptr b"
  shows "buf_typed W (popped b)"
proof -
  have r: "ring_ok b" using assms(1) by (simp add: buf_typed_def)
  then obtain n where n: "fill_of b = Suc n" using assms(2) fill_zero_iff [OF r] by (cases "fill_of b") simp_all
  show ?thesis
    using assms(1) n fill_popped [OF r n] ring_ok_popped [OF r] by (auto simp: buf_typed_def slot_popped [OF r])
qed

text \<open>The size of the oldest message, and its words.\<close>

lemma buf_typed_head:
  assumes "buf_typed W b" and "eb_write_ptr b \<noteq> eb_read_ptr b"
  shows "\<exists>n. buf_size_at (eb_read_ptr b) b = ok n \<and> (unat n + 3) div 4 \<le> W \<and>
    (\<forall>k. k \<le> W \<longrightarrow> (\<exists>ws. field_read_loop k 0 (eb_read_ptr b) b = ok ws))"
proof -
  have r: "ring_ok b" "laid W b" "W < 2 ^ 29" using assms(1) by (simp_all add: buf_typed_def)
  have l: "unat (eb_read_ptr b) < length (eb_data_size b)" using r(1) ring_ok_nat [OF r(1)] by (simp add: ring_ok_def)
  have "0 < fill_of b" using assms(2) fill_zero_iff [OF r(1)] by simp
  moreover have "slot_of b 0 = unat (eb_read_ptr b)" using ring_ok_nat [OF r(1)] by (simp add: slot_of_def)
  ultimately have "(unat (eb_data_size b ! unat (eb_read_ptr b)) + 3) div 4 \<le> W"
    using assms(1) by (auto simp: buf_typed_def)
  moreover have "\<exists>ws. field_read_loop k 0 (eb_read_ptr b) b = ok ws" if "k \<le> W" for k
    using read_loop [OF r(2), of "eb_read_ptr b" 0 k] that r(3) ring_ok_nat [OF r(1)] by auto
  ultimately show ?thesis using l by (simp add: buf_size_at_def)
qed

subsection \<open>The memory\<close>

lemma typed_ep:
  assumes "mp_typed G D m" and "G p = Some (W, n)"
  shows "\<exists>e. ep_at m p = ok e \<and> buf_typed W (ep_buffer e) \<and> eb_size (ep_buffer e) = n"
  using assms by (fastforce simp: mp_typed_def ep_at_def)

lemma typed_handle:
  assumes "mp_typed G D m" and "D h = Some p"
  shows "\<exists>x. handle_at m h = ok x \<and> eh_ep x = p"
  using assms by (fastforce simp: mp_typed_def handle_at_def)

lemma typed_set_ep:
  assumes "mp_typed G D m" and "G p = Some (W, n)" and "buf_typed W (ep_buffer e)" and "eb_size (ep_buffer e) = n"
  shows "mp_typed G D (set_ep p e m)"
  using assms by (simp add: mp_typed_def) (simp add: set_ep_def)

lemma typed_out [simp]: "mp_typed G D (m\<lparr>mp_out := x\<rparr>) = mp_typed G D m"
  by (simp add: mp_typed_def list_ok_def elem_handle_def)

lemma typed_done [simp]: "mp_typed G D (m\<lparr>cr_done := x\<rparr>) = mp_typed G D m"
  by (simp add: mp_typed_def list_ok_def elem_handle_def)

lemma typed_send: "mp_typed G D m \<Longrightarrow> n \<le> length buf \<Longrightarrow> sure (mp_send hw n buf m) (mp_typed G D)"
  by (simp add: mp_send_def)

lemma typed_puts:
  assumes "mp_typed G D m" and "length vs \<le> 16"
  shows "sure (cr_puts 0 vs m) (mp_typed G D)"
proof -
  have "length (cr_buffer m) = 16" using assms(1) by (simp add: mp_typed_def)
  then have "cr_puts 0 vs m = ok (m\<lparr>cr_buffer := vs @ drop (length vs) (cr_buffer m)\<rparr>)"
    using cr_puts_eq [of 0 vs m] assms(2) by simp
  with assms show ?thesis by (simp add: mp_typed_def list_ok_def elem_handle_def)
qed

subsection \<open>The operations\<close>

lemma typed_alloc:
  assumes "mp_typed G D m" and "G p = Some (W, n)"
  shows "sure (endpoint_alloc [] p sz m) (\<lambda>(_, m1). mp_typed G D m1)"
proof -
  from typed_ep [OF assms] obtain e where e: "ep_at m p = ok e" and b: "buf_typed W (ep_buffer e)" "eb_size (ep_buffer e) = n"
    by blast
  let ?b = "ep_buffer e"
  have w: "unat (eb_write_ptr ?b) < length (eb_data_size ?b)"
    using b(1) by (simp add: buf_typed_def ring_ok_def word_less_nat_alt)
  have p: "p \<noteq> 0" using e by (auto simp: ep_at_def)
  let ?b1 = "(pushed ?b)\<lparr>eb_data_size := (eb_data_size ?b)[unat (eb_write_ptr ?b) := 0]\<rparr>"
  have eq: "?b1 = pushed (?b\<lparr>eb_data_size := (eb_data_size ?b)[unat (eb_write_ptr ?b) := 0]\<rparr>)" by simp
  have "buf_typed W ?b1" unfolding eq by (rule buf_typed_push [OF b(1)]) simp
  then have "mp_typed G D (set_ep p (e\<lparr>ep_buffer := ?b1\<rparr>) m)"
    by (intro typed_set_ep [OF assms]) (simp_all add: b)
  then show ?thesis
    using e p w assms(1)
    by (simp add: endpoint_alloc_def endpoint_full_def endpoint_push_def set_data_size_def set_buf_def ep_at_def set_ep_def
      Let_def split: if_splits)
qed

lemma typed_write_loop:
  assumes "buf_typed W b" and "slot < eb_size b" and "unat off + n \<le> W" and "n \<le> length buf"
  shows "\<exists>b'. endpoint_write_loop n 0 slot off buf b = ok b' \<and> buf_typed W b' \<and> eb_size b' = eb_size b \<and>
    eb_write_ptr b' = eb_write_ptr b"
proof -
  have "laid W b" "W < 2 ^ 32" using assms(1) by (simp_all add: buf_typed_def)
  from write_loop [OF this(1) _ _ _ this(2), of slot off 0 n buf] assms(2-4) obtain F where
    "endpoint_write_loop n 0 slot off buf b = ok (b\<lparr>eb_field := F\<rparr>)" "length F = length (eb_field b)"
    by (auto simp: word_less_nat_alt)
  with buf_typed_field [OF assms(1)] show ?thesis by simp
qed

lemma typed_write:
  assumes "mp_typed G D m" and "G p = Some (W, n)" and "slot < n" and "unat off + unat sz \<le> W" and "unat sz \<le> length buf"
  shows "sure (endpoint_write p slot off buf sz m) (\<lambda>m1. mp_typed G D m1 \<and>
    (\<forall>e e1. ep_at m p = ok e \<longrightarrow> ep_at m1 p = ok e1 \<longrightarrow> eb_write_ptr (ep_buffer e1) = eb_write_ptr (ep_buffer e)))"
proof -
  from typed_ep [OF assms(1,2)] obtain e where e: "ep_at m p = ok e" and b: "buf_typed W (ep_buffer e)" "eb_size (ep_buffer e) = n"
    by blast
  from typed_write_loop [OF b(1), of slot off "unat sz" buf] assms(3-5) b(2) obtain b' where
    b': "endpoint_write_loop (unat sz) 0 slot off buf (ep_buffer e) = ok b'" "buf_typed W b'" "eb_size b' = n"
      "eb_write_ptr b' = eb_write_ptr (ep_buffer e)"
    by auto
  have "mp_typed G D (set_buf p e b' m)" unfolding set_buf_def
    by (rule typed_set_ep [OF assms(1,2)]) (simp_all add: b')
  then show ?thesis
    using e b' by (simp add: endpoint_write_def) (auto simp: set_buf_def set_ep_def ep_at_def split: if_splits)
qed

lemma typed_size:
  assumes "mp_typed G D m" and "G p = Some (W, n)" and "slot < n" and "(unat v + 3) div 4 \<le> W"
  shows "sure (set_data_size p slot v m) (mp_typed G D)"
proof -
  from typed_ep [OF assms(1,2)] obtain e where e: "ep_at m p = ok e" and b: "buf_typed W (ep_buffer e)" "eb_size (ep_buffer e) = n"
    by blast
  have "unat slot < length (eb_data_size (ep_buffer e))"
    using b assms(3) by (simp add: buf_typed_def ring_ok_def word_less_nat_alt)
  moreover have "mp_typed G D (set_buf p e ((ep_buffer e)\<lparr>eb_data_size := (eb_data_size (ep_buffer e))[unat slot := v]\<rparr>) m)"
    unfolding set_buf_def by (rule typed_set_ep [OF assms(1,2)]) (simp_all add: b buf_typed_size assms(4))
  ultimately show ?thesis using e by (simp add: set_data_size_def Let_def)
qed

lemma typed_push:
  assumes "mp_typed G D m" and "G p = Some (W, n)" and "ep_at m p = ok e" and "(unat v + 3) div 4 \<le> W"
  shows "sure (bnd (set_data_size p (eb_write_ptr (ep_buffer e)) v m) (\<lambda>m1.
    bnd (endpoint_push [] p m1) (\<lambda>(_, m2). ok m2))) (mp_typed G D)"
proof -
  from typed_ep [OF assms(1,2)] assms(3) have b: "buf_typed W (ep_buffer e)" "eb_size (ep_buffer e) = n" by auto
  let ?b = "(ep_buffer e)\<lparr>eb_data_size := (eb_data_size (ep_buffer e))[unat (eb_write_ptr (ep_buffer e)) := v]\<rparr>"
  have w: "unat (eb_write_ptr (ep_buffer e)) < length (eb_data_size (ep_buffer e))"
    using b(1) by (simp add: buf_typed_def ring_ok_def word_less_nat_alt)
  have p: "p \<noteq> 0" using assms(3) by (auto simp: ep_at_def)
  have "mp_typed G D (set_ep p (e\<lparr>ep_buffer := pushed ?b\<rparr>) m)"
    by (rule typed_set_ep [OF assms(1,2)]) (use buf_typed_push [OF b(1) assms(4)] in \<open>simp_all add: b(2)\<close>)
  moreover have "bnd (set_data_size p (eb_write_ptr (ep_buffer e)) v m) (\<lambda>m1. bnd (endpoint_push [] p m1) (\<lambda>(_, m2). ok m2)) =
      ok (set_ep p (e\<lparr>ep_buffer := pushed ?b\<rparr>) m)"
    using assms(3) w p
    by (simp add: set_data_size_def endpoint_push_def Let_def set_buf_def) (simp add: ep_at_def set_ep_def)
  ultimately show ?thesis by simp
qed

lemma typed_pop:
  assumes "mp_typed G D m" and "G p = Some (W, n)" and "ep_at m p = ok e"
    and "eb_write_ptr (ep_buffer e) \<noteq> eb_read_ptr (ep_buffer e)"
  shows "\<exists>m1. endpoint_pop [] p m = ok (eb_read_ptr (ep_buffer e), m1) \<and> mp_typed G D m1 \<and>
    ep_at m1 p = ok (e\<lparr>ep_buffer := popped (ep_buffer e)\<rparr>) \<and> m_handles m1 = m_handles m"
proof -
  from typed_ep [OF assms(1,2)] assms(3) have b: "buf_typed W (ep_buffer e)" "eb_size (ep_buffer e) = n" by auto
  have p: "p \<noteq> 0" using assms(3) by (auto simp: ep_at_def)
  have "mp_typed G D (set_ep p (e\<lparr>ep_buffer := popped (ep_buffer e)\<rparr>) m)"
    by (rule typed_set_ep [OF assms(1,2)]) (use buf_typed_pop [OF b(1) assms(4)] in \<open>simp_all add: b(2)\<close>)
  then show ?thesis
    using assms(3) p by (simp add: endpoint_pop_def set_buf_def) (simp add: set_ep_def ep_at_def)
qed

lemma typed_available:
  assumes "mp_typed G D m" and "G p = Some (W, n)"
  shows "\<exists>e a. ep_at m p = ok e \<and> buf_typed W (ep_buffer e) \<and> endpoint_msg_available p m = ok a \<and>
    (a \<longrightarrow> eb_write_ptr (ep_buffer e) \<noteq> eb_read_ptr (ep_buffer e))"
proof -
  from typed_ep [OF assms] obtain e where e: "ep_at m p = ok e" "buf_typed W (ep_buffer e)" by blast
  show ?thesis
  proof (cases "eb_write_ptr (ep_buffer e) = eb_read_ptr (ep_buffer e)")
    case True
    then show ?thesis using e by (intro exI [of _ e] exI [of _ False]) (simp add: endpoint_msg_available_def Let_def)
  next
    case False
    from buf_typed_head [OF e(2) False] e False show ?thesis by (auto simp: endpoint_msg_available_def Let_def)
  qed
qed

text \<open>Taking a message, and data of a channel with the credit that is sent back.\<close>

lemma typed_take_message:
  assumes "mp_typed G D m" and "G p \<noteq> None"
  shows "sure (op_run mal tile (TakeMessage p sz) m) (mp_typed G D)"
proof -
  from assms(2) obtain W n where G: "G p = Some (W, n)" by auto
  from typed_available [OF assms(1) G] obtain e a where e: "ep_at m p = ok e" and b: "buf_typed W (ep_buffer e)"
    and a: "endpoint_msg_available p m = ok a" "a \<longrightarrow> eb_write_ptr (ep_buffer e) \<noteq> eb_read_ptr (ep_buffer e)"
    by blast
  show ?thesis
  proof (cases a)
    case True
    with a have ne: "eb_write_ptr (ep_buffer e) \<noteq> eb_read_ptr (ep_buffer e)" by simp
    from buf_typed_head [OF b ne] obtain r where r: "buf_size_at (eb_read_ptr (ep_buffer e)) (ep_buffer e) = ok r"
      "(unat r + 3) div 4 \<le> W" "\<And>k. k \<le> W \<Longrightarrow> \<exists>ws. field_read_loop k 0 (eb_read_ptr (ep_buffer e)) (ep_buffer e) = ok ws"
      by blast
    have "W < 536870912" using b by (simp add: buf_typed_def)
    with r(2) have "unat r \<le> 2147483648" by linarith
    then have "unat (drop_bit 2 (r + 3)) \<le> W" using words_of_size [of r] r(2) by (simp add: word_le_nat_alt)
    from r(3) [OF this] obtain ws where
      ws: "field_read_loop (unat (drop_bit 2 (r + 3))) 0 (eb_read_ptr (ep_buffer e)) (ep_buffer e) = ok ws" by blast
    from typed_pop [OF assms(1) G e ne] obtain m1 where
      "endpoint_pop [] p m = ok (eb_read_ptr (ep_buffer e), m1)" "mp_typed G D m1"
      "ep_at m1 p = ok (e\<lparr>ep_buffer := popped (ep_buffer e)\<rparr>)" by blast
    then show ?thesis using True a e r(1) ws assms(1) by (simp add: endpoint_msg_take_def)
  next
    case False
    with a assms(1) show ?thesis by simp
  qed
qed

lemma typed_sendcredit:
  assumes "mp_typed G D m" and "D h = Some p" and "G p \<noteq> None"
  shows "sure (control_channel_sendcredit tile h c m) (mp_typed G D)"
proof -
  from assms(3) obtain W n where G: "G p = Some (W, n)" by auto
  from typed_ep [OF assms(1) G] obtain e where e: "ep_at m p = ok e" by blast
  from typed_handle [OF assms(1,2)] obtain x where x: "handle_at m h = ok x" "eh_ep x = p" by blast
  have "sure (cr_send 3 m1) (mp_typed G D)" if "mp_typed G D m1" for m1
    using that by (simp add: cr_send_def typed_send mp_typed_def)
  then show ?thesis
    using e x unfolding control_channel_sendcredit_def
    by (simp del: cr_puts.simps) (rule sure_bndI [OF typed_puts [OF assms(1)]]; simp)
qed

lemma typed_take_channel:
  assumes "mp_typed G D m" and "D h = Some p" and "G p \<noteq> None"
  shows "sure (op_run mal tile (TakeChannel h sz) m) (mp_typed G D)"
proof -
  from assms(3) obtain W n where G: "G p = Some (W, n)" by auto
  from typed_available [OF assms(1) G] obtain e a where e: "ep_at m p = ok e" and b: "buf_typed W (ep_buffer e)"
    and a: "endpoint_msg_available p m = ok a" "a \<longrightarrow> eb_write_ptr (ep_buffer e) \<noteq> eb_read_ptr (ep_buffer e)"
    by blast
  from typed_handle [OF assms(1,2)] obtain x where x: "handle_at m h = ok x" "eh_ep x = p" by blast
  have ne: "not_empty p m = ok a" using a by (simp add: not_empty_def endpoint_empty_def)
  show ?thesis
  proof (cases a)
    case True
    with a have wr: "eb_write_ptr (ep_buffer e) \<noteq> eb_read_ptr (ep_buffer e)" by simp
    let ?r = "eb_read_ptr (ep_buffer e)" and ?b = "popped (ep_buffer e)"
    from buf_typed_head [OF b wr] obtain r where r: "buf_size_at ?r (ep_buffer e) = ok r"
      "(unat r + 3) div 4 \<le> W" "\<And>k. k \<le> W \<Longrightarrow> \<exists>ws. field_read_loop k 0 ?r (ep_buffer e) = ok ws"
      by blast
    have cp: "\<exists>bs. copy_slot k ?r ?b = ok bs" if "k \<le> unat r" for k
    proof -
      have "(k + 3) div 4 \<le> W" using that r(2) by (meson add_le_mono1 div_le_mono le_trans)
      from r(3) [OF this] obtain ws where "field_read_loop ((k + 3) div 4) 0 ?r (ep_buffer e) = ok ws" by blast
      then show ?thesis by (simp add: copy_slot_def)
    qed
    let ?k = "if r \<le> sz then r else sz"
    have "unat ?k \<le> unat r" by (simp add: word_le_nat_alt)
    from cp [OF this] obtain bs where bs: "copy_slot (unat ?k) ?r ?b = ok bs" by blast
    from typed_pop [OF assms(1) G e wr] obtain m1 where m1: "endpoint_pop [] p m = ok (?r, m1)" "mp_typed G D m1"
      "ep_at m1 p = ok (e\<lparr>ep_buffer := ?b\<rparr>)" by blast
    have r1: "buf_size_at ?r ?b = ok r" using r(1) by (simp add: buf_size_at_def split: if_splits)
    show ?thesis
      using True x ne m1 r1 bs typed_sendcredit [OF m1(2) assms(2,3), of tile 1]
      by (auto simp: channel_take_def sure_bnd split: if_splits)
  next
    case False
    with x ne assms(1) show ?thesis by simp
  qed
qed

subsection \<open>The handler\<close>

lemma typed_getep:
  assumes "mp_typed G D m" and "5 \<le> length buf"
  shows "sure (handle_getep mal tile src buf m) (mp_typed G D)"
proof -
  from assms(1) obtain as where l: "list_ok m as" by (auto simp: mp_typed_def)
  let ?P = "\<lambda>a. let h = the (m_handles m (elem_handle m a)) in eh_domain h = tile \<and> eh_node h = buf ! 1 \<and> eh_port h = buf ! 2"
  let ?r = "case List.find ?P as of None \<Rightarrow> 0 | Some a \<Rightarrow> elem_handle m a"
  have g: "endpoint_get mal tile (\<lambda>_. None) tile (buf ! 1) (buf ! 2) () m = ok (?r, (), m)"
    using lookup_eq [of m "eplist_first m" as tile "buf ! 1" "buf ! 2"] l by (simp add: endpoint_get_def list_ok_def)
  have h: "\<exists>x. handle_at m ?r = ok x" if "?r \<noteq> 0"
  proof -
    from that obtain a where a: "List.find ?P as = Some a" by (cases "List.find ?P as") simp_all
    then have "a \<in> set as" by (auto simp: find_Some_iff)
    with l a show ?thesis by (auto simp: list_ok_def handle_at_def)
  qed
  have "buf_at buf 1 = ok (buf ! 1)" "buf_at buf 2 = ok (buf ! 2)" using assms(2) by (simp_all add: buf_at_def)
  moreover have "sure (mp_send 1 2 [x, y] m) (mp_typed G D)" for x y by (rule typed_send [OF assms(1)]) simp
  ultimately show ?thesis
    using g h unfolding handle_getep_def by (cases "?r = 0") (auto simp del: list_ok_def)
qed

lemma typed_connect:
  assumes "mp_typed G D m" and "G p = Some (W, n)" and "ep_at m p = ok e"
  shows "mp_typed G D (set_ep p (e\<lparr>ep_remotedomain := d, ep_remote := x\<rparr>) m)"
    and "mp_typed G D (set_ep p (e\<lparr>ep_remotecredit := c\<rparr>) m)"
  using typed_ep [OF assms(1,2)] assms(3) by (auto intro!: typed_set_ep [OF assms(1,2)])

lemma typed_chan_data:
  assumes "mp_typed G D m" and "5 \<le> length buf" and "4 + unat (len - 4) \<le> length buf" and "G (buf ! 1) = Some (W, n)"
    and "unat (buf ! 2) + unat (len - 4) \<le> W" and "(unat (buf ! 2 * 4 + buf ! 3) + 3) div 4 \<le> W"
  shows "sure (handle_chan_data buf len m) (mp_typed G D)"
proof -
  from typed_ep [OF assms(1,4)] obtain e where e: "ep_at m (buf ! 1) = ok e" and b: "buf_typed W (ep_buffer e)" "eb_size (ep_buffer e) = n"
    by blast
  let ?w = "eb_write_ptr (ep_buffer e)"
  have w: "?w < n" using b by (simp add: buf_typed_def ring_ok_def)
  have at: "buf_at buf 1 = ok (buf ! 1)" "buf_at buf 2 = ok (buf ! 2)" "buf_at buf 3 = ok (buf ! 3)"
    using assms(2) by (simp_all add: buf_at_def)
  have wr: "sure (endpoint_write (buf ! 1) ?w (buf ! 2) (drop 4 buf) (len - 4) m) (\<lambda>m1. mp_typed G D m1 \<and>
    (\<forall>e0 e1. ep_at m (buf ! 1) = ok e0 \<longrightarrow> ep_at m1 (buf ! 1) = ok e1 \<longrightarrow> eb_write_ptr (ep_buffer e1) = eb_write_ptr (ep_buffer e0)))"
    by (rule typed_write [OF assms(1,4) w assms(5)]) (use assms(3) in simp)
  show ?thesis
    unfolding handle_chan_data_def at e bnd_simps Let_def
  proof (rule sure_bndI [OF wr])
    fix m1 assume m1: "mp_typed G D m1 \<and> (\<forall>e0 e1. ep_at m (buf ! 1) = ok e0 \<longrightarrow> ep_at m1 (buf ! 1) = ok e1 \<longrightarrow>
      eb_write_ptr (ep_buffer e1) = eb_write_ptr (ep_buffer e0))"
    then have t: "mp_typed G D m1" by simp
    from typed_ep [OF t assms(4)] obtain e1 where e1: "ep_at m1 (buf ! 1) = ok e1" by blast
    with m1 e have "eb_write_ptr (ep_buffer e1) = ?w" by blast
    with typed_push [OF t assms(4) e1 assms(6)] t
    show "sure (if buf ! 3 \<noteq> 0 then bnd (set_data_size (buf ! 1) ?w (buf ! 2 * 4 + buf ! 3) m1)
        (\<lambda>m2. bnd (endpoint_push [] (buf ! 1) m2) (\<lambda>(_, m3). ok m3)) else ok m1) (mp_typed G D)"
      by simp
  qed
qed

lemma typed_packet:
  assumes "mp_typed G D m" and "packet_typed G buf len"
  shows "sure (control_msg_handler mal tile buf len m) (mp_typed G D)"
proof -
  let ?req = "extract_bits (buf ! 0) CTRL_REQUEST_MSB CTRL_REQUEST_LSB"
  have l: "5 \<le> length buf" using assms(2) by (simp add: packet_typed_def)
  then have at: "buf_at buf 0 = ok (buf ! 0)" "buf_at buf 1 = ok (buf ! 1)" "buf_at buf 2 = ok (buf ! 2)" "buf_at buf 3 = ok (buf ! 3)"
    by (auto simp: buf_at_def)
  note P = assms(2) [unfolded packet_typed_def Let_def, THEN conjunct2]
  consider "?req = GETEP_REQ" | "?req = MSG_ALLOC_REQ" | "?req = MSG_DATA" | "?req = MSG_COMPLETE" | "?req = CHAN_CONNECT_REQ"
    | "?req = CHAN_DATA" | "?req = CHAN_CREDIT" | "?req = GETEP_RESP \<or> ?req = MSG_ALLOC_RESP \<or> ?req = CHAN_CONNECT_RESP"
    | "?req \<notin> {0, 1, 2, 3, 4, 5, 6, 7, 8, 9}"
    by auto
  then show ?thesis
  proof cases
    case 1
    then show ?thesis using typed_getep [OF assms(1) l] at by (simp add: control_msg_handler_def)
  next
    case 2
    with P obtain W n where G: "G (buf ! 1) = Some (W, n)" by auto
    have "sure (handle_alloc tile src buf m) (mp_typed G D)" for src
      unfolding handle_alloc_def at bnd_simps
    proof (rule sure_bndI [OF typed_alloc [OF assms(1) G]])
      fix x :: "u32 option \<times> mpm" assume "case x of (_, m1) \<Rightarrow> mp_typed G D m1"
      then show "sure (case x of (rv, m1) \<Rightarrow> let h = ctrl_header src tile MSG_ALLOC_RESP in
         case rv of Some p \<Rightarrow> mp_send 1 3 [h, CTRL_REQUEST_ACK, p] m1 | None \<Rightarrow> mp_send 1 2 [h, CTRL_REQUEST_NACK] m1) (mp_typed G D)"
        by (auto simp: Let_def typed_send split: option.splits)
    qed
    with 2 at show ?thesis by (simp add: control_msg_handler_def)
  next
    case 3
    with P obtain W n where G: "G (buf ! 1) = Some (W, n)" "buf ! 2 < n" "unat (buf ! 3) + unat (len - 4) \<le> W"
      "4 + unat (len - 4) \<le> length buf" by auto
    have "sure (handle_msg_data buf len m) (mp_typed G D)"
      unfolding handle_msg_data_def at bnd_simps
      by (rule sure_mono [OF typed_write [OF assms(1) G(1-3)]]) (use G(4) in simp_all)
    with 3 at show ?thesis by (simp add: control_msg_handler_def)
  next
    case 4
    with P obtain W n where G: "G (buf ! 1) = Some (W, n)" "buf ! 2 < n" "(unat (buf ! 3) + 3) div 4 \<le> W" by auto
    from 4 at typed_size [OF assms(1) G] show ?thesis
      by (simp add: control_msg_handler_def handle_complete_def endpoint_write_complete_def)
  next
    case 5
    with P obtain W n where G: "G (buf ! 1) = Some (W, n)" by auto
    from typed_ep [OF assms(1) G] obtain e where e: "ep_at m (buf ! 1) = ok e" by blast
    then have e1: "ep_at (set_ep (buf ! 1) f m) (buf ! 1) = ok f" for f by (auto simp: ep_at_def set_ep_def)
    from 5 at e e1 typed_connect(1) [OF assms(1) G e] show ?thesis
      by (simp add: control_msg_handler_def handle_connect_def endpoint_channel_get_credit_def Let_def typed_send)
  next
    case 6
    with P obtain W n where G: "G (buf ! 1) = Some (W, n)" "unat (buf ! 2) + unat (len - 4) \<le> W"
      "(unat (buf ! 2 * 4 + buf ! 3) + 3) div 4 \<le> W" "4 + unat (len - 4) \<le> length buf" by auto
    with 6 at typed_chan_data [OF assms(1) l G(4,1-3)] show ?thesis by (simp add: control_msg_handler_def)
  next
    case 7
    with P obtain W n where G: "G (buf ! 1) = Some (W, n)" by auto
    from typed_ep [OF assms(1) G] obtain e where e: "ep_at m (buf ! 1) = ok e" by blast
    from 7 at e typed_connect(2) [OF assms(1) G e] show ?thesis
      by (simp add: control_msg_handler_def handle_credit_def)
  next
    case 8
    have "sure (handle_response buf m) (mp_typed G D)"
      using l typed_puts [OF assms(1), of "take 5 buf"] by (simp add: handle_response_def sure_bnd)
    with 8 at show ?thesis by (auto simp: control_msg_handler_def)
  next
    case 9
    with at assms(1) show ?thesis by (simp add: control_msg_handler_def)
  qed
qed

subsection \<open>Creation extends the typing\<close>

lemma endpoint_add_buffer: "endpoint_add mal h m = ok m1 \<Longrightarrow> cr_buffer m1 = cr_buffer m"
  by (auto simp: endpoint_add_def Let_def bnd_ok_iff split: if_splits)

lemma typed_create:
  assumes "mp_typed G D m" and "alloc_ok mal" and "0 < n" and "unat n \<le> 2 ^ 20"
    and "endpoint_create mal junk tile node port bt n 0 m = ok (h, m1)"
  shows "\<exists>ep. G ep = None \<and> D h = None \<and> mp_typed (G(ep \<mapsto> (16, n))) (D(h \<mapsto> ep)) m1"
proof -
  define r where "r = endpoint_create mal junk tile node port bt n 0 m"
  from endpoint_create_eq [OF assms(2,4) r_def] assms(5) obtain ep X h1 m2 where
    m2: "m2 = set_ep ep \<lparr>ep_buffer = new_buf junk 64 n, ep_flags = junk 0, ep_remotedomain = junk 1,
           ep_remote = junk 2, ep_remotecredit = junk 3\<rparr> (m\<lparr>m_blocks := X\<rparr>)"
    and ep: "ep \<noteq> 0" "m_eps m ep = None" and h1: "h1 \<noteq> 0" "m_handles m h1 = None"
    and add: "ok (h, m1) = bnd (endpoint_add mal h1 (m2\<lparr>m_handles := (m_handles m2)(h1 \<mapsto>
          \<lparr>eh_type = junk 4, eh_ep = ep, eh_domain = tile, eh_node = node, eh_port = port\<rparr>)\<rparr>)) (\<lambda>m. ok (h1, m))"
    unfolding r_def by auto
  let ?m3 = "m2\<lparr>m_handles := (m_handles m2)(h1 \<mapsto> \<lparr>eh_type = junk 4, eh_ep = ep, eh_domain = tile, eh_node = node, eh_port = port\<rparr>)\<rparr>"
  from add have a: "endpoint_add mal h1 ?m3 = ok m1" and h: "h = h1" by (auto simp: bnd_ok_iff dest: sym)
  from assms(1) obtain as where "list_ok m as" by (auto simp: mp_typed_def)
  then have "list_ok m2 as" by (simp add: m2)
  then have l3: "list_ok ?m3 as" by (rule list_ok_new_handle) (simp add: m2 set_ep_def h1)
  from endpoint_add_ok [OF l3 assms(2) h1(1)] a obtain e where
    m1: "list_ok m1 (as @ [e])" "m_eps m1 = m_eps ?m3" "m_handles m1 = m_handles ?m3" by auto
  have cr: "cr_buffer m1 = cr_buffer m" using endpoint_add_buffer [OF a] by (simp add: m2 set_ep_def)
  have b: "buf_typed 16 (new_buf junk 64 n)" "eb_size (new_buf junk 64 n) = n"
    using new_buf_holds [OF assms(3,4), of junk] by (simp_all add: holds_def buf_typed_def) (simp add: new_buf_def)
  have G: "G ep = None"
  proof (cases "G ep")
    case (Some x)
    then show ?thesis using assms(1) ep by (cases x) (fastforce simp: mp_typed_def)
  qed
  have D: "D h = None"
  proof (cases "D h")
    case (Some x)
    then show ?thesis using assms(1) h1 h by (fastforce simp: mp_typed_def)
  qed
  have "mp_typed (G(ep \<mapsto> (16, n))) (D(h \<mapsto> ep)) m1"
    unfolding mp_typed_def
  proof (intro conjI allI impI)
    fix p W k assume p: "(G(ep \<mapsto> (16, n))) p = Some (W, k)"
    show "p \<noteq> 0" using p ep assms(1) by (cases "p = ep") (auto simp: mp_typed_def)
    show "\<exists>e. m_eps m1 p = Some e \<and> buf_typed W (ep_buffer e) \<and> eb_size (ep_buffer e) = k"
      using p b assms(1) by (cases "p = ep") (auto simp: mp_typed_def m1(2) m2 set_ep_def)
  next
    fix x p assume x: "(D(h \<mapsto> ep)) x = Some p"
    show "x \<noteq> 0" using x h h1 assms(1) by (cases "x = h") (auto simp: mp_typed_def)
    show "\<exists>y. m_handles m1 x = Some y \<and> eh_ep y = p"
      using x h assms(1) by (cases "x = h") (auto simp: mp_typed_def m1(3) m2 set_ep_def)
  next
    show "\<exists>as. list_ok m1 as" using m1(1) by blast
    show "length (cr_buffer m1) = 16" using cr assms(1) by (simp add: mp_typed_def)
  qed
  with G D show ?thesis by blast
qed

lemma typed_start: "mp_typed Map.empty Map.empty mp0"
  using list_ok_mp0 by (auto simp: mp_typed_def mp0_def)

subsection \<open>Type safety\<close>

text \<open>
  C10: the memory of the library is type safe. When the packets that arrive name existing endpoints and slots and
  their words fit the slot they name, then any sequence of packets and of takings of messages and
  of channel data by programs returns, without an access outside of a slot, a ring or a freed
  structure, and every ring, message and handle keeps its type.
\<close>

theorem mp_type_safe:
  assumes "mp_typed G D m" and "\<forall>x \<in> set xs. op_typed G D x"
  shows "\<exists>m'. ops_run mal tile xs m = ok m' \<and> mp_typed G D m'"
proof -
  have step: "sure (op_run mal tile x s) (mp_typed G D)" if "mp_typed G D s" "op_typed G D x" for x s
    using that typed_packet [OF that(1)] typed_take_message [OF that(1)] typed_take_channel [OF that(1)]
    by (cases x) auto
  have "sure (ops_run mal tile xs m) (mp_typed G D)"
    using assms
  proof (induction xs arbitrary: m)
    case (Cons x xs)
    from Cons.prems have "op_typed G D x" "\<forall>x \<in> set xs. op_typed G D x" by simp_all
    with Cons.IH step [OF Cons.prems(1)] show ?case
      unfolding ops_run.simps by (intro sure_bndI) blast+
  qed simp
  then show ?thesis by (simp add: sure_def)
qed

text \<open>A message and a packet of a channel on an endpoint with four slots.\<close>

theorem mp_type_safe_witness:
  "\<exists>m'. ops_run (first_fit 9) 2
     [Packet [ctrl_header 2 1 2, 6, 8, 0, 0] 3, Packet [ctrl_header 2 1 4, 6, 0, 0, 0x61626364, 0] 5,
      Packet [ctrl_header 2 1 5, 6, 0, 4, 0] 4, TakeMessage 6 64,
      Packet [ctrl_header 2 1 8, 6, 0, 4, 0x61626364] 5, TakeChannel 4 64] demo_rcv = ok m' \<and>
     mp_typed [6 \<mapsto> (16, 4)] [4 \<mapsto> 6] m'"
proof -
  have b: "buf_typed 16 (new_buf (\<lambda>_. 0) 64 4)" "eb_size (new_buf (\<lambda>_. 0) 64 4) = 4"
    using new_buf_holds [of 4 "\<lambda>_. 0"] by (simp_all add: holds_def buf_typed_def) (simp add: new_buf_def)
  have "list_ok demo_rcv []" by (simp add: list_ok_def demo_rcv_def mp0_def)
  then have t: "mp_typed [6 \<mapsto> (16, 4)] [4 \<mapsto> 6] demo_rcv"
    using b by (auto simp: mp_typed_def demo_rcv_def demo_ep_def) (simp add: mp0_def)
  show ?thesis
    by (rule mp_type_safe [OF t])
      (simp add: packet_typed_def ctrl_header_fields [where tile = 1, simplified] Let_def)
qed

end
