(* ===== verification/Taskdir.thy ===== *)
theory Taskdir
  imports Baremetal
begin

section \<open>The task directory of an application (gzll-kernel: taskdir.c, mp.c)\<close>

text \<open>
  For each application every tile keeps a table from task numbers to the rank and the node
  number of the task. The table grows by \<open>realloc\<close>; what the new entries hold beyond the two
  fields the code sets is unknown until a task is registered there.
\<close>

subsection \<open>Data\<close>

datatype cstr = NullStr | JunkStr | Str string

record app_node =
  an_identifier :: cstr
  an_rank :: u32
  an_nodeid :: u32
  an_endpoints :: "ptr list option"

record taskdir =
  td_lock :: u32
  td_size :: u32
  td_tasks :: "app_node list"

abbreviation (input) TASKDIR_INVALID_NODEID :: u32 where "TASKDIR_INVALID_NODEID \<equiv> 0xffffffff"
abbreviation (input) TASKDIR_INVALID_RANK :: u32 where "TASKDIR_INVALID_RANK \<equiv> 0xffff"

definition locked :: "taskdir \<Rightarrow> (taskdir \<Rightarrow> 'a exec) \<Rightarrow> 'a exec" where
  "locked d f = (case optimsoc_mutex_lock [] (td_lock d) of None \<Rightarrow> None | Some w \<Rightarrow> f (d\<lparr>td_lock := w\<rparr>))"

definition unlock :: "taskdir \<Rightarrow> taskdir" where
  "unlock d = d\<lparr>td_lock := optimsoc_mutex_unlock (td_lock d)\<rparr>"

definition td_at :: "u32 \<Rightarrow> taskdir \<Rightarrow> app_node exec" where
  "td_at i d = (if unat i < length (td_tasks d) then ok (td_tasks d ! unat i) else flt OutOfBounds)"

definition td_put :: "u32 \<Rightarrow> app_node \<Rightarrow> taskdir \<Rightarrow> taskdir" where
  "td_put i a d = d\<lparr>td_tasks := (td_tasks d)[unat i := a]\<rparr>"

subsection \<open>Endpoint tables (mp.c)\<close>

text \<open>The table is not checked for \<open>NULL\<close> before its length is set.\<close>

definition endpoint_table_init :: "bool \<Rightarrow> ptr list option exec" where
  "endpoint_table_init got = (if got then ok (Some (replicate 8 0)) else flt NullDeref)"

definition endpoint_table_add :: "ptr list option \<Rightarrow> u32 \<Rightarrow> ptr \<Rightarrow> ptr list option exec" where
  "endpoint_table_add table port endpoint =
     (case table of None \<Rightarrow> flt Uninit
      | Some eps \<Rightarrow> bnd (assert_c (unat port < length eps)) (\<lambda>_. ok (Some (eps[unat port := endpoint]))))"

subsection \<open>Operations\<close>

definition taskdir_initialize :: taskdir where
  "taskdir_initialize = \<lparr>td_lock = optimsoc_mutex_init 0, td_size = 0, td_tasks = []\<rparr>"

definition taskdir_task_delete :: "u32 \<Rightarrow> taskdir \<Rightarrow> (int \<times> taskdir) exec" where
  "taskdir_task_delete taskid d = locked d (\<lambda>d.
     if taskid < td_size d then
       bnd (td_at taskid d) (\<lambda>e.
         if an_rank e \<noteq> TASKDIR_INVALID_RANK \<and> an_nodeid e \<noteq> TASKDIR_INVALID_NODEID
         then ok (0, unlock (td_put taskid
           (e\<lparr>an_rank := TASKDIR_INVALID_RANK, an_nodeid := TASKDIR_INVALID_NODEID\<rparr>) d))
         else ok (-1, unlock d))
     else ok (-1, unlock d))"

text \<open>
  Growing to \<open>taskid + 1\<close> entries of sixteen bytes; the product is computed in 32 bits. The
  answers \<open>al\<close> say whether the first, second and third allocation (\<open>realloc\<close>, \<open>strdup\<close>,
  \<open>calloc\<close>) succeed.
\<close>

definition taskdir_grow :: "bool \<Rightarrow> u32 \<Rightarrow> taskdir \<Rightarrow> taskdir exec" where
  "taskdir_grow got taskid d =
     (let new_size = taskid + 1 in
      if \<not> got then flt NoMem
      else if unat (new_size * 16) div 16 < unat new_size \<or> new_size < td_size d then flt OutOfBounds
      else
        let fresh = \<lparr>an_identifier = JunkStr, an_rank = TASKDIR_INVALID_RANK,
                     an_nodeid = TASKDIR_INVALID_NODEID, an_endpoints = None\<rparr>
        in ok (d\<lparr>td_tasks := take (unat (td_size d)) (td_tasks d) @ replicate (unat new_size - unat (td_size d)) fresh,
                 td_size := new_size\<rparr>))"

definition taskdir_task_register ::
    "(nat \<Rightarrow> bool) \<Rightarrow> u32 \<Rightarrow> string \<Rightarrow> u32 \<Rightarrow> u32 \<Rightarrow> taskdir \<Rightarrow> (int \<times> taskdir) exec" where
  "taskdir_task_register al taskid identifier rank nodeid d = locked d (\<lambda>d.
     bnd (if taskid \<ge> td_size d then taskdir_grow (al 0) taskid d else ok d) (\<lambda>d.
     bnd (td_at taskid d) (\<lambda>e.
       if an_rank e = TASKDIR_INVALID_RANK \<and> an_nodeid e = TASKDIR_INVALID_NODEID then
         bnd (endpoint_table_init (al 2)) (\<lambda>t.
           ok (0, unlock (td_put taskid
             (e\<lparr>an_rank := rank, an_nodeid := nodeid,
                an_identifier := (if al 1 then Str identifier else NullStr), an_endpoints := t\<rparr>) d)))
       else ok (-1, unlock d))))"

definition taskdir_task_remap ::
    "u32 \<Rightarrow> u32 \<Rightarrow> u32 \<Rightarrow> u32 \<Rightarrow> u32 \<Rightarrow> taskdir \<Rightarrow> (int \<times> taskdir) exec" where
  "taskdir_task_remap taskid old_rank new_rank old_nodeid new_nodeid d = locked d (\<lambda>d.
     if taskid < td_size d then
       bnd (td_at taskid d) (\<lambda>e.
         if an_rank e = old_rank \<and> an_nodeid e = old_nodeid
         then ok (0, unlock (td_put taskid (e\<lparr>an_rank := new_rank, an_nodeid := new_nodeid\<rparr>) d))
         else ok (-1, unlock d))
     else ok (-1, unlock d))"

text \<open>The rank and the node number are results, \<open>None\<close> when they are not written.\<close>

definition taskdir_mapping_lookup :: "u32 \<Rightarrow> taskdir \<Rightarrow> (int \<times> (u32 \<times> u32) option \<times> taskdir) exec" where
  "taskdir_mapping_lookup taskid d = locked d (\<lambda>d.
     if taskid < td_size d then
       bnd (td_at taskid d) (\<lambda>e.
         if an_rank e \<noteq> TASKDIR_INVALID_RANK \<and> an_nodeid e \<noteq> TASKDIR_INVALID_NODEID
         then ok (0, Some (an_rank e, an_nodeid e), unlock d)
         else ok (-1, None, unlock d))
     else ok (-1, None, unlock d))"

definition strcmp_eq :: "cstr \<Rightarrow> string \<Rightarrow> bool exec" where
  "strcmp_eq c s = (case c of NullStr \<Rightarrow> flt NullDeref | JunkStr \<Rightarrow> flt Uninit | Str t \<Rightarrow> ok (t = s))"

fun taskid_search :: "app_node list \<Rightarrow> u32 \<Rightarrow> string \<Rightarrow> u32 option exec" where
  "taskid_search [] i identifier = ok None"
| "taskid_search (e # es) i identifier =
     bnd (strcmp_eq (an_identifier e) identifier) (\<lambda>b.
       if b then ok (Some i) else taskid_search es (i + 1) identifier)"

definition taskdir_taskid_lookup :: "string \<Rightarrow> taskdir \<Rightarrow> (int \<times> u32 option \<times> taskdir) exec" where
  "taskdir_taskid_lookup identifier d = locked d (\<lambda>d.
     bnd (taskid_search (take (unat (td_size d)) (td_tasks d)) 0 identifier) (\<lambda>r.
       ok (if r = None then -1 else 0, r, unlock d)))"

subsection \<open>The directory as a partial map\<close>

definition td_free :: "app_node \<Rightarrow> bool" where
  "td_free e \<longleftrightarrow> an_rank e = TASKDIR_INVALID_RANK \<and> an_nodeid e = TASKDIR_INVALID_NODEID"

definition td_used :: "app_node \<Rightarrow> bool" where
  "td_used e \<longleftrightarrow> an_rank e \<noteq> TASKDIR_INVALID_RANK \<and> an_nodeid e \<noteq> TASKDIR_INVALID_NODEID"

text \<open>An entry is free or in use; the code has no operation for one that is neither.\<close>

definition td_wf :: "taskdir \<Rightarrow> bool" where
  "td_wf d \<longleftrightarrow> td_lock d = 0 \<and> length (td_tasks d) = unat (td_size d) \<and> (\<forall>e \<in> set (td_tasks d). td_free e \<or> td_used e)"

definition td_map :: "taskdir \<Rightarrow> u32 \<Rightarrow> (u32 \<times> u32) option" where
  "td_map d t =
     (if t < td_size d \<and> td_used (td_tasks d ! unat t)
      then Some (an_rank (td_tasks d ! unat t), an_nodeid (td_tasks d ! unat t)) else None)"

lemma locked_free: "td_lock d = 0 \<Longrightarrow> locked d f = f (d\<lparr>td_lock := 1\<rparr>)"
  by (simp add: locked_def)

lemma td_at_less: "td_wf d \<Longrightarrow> t < td_size d \<Longrightarrow> td_at t (d\<lparr>td_lock := x\<rparr>) = ok (td_tasks d ! unat t)"
  by (simp add: td_at_def td_wf_def word_less_nat_alt)

lemma td_wf_nth: "td_wf d \<Longrightarrow> t < td_size d \<Longrightarrow> td_free (td_tasks d ! unat t) \<or> td_used (td_tasks d ! unat t)"
  by (simp add: td_wf_def word_less_nat_alt)

lemma unlock_locked: "td_lock d = 0 \<Longrightarrow> unlock (d\<lparr>td_lock := 1\<rparr>) = d"
  by (simp add: unlock_def optimsoc_mutex_unlock_def)

lemma unlock_put: "td_lock d = 0 \<Longrightarrow> unlock (td_put t e (d\<lparr>td_lock := 1\<rparr>)) = td_put t e d"
  by (simp add: unlock_def td_put_def optimsoc_mutex_unlock_def)

lemma td_put_wf: "td_wf d \<Longrightarrow> td_free e \<or> td_used e \<Longrightarrow> td_wf (td_put t e d)"
  by (auto simp: td_wf_def td_put_def dest!: subsetD [OF set_update_subset_insert])

lemma td_put_map:
  assumes "td_wf d" and "t < td_size d"
  shows "td_map (td_put t e d) = (td_map d)(t := if td_used e then Some (an_rank e, an_nodeid e) else None)"
proof (rule ext)
  fix u
  have "unat t < length (td_tasks d)" using assms by (simp add: td_wf_def word_less_nat_alt)
  then show "td_map (td_put t e d) u = ((td_map d)(t := if td_used e then Some (an_rank e, an_nodeid e) else None)) u"
  proof (cases "u = t")
    case True
    with \<open>unat t < length (td_tasks d)\<close> assms(2) show ?thesis by (simp add: td_map_def td_put_def)
  next
    case False
    then have "unat u \<noteq> unat t" by (simp add: word_unat_eq_iff)
    with False show ?thesis by (simp add: td_map_def td_put_def)
  qed
qed

lemma grow_ok:
  assumes "td_wf d" and "td_size d \<le> t" and "t < 2 ^ 28 - 1"
  shows "\<exists>d'. taskdir_grow True t (d\<lparr>td_lock := 1\<rparr>) = ok (d'\<lparr>td_lock := 1\<rparr>) \<and> td_wf d' \<and> td_map d' = td_map d \<and>
    t < td_size d' \<and> td_free (td_tasks d' ! unat t)"
proof -
  have t: "unat t < 2 ^ 28 - 1" "unat (td_size d) \<le> unat t"
    using assms(2,3) by (simp_all add: word_less_nat_alt word_le_nat_alt)
  have n: "unat (t + 1) = unat t + 1" using t by (simp add: unat_word_ariths)
  have n16: "unat ((t + 1) * 16) = unat (t + 1) * 16" using t n by (simp add: unat_word_ariths)
  let ?f = "\<lparr>an_identifier = JunkStr, an_rank = TASKDIR_INVALID_RANK,
                     an_nodeid = TASKDIR_INVALID_NODEID, an_endpoints = None\<rparr>"
  let ?d = "d\<lparr>td_tasks := td_tasks d @ replicate (unat (t + 1) - unat (td_size d)) ?f, td_size := t + 1\<rparr>"
  have l: "length (td_tasks d) = unat (td_size d)" using assms(1) by (simp add: td_wf_def)
  have ge: "\<not> t + 1 < td_size d" using t n by (simp add: word_less_nat_alt)
  have "taskdir_grow True t (d\<lparr>td_lock := 1\<rparr>) = ok (?d\<lparr>td_lock := 1\<rparr>)"
    using n16 ge l by (simp add: taskdir_grow_def Let_def)
  moreover have "td_wf ?d"
    using assms(1) t n l by (auto simp: td_wf_def td_free_def)
  moreover have "td_map ?d u = td_map d u" for u
  proof (cases "u < td_size d")
    case True
    then have "u < t + 1" using t n by (simp add: word_less_nat_alt)
    with True l show ?thesis by (simp add: td_map_def nth_append word_less_nat_alt)
  next
    case False
    then show ?thesis
      using l by (auto simp: td_map_def nth_append word_less_nat_alt td_used_def n)
  qed
  moreover have "t < t + 1" using n by (simp add: word_less_nat_alt)
  moreover have "td_free (td_tasks ?d ! unat t)"
    using l t n by (simp add: nth_append td_free_def)
  ultimately show ?thesis by (intro exI [of _ ?d]) auto
qed

subsection \<open>Properties\<close>

lemma map_none_iff: "td_wf d \<Longrightarrow> t < td_size d \<Longrightarrow> td_map d t = None \<longleftrightarrow> td_free (td_tasks d ! unat t)"
  using td_wf_nth [of d t] by (auto simp: td_map_def td_free_def td_used_def)

lemma wf_lock: "td_wf d \<Longrightarrow> td_lock d = 0"
  by (simp add: td_wf_def)

lemma register_refines:
  assumes w: "td_wf d" and t: "t < 2 ^ 28 - 1" and al: "\<forall>i. al i"
    and r: "r \<noteq> TASKDIR_INVALID_RANK" and n: "n \<noteq> TASKDIR_INVALID_NODEID"
  shows "\<exists>d'. taskdir_task_register al t name r n d = ok (if td_map d t = None then 0 else -1, d') \<and> td_wf d' \<and>
    td_map d' = (if td_map d t = None then (td_map d)(t \<mapsto> (r, n)) else td_map d)"
proof -
  obtain d1 where d1: "(if t \<ge> td_size d then taskdir_grow (al 0) t (d\<lparr>td_lock := 1\<rparr>) else ok (d\<lparr>td_lock := 1\<rparr>)) =
      ok (d1\<lparr>td_lock := 1\<rparr>)" "td_wf d1" "td_map d1 = td_map d" "t < td_size d1"
  proof (cases "t \<ge> td_size d")
    case True
    from grow_ok [OF w True t] al that True show ?thesis by auto
  next
    case False
    with w that [of d] show ?thesis by simp
  qed
  let ?e = "td_tasks d1 ! unat t"
  let ?e' = "?e\<lparr>an_rank := r, an_nodeid := n, an_identifier := Str name, an_endpoints := Some (replicate 8 0)\<rparr>"
  have u: "td_used ?e'" using r n by (simp add: td_used_def)
  note free = map_none_iff [OF d1(2,4)]
  have reg: "taskdir_task_register al t name r n d =
      (if td_free ?e then ok (0, td_put t ?e' d1) else ok (-1, d1))"
    using d1(1) al wf_lock [OF w] wf_lock [OF d1(2)]
    by (simp add: taskdir_task_register_def locked_free td_at_less [OF d1(2,4)] endpoint_table_init_def td_free_def
        unlock_put unlock_locked)
  show ?thesis
  proof (cases "td_map d t = None")
    case True
    with free d1(3) have "td_free ?e" by simp
    with reg True u td_put_wf [OF d1(2), of ?e' t] td_put_map [OF d1(2,4), of ?e'] d1(3) show ?thesis
      by simp
  next
    case False
    with free d1(3) have "\<not> td_free ?e" by simp
    with reg False d1 show ?thesis by simp
  qed
qed

lemma used_iff: "td_wf d \<Longrightarrow> t < td_size d \<Longrightarrow> td_used (td_tasks d ! unat t) \<longleftrightarrow> td_map d t \<noteq> None"
  by (simp add: td_map_def)

lemma delete_refines:
  assumes w: "td_wf d"
  shows "\<exists>d'. taskdir_task_delete t d = ok (if td_map d t = None then -1 else 0, d') \<and> td_wf d' \<and>
    td_map d' = (td_map d)(t := None)"
proof (cases "t < td_size d")
  case True
  let ?e = "(td_tasks d ! unat t)\<lparr>an_rank := TASKDIR_INVALID_RANK, an_nodeid := TASKDIR_INVALID_NODEID\<rparr>"
  have f: "td_free ?e" "\<not> td_used ?e" by (simp_all add: td_free_def td_used_def)
  have "taskdir_task_delete t d = (if td_map d t = None then ok (-1, d) else ok (0, td_put t ?e d))"
    using True wf_lock [OF w] used_iff [OF w True]
    by (auto simp: taskdir_task_delete_def locked_free td_at_less [OF w True] td_used_def unlock_put unlock_locked)
  with f td_put_wf [OF w, of ?e t] td_put_map [OF w True, of ?e] w show ?thesis
    by (auto simp: fun_upd_idem)
next
  case False
  then have "td_map d t = None" by (simp add: td_map_def)
  with False w wf_lock [OF w] show ?thesis
    by (simp add: taskdir_task_delete_def locked_free unlock_locked fun_upd_idem)
qed

lemma remap_refines:
  assumes w: "td_wf d" and r: "r \<noteq> TASKDIR_INVALID_RANK" and n: "n \<noteq> TASKDIR_INVALID_NODEID"
    and r0: "r0 \<noteq> TASKDIR_INVALID_RANK" and n0: "n0 \<noteq> TASKDIR_INVALID_NODEID"
  shows "\<exists>d'. taskdir_task_remap t r0 r n0 n d = ok (if td_map d t = Some (r0, n0) then 0 else -1, d') \<and> td_wf d' \<and>
    td_map d' = (if td_map d t = Some (r0, n0) then (td_map d)(t \<mapsto> (r, n)) else td_map d)"
proof (cases "t < td_size d")
  case True
  let ?e = "(td_tasks d ! unat t)\<lparr>an_rank := r, an_nodeid := n\<rparr>"
  have u: "td_used ?e" using r n by (simp add: td_used_def)
  have m: "an_rank (td_tasks d ! unat t) = r0 \<and> an_nodeid (td_tasks d ! unat t) = n0 \<longleftrightarrow> td_map d t = Some (r0, n0)"
    using True r0 n0 by (auto simp: td_map_def td_used_def)
  have "taskdir_task_remap t r0 r n0 n d = (if td_map d t = Some (r0, n0) then ok (0, td_put t ?e d) else ok (-1, d))"
    using True wf_lock [OF w] m
    by (auto simp: taskdir_task_remap_def locked_free td_at_less [OF w True] unlock_put unlock_locked)
  with u td_put_wf [OF w, of ?e t] td_put_map [OF w True, of ?e] w show ?thesis by simp
next
  case False
  then have "td_map d t = None" by (simp add: td_map_def)
  with False w wf_lock [OF w] show ?thesis
    by (simp add: taskdir_task_remap_def locked_free unlock_locked)
qed

lemma lookup_refines:
  assumes w: "td_wf d"
  shows "taskdir_mapping_lookup t d = ok (if td_map d t = None then -1 else 0, td_map d t, d)"
proof (cases "t < td_size d")
  case True
  then show ?thesis
    using wf_lock [OF w]
    by (auto simp: taskdir_mapping_lookup_def locked_free td_at_less [OF w True] td_used_def unlock_locked td_map_def)
next
  case False
  then have "td_map d t = None" by (simp add: td_map_def)
  with False w wf_lock [OF w] show ?thesis
    by (simp add: taskdir_mapping_lookup_def locked_free unlock_locked)
qed

text \<open>
  C22: the directory implements a partial map. Registration adds a task that is not there and
  otherwise returns \<open>-1\<close> and changes nothing; deletion removes a task that is there; remapping
  replaces the position of a task given its present one; the lookup returns the position.
  The lock is free again after each of them.
\<close>

theorem taskdir_refines:
  assumes "td_wf d" and "t < 2 ^ 28 - 1" and "\<forall>i. al i"
    and "r \<noteq> TASKDIR_INVALID_RANK" and "n \<noteq> TASKDIR_INVALID_NODEID"
    and "r0 \<noteq> TASKDIR_INVALID_RANK" and "n0 \<noteq> TASKDIR_INVALID_NODEID"
  shows "(\<exists>d'. taskdir_task_register al t name r n d = ok (if td_map d t = None then 0 else -1, d') \<and> td_wf d' \<and>
      td_map d' = (if td_map d t = None then (td_map d)(t \<mapsto> (r, n)) else td_map d)) \<and>
    (\<exists>d'. taskdir_task_delete t d = ok (if td_map d t = None then -1 else 0, d') \<and> td_wf d' \<and>
      td_map d' = (td_map d)(t := None)) \<and>
    (\<exists>d'. taskdir_task_remap t r0 r n0 n d = ok (if td_map d t = Some (r0, n0) then 0 else -1, d') \<and> td_wf d' \<and>
      td_map d' = (if td_map d t = Some (r0, n0) then (td_map d)(t \<mapsto> (r, n)) else td_map d)) \<and>
    taskdir_mapping_lookup t d = ok (if td_map d t = None then -1 else 0, td_map d t, d)"
  by (intro conjI register_refines delete_refines remap_refines lookup_refines assms)

lemma td_wf_empty: "td_wf taskdir_initialize \<and> td_map taskdir_initialize t = None"
  by (simp add: td_wf_def taskdir_initialize_def td_map_def optimsoc_mutex_init_def)

theorem taskdir_refines_witness:
  "\<exists>d. taskdir_task_register (\<lambda>_. True) 3 ''net'' 1 7 taskdir_initialize = ok (0, d) \<and> td_map d 3 = Some (1, 7)"
  using taskdir_refines [of taskdir_initialize 3 "\<lambda>_. True" 1 7 2 2 "''net''"] td_wf_empty [of 3] by auto

text \<open>
  the lookup by name is not safe. As soon as a task was registered beyond the next free
  number, the entries before it have no name, and a lookup reads it; and a task that was
  deleted is still found by its name.
\<close>

theorem name_lookup_unsafe:
  assumes "0 < t" and "t < 2 ^ 28 - 1" and "\<forall>i. al i" and "n \<noteq> TASKDIR_INVALID_NODEID"
  shows "(\<exists>d. taskdir_task_register al t name r n taskdir_initialize = ok (0, d) \<and>
      taskdir_taskid_lookup name d = flt Uninit) \<and>
    (\<exists>d d'. taskdir_task_register al 0 name 1 n taskdir_initialize = ok (0, d) \<and>
      taskdir_task_delete 0 d = ok (0, d') \<and>
      taskdir_taskid_lookup name d' = ok (0, Some 0, d'))"
proof -
  have t: "unat t < 2 ^ 28 - 1" "0 < unat t" using assms(1,2) by (simp_all add: word_less_nat_alt unat_gt_0)
  have n1: "unat (t + 1) = unat t + 1" using t by (simp add: unat_word_ariths)
  have n16: "unat ((t + 1) * 16) = unat (t + 1) * 16" using t n1 by (simp add: unat_word_ariths)
  let ?f = "\<lparr>an_identifier = JunkStr, an_rank = TASKDIR_INVALID_RANK,
                     an_nodeid = TASKDIR_INVALID_NODEID, an_endpoints = None\<rparr>"
  let ?e = "?f\<lparr>an_rank := r, an_nodeid := n, an_identifier := Str name, an_endpoints := Some (replicate 8 0)\<rparr>"
  let ?d = "\<lparr>td_lock = 0, td_size = t + 1, td_tasks = (replicate (unat t + 1) ?f)[unat t := ?e]\<rparr>"
  obtain k where k: "unat t = Suc k" using t by (cases "unat t") auto
  have nth: "(?f # replicate (unat t) ?f) ! unat t = ?f"
    using nth_replicate [of "unat t" "Suc (unat t)" ?f] by simp
  have a: "taskdir_task_register al t name r n taskdir_initialize = ok (0, ?d)"
    using assms(3) n16 n1 nth
    by (simp add: taskdir_task_register_def taskdir_initialize_def optimsoc_mutex_init_def locked_free taskdir_grow_def
        Let_def td_at_def td_put_def endpoint_table_init_def unlock_def optimsoc_mutex_unlock_def)
  have "taskdir_taskid_lookup name ?d = flt Uninit"
    using k n1 by (simp add: taskdir_taskid_lookup_def locked_free strcmp_eq_def)
  moreover have "\<exists>d d'. taskdir_task_register al 0 name 1 n taskdir_initialize = ok (0, d) \<and>
      taskdir_task_delete 0 d = ok (0, d') \<and>
      taskdir_taskid_lookup name d' = ok (0, Some 0, d')"
    using assms(3,4)
    by (simp add: taskdir_task_register_def taskdir_initialize_def optimsoc_mutex_init_def locked_free taskdir_grow_def
        Let_def td_at_def td_put_def endpoint_table_init_def unlock_def optimsoc_mutex_unlock_def taskdir_task_delete_def
        taskdir_taskid_lookup_def strcmp_eq_def)
  ultimately show ?thesis using a by blast
qed

theorem name_lookup_unsafe_witness:
  "\<exists>d. taskdir_task_register (\<lambda>_. True) 2 ''net'' 1 7 taskdir_initialize = ok (0, d) \<and>
     taskdir_taskid_lookup ''net'' d = flt Uninit"
proof -
  have "(2 :: u32) < 2 ^ 28 - 1" by simp
  with name_lookup_unsafe [where t = 2 and al = "\<lambda>_. True" and n = 7 and name = "''net''" and r = 1] show ?thesis by simp
qed

end
