(* ===== verification/Gzll.thy ===== *)
theory Gzll
  imports Threads Vmm Mp Taskdir
begin

section \<open>The kernel gzll (os/gzll-kernel)\<close>

text \<open>
  The kernel puts applications and their tasks, called nodes, on top of the runtime and of
  the message passing library. Its state \<open>gz\<close> holds the state of the runtime, of the page
  tables and of the message passing library on this tile next to its own structures:
  applications, their task directories, nodes, the pool of free pages, and the endpoints to
  the other ranks. \<open>g_in\<close> are the packets that arrive while a call waits. Output to the
  console is left out.
\<close>

subsection \<open>State\<close>

record task_desc =
  tk_identifier :: string
  tk_obj_start :: u32
  tk_obj_end :: u32

record boot_mapping =
  bm_rank :: u32
  bm_task :: task_desc
  bm_instidx :: u32

record app =
  ap_id :: u32
  ap_name :: string
  ap_task_dir :: ptr

record gnode =
  gn_id :: u32
  gn_identifier :: string
  gn_app :: ptr
  gn_taskid :: u32
  gn_state :: u32
  gn_pagedir :: ptr
  gn_thread :: ptr

record gz =
  g_k :: kstate
  g_vm :: vmem
  g_mp :: mpm
  g_in :: inputs
  g_mem :: "u32 \<Rightarrow> u8"
  g_apps :: "ptr \<Rightarrow> app option"
  g_dirs :: "ptr \<Rightarrow> taskdir option"
  g_nodes :: "ptr \<Rightarrow> gnode option"
  g_app_list :: ptr
  g_node_list :: ptr
  g_pagepool :: ptr
  g_nxtid :: u32
  g_rank :: u32
  g_ep_system :: ptr
  g_ep_remote :: "ptr list"
  g_dfault :: ptr
  g_ifault :: ptr

text \<open>
  The surroundings: those of the runtime and the page tables, the core, the adapter
  registers, the allocators, the values of variables the code does not initialise, and the
  addresses of the functions it registers.
\<close>

record genv =
  ge_os :: osenv
  ge_ma :: aligner
  ge_core :: nat
  ge_na :: na_regs
  ge_mal :: allocator
  ge_mp_mal :: allocator
  ge_td :: "nat \<Rightarrow> bool"
  ge_junk :: "nat \<Rightarrow> u32"
  ge_ready :: "bool list"
  ge_dfault :: ptr
  ge_ifault :: ptr
  ge_comm_thread :: u32
  ge_agent_thread :: u32

definition g_live :: "gz \<Rightarrow> ptr \<Rightarrow> bool" where
  "g_live s p \<longleftrightarrow> g_apps s p \<noteq> None \<or> g_dirs s p \<noteq> None \<or> g_nodes s p \<noteq> None"

definition ge_tile :: "genv \<Rightarrow> u32" where
  "ge_tile env = optimsoc_get_tileid (ge_na env)"

definition on_k :: "(kstate \<Rightarrow> kstate exec) \<Rightarrow> gz \<Rightarrow> gz exec" where
  "on_k f s = bnd (f (g_k s)) (\<lambda>k. ok (s\<lparr>g_k := k\<rparr>))"

definition on_k_val :: "(kstate \<Rightarrow> ('a \<times> kstate) exec) \<Rightarrow> gz \<Rightarrow> ('a \<times> gz) exec" where
  "on_k_val f s = bnd (f (g_k s)) (\<lambda>(x, k). ok (x, s\<lparr>g_k := k\<rparr>))"

definition app_at :: "ptr \<Rightarrow> gz \<Rightarrow> app exec" where
  "app_at p s = (if p = 0 then flt NullDeref else case g_apps s p of None \<Rightarrow> flt BadPtr | Some a \<Rightarrow> ok a)"

definition dir_at :: "ptr \<Rightarrow> gz \<Rightarrow> taskdir exec" where
  "dir_at p s = (if p = 0 then flt NullDeref else case g_dirs s p of None \<Rightarrow> flt BadPtr | Some a \<Rightarrow> ok a)"

definition set_dir :: "ptr \<Rightarrow> taskdir \<Rightarrow> gz \<Rightarrow> gz" where
  "set_dir p d s = s\<lparr>g_dirs := (g_dirs s)(p \<mapsto> d)\<rparr>"

definition node_at :: "ptr \<Rightarrow> gz \<Rightarrow> gnode exec" where
  "node_at p s = (if p = 0 then flt NullDeref else case g_nodes s p of None \<Rightarrow> flt BadPtr | Some a \<Rightarrow> ok a)"

definition set_node :: "ptr \<Rightarrow> gnode \<Rightarrow> gz \<Rightarrow> gz" where
  "set_node p n s = s\<lparr>g_nodes := (g_nodes s)(p \<mapsto> n)\<rparr>"

text \<open>\<open>memcpy\<close> in the physical memory.\<close>

definition mem_read :: "u32 \<Rightarrow> nat \<Rightarrow> gz \<Rightarrow> u8 list" where
  "mem_read a n s = map (\<lambda>i. g_mem s (a + word_of_nat i)) [0..<n]"

fun mem_put :: "u32 \<Rightarrow> u8 list \<Rightarrow> (u32 \<Rightarrow> u8) \<Rightarrow> u32 \<Rightarrow> u8" where
  "mem_put a [] f = f"
| "mem_put a (b # bs) f = mem_put (a + 1) bs (f(a := b))"

definition mem_write :: "u32 \<Rightarrow> u8 list \<Rightarrow> gz \<Rightarrow> gz" where
  "mem_write a bs s = s\<lparr>g_mem := mem_put a bs (g_mem s)\<rparr>"

subsection \<open>Pages (page.c)\<close>

definition gzll_swapping :: u32 where
  "gzll_swapping = 0"

fun pool_fill :: "osenv \<Rightarrow> nat \<Rightarrow> u32 \<Rightarrow> gz \<Rightarrow> gz exec" where
  "pool_fill env 0 p s = ok s"
| "pool_fill env (Suc n) p s = bnd (on_k (k_add_tail env (g_pagepool s) p) s) (pool_fill env n (p + 1))"

text \<open>
  \<open>apps_end\<close> and \<open>stack_bottom\<close> are symbols of the linker. When \<open>end_page\<close> is the largest number
  the condition of the loop is always true.
\<close>

definition gzll_paging_init :: "genv \<Rightarrow> u32 \<Rightarrow> u32 \<Rightarrow> gz \<Rightarrow> gz exec" where
  "gzll_paging_init env apps_end stack_bottom s =
     (let start = apps_end + 40 * 8192;
          start_page = drop_bit 13 (start + 8191);
          end_page = drop_bit 13 stack_bottom - 1;
          s = s\<lparr>g_dfault := ge_dfault env, g_ifault := ge_ifault env\<rparr>
      in bnd (on_k_val (k_list_init (ge_os env) 0) s) (\<lambda>(l, s).
           if end_page = -1 then None
           else pool_fill (ge_os env) (Suc (unat end_page) - unat start_page) start_page (s\<lparr>g_pagepool := l\<rparr>)))"

text \<open>The fault handlers print and leave the program.\<close>

definition gzll_paging_dpage_fault :: "u32 \<Rightarrow> gz \<Rightarrow> gz exec" where
  "gzll_paging_dpage_fault vaddr s = None"

definition gzll_paging_ipage_fault :: "u32 \<Rightarrow> gz \<Rightarrow> gz exec" where
  "gzll_paging_ipage_fault vaddr s = None"

definition gzll_page_alloc :: "gz \<Rightarrow> (u32 \<times> gz) exec" where
  "gzll_page_alloc s = on_k_val (k_remove_head (g_pagepool s)) s"

subsection \<open>Access to user memory (memcpy_userspace.c)\<close>

definition user_phys :: "genv \<Rightarrow> u32 \<Rightarrow> gz \<Rightarrow> u32 exec" where
  "user_phys env a s =
     bnd (optimsoc_thread_current (ge_core env) (g_k s)) (\<lambda>t.
     bnd (optimsoc_thread_get_pagedir t (g_k s)) (\<lambda>dir.
     bnd (optimsoc_vmm_virt2phys dir a (g_vm s)) (\<lambda>(rv, p).
     bnd (assert_c (rv \<noteq> 0)) (\<lambda>_. case p of None \<Rightarrow> flt Uninit | Some p \<Rightarrow> ok p))))"

text \<open>The copy into a kernel buffer of \<open>cap\<close> bytes.\<close>

definition gzll_memcpy_from_userspace :: "genv \<Rightarrow> nat \<Rightarrow> u32 \<Rightarrow> u32 \<Rightarrow> gz \<Rightarrow> u8 list exec" where
  "gzll_memcpy_from_userspace env cap src sz s =
     bnd (user_phys env src s) (\<lambda>p. if unat sz \<le> cap then ok (mem_read p (unat sz) s) else flt OutOfBounds)"

definition gzll_memcpy_to_userspace :: "genv \<Rightarrow> u32 \<Rightarrow> u8 list \<Rightarrow> gz \<Rightarrow> gz exec" where
  "gzll_memcpy_to_userspace env dest bs s =
     bnd (user_phys env dest s) (\<lambda>p. ok (mem_write p bs s))"

subsection \<open>Applications (app.c)\<close>

definition gzll_app_new :: "genv \<Rightarrow> u32 \<Rightarrow> string \<Rightarrow> gz \<Rightarrow> gz exec" where
  "gzll_app_new env i name s =
     (let a = ge_mal env (g_live s) in
      if a = 0 then flt NoMem
      else
        let s1 = s\<lparr>g_apps := (g_apps s)(a \<mapsto> \<lparr>ap_id = i, ap_name = name, ap_task_dir = 0\<rparr>)\<rparr>;
            d = ge_mal env (g_live s1)
        in if d = 0 then flt NoMem
           else
             let s2 = set_dir d taskdir_initialize
                        (s1\<lparr>g_apps := (g_apps s1)(a \<mapsto> \<lparr>ap_id = i, ap_name = name, ap_task_dir = d\<rparr>)\<rparr>)
             in if g_app_list s2 = 0
                then bnd (on_k_val (k_list_init (ge_os env) a) s2) (\<lambda>(l, s3). ok (s3\<lparr>g_app_list := l\<rparr>))
                else on_k (k_add_tail (ge_os env) (g_app_list s2) a) s2)"

definition gzll_app_get :: "u32 \<Rightarrow> gz \<Rightarrow> ptr exec" where
  "gzll_app_get i s =
     optimsoc_list_find_content_header (\<lambda>p. bnd (app_at p s) (\<lambda>a. ok (ap_id a))) (g_app_list s) i (k_lists (g_k s))"

subsection \<open>Nodes (node.c)\<close>

definition gzll_get_nodeid :: "(gz \<Rightarrow> gz) list \<Rightarrow> gz \<Rightarrow> u32 \<times> gz" where
  "gzll_get_nodeid fs s = cas_loop g_nxtid (\<lambda>v s. s\<lparr>g_nxtid := v\<rparr>) (\<lambda>i. i + 1) fs s"

definition gzll_node_add :: "genv \<Rightarrow> ptr \<Rightarrow> gz \<Rightarrow> gz exec" where
  "gzll_node_add env n s =
     (if g_node_list s = 0
      then bnd (on_k_val (k_list_init (ge_os env) n) s) (\<lambda>(l, s1). ok (s1\<lparr>g_node_list := l\<rparr>))
      else on_k (k_add_tail (ge_os env) (g_node_list s) n) s)"

definition gzll_node_remove :: "ptr \<Rightarrow> gz \<Rightarrow> (int \<times> gz) exec" where
  "gzll_node_remove n s =
     (if g_node_list s \<noteq> 0
      then bnd (on_k_val (k_remove (g_node_list s) n) s) (\<lambda>(r, s1). ok (if r = 1 then 0 else -1, s1))
      else ok (-1, s))"

partial_function (option) node_find_loop :: "u32 \<Rightarrow> ptr \<Rightarrow> ptr \<Rightarrow> gz \<Rightarrow> (fault + ptr) option" where
  "node_find_loop i p it s =
     (if p = 0 then ok 0
      else bnd (node_at p s) (\<lambda>n.
        if gn_id n = i then ok p
        else bnd (optimsoc_list_next_element (g_node_list s) it (k_lists (g_k s)))
               (\<lambda>(p', it'). node_find_loop i p' it' s)))"

definition gzll_node_find :: "u32 \<Rightarrow> gz \<Rightarrow> ptr exec" where
  "gzll_node_find i s =
     bnd (optimsoc_list_first_element (g_node_list s) (k_lists (g_k s))) (\<lambda>(p, it). node_find_loop i p it s)"

text \<open>Both values of the enumeration of the node states are zero.\<close>

abbreviation (input) GZLL_NODE_ACTIVE :: u32 where "GZLL_NODE_ACTIVE \<equiv> 0"
abbreviation (input) GZLL_NODE_SUSPENDED :: u32 where "GZLL_NODE_SUSPENDED \<equiv> 0"

definition gzll_node_suspend :: "ptr \<Rightarrow> gz \<Rightarrow> gz exec" where
  "gzll_node_suspend p s =
     bnd (assert_c (p \<noteq> 0)) (\<lambda>_. bnd (node_at p s) (\<lambda>n.
       if gn_state n = GZLL_NODE_ACTIVE then
         bnd (on_k (optimsoc_thread_remove (gn_thread n)) s) (\<lambda>s1.
           ok (set_node p (n\<lparr>gn_state := GZLL_NODE_SUSPENDED\<rparr>) s1))
       else ok s))"

definition gzll_node_resume :: "genv \<Rightarrow> ptr \<Rightarrow> gz \<Rightarrow> gz exec" where
  "gzll_node_resume env p s =
     bnd (assert_c (p \<noteq> 0)) (\<lambda>_. bnd (node_at p s) (\<lambda>n.
       if gn_state n = GZLL_NODE_SUSPENDED then
         bnd (on_k (optimsoc_thread_add (ge_os env) (gn_thread n)) s) (\<lambda>s1.
           ok (set_node p (n\<lparr>gn_state := GZLL_NODE_ACTIVE\<rparr>) s1))
       else ok s))"

end
