(* ===== verification/Gzll_Comm.thy ===== *)
theory Gzll_Comm
  imports Gzll
begin

section \<open>Messages, nodes and system calls of gzll\<close>

subsection \<open>Messages (communication.c, messages.h)\<close>

text \<open>
  A message is a header of three words (type, rank of the sender, length in bytes) and a
  payload. The receive buffer has 256 bytes; what an earlier message left in it stays behind
  a shorter one.
\<close>

abbreviation (input) GZLL_NODE_NEW :: u32 where "GZLL_NODE_NEW \<equiv> 0"
abbreviation (input) GZLL_NODE_MIGRATE :: u32 where "GZLL_NODE_MIGRATE \<equiv> 1"
abbreviation (input) GZLL_NODE_FETCH :: u32 where "GZLL_NODE_FETCH \<equiv> 2"
abbreviation (input) GZLL_NUM_MESSAGE_TYPES :: u32 where "GZLL_NUM_MESSAGE_TYPES \<equiv> 3"

definition be_word :: "u8 \<Rightarrow> u8 \<Rightarrow> u8 \<Rightarrow> u8 \<Rightarrow> u32" where
  "be_word a b c d = push_bit 24 (ucast a) OR push_bit 16 (ucast b) OR push_bit 8 (ucast c) OR ucast d"

fun pack :: "u8 list \<Rightarrow> u32 list" where
  "pack [] = []"
| "pack [a] = [be_word a 0 0 0]"
| "pack [a, b] = [be_word a b 0 0]"
| "pack [a, b, c] = [be_word a b c 0]"
| "pack (a # b # c # d # bs) = be_word a b c d # pack bs"

definition bytes_of :: "u32 list \<Rightarrow> u8 list" where
  "bytes_of ws = concat (map word_bytes ws)"

definition msg_word :: "nat \<Rightarrow> u8 list \<Rightarrow> u32" where
  "msg_word i buf = be_word (buf ! (4 * i)) (buf ! (4 * i + 1)) (buf ! (4 * i + 2)) (buf ! (4 * i + 3))"

definition c_string :: "nat \<Rightarrow> u8 list \<Rightarrow> string exec" where
  "c_string at buf =
     (if 0 \<in> set (drop at buf) then ok (map (\<lambda>b. char_of (unat b)) (takeWhile (\<lambda>b. b \<noteq> 0) (drop at buf)))
      else flt OutOfBounds)"

definition node_new_size :: "string \<Rightarrow> u32" where
  "node_new_size nodename = push_bit 2 (drop_bit 2 (word_of_nat (length nodename) + 3)) + 12 + 12"

definition node_new_words :: "u32 \<Rightarrow> u32 \<Rightarrow> u32 \<Rightarrow> string \<Rightarrow> u32 list" where
  "node_new_words rank app_id app_nodeid nodename =
     [GZLL_NODE_NEW, rank, node_new_size nodename, app_id, app_nodeid, 0] @ pack (map of_char nodename)"

definition send_rank :: "genv \<Rightarrow> nat \<Rightarrow> u32 list \<Rightarrow> u32 \<Rightarrow> gz \<Rightarrow> gz exec" where
  "send_rank env r ws sz s =
     (if r < length (g_ep_remote s) then
        bnd (optimsoc_mp_msg_send (ge_mp_mal env) (ge_tile env) (g_ep_remote s ! r) ws sz (g_in s) (g_mp s))
          (\<lambda>(inp, m). ok (s\<lparr>g_in := inp, g_mp := m\<rparr>))
      else flt OutOfBounds)"

fun send_others :: "genv \<Rightarrow> nat list \<Rightarrow> u32 list \<Rightarrow> u32 \<Rightarrow> gz \<Rightarrow> gz exec" where
  "send_others env [] ws sz s = ok s"
| "send_others env (r # rs) ws sz s =
     (if word_of_nat r = g_rank s then send_others env rs ws sz s
      else bnd (send_rank env r ws sz s) (send_others env rs ws sz))"

text \<open>The node number of the rank is an argument that is not put into the message.\<close>

definition message_send_node_new :: "genv \<Rightarrow> u32 \<Rightarrow> u32 \<Rightarrow> u32 \<Rightarrow> string \<Rightarrow> gz \<Rightarrow> gz exec" where
  "message_send_node_new env app_id app_nodeid nodeid nodename s =
     send_others env [0..<unat (optimsoc_get_numct (ge_na env))]
       (node_new_words (g_rank s) app_id app_nodeid nodename) (node_new_size nodename) s"

definition message_send_node_migrate :: "genv \<Rightarrow> u32 \<Rightarrow> u32 \<Rightarrow> u32 \<Rightarrow> u32 \<Rightarrow> gz \<Rightarrow> gz exec" where
  "message_send_node_migrate env appid taskid curr_rank new_rank s =
     send_rank env (unat curr_rank) [GZLL_NODE_MIGRATE, g_rank s, 24, appid, taskid, new_rank] 24 s"

definition message_send_node_fetch :: "genv \<Rightarrow> u32 \<Rightarrow> ptr \<Rightarrow> gz \<Rightarrow> gz exec" where
  "message_send_node_fetch env dest_rank node_addr s =
     send_rank env (unat dest_rank) [GZLL_NODE_FETCH, g_rank s, 16, node_addr] 16 s"

fun get_remotes :: "genv \<Rightarrow> nat list \<Rightarrow> gz \<Rightarrow> gz exec" where
  "get_remotes env [] s = ok s"
| "get_remotes env (r # rs) s =
     (if word_of_nat r = g_rank s then get_remotes env rs s
      else
        bnd (optimsoc_mp_endpoint_get (ge_mp_mal env) (ge_tile env) True (ge_ready env)
               (optimsoc_get_ranktile (ge_na env) (word_of_nat r)) 0 0 (g_in s) (g_mp s)) (\<lambda>(ep, inp, m).
          get_remotes env rs (s\<lparr>g_ep_remote := (g_ep_remote s)[r := ep], g_in := inp, g_mp := m\<rparr>)))"

definition communication_init :: "genv \<Rightarrow> gz \<Rightarrow> gz exec" where
  "communication_init env s =
     bnd (optimsoc_mp_endpoint_create (ge_mp_mal env) (ge_junk env) (ge_tile env) 0 0 0 32 64 (g_mp s)) (\<lambda>(ep, m).
       let n = unat (optimsoc_get_numct (ge_na env)) in
       get_remotes env [0..<n] (s\<lparr>g_ep_system := ep, g_mp := m, g_ep_remote := replicate n 0\<rparr>))"

text \<open>The copy of the name with its terminator is made and not used.\<close>

definition gzll_message_node_new_handler :: "genv \<Rightarrow> u8 list \<Rightarrow> gz \<Rightarrow> gz exec" where
  "gzll_message_node_new_handler env buf s =
     (let strlen = unat (msg_word 2 buf - 12 - 12) in
      if 256 \<le> strlen \<or> length buf < 24 + strlen then flt OutOfBounds
      else
        bnd (gzll_app_get (msg_word 3 buf) s) (\<lambda>a.
        bnd (assert_c (a \<noteq> 0)) (\<lambda>_.
        bnd (app_at a s) (\<lambda>ap.
        bnd (dir_at (ap_task_dir ap) s) (\<lambda>d.
        bnd (c_string 24 buf) (\<lambda>name.
        bnd (taskdir_task_register (ge_td env) (msg_word 4 buf) name (msg_word 1 buf) (msg_word 5 buf) d) (\<lambda>(_, d').
          ok (set_dir (ap_task_dir ap) d' s))))))))"

subsection \<open>Migration (node_migrate.c, node.c)\<close>

definition gzll_node_migrate :: "genv \<Rightarrow> u32 \<Rightarrow> u32 \<Rightarrow> u32 \<Rightarrow> gz \<Rightarrow> (int \<times> gz) exec" where
  "gzll_node_migrate env appid nodeid dest_rank s =
     bnd (gzll_app_get appid s) (\<lambda>a.
       if a \<noteq> 0 then
         bnd (app_at a s) (\<lambda>ap. bnd (dir_at (ap_task_dir ap) s) (\<lambda>d.
         bnd (taskdir_mapping_lookup nodeid d) (\<lambda>(rv, pos, d').
           let s1 = set_dir (ap_task_dir ap) d' s in
           case pos of None \<Rightarrow> ok (-1, s1)
           | Some (curr_rank, node_id) \<Rightarrow>
               if curr_rank \<noteq> g_rank s1 then
                 bnd (message_send_node_migrate env appid nodeid curr_rank dest_rank s1) (\<lambda>s2. ok (0, s2))
               else
                 bnd (gzll_node_find node_id s1) (\<lambda>n.
                 bnd (assert_c (n \<noteq> 0)) (\<lambda>_.
                 bnd (gzll_node_suspend n s1) (\<lambda>s2.
                 bnd (message_send_node_fetch env dest_rank n s2) (\<lambda>s3. ok (0, s3))))))))
       else ok (-1, s))"

text \<open>
  The copy of the page tables draws pages; \<open>pool_nth i\<close> is the page the draw \<open>i\<close> gives, and
  afterwards as many pages as were copied are taken from the pool.
\<close>

fun pool_nth :: "nat \<Rightarrow> gz \<Rightarrow> u32" where
  "pool_nth 0 s = (case gzll_page_alloc s of Some (Inr (p, _)) \<Rightarrow> p | _ \<Rightarrow> 0)"
| "pool_nth (Suc i) s = (case gzll_page_alloc s of Some (Inr (_, s1)) \<Rightarrow> pool_nth i s1 | _ \<Rightarrow> 0)"

fun pool_take :: "nat \<Rightarrow> gz \<Rightarrow> gz exec" where
  "pool_take 0 s = ok s"
| "pool_take (Suc n) s = bnd (gzll_page_alloc s) (\<lambda>(_, s1). pool_take n s1)"

fun copy_pages :: "gz \<Rightarrow> (u32 \<times> u32) list \<Rightarrow> gz \<Rightarrow> gz" where
  "copy_pages r [] s = s"
| "copy_pages r ((l, p) # ps) s = copy_pages r ps (mem_write l (mem_read p 8192 r) s)"

text \<open>
  Fetching a node of another tile. \<open>rem\<close> is the state of that tile, which DMA transfers read.
  The application is copied as it is, with the address of the directory on the other tile.
\<close>

definition gzll_node_fetch :: "genv \<Rightarrow> (u32 \<Rightarrow> gz) \<Rightarrow> u32 \<Rightarrow> ptr \<Rightarrow> gz \<Rightarrow> (ptr \<times> gz) exec" where
  "gzll_node_fetch env rem remote_tile remote_addr s =
     (let n = ge_mal env (g_live s); r = rem remote_tile in
      if n = 0 then flt NoMem
      else
        bnd (node_at remote_addr r) (\<lambda>rn.
        let s1 = set_node n rn s; a = ge_mal env (g_live s1) in
        if a = 0 then flt NoMem
        else
          bnd (app_at (gn_app rn) r) (\<lambda>ra.
          bnd (assert_c (gn_state rn = GZLL_NODE_SUSPENDED)) (\<lambda>_.
          let s2 = s1\<lparr>g_apps := (g_apps s1)(a \<mapsto> ra)\<rparr> in
          bnd (optimsoc_vmm_dir_copy (ge_ma env) (\<lambda>i. pool_nth i s2) (g_vm r) (gn_pagedir rn) (g_vm s2))
            (\<lambda>(dir, pages, vm).
          bnd (pool_take (length pages) (copy_pages r pages (s2\<lparr>g_vm := vm\<rparr>))) (\<lambda>s3.
          bnd (on_k_val (optimsoc_thread_dma_copy (ge_os env) [] (g_k r) (gn_thread rn)) s3) (\<lambda>(t, s4).
          bnd (on_k (optimsoc_thread_set_pagedir t dir) s4) (\<lambda>s5.
          bnd (on_k (optimsoc_thread_set_extra_data t n) s5) (\<lambda>s6.
            ok (n, set_node n \<lparr>gn_id = gn_id rn, gn_identifier = gn_identifier rn, gn_app = a,
                     gn_taskid = ge_junk env 0, gn_state = GZLL_NODE_SUSPENDED, gn_pagedir = dir,
                     gn_thread = t\<rparr> s6))))))))))"

definition gzll_message_node_migrate_handler :: "genv \<Rightarrow> u8 list \<Rightarrow> gz \<Rightarrow> gz exec" where
  "gzll_message_node_migrate_handler env buf s =
     bnd (gzll_node_migrate env (msg_word 3 buf) (msg_word 4 buf) (msg_word 5 buf) s) (\<lambda>(_, s1). ok s1)"

text \<open>The rank of the sender is used as the number of its tile.\<close>

definition gzll_message_node_fetch_handler :: "genv \<Rightarrow> (u32 \<Rightarrow> gz) \<Rightarrow> u8 list \<Rightarrow> gz \<Rightarrow> gz exec" where
  "gzll_message_node_fetch_handler env rem buf s =
     bnd (gzll_node_fetch env rem (msg_word 1 buf) (msg_word 3 buf) s) (\<lambda>(n, s1).
     bnd (gzll_node_add env n s1) (\<lambda>s2. gzll_node_resume env n s2))"

text \<open>One round of the communication thread: the buffer before and after it.\<close>

definition communication_thread :: "genv \<Rightarrow> (u32 \<Rightarrow> gz) \<Rightarrow> u8 list \<Rightarrow> gz \<Rightarrow> (u8 list \<times> gz) exec" where
  "communication_thread env rem old s =
     bnd (optimsoc_mp_msg_recv [] (ge_mp_mal env) (ge_tile env) (g_ep_system s) 256 (g_in s) (g_mp s))
       (\<lambda>(inp, received, ws, m).
       let buf = bytes_of ws @ drop (length (bytes_of ws)) old; s1 = s\<lparr>g_in := inp, g_mp := m\<rparr> in
       bnd (assert_c (received > 1 \<and> received = msg_word 2 buf)) (\<lambda>_.
       bnd (assert_c (msg_word 0 buf < GZLL_NUM_MESSAGE_TYPES)) (\<lambda>_.
       bnd (if msg_word 0 buf = GZLL_NODE_NEW then gzll_message_node_new_handler env buf s1
            else if msg_word 0 buf = GZLL_NODE_MIGRATE then gzll_message_node_migrate_handler env buf s1
            else gzll_message_node_fetch_handler env rem buf s1) (\<lambda>s2. ok (buf, s2)))))"

subsection \<open>Starting a node (node.c)\<close>

fun load_pages :: "genv \<Rightarrow> task_desc \<Rightarrow> ptr \<Rightarrow> nat \<Rightarrow> u32 \<Rightarrow> gz \<Rightarrow> gz exec" where
  "load_pages env tk pdir 0 p s = ok s"
| "load_pages env tk pdir (Suc n) p s =
     bnd (gzll_page_alloc s) (\<lambda>(alloced, s1).
     bnd (assert_c (alloced \<noteq> 0)) (\<lambda>_.
     let from_addr = tk_obj_start tk + p * 8192;
         to_addr = alloced * 8192;
         len = (if from_addr + 8192 > tk_obj_end tk then tk_obj_end tk - from_addr else 8192);
         s2 = mem_write to_addr (mem_read from_addr (unat len) s1) s1
     in bnd (optimsoc_vmm_map (ge_ma env) [] [] pdir (push_bit 13 p + 0x2000) to_addr (g_vm s2)) (\<lambda>(rv, vm).
        bnd (assert_c (rv = 1)) (\<lambda>_. load_pages env tk pdir n (p + 1) (s2\<lparr>g_vm := vm\<rparr>)))))"

definition gzll_node_start :: "genv \<Rightarrow> u32 \<Rightarrow> u32 \<Rightarrow> string \<Rightarrow> task_desc \<Rightarrow> gz \<Rightarrow> gz exec" where
  "gzll_node_start env app_id app_nodeid nodename tk s =
     bnd (optimsoc_vmm_create_page_dir (ge_ma env) (g_vm s)) (\<lambda>(pdir, vm).
     let sz = tk_obj_end tk - tk_obj_start tk; num_pages = drop_bit 13 (sz + 8191) in
     bnd (load_pages env tk pdir (unat num_pages) 0 (s\<lparr>g_vm := vm\<rparr>)) (\<lambda>s1.
     bnd (gzll_page_alloc s1) (\<lambda>(alloced, s2).
     bnd (assert_c (alloced \<noteq> 0)) (\<lambda>_.
     bnd (optimsoc_vmm_map (ge_ma env) [] [] pdir 0xfffffffc (push_bit 13 alloced) (g_vm s2)) (\<lambda>(_, vm2).
     let (nodeid, s3) = gzll_get_nodeid [] (s2\<lparr>g_vm := vm2\<rparr>); n = ge_mal env (g_live s3) in
     if n = 0 then flt NullDeref
     else
       bnd (assert_c (length nodename < 64)) (\<lambda>_.
       bnd (gzll_app_get app_id s3) (\<lambda>a.
       let task = \<lparr>gn_id = nodeid, gn_identifier = nodename, gn_app = a, gn_taskid = app_nodeid,
                   gn_state = GZLL_NODE_ACTIVE, gn_pagedir = 0, gn_thread = 0\<rparr> in
       bnd (assert_c (a \<noteq> 0)) (\<lambda>_.
       bnd (gzll_node_add env n (set_node n task s3)) (\<lambda>s4.
       bnd (on_k_val (optimsoc_thread_create (ge_os env) [] 0x2000 None) s4) (\<lambda>(t, s5).
       bnd (on_k (optimsoc_thread_set_pagedir t pdir) s5) (\<lambda>s6.
       bnd (on_k (optimsoc_thread_set_extra_data t n) s6) (\<lambda>s7.
       let s8 = set_node n (task\<lparr>gn_thread := t, gn_pagedir := pdir\<rparr>) s7 in
       bnd (app_at a s8) (\<lambda>ap. bnd (dir_at (ap_task_dir ap) s8) (\<lambda>d.
       bnd (taskdir_task_register (ge_td env) app_nodeid nodename (g_rank s8) nodeid d) (\<lambda>(_, d').
         message_send_node_new env app_id app_nodeid nodeid nodename (set_dir (ap_task_dir ap) d' s8))))))))))))))))"

subsection \<open>Booting the applications (app.c)\<close>

abbreviation (input) GZLL_BOOT_EVERYWHERE :: u32 where "GZLL_BOOT_EVERYWHERE \<equiv> -2"

definition fmt_d :: "u32 \<Rightarrow> string" where
  "fmt_d w = (if sint w < 0 then ''-'' @ dec_of (nat (- sint w)) else dec_of (nat (sint w)))"

definition task_name :: "string \<Rightarrow> u32 \<Rightarrow> string" where
  "task_name identifier inst = take 31 (identifier @ ''-'' @ fmt_d inst)"

text \<open>
  The buffer of the full name has 65 bytes, and the bound given to \<open>snprintf\<close> is 256.
\<close>

fun bootstrap_loop :: "genv \<Rightarrow> u32 \<Rightarrow> string \<Rightarrow> boot_mapping list \<Rightarrow> u32 \<Rightarrow> u32 \<Rightarrow> gz \<Rightarrow> gz exec" where
  "bootstrap_loop env appid appname [] idx offset s = ok s"
| "bootstrap_loop env appid appname (mp # mps) idx offset s =
     (let every = bm_rank mp = GZLL_BOOT_EVERYWHERE in
      if bm_rank mp = g_rank s \<or> every then
        let inst = (if every then g_rank s else bm_instidx mp);
            nodeid = idx + offset + (if every then g_rank s else 0);
            offset' = (if every then offset + optimsoc_get_numct (ge_na env) - 1 else offset);
            tname = task_name (tk_identifier (bm_task mp)) inst
        in if 65 \<le> length (take 255 (appname @ ''.'' @ tname)) then flt OutOfBounds
           else bnd (gzll_node_start env appid nodeid tname (bm_task mp) s)
                  (bootstrap_loop env appid appname mps (idx + 1) offset')
      else bootstrap_loop env appid appname mps (idx + 1) offset s)"

definition gzll_app_bootstrap :: "genv \<Rightarrow> u32 \<Rightarrow> string \<Rightarrow> boot_mapping list \<Rightarrow> gz \<Rightarrow> gz exec" where
  "gzll_app_bootstrap env appid appname mps s =
     bnd (gzll_app_new env appid appname s) (bootstrap_loop env appid appname mps 0 0)"

fun gzll_apps_bootstrap :: "genv \<Rightarrow> u32 \<Rightarrow> (string \<times> boot_mapping list) list \<Rightarrow> gz \<Rightarrow> gz exec" where
  "gzll_apps_bootstrap env i [] s = ok s"
| "gzll_apps_bootstrap env i ((name, mps) # as) s =
     bnd (gzll_app_bootstrap env i name mps s) (gzll_apps_bootstrap env (i + 1) as)"

subsection \<open>Boot (main.c, agent.c)\<close>

definition kernel_thread :: "genv \<Rightarrow> u32 \<Rightarrow> string \<Rightarrow> gz \<Rightarrow> gz exec" where
  "kernel_thread env func name s =
     bnd (optimsoc_thread_attr_init (Some (o_attr_junk (ge_os env)))) (\<lambda>a.
     bnd (on_k_val (optimsoc_thread_create (ge_os env) [] func
            (Some (a\<lparr>at_flags := at_flags a OR OPTIMSOC_THREAD_FLAG_KERNEL, at_identifier := Some name\<rparr>))) s)
       (\<lambda>(_, s1). ok s1))"

definition gzll_agent_init :: "genv \<Rightarrow> gz \<Rightarrow> gz exec" where
  "gzll_agent_init env s =
     (if g_rank s = 0 then kernel_thread env (ge_agent_thread env) ''agent'' s else ok s)"

definition gzll_init :: "genv \<Rightarrow> (string \<times> boot_mapping list) list \<Rightarrow> gz \<Rightarrow> gz exec" where
  "gzll_init env as s =
     bnd (communication_init env s) (\<lambda>s1.
     bnd (gzll_agent_init env s1) (\<lambda>s2.
     bnd (kernel_thread env (ge_comm_thread env) ''comm'' s2) (gzll_apps_bootstrap env 0 as)))"

end
