(* ===== verification/Boot.thy ===== *)
theory Boot
  imports Threads Baremetal
begin

section \<open>The start of the runtime (libruntime/runtime.c, context.c, syscalls.c, dma.c, monitor.c)\<close>

text \<open>
  All cores run \<open>optimsoc_runtime_boot\<close>. Core 0 sets the runtime up while the others poll a
  barrier; then every core starts the scheduler. The model has the position of every core in that function
  (\<open>stage\<close>) and one step per statement of a core, so that the cores interleave in any way. The support library
  of the processor, which is not part of the repository, is the table of the exception
  handlers; \<open>machine\<close> holds what it tells: the number of cores and, for each, the frame on the
  exception stack below which the exceptions save the registers. \<open>optimsoc_init\<close> is empty. What
  is printed and traced is left out.
\<close>

subsection \<open>State\<close>

datatype exc_handler = optimsoc_dtlb_miss_entry | optimsoc_itlb_miss_entry | optimsoc_dpage_fault_entry
  | optimsoc_ipage_fault_entry | optimsoc_syscall_entry_point

datatype stage = Entry | InitDma | InitContext | InitVmm | InitSyscalls | InitScheduler | OpenBarrier
  | Waiting | Starting | Running

record machine =
  m_numcores :: nat
  m_frames :: "ctx list"
  m_init :: u32
  m_idle :: u32
  m_alloc_ctx :: bool
  m_alloc_syscalls :: bool

record syscall =
  sc_id :: u32
  sc_output :: u32
  sc_param :: "u32 list"

record runtime =
  r_k :: kstate
  r_dma :: dma_state
  r_exceptions :: "nat \<Rightarrow> exc_handler option"
  r_syscall_data :: "syscall list"
  r_barrier :: u8
  r_stage :: "stage list"

subsection \<open>Initialisation\<close>

text \<open>
  The table of the exception frames is written without a test of the allocation. The frames
  are those of the kernel state from then on.
\<close>

definition optimsoc_context_init :: "machine \<Rightarrow> kstate \<Rightarrow> kstate exec" where
  "optimsoc_context_init m s =
     (if \<not> m_alloc_ctx m \<and> 0 < m_numcores m then flt NullDeref
      else if length (m_frames m) < m_numcores m then flt OutOfBounds
      else ok (s\<lparr>k_frame := take (m_numcores m) (m_frames m)\<rparr>))"

definition optimsoc_vmm_init :: "(nat \<Rightarrow> exc_handler option) \<Rightarrow> nat \<Rightarrow> exc_handler option" where
  "optimsoc_vmm_init t = t(9 \<mapsto> optimsoc_dtlb_miss_entry, 10 \<mapsto> optimsoc_itlb_miss_entry,
     3 \<mapsto> optimsoc_dpage_fault_entry, 4 \<mapsto> optimsoc_ipage_fault_entry)"

text \<open>One structure per core, cleared.\<close>

definition optimsoc_syscalls_init :: "machine \<Rightarrow> runtime \<Rightarrow> runtime exec" where
  "optimsoc_syscalls_init m r =
     bnd (assert_c (m_alloc_syscalls m)) (\<lambda>_.
       ok (r\<lparr>r_exceptions := (r_exceptions r)(12 \<mapsto> optimsoc_syscall_entry_point),
             r_syscall_data := replicate (m_numcores m) \<lparr>sc_id = 0, sc_output = 0, sc_param = replicate 6 0\<rparr>\<rparr>))"

subsection \<open>The boot function\<close>

definition go :: "nat \<Rightarrow> stage \<Rightarrow> runtime \<Rightarrow> runtime" where
  "go c st r = r\<lparr>r_stage := (r_stage r)[c := st]\<rparr>"

text \<open>The step of core \<open>c\<close> at its position. A core that has started the scheduler runs threads.\<close>

definition runtime_boot_step :: "osenv \<Rightarrow> machine \<Rightarrow> nat \<Rightarrow> runtime \<Rightarrow> runtime exec" where
  "runtime_boot_step env m c r =
     (case r_stage r ! c of
        Entry \<Rightarrow> ok (go c (if c = 0 then InitDma else Waiting) r)
      | InitDma \<Rightarrow> ok (go c InitContext (r\<lparr>r_dma := dma_init (r_dma r)\<rparr>))
      | InitContext \<Rightarrow> bnd (optimsoc_context_init m (r_k r)) (\<lambda>k. ok (go c InitVmm (r\<lparr>r_k := k\<rparr>)))
      | InitVmm \<Rightarrow> ok (go c InitSyscalls (r\<lparr>r_exceptions := optimsoc_vmm_init (r_exceptions r)\<rparr>))
      | InitSyscalls \<Rightarrow> bnd (optimsoc_syscalls_init m r) (\<lambda>r1. ok (go c InitScheduler r1))
      | InitScheduler \<Rightarrow>
          bnd (optimsoc_scheduler_init env (m_numcores m) (m_init m) (m_idle m) (r_k r)) (\<lambda>k.
            ok (go c OpenBarrier (r\<lparr>r_k := k\<rparr>)))
      | OpenBarrier \<Rightarrow> ok (go c Starting (r\<lparr>r_barrier := 1\<rparr>))
      | Waiting \<Rightarrow> ok (if r_barrier r = 0 then r else go c Starting r)
      | Starting \<Rightarrow> bnd (optimsoc_scheduler_start c (r_k r)) (\<lambda>k. ok (go c Running (r\<lparr>r_k := k\<rparr>)))
      | Running \<Rightarrow> ok r)"

text \<open>
  The memory before the boot: the barrier is zero and no core has entered. The registers of the
  cores and the configuration are arbitrary.
\<close>

definition runtime_reset :: "machine \<Rightarrow> runtime \<Rightarrow> bool" where
  "runtime_reset m r \<longleftrightarrow>
     r_barrier r = 0 \<and> r_stage r = replicate (m_numcores m) Entry \<and>
     k_lists (r_k r) = empty_lmem \<and> k_threads (r_k r) = Map.empty \<and> k_timers (r_k r) = 0 \<and>
     length (k_cpu (r_k r)) = m_numcores m"

text \<open>One core after the other, for concrete runs.\<close>

fun boot_schedule :: "osenv \<Rightarrow> machine \<Rightarrow> nat list \<Rightarrow> runtime \<Rightarrow> runtime exec" where
  "boot_schedule env m [] r = ok r"
| "boot_schedule env m (c # cs) r =
     (if c < length (r_stage r) then bnd (runtime_boot_step env m c r) (boot_schedule env m cs)
      else flt OutOfBounds)"

subsection \<open>System calls (syscalls.c, syscall_entry.S)\<close>

text \<open>
  The entry copies the number and the parameters from the registers on the exception stack,
  registers 11 and 3 to 8, into the structure of the core, calls the registered handler and stores the
  output of the structure in register 11 of the exception frame, as it is after the call. The
  registers on the exception stack are the frame of the kernel state. Without a handler the program ends. \<open>get\<close> and \<open>put\<close> find the kernel
  state in the state the handler works on.
\<close>

definition frame_put :: "nat \<Rightarrow> nat \<Rightarrow> u32 \<Rightarrow> kstate \<Rightarrow> kstate" where
  "frame_put c i v s = s\<lparr>k_frame := (k_frame s)[c := (k_frame s ! c)\<lparr>c_regs := (c_regs (k_frame s ! c))[i := v]\<rparr>]\<rparr>"

definition optimsoc_syscall_entry ::
    "(syscall \<Rightarrow> 's \<Rightarrow> (syscall \<times> 's) exec) option \<Rightarrow> ('s \<Rightarrow> kstate) \<Rightarrow> ((kstate \<Rightarrow> kstate) \<Rightarrow> 's \<Rightarrow> 's) \<Rightarrow>
     nat \<Rightarrow> syscall list \<times> 's \<Rightarrow> (syscall list \<times> 's) exec" where
  "optimsoc_syscall_entry handler get put c = (\<lambda>(data, s).
     if length data \<le> c \<or> length (k_frame (get s)) \<le> c then flt OutOfBounds
     else
       let regs = c_regs (k_frame (get s) ! c);
           call = (data ! c)\<lparr>sc_id := regs ! 11, sc_param := map ((!) regs) [3..<9]\<rparr>
       in case handler of None \<Rightarrow> None
          | Some h \<Rightarrow> bnd (h call s) (\<lambda>(call1, s1).
              ok (data[c := call1], put (frame_put c 11 (sc_output call1)) s1)))"

definition optimsoc_syscall_handler_set :: "'h \<Rightarrow> 'h option \<Rightarrow> 'h option" where
  "optimsoc_syscall_handler_set handler old = Some handler"

subsection \<open>DMA transfers of threads (dma.c)\<close>

text \<open>
  A thread that gets no slot yields and tries again. \<open>others\<close> is what the other threads do
  until it runs again, one function for each time; when the list is used up it is still
  waiting.
\<close>

fun dma_acquire ::
    "osenv \<Rightarrow> nat \<Rightarrow> (kstate \<times> dma_state \<Rightarrow> kstate \<times> dma_state) list \<Rightarrow> kstate \<times> dma_state \<Rightarrow>
     (u32 \<times> kstate \<times> dma_state) exec" where
  "dma_acquire env c others (k, d) =
     (case dma_alloc d of
        (DMA_SUCCESS, Some h, d1) \<Rightarrow> ok (h, k, d1)
      | (_, _, d1) \<Rightarrow>
          bnd (optimsoc_thread_current c k) (\<lambda>t.
          bnd (optimsoc_thread_yield env c t k) (\<lambda>k1.
            case others of [] \<Rightarrow> None | f # fs \<Rightarrow> dma_acquire env c fs (f (k1, d1)))))"

text \<open>\<open>status\<close> is what the status register answers while the transfer runs.\<close>

definition optimsoc_dma_transfer ::
    "osenv \<Rightarrow> nat \<Rightarrow> (kstate \<times> dma_state \<Rightarrow> kstate \<times> dma_state) list \<Rightarrow> u32 list \<Rightarrow> ptr \<Rightarrow> u32 \<Rightarrow> ptr \<Rightarrow> u32 \<Rightarrow> u32 \<Rightarrow>
     kstate \<times> dma_state \<Rightarrow> (kstate \<times> dma_state) exec" where
  "optimsoc_dma_transfer env c others status local remote_tile remote sz dir s =
     bnd (dma_acquire env c others s) (\<lambda>(h, k, d).
     bnd (assert_c (sz mod 4 = 0)) (\<lambda>_.
     bnd (dma_transfer local remote_tile remote (sz div 4) dir h d) (\<lambda>(_, d1).
     case dma_wait status d1 of None \<Rightarrow> None
     | Some _ \<Rightarrow> bnd (dma_free h d1) (\<lambda>(_, d2). ok (k, d2)))))"

subsection \<open>The load monitor (monitor.c)\<close>

text \<open>
  The number of this instance and of all of them, and whether the communication is ready, come
  from modules that are not in the repository; what is sent is a list of destinations with the load.
\<close>

record monitor =
  mo_array :: "u32 list"
  mo_history :: "u32 list"
  mo_current :: u32
  mo_counter :: u32
  mo_sent :: "(nat \<times> u32) list"

definition monitor_start :: monitor where
  "monitor_start = \<lparr>mo_array = [], mo_history = replicate 16 0, mo_current = 0, mo_counter = 0, mo_sent = []\<rparr>"

definition monitor_init :: "u32 list \<Rightarrow> monitor \<Rightarrow> monitor" where
  "monitor_init junk s = s\<lparr>mo_array := junk, mo_counter := 0, mo_current := 0\<rparr>"

definition monitor_receive_data :: "nat \<Rightarrow> nat \<Rightarrow> u32 list \<Rightarrow> monitor \<Rightarrow> monitor exec" where
  "monitor_receive_data instances source message s =
     bnd (assert_c (source < instances)) (\<lambda>_.
       if message = [] \<or> length (mo_array s) \<le> source then flt OutOfBounds
       else ok (s\<lparr>mo_array := (mo_array s)[source := hd message]\<rparr>))"

fun history_shift :: "nat \<Rightarrow> u32 list \<Rightarrow> u32 list" where
  "history_shift 0 h = h"
| "history_shift (Suc l) h = history_shift l (h[Suc l := h ! l])"

definition monitor_schedule_run :: "nat \<Rightarrow> nat \<Rightarrow> bool \<Rightarrow> u32 \<Rightarrow> monitor \<Rightarrow> monitor exec" where
  "monitor_schedule_run instances me ready runnable s =
     (let h = (history_shift 15 (mo_history s))[0 := runnable];
          cur = mo_current s - mo_history s ! 15 + h ! 0;
          n = mo_counter s + 1
      in if length (mo_array s) \<le> me then flt OutOfBounds
         else
           let s1 = s\<lparr>mo_history := h, mo_current := cur, mo_array := (mo_array s)[me := cur], mo_counter := n\<rparr>
           in if n = 1 then
                ok (s1\<lparr>mo_sent := mo_sent s1 @ (if ready then map (\<lambda>t. (t, cur)) (filter (\<lambda>t. t \<noteq> me) [0..<instances]) else []),
                       mo_counter := 0\<rparr>)
              else ok s1)"

end
