(* ===== verification/Gzll_Sys.thy ===== *)
theory Gzll_Sys
  imports Gzll_Comm Boot
begin

section \<open>System calls of gzll (syscall.c, node.c, mp.c, kernel_info.c) and their stubs (libgzll)\<close>

subsection \<open>The calls\<close>

text \<open>The structure of a call is the one of the runtime, \<open>syscall\<close>.\<close>

definition sc_arg :: "nat \<Rightarrow> syscall \<Rightarrow> u32" where
  "sc_arg i c = sc_param c ! i"

text \<open>The node of the thread that runs, its application and the task directory.\<close>

definition current_node :: "genv \<Rightarrow> gz \<Rightarrow> gnode exec" where
  "current_node env s =
     bnd (optimsoc_thread_current (ge_core env) (g_k s)) (\<lambda>t.
     bnd (optimsoc_thread_get_extra_data t (g_k s)) (\<lambda>n. node_at n s))"

definition current_dir :: "genv \<Rightarrow> gz \<Rightarrow> (gnode \<times> ptr \<times> taskdir) exec" where
  "current_dir env s =
     bnd (current_node env s) (\<lambda>n.
     bnd (assert_c (gn_app n \<noteq> 0)) (\<lambda>_.
     bnd (app_at (gn_app n) s) (\<lambda>ap.
     bnd (assert_c (ap_task_dir ap \<noteq> 0)) (\<lambda>_.
     bnd (dir_at (ap_task_dir ap) s) (\<lambda>d. ok (n, ap_task_dir ap, d))))))"

definition gzll_syscall_get_kernelinfo :: "genv \<Rightarrow> syscall \<Rightarrow> gz \<Rightarrow> (syscall \<times> gz) exec" where
  "gzll_syscall_get_kernelinfo env c s =
     bnd (gzll_memcpy_to_userspace env (sc_arg 0 c) (map of_char ''0.1'' @ [0]) s) (\<lambda>s1. ok (c, s1))"

definition gzll_syscall_self :: "genv \<Rightarrow> syscall \<Rightarrow> gz \<Rightarrow> (syscall \<times> gz) exec" where
  "gzll_syscall_self env c s =
     bnd (current_node env s) (\<lambda>n. ok (c\<lparr>sc_output := gn_taskid n\<rparr>, s))"

text \<open>
  The name is copied into a buffer of 64 bytes, with the length the user gives. The number of
  the task is written back also when it was not found.
\<close>

definition gzll_syscall_get_taskid :: "genv \<Rightarrow> syscall \<Rightarrow> gz \<Rightarrow> (syscall \<times> gz) exec" where
  "gzll_syscall_get_taskid env c s =
     bnd (gzll_memcpy_from_userspace env 64 (sc_arg 0 c) (sc_arg 1 c) s) (\<lambda>bs.
     bnd (current_node env s) (\<lambda>n.
     bnd (app_at (gn_app n) s) (\<lambda>ap.
     bnd (assert_c (ap_task_dir ap \<noteq> 0)) (\<lambda>_.
     bnd (dir_at (ap_task_dir ap) s) (\<lambda>d.
     bnd (c_string 0 bs) (\<lambda>name.
     bnd (taskdir_taskid_lookup name d) (\<lambda>(rv, r, d').
     let taskid = (case r of Some t \<Rightarrow> t | None \<Rightarrow> ge_junk env 0) in
     bnd (gzll_memcpy_to_userspace env (sc_arg 2 c) (word_bytes taskid) (set_dir (ap_task_dir ap) d' s)) (\<lambda>s1.
       ok (c\<lparr>sc_output := (if rv = 0 then 0 else -1)\<rparr>, s1)))))))))"

function alloc_pages :: "genv \<Rightarrow> ptr \<Rightarrow> u32 \<Rightarrow> int \<Rightarrow> gz \<Rightarrow> (u32 \<times> gz) exec" where
  "alloc_pages env pdir vaddr sz s =
     (if sz > 0 then
        bnd (gzll_page_alloc s) (\<lambda>(alloced, s1).
        bnd (assert_c (alloced \<noteq> 0)) (\<lambda>_.
        bnd (optimsoc_vmm_map (ge_ma env) [] [] pdir vaddr (push_bit 13 alloced) (g_vm s1)) (\<lambda>(_, vm).
          alloc_pages env pdir (vaddr + 0x2000) (sz - 0x2000) (s1\<lparr>g_vm := vm\<rparr>))))
      else ok (vaddr, s))"
  by pat_completeness auto
termination
  by (relation "measure (\<lambda>(_, _, _, sz, _). nat sz)") auto

definition gzll_syscall_alloc_page :: "genv \<Rightarrow> syscall \<Rightarrow> gz \<Rightarrow> (syscall \<times> gz) exec" where
  "gzll_syscall_alloc_page env c s =
     bnd (optimsoc_thread_current (ge_core env) (g_k s)) (\<lambda>t.
     bnd (optimsoc_thread_get_pagedir t (g_k s)) (\<lambda>pdir.
     bnd (alloc_pages env pdir (sc_arg 0 c) (sint (sc_arg 1 c)) s) (\<lambda>(v, s1).
       ok (c\<lparr>sc_output := v\<rparr>, s1))))"

text \<open>The node number, the buffer size and the message size are not initialised.\<close>

definition gzll_syscall_endpoint_create :: "genv \<Rightarrow> syscall \<Rightarrow> gz \<Rightarrow> (syscall \<times> gz) exec" where
  "gzll_syscall_endpoint_create env c s =
     bnd (current_dir env s) (\<lambda>(n, p, d).
     bnd (td_at (gn_taskid n) d) (\<lambda>e.
     bnd (optimsoc_mp_endpoint_create (ge_mp_mal env) (ge_junk env) (ge_tile env) (ge_junk env 1) (sc_arg 0 c)
            (sc_arg 1 c) (ge_junk env 2) (sint (ge_junk env 3)) (g_mp s)) (\<lambda>(eph, m).
     bnd (endpoint_table_add (an_endpoints e) (sc_arg 0 c) eph) (\<lambda>t.
       ok (c\<lparr>sc_output := 0\<rparr>, set_dir p (td_put (gn_taskid n) (e\<lparr>an_endpoints := t\<rparr>) d) (s\<lparr>g_mp := m\<rparr>))))))"

definition gzll_syscall_endpoint_get :: "genv \<Rightarrow> syscall \<Rightarrow> gz \<Rightarrow> (syscall \<times> gz) exec" where
  "gzll_syscall_endpoint_get env c s =
     bnd (current_dir env s) (\<lambda>(n, p, d).
     bnd (td_at (sc_arg 0 c) d) (\<lambda>e.
     bnd (optimsoc_mp_endpoint_get (ge_mp_mal env) (ge_tile env) True (ge_ready env)
            (optimsoc_get_ranktile (ge_na env) (an_rank e)) (an_nodeid e) (sc_arg 1 c) (g_in s) (g_mp s))
       (\<lambda>(eph, inp, m).
     bnd (endpoint_table_add (an_endpoints e) (sc_arg 1 c) eph) (\<lambda>t.
       ok (c\<lparr>sc_output := 0\<rparr>,
           set_dir p (td_put (sc_arg 0 c) (e\<lparr>an_endpoints := t\<rparr>) d) (s\<lparr>g_in := inp, g_mp := m\<rparr>))))))"

definition table_ep :: "u32 \<Rightarrow> u32 \<Rightarrow> taskdir \<Rightarrow> ptr exec" where
  "table_ep task port d =
     bnd (assert_c (task < td_size d)) (\<lambda>_.
     bnd (td_at task d) (\<lambda>e.
       case an_endpoints e of None \<Rightarrow> flt Uninit
       | Some eps \<Rightarrow> bnd (assert_c (unat port < length eps)) (\<lambda>_. ok (eps ! unat port))))"

definition gzll_syscall_channel_connect :: "genv \<Rightarrow> syscall \<Rightarrow> gz \<Rightarrow> (syscall \<times> gz) exec" where
  "gzll_syscall_channel_connect env c s =
     bnd (current_dir env s) (\<lambda>(n, p, d).
     bnd (table_ep (sc_arg 0 c) (sc_arg 1 c) d) (\<lambda>fromep.
     bnd (table_ep (sc_arg 2 c) (sc_arg 3 c) d) (\<lambda>toep.
     bnd (optimsoc_mp_channel_connect (ge_mp_mal env) (ge_tile env) fromep toep (g_in s) (g_mp s)) (\<lambda>(inp, m).
       ok (c\<lparr>sc_output := 0\<rparr>, s\<lparr>g_in := inp, g_mp := m\<rparr>)))))"

abbreviation (input) GZLL_SYSCALL_THREAD_EXIT :: u32 where "GZLL_SYSCALL_THREAD_EXIT \<equiv> 0"
abbreviation (input) GZLL_SYSCALL_VMM_ALLOC_PAGE :: u32 where "GZLL_SYSCALL_VMM_ALLOC_PAGE \<equiv> 1"
abbreviation (input) GZLL_SYSCALL_KERNEL_INFO :: u32 where "GZLL_SYSCALL_KERNEL_INFO \<equiv> 2"
abbreviation (input) GZLL_SYSCALL_SELF :: u32 where "GZLL_SYSCALL_SELF \<equiv> 3"
abbreviation (input) GZLL_SYSCALL_TASK_LOOKUP :: u32 where "GZLL_SYSCALL_TASK_LOOKUP \<equiv> 4"
abbreviation (input) GZLL_SYSCALL_ENDPOINT_CREATE :: u32 where "GZLL_SYSCALL_ENDPOINT_CREATE \<equiv> 5"
abbreviation (input) GZLL_SYSCALL_ENDPOINT_GET :: u32 where "GZLL_SYSCALL_ENDPOINT_GET \<equiv> 6"
abbreviation (input) GZLL_SYSCALL_CHANNEL_CONNECT :: u32 where "GZLL_SYSCALL_CHANNEL_CONNECT \<equiv> 7"

definition syscall_exit :: "genv \<Rightarrow> syscall \<Rightarrow> gz \<Rightarrow> (syscall \<times> gz) exec" where
  "syscall_exit env c s = bnd (on_k (optimsoc_thread_exit (ge_core env)) s) (\<lambda>s1. ok (c, s1))"

definition gzll_syscall_handler :: "genv \<Rightarrow> syscall \<Rightarrow> gz \<Rightarrow> (syscall \<times> gz) exec" where
  "gzll_syscall_handler env c s =
     (if sc_id c = GZLL_SYSCALL_THREAD_EXIT then syscall_exit env c s
      else if sc_id c = GZLL_SYSCALL_KERNEL_INFO then gzll_syscall_get_kernelinfo env c s
      else if sc_id c = GZLL_SYSCALL_SELF then gzll_syscall_self env c s
      else if sc_id c = GZLL_SYSCALL_TASK_LOOKUP then gzll_syscall_get_taskid env c s
      else if sc_id c = GZLL_SYSCALL_ENDPOINT_CREATE then gzll_syscall_endpoint_create env c s
      else if sc_id c = GZLL_SYSCALL_ENDPOINT_GET then gzll_syscall_endpoint_get env c s
      else if sc_id c = GZLL_SYSCALL_VMM_ALLOC_PAGE then gzll_syscall_alloc_page env c s
      else if sc_id c = GZLL_SYSCALL_CHANNEL_CONNECT then gzll_syscall_channel_connect env c s
      else syscall_exit env c s)"

subsection \<open>The trap (main.c, libgzll/syscall.h)\<close>

text \<open>
  The kernel registers its handler with the runtime. A call of a program puts the number and the
  parameters in the registers and traps; its result is register 11 afterwards. The frame of the
  core holds the registers of the program between the trap and the return.
\<close>

definition gzll_trap :: "genv \<Rightarrow> syscall list \<times> gz \<Rightarrow> (syscall list \<times> gz) exec" where
  "gzll_trap env =
     optimsoc_syscall_entry (optimsoc_syscall_handler_set (gzll_syscall_handler env) None)
       g_k (\<lambda>f s. s\<lparr>g_k := f (g_k s)\<rparr>) (ge_core env)"

definition load_call :: "u32 \<Rightarrow> u32 list \<Rightarrow> u32 list \<Rightarrow> u32 list" where
  "load_call i ps regs = regs[11 := i, 3 := ps ! 0, 4 := ps ! 1, 5 := ps ! 2, 6 := ps ! 3, 7 := ps ! 4, 8 := ps ! 5]"

definition user_syscall :: "genv \<Rightarrow> u32 \<Rightarrow> u32 list \<Rightarrow> syscall list \<times> gz \<Rightarrow> (u32 \<times> syscall list \<times> gz) exec" where
  "user_syscall env i ps = (\<lambda>(data, s).
     let c = ge_core env; f = k_frame (g_k s) ! c;
         s1 = s\<lparr>g_k := (g_k s)\<lparr>k_frame := (k_frame (g_k s))[c := f\<lparr>c_regs := load_call i ps (c_regs f)\<rparr>]\<rparr>\<rparr>
     in bnd (gzll_trap env (data, s1)) (\<lambda>(data1, s2). ok (c_regs (k_frame (g_k s2) ! c) ! 11, data1, s2)))"

text \<open>The part of \<open>main\<close> in front of the start of the runtime.\<close>

definition gzll_main_init ::
    "genv \<Rightarrow> u32 list \<Rightarrow> u32 \<Rightarrow> u32 \<Rightarrow> mps_state \<Rightarrow> gz \<Rightarrow> (mps_state \<times> (nat \<times> u32) list \<times> gz) exec" where
  "gzll_main_init env junk apps_end stack_bottom ps s =
     bnd (gzll_paging_init env apps_end stack_bottom
            (s\<lparr>g_rank := word_of_int (optimsoc_get_ctrank (ge_na env)), g_nxtid := 1\<rparr>)) (\<lambda>s1.
     bnd (optimsoc_mp_initialize (ge_na env) junk ps (g_mp s1)) (\<lambda>(ps1, w, m).
       ok (ps1, w, s1\<lparr>g_mp := m\<rparr>)))"

subsection \<open>The stubs of the user library (libgzll/gzll.c)\<close>

text \<open>
  The state of the library in a user program; \<open>sys\<close> is the system call, a function of its
  number and six parameters on the state of the rest of the system. \<open>malloc\<close> answers from
  what is live.
\<close>

record ulib =
  u_self :: u32
  u_identified :: bool
  u_eps :: "ptr \<Rightarrow> (u32 \<times> u32) option"
  u_chans :: "ptr \<Rightarrow> (ptr \<times> ptr) option"

type_synonym 'w sysfun = "u32 \<Rightarrow> u32 list \<Rightarrow> 'w \<Rightarrow> u32 \<times> 'w"

definition u_live :: "ulib \<Rightarrow> ptr \<Rightarrow> bool" where
  "u_live u p \<longleftrightarrow> u_eps u p \<noteq> None \<or> u_chans u p \<noteq> None"

definition gzll_get_kernel_version :: "'w sysfun \<Rightarrow> ptr \<Rightarrow> 'w \<Rightarrow> ptr \<times> 'w" where
  "gzll_get_kernel_version sys buf w = (buf, snd (sys GZLL_SYSCALL_KERNEL_INFO [buf, 0, 0, 0, 0, 0] w))"

definition gzll_lookup_nodeid :: "'w sysfun \<Rightarrow> ptr \<Rightarrow> string \<Rightarrow> ptr \<Rightarrow> 'w \<Rightarrow> u32 \<times> 'w" where
  "gzll_lookup_nodeid sys name_addr name nodeid w =
     sys GZLL_SYSCALL_TASK_LOOKUP [name_addr, word_of_nat (length name) + 1, nodeid, 0, 0, 0] w"

definition gzll_self :: "'w sysfun \<Rightarrow> ulib \<Rightarrow> 'w \<Rightarrow> u32 \<times> ulib \<times> 'w" where
  "gzll_self sys u w =
     (if \<not> u_identified u then
        let (r, w1) = sys GZLL_SYSCALL_SELF [0, 0, 0, 0, 0, 0] w
        in (r, u\<lparr>u_self := r, u_identified := True\<rparr>, w1)
      else (u_self u, u, w))"

text \<open>The result of \<open>malloc\<close> is not checked in the first two.\<close>

definition gzll_mp_endpoint_create ::
    "'w sysfun \<Rightarrow> allocator \<Rightarrow> u32 \<Rightarrow> u32 \<Rightarrow> u32 \<Rightarrow> u32 \<Rightarrow> ulib \<Rightarrow> 'w \<Rightarrow> (u32 \<times> ptr \<times> ulib \<times> 'w) exec" where
  "gzll_mp_endpoint_create sys mal port buffer_type buffer_size max_elem_size u w =
     (let ep = mal (u_live u) in
      if ep = 0 then flt NullDeref
      else
        let (me, u1, w1) = gzll_self sys u w;
            u2 = u1\<lparr>u_eps := (u_eps u1)(ep \<mapsto> (me, port))\<rparr>;
            (r, w2) = sys GZLL_SYSCALL_ENDPOINT_CREATE [port, buffer_type, buffer_size, max_elem_size, 0, 0] w1
        in ok (r, ep, u2, w2))"

definition gzll_mp_endpoint_get ::
    "'w sysfun \<Rightarrow> allocator \<Rightarrow> u32 \<Rightarrow> u32 \<Rightarrow> ulib \<Rightarrow> 'w \<Rightarrow> (u32 \<times> ptr \<times> ulib \<times> 'w) exec" where
  "gzll_mp_endpoint_get sys mal node port u w =
     (let ep = mal (u_live u) in
      if ep = 0 then flt NullDeref
      else
        let (r, w1) = sys GZLL_SYSCALL_ENDPOINT_GET [node, port, 0, 0, 0, 0] w
        in ok (r, ep, u\<lparr>u_eps := (u_eps u)(ep \<mapsto> (node, port))\<rparr>, w1))"

definition u_ep_at :: "ptr \<Rightarrow> ulib \<Rightarrow> (u32 \<times> u32) exec" where
  "u_ep_at p u = (case u_eps u p of None \<Rightarrow> flt BadPtr | Some e \<Rightarrow> ok e)"

definition gzll_mp_channel_connect ::
    "'w sysfun \<Rightarrow> allocator \<Rightarrow> ptr \<Rightarrow> ptr \<Rightarrow> ulib \<Rightarrow> 'w \<Rightarrow> (u32 \<times> ptr \<times> ulib \<times> 'w) exec" where
  "gzll_mp_channel_connect sys mal from_ep to_ep u w =
     bnd (assert_c (from_ep \<noteq> 0)) (\<lambda>_. bnd (assert_c (to_ep \<noteq> 0)) (\<lambda>_.
     let ch = mal (u_live u) in
     if ch = 0 then flt NoMem
     else
       bnd (u_ep_at from_ep u) (\<lambda>(fn, fp). bnd (u_ep_at to_ep u) (\<lambda>(tn, tp).
       let (r, w1) = sys GZLL_SYSCALL_CHANNEL_CONNECT [fn, fp, tn, tp, 0, 0] w
       in ok (r, ch, u\<lparr>u_chans := (u_chans u)(ch \<mapsto> (from_ep, to_ep))\<rparr>, w1)))))"

end
