(* ===== verification/Gzll_Props.thy ===== *)
theory Gzll_Props
  imports Gzll_Sys Sched_Props Mp_Props
begin

section \<open>Properties of the kernel gzll\<close>

subsection \<open>The pool of pages\<close>

lemma pool_fill_inv:
  assumes "store_inv (k_lists (g_k s)) V" and "V (g_pagepool s) = Some (True, ps)" and "alloc_ok (o_mal env)"
  shows "post (pool_fill env n p s) (\<lambda>s'. g_pagepool s' = g_pagepool s \<and> g_vm s' = g_vm s \<and>
    store_inv (k_lists (g_k s')) (V(g_pagepool s \<mapsto> (True, ps @ map (\<lambda>i. p + word_of_nat i) [0..<n]))))"
  using assms
proof (induction n arbitrary: p s V ps)
  case 0
  then have "V(g_pagepool s \<mapsto> (True, ps)) = V" by (simp add: fun_upd_idem)
  with 0 show ?case by simp
next
  case (Suc n)
  let ?V = "V(g_pagepool s \<mapsto> (True, ps @ [p]))"
  have up: "map (\<lambda>i. p + word_of_nat i) [0..<Suc n] = p # map (\<lambda>i. (p + 1) + word_of_nat i) [0..<n]"
    by (simp add: upt_conv_Cons map_Suc_upt [symmetric] ac_simps del: upt_Suc)
  have 1: "post (on_k (k_add_tail env (g_pagepool s) p) s) (\<lambda>s1. g_pagepool s1 = g_pagepool s \<and> g_vm s1 = g_vm s \<and>
      store_inv (k_lists (g_k s1)) ?V)"
    unfolding on_k_def k_add_tail_def bnd_assoc
    by (rule post_bndI [OF ls.add_tail_law [OF Suc.prems]]) simp
  show ?case
    unfolding pool_fill.simps
  proof (rule post_bndI [OF 1])
    fix s1 :: gz assume s1: "g_pagepool s1 = g_pagepool s \<and> g_vm s1 = g_vm s \<and> store_inv (k_lists (g_k s1)) ?V"
    have "post (pool_fill env n (p + 1) s1) (\<lambda>s'. g_pagepool s' = g_pagepool s1 \<and> g_vm s' = g_vm s1 \<and>
        store_inv (k_lists (g_k s')) (?V(g_pagepool s1 \<mapsto> (True, (ps @ [p]) @ map (\<lambda>i. (p + 1) + word_of_nat i) [0..<n]))))"
    proof (rule Suc.IH)
      show "store_inv (k_lists (g_k s1)) ?V" using s1 by blast
      show "?V (g_pagepool s1) = Some (True, ps @ [p])" using s1 by simp
    qed (rule Suc.prems(3))
    then show "post (pool_fill env n (p + 1) s1) (\<lambda>s'. g_pagepool s' = g_pagepool s \<and> g_vm s' = g_vm s \<and>
        store_inv (k_lists (g_k s')) (V(g_pagepool s \<mapsto> (True, ps @ map (\<lambda>i. p + word_of_nat i) [0..<Suc n]))))"
      by (rule post_mono) (use s1 up in \<open>simp del: fun_upd_apply\<close>)
  qed
qed

text \<open>Drawing \<open>n\<close> pages.\<close>

fun draw :: "nat \<Rightarrow> gz \<Rightarrow> (u32 list \<times> gz) exec" where
  "draw 0 s = ok ([], s)"
| "draw (Suc n) s = bnd (gzll_page_alloc s) (\<lambda>(p, s1). bnd (draw n s1) (\<lambda>(ps, s2). ok (p # ps, s2)))"

lemma draw_inv:
  assumes "store_inv (k_lists (g_k s)) V" and "V (g_pagepool s) = Some (b, ps)"
  shows "\<exists>s' b'. draw n s = ok (take n ps @ replicate (n - length ps) 0, s') \<and> g_pagepool s' = g_pagepool s \<and>
    store_inv (k_lists (g_k s')) (V(g_pagepool s \<mapsto> (b', drop n ps)))"
  using assms
proof (induction n arbitrary: s V b ps)
  case 0
  then have "V(g_pagepool s \<mapsto> (b, ps)) = V" by (simp add: fun_upd_idem)
  with 0 show ?case by (intro exI [of _ s] exI [of _ b]) (simp del: fun_upd_apply)
next
  case (Suc n)
  from ls.remove_head_law [OF Suc.prems] obtain m where
    m: "optimsoc_list_remove_head (g_pagepool s) (k_lists (g_k s)) = ok (fst (q_pop (b, ps)), m)"
      "store_inv m (V(g_pagepool s \<mapsto> snd (q_pop (b, ps))))" by blast
  let ?s = "s\<lparr>g_k := (g_k s)\<lparr>k_lists := m\<rparr>\<rparr>"
  obtain b1 ps1 where q: "snd (q_pop (b, ps)) = (b1, ps1)" by (cases "snd (q_pop (b, ps))")
  have a: "gzll_page_alloc s = ok (fst (q_pop (b, ps)), ?s)"
    using m(1) by (simp add: gzll_page_alloc_def on_k_val_def k_remove_head_def)
  have "store_inv (k_lists (g_k ?s)) (V(g_pagepool s \<mapsto> (b1, ps1)))" "(V(g_pagepool s \<mapsto> (b1, ps1))) (g_pagepool ?s) = Some (b1, ps1)"
    using m(2) q by simp_all
  from Suc.IH [OF this] obtain s' b' where
    s': "draw n ?s = ok (take n ps1 @ replicate (n - length ps1) 0, s')" "g_pagepool s' = g_pagepool s"
      "store_inv (k_lists (g_k s')) (V(g_pagepool s \<mapsto> (b', drop n ps1)))" by (auto simp del: fun_upd_apply)
  then have "draw (Suc n) s = ok (fst (q_pop (b, ps)) # take n ps1 @ replicate (n - length ps1) 0, s')"
    using a by simp
  moreover have "fst (q_pop (b, ps)) # take n ps1 @ replicate (n - length ps1) 0 = take (Suc n) ps @ replicate (Suc n - length ps) 0"
      and "drop n ps1 = drop (Suc n) ps"
    using q by (cases ps; auto)+
  ultimately show ?case using s' by (intro exI [of _ s'] exI [of _ b']) (simp del: fun_upd_apply)
qed

text \<open>The set-up of the paging leaves a pool with the free pages in ascending order.\<close>

lemma paging_init_pool:
  assumes "store_inv (k_lists (g_k s)) V" and "alloc_ok (o_mal (ge_os env))"
    and "sp = drop_bit 13 (apps_end + 40 * 8192 + 8191)"
    and "k = Suc (unat (drop_bit 13 stack_bottom - 1)) - unat sp" and "8192 \<le> stack_bottom"
  shows "post (gzll_paging_init env apps_end stack_bottom s) (\<lambda>s1.
    \<exists>V. store_inv (k_lists (g_k s1)) V \<and> V (g_pagepool s1) = Some (True, map (\<lambda>i. sp + word_of_nat i) [0..<k]))"
proof -
  let ?s = "s\<lparr>g_dfault := ge_dfault env, g_ifault := ge_ifault env\<rparr>"
  let ?ps = "map (\<lambda>i. sp + word_of_nat i) [0..<k]"
  have 1: "post (on_k_val (k_list_init (ge_os env) 0) ?s) (\<lambda>(l, s1). l \<noteq> 0 \<and> V l = None \<and>
      store_inv (k_lists (g_k s1)) (V(l \<mapsto> (True, []))))"
    unfolding on_k_val_def k_list_init_def bnd_assoc
    by (rule post_bndI [OF ls.init_law [OF _ assms(2), of _ V 0]]) (use assms(1) in auto)
  have 2: "post (pool_fill (ge_os env) k sp (s1\<lparr>g_pagepool := l\<rparr>)) (\<lambda>s2.
      \<exists>V. store_inv (k_lists (g_k s2)) V \<and> V (g_pagepool s2) = Some (True, ?ps))"
    if "store_inv (k_lists (g_k s1)) (V(l \<mapsto> (True, [])))" for l and s1 :: gz
  proof (rule post_mono [OF pool_fill_inv [where V = "V(l \<mapsto> (True, []))" and ps = "[]"]])
    fix s2 :: gz assume "g_pagepool s2 = g_pagepool (s1\<lparr>g_pagepool := l\<rparr>) \<and> g_vm s2 = g_vm (s1\<lparr>g_pagepool := l\<rparr>) \<and>
      store_inv (k_lists (g_k s2)) ((V(l \<mapsto> (True, [])))(g_pagepool (s1\<lparr>g_pagepool := l\<rparr>) \<mapsto> (True, [] @ ?ps)))"
    then have "store_inv (k_lists (g_k s2)) (V(l \<mapsto> (True, ?ps)))" "(V(l \<mapsto> (True, ?ps))) (g_pagepool s2) = Some (True, ?ps)"
      by simp_all
    then show "\<exists>V. store_inv (k_lists (g_k s2)) V \<and> V (g_pagepool s2) = Some (True, ?ps)" by blast
  qed (use that assms(2) in simp_all)
  have "unat (drop_bit 13 stack_bottom) = unat stack_bottom div 8192"
    by (simp add: drop_bit_eq_div unat_div)
  then have "drop_bit 13 stack_bottom \<noteq> 0" using assms(5) by (auto simp: word_le_nat_alt div_eq_0_iff)
  then have 3: "drop_bit 13 stack_bottom - 1 \<noteq> - 1" by simp
  show ?thesis
    unfolding gzll_paging_init_def Let_def assms(3,4) [symmetric]
    by (rule post_bndI [OF 1]) (use 2 3 in auto)
qed

text \<open>
  C34: no page is handed out twice. After the set-up of the paging the kernel hands out the
  pages from the end of the applications and forty more pages to the bottom of the stack,
  each once and in ascending order, and from then on the number zero, which its callers
  take for a failure.
\<close>

theorem pages_once:
  assumes "store_inv (k_lists (g_k s)) V" and "alloc_ok (o_mal (ge_os env))"
    and "sp = drop_bit 13 (apps_end + 40 * 8192 + 8191)"
    and "k = Suc (unat (drop_bit 13 stack_bottom - 1)) - unat sp" and "8192 \<le> stack_bottom"
  shows "post (gzll_paging_init env apps_end stack_bottom s) (\<lambda>s1.
    \<forall>n. \<exists>s2. draw n s1 = ok (take n (map (\<lambda>i. sp + word_of_nat i) [0..<k]) @ replicate (n - k) 0, s2))"
proof (rule post_mono [OF paging_init_pool [OF assms]])
  fix s1 :: gz assume "\<exists>V. store_inv (k_lists (g_k s1)) V \<and> V (g_pagepool s1) = Some (True, map (\<lambda>i. sp + word_of_nat i) [0..<k])"
  then obtain V where "store_inv (k_lists (g_k s1)) V" "V (g_pagepool s1) = Some (True, map (\<lambda>i. sp + word_of_nat i) [0..<k])" by blast
  from draw_inv [OF this] show "\<forall>n. \<exists>s2. draw n s1 = ok (take n (map (\<lambda>i. sp + word_of_nat i) [0..<k]) @ replicate (n - k) 0, s2)"
    by fastforce
qed


text \<open>A tile without applications, on the demonstration state of the runtime.\<close>

definition demo_gz :: "lmem \<Rightarrow> vmem \<Rightarrow> gz" where
  "demo_gz l vm = \<lparr>g_k = demo_state\<lparr>k_lists := l, k_threads := (k_threads demo_state)(512 \<mapsto>
       (demo_thread 2 THREAD_RUNNABLE)\<lparr>t_page_dir := 0x10000\<rparr>)\<rparr>, g_vm = vm, g_mp = mp0, g_in = [],
     g_mem = (\<lambda>_. 0), g_apps = Map.empty, g_dirs = Map.empty, g_nodes = Map.empty, g_app_list = 0, g_node_list = 0,
     g_pagepool = 0, g_nxtid = 0, g_rank = 0, g_ep_system = 0, g_ep_remote = [], g_dfault = 0, g_ifault = 0\<rparr>"

definition demo_genv :: genv where
  "demo_genv = \<lparr>ge_os = demo_env, ge_ma = (\<lambda>_ _ _. 0), ge_core = 0,
     ge_na = \<lparr>na_tileid = 0, na_ct_num = 2, na_ct_list = (\<lambda>i. word_of_nat i), na_gmem_size = 0, na_gmem_tile = 0,
              na_seed = 0, na_numep = 1\<rparr>,
     ge_mal = first_fit 100, ge_mp_mal = first_fit 100, ge_td = (\<lambda>_. True), ge_junk = (\<lambda>_. 0), ge_ready = [True],
     ge_dfault = 72, ge_ifault = 76, ge_comm_thread = 80, ge_agent_thread = 84\<rparr>"

theorem pages_once_witness:
  "post (gzll_paging_init demo_genv 0x1f0000 0x300000 (demo_gz empty_lmem Map.empty)) (\<lambda>s1.
    \<exists>s2. draw 3 s1 = ok ([0x120, 0x121, 0x122], s2))"
proof -
  have i: "store_inv (k_lists (g_k (demo_gz empty_lmem Map.empty))) Map.empty"
    by (simp add: demo_gz_def store_inv_empty)
  have a: "alloc_ok (o_mal (ge_os demo_genv))" by (simp add: demo_genv_def demo_env_ok)
  show ?thesis
    by (rule post_mono [OF pages_once [OF i a refl refl]]; simp)
      (auto dest: spec [of _ 3] simp: upt_rec)
qed

definition demo_mps :: mps_state where
  "demo_mps = \<lparr>mps_rx = (\<lambda>_. []), mps_buffer = [], mps_handlers = [], mps_ready = [], mps_num_endpoints = 0, mps_log = []\<rparr>"


subsection \<open>Messages\<close>

lemma word_bytes_be: "word_bytes (be_word a b c d) = [a, b, c, d]"
proof -
  have "ucast (drop_bit 24 (be_word a b c d)) = a" "ucast (drop_bit 16 (be_word a b c d)) = b"
      "ucast (drop_bit 8 (be_word a b c d)) = c" "ucast (be_word a b c d) = d"
    by (rule bit_word_eqI; auto simp: be_word_def bit_simps dest: bit_imp_le_length)+
  then show ?thesis by (simp add: word_bytes_def)
qed

lemma bytes_of_append: "bytes_of (xs @ ys) = bytes_of xs @ bytes_of ys"
  by (simp add: bytes_of_def)

lemma length_bytes_of: "length (bytes_of ws) = 4 * length ws"
  by (induction ws) (simp_all add: bytes_of_def word_bytes_def)

lemma bytes_of_Cons: "bytes_of (w # ws) = word_bytes w @ bytes_of ws"
  by (simp add: bytes_of_def)

lemma bytes_of_Nil: "bytes_of [] = []"
  by (simp add: bytes_of_def)

lemma pad_small:
  "(4 - length [a] mod 4) mod 4 = Suc (Suc (Suc 0))" "(4 - length [a, b] mod 4) mod 4 = Suc (Suc 0)"
  "(4 - length [a, b, c] mod 4) mod 4 = Suc 0"
  by simp_all

lemma bytes_of_pack: "bytes_of (pack bs) = bs @ replicate ((4 - length bs mod 4) mod 4) 0"
proof (induction bs rule: pack.induct)
  case (5 a b c d bs)
  have "length (a # b # c # d # bs) mod 4 = length bs mod 4" by simp
  with 5 show ?case by (simp add: bytes_of_Cons word_bytes_be)
next
  case 1
  show ?case by (simp add: bytes_of_Nil)
qed (simp_all only: pad_small pack.simps bytes_of_Cons bytes_of_Nil word_bytes_be replicate.simps append.simps)

lemma unat_of_char: "unat (of_char c :: u8) = of_char c"
proof -
  have "(of_char c :: u8) = of_nat (of_char c)" by (simp only: of_nat_of_char)
  then show ?thesis using nat_of_char_less_256 [of c] by (simp add: unsigned_of_nat take_bit_nat_eq_self)
qed

lemma of_char_zero_iff: "(of_char c :: u8) = 0 \<longleftrightarrow> c = char_of (0 :: nat)"
proof -
  have "(of_char c :: u8) = 0 \<longleftrightarrow> (of_char c :: nat) = 0"
    unfolding word_unat_eq_iff unat_of_char by simp
  also have "\<dots> \<longleftrightarrow> c = char_of (0 :: nat)" by (metis mod_0 of_char_eq_iff of_char_of)
  finally show ?thesis .
qed

text \<open>
  the name in the message about a new node is read back with what an earlier message
  left in the buffer, when its length is a multiple of four; otherwise it is read back as it
  was sent. The receiver reads the name from the message up to a zero byte, and the sender
  pads to words without a terminator.
\<close>

theorem node_name_roundtrip:
  assumes "char_of (0 :: nat) \<notin> set name"
  shows "c_string 24 (bytes_of (node_new_words rank app_id app_nodeid name) @ stale) =
    (if length name mod 4 \<noteq> 0 then ok name
     else if 0 \<in> set stale then ok (name @ map (\<lambda>b. char_of (unat b)) (takeWhile (\<lambda>b. b \<noteq> 0) stale))
     else flt OutOfBounds)"
proof -
  let ?n = "map of_char name :: u8 list"
  have nz: "b \<noteq> 0" if "b \<in> set ?n" for b using that assms by (auto simp: of_char_zero_iff)
  have rd: "map (\<lambda>b. char_of (unat b)) ?n = name" by (simp add: comp_def unat_of_char map_idI)
  have hd: "length (bytes_of [0, rank, node_new_size name, app_id, app_nodeid, 0]) = 24" by (simp add: length_bytes_of)
  have dr: "drop 24 (bytes_of (node_new_words rank app_id app_nodeid name) @ stale) =
      ?n @ replicate ((4 - length name mod 4) mod 4) 0 @ stale"
    using hd by (simp add: node_new_words_def bytes_of_append bytes_of_pack del: append_Cons append_Nil)
  have tw: "takeWhile (\<lambda>b. b \<noteq> 0) (?n @ xs) = ?n @ takeWhile (\<lambda>b. b \<noteq> 0) xs" for xs
    by (rule takeWhile_append2) (use nz in blast)
  show ?thesis
  proof (cases "length name mod 4 = 0")
    case True
    have "0 \<notin> set ?n" using nz by blast
    with True rd show ?thesis unfolding c_string_def dr by (simp add: tw del: map_map)
  next
    case False
    have "length name mod 4 < 4" by simp
    with False have "(4 - length name mod 4) mod 4 = Suc (3 - length name mod 4)" by simp
    with rd False show ?thesis unfolding c_string_def dr by (simp add: tw del: map_map)
  qed
qed

theorem node_name_roundtrip_witness:
  "c_string 24 (bytes_of (node_new_words 1 0 2 ''sink'') @ [0x31, 0x00]) = ok ''sink1'' \<and>
   c_string 24 (bytes_of (node_new_words 1 0 2 ''sinks'') @ [0x31, 0x00]) = ok ''sinks''"
  using node_name_roundtrip [of "''sink''" 1 0 2 "[0x31, 0x00]"] node_name_roundtrip [of "''sinks''" 1 0 2 "[0x31, 0x00]"]
  by (simp add: char_of_def bit_nat_def)

subsection \<open>Nodes and system calls\<close>

text \<open>
  No node is ever started. The thread of a node is created without attributes, so without
  a name, and such a creation does not return.
\<close>

theorem node_start_fails: "gzll_node_start env app_id app_nodeid nodename tk s \<noteq> ok s'"
proof -
  have "on_k_val (optimsoc_thread_create e [] f None) x \<noteq> ok y" for e f x y
    using create_without_name [of e "[]" f "g_k x"] by (auto simp: on_k_val_def)
  then show ?thesis
    by (auto simp: gzll_node_start_def bnd_ok_iff Let_def case_prod_beta split: if_splits)
qed

text \<open>
  The system call that looks up a task copies as many bytes of the user as the user says
  into a buffer of 64 bytes of the kernel stack; with a mapped address and a larger length it
  writes past it.
\<close>

lemma lookup_overflow:
  assumes "sc_id c = GZLL_SYSCALL_TASK_LOOKUP" and "user_phys env (sc_arg 0 c) s = ok p" and "64 < sc_arg 1 c"
  shows "gzll_syscall_handler env c s = flt OutOfBounds"
  using assms
  by (simp add: gzll_syscall_handler_def gzll_syscall_get_taskid_def gzll_memcpy_from_userspace_def word_less_nat_alt)

text \<open>A page table that maps the page of the address \<open>0x2004\<close> to the physical page \<open>0x40\<close>.\<close>

definition demo_user_vm :: vmem where
  "demo_user_vm = [0x10000 \<mapsto> (replicate 256 0)[0 := 0x20400], 0x20000 \<mapsto> replicate 2048 0x80400]"

lemma demo_user_phys: "user_phys demo_genv 0x2004 (demo_gz empty_lmem demo_user_vm) = ok 0x80004"
  by (simp add: user_phys_def demo_genv_def demo_gz_def optimsoc_thread_current_def optimsoc_scheduler_get_current_def get_core_def demo_state_def
      optimsoc_thread_get_pagedir_def get_thread_def demo_thread_def optimsoc_vmm_virt2phys_def VERIFY_DIR_ADDR_def
      optimsoc_vmm_lookup_def vm_load_def demo_user_vm_def OR1K_ADDR_L1_INDEX_GET_def OR1K_ADDR_L2_INDEX_GET_def
      OR1K_PTE_PRESENT_GET_def OR1K_PTE_LAST_GET_def OR1K_PTABLE_def OR1K_PTE_PPN_GET_def OR1K_ADDR_PN_SET_def
      OR1K_ADDR_OFFSET_SET_def OR1K_ADDR_OFFSET_GET_def OR1K_PTE_PPI_GET_def)

lemma lookup_overflow_demo:
  "gzll_syscall_handler demo_genv \<lparr>sc_id = 4, sc_output = 0, sc_param = [0x2004, 65, 0, 0, 0, 0]\<rparr>
     (demo_gz empty_lmem demo_user_vm) = flt OutOfBounds"
  by (rule lookup_overflow [where p = "0x80004"]) (simp_all add: sc_arg_def demo_user_phys)

end
