(* ===== verification/Gzll_Mem.thy ===== *)
theory Gzll_Mem
  imports Gzll_Props Vmm_Props
begin

section \<open>Memory of the nodes of gzll\<close>

text \<open>
  The system call that maps fresh pages, on the contracts of the pool of pages and of the
  page tables.
\<close>

subsection \<open>Page numbers of consecutive pages\<close>

lemma page_offset: "take_bit 13 (v + x * 0x2000) = take_bit 13 v" for v x :: u32
proof (rule word_unat_eq_iff [THEN iffD2])
  have "unat (v + x * 0x2000) = (unat v + unat x * 8192) mod 4294967296"
    by (simp add: unat_word_ariths mod_simps)
  then have "unat (v + x * 0x2000) mod 8192 = (unat v + unat x * 8192) mod 8192"
    by (simp add: mod_mod_cancel)
  then show "unat (take_bit 13 (v + x * 0x2000)) = unat (take_bit 13 v)"
    by (simp add: take_bit_eq_mod unat_mod)
qed

lemma page_numbers:
  assumes "OR1K_ADDR_PN_GET (v + word_of_nat i * 0x2000) = OR1K_ADDR_PN_GET (v + word_of_nat j * 0x2000)"
    and "i < 2 ^ 19" and "j < 2 ^ 19"
  shows "i = j"
proof -
  have "v + word_of_nat i * 0x2000 = v + word_of_nat j * 0x2000"
    using assms(1) page_offset [of v "word_of_nat i"] page_offset [of v "word_of_nat j"]
      bits_ident [of 13 "v + word_of_nat i * 0x2000"] bits_ident [of 13 "v + word_of_nat j * 0x2000"]
    unfolding OR1K_ADDR_PN_GET_def by metis
  then have "(word_of_nat (i * 8192) :: u32) = word_of_nat (j * 8192)" by simp
  then have "take_bit 32 (i * 8192) = take_bit 32 (j * 8192)" by (simp only: word_of_nat_eq_iff) simp
  moreover have "take_bit 32 (i * 8192) = i * 8192" "take_bit 32 (j * 8192) = j * 8192"
    using assms(2,3) by (simp_all add: take_bit_nat_eq_self)
  ultimately show ?thesis by simp
qed

lemma page_number_push:
  assumes "p < 2 ^ 19"
  shows "OR1K_ADDR_PN_GET (push_bit 13 p) = p"
proof -
  show ?thesis
    unfolding OR1K_ADDR_PN_GET_def
    by (rule bit_word_eqI) (auto simp: bit_simps dest: bit_less_exp [OF assms])
qed

subsection \<open>Drawing and mapping\<close>

lemma page_alloc_step:
  assumes "store_inv (k_lists (g_k s)) V" and "V (g_pagepool s) = Some (b, p # ps)"
  shows "\<exists>s' b'. gzll_page_alloc s = ok (p, s') \<and> g_pagepool s' = g_pagepool s \<and> g_vm s' = g_vm s \<and>
    store_inv (k_lists (g_k s')) (V(g_pagepool s \<mapsto> (b', ps)))"
proof -
  from ls.remove_head_law [OF assms] obtain m where
    m: "optimsoc_list_remove_head (g_pagepool s) (k_lists (g_k s)) = ok (fst (q_pop (b, p # ps)), m)"
      "store_inv m (V(g_pagepool s \<mapsto> snd (q_pop (b, p # ps))))" by blast
  moreover obtain b' where "q_pop (b, p # ps) = (p, b', ps)" by (cases "q_pop (b, p # ps)") auto
  ultimately show ?thesis
    by (intro exI [of _ "s\<lparr>g_k := (g_k s)\<lparr>k_lists := m\<rparr>\<rparr>"] exI [of _ b'])
      (simp add: gzll_page_alloc_def on_k_val_def k_remove_head_def)
qed

text \<open>The pages from \<open>v\<close> on are mapped to \<open>ps\<close>, and no other translation changes.\<close>

definition maps_range :: "ptr \<Rightarrow> u32 \<Rightarrow> u32 list \<Rightarrow> vmem \<Rightarrow> vmem \<Rightarrow> bool" where
  "maps_range dir v ps m m' \<longleftrightarrow>
     (\<forall>j < length ps. \<forall>w. OR1K_ADDR_PN_GET w = OR1K_ADDR_PN_GET (v + word_of_nat j * 0x2000) \<longrightarrow> vm_trans m' dir w = Some (ps ! j)) \<and>
     (\<forall>w. (\<forall>j < length ps. OR1K_ADDR_PN_GET w \<noteq> OR1K_ADDR_PN_GET (v + word_of_nat j * 0x2000)) \<longrightarrow>
        vm_trans m' dir w = vm_trans m dir w)"

lemma maps_range_Cons:
  assumes one: "\<forall>w. vm_trans m1 dir w = (if OR1K_ADDR_PN_GET w = OR1K_ADDR_PN_GET v then Some p else vm_trans m dir w)"
    and rest: "maps_range dir (v + 0x2000) ps m1 m2" and len: "length ps < 2 ^ 19"
  shows "maps_range dir v (p # ps) m m2"
proof -
  have at: "v + 0x2000 + word_of_nat j * 0x2000 = v + word_of_nat (Suc j) * 0x2000" for j
    by (simp add: algebra_simps)
  have first: "vm_trans m2 dir w = Some p" if w: "OR1K_ADDR_PN_GET w = OR1K_ADDR_PN_GET v" for w
  proof -
    have "OR1K_ADDR_PN_GET w \<noteq> OR1K_ADDR_PN_GET (v + word_of_nat (Suc j) * 0x2000)" if "j < length ps" for j
      using page_numbers [of v 0 "Suc j"] w that len by auto
    then have "vm_trans m2 dir w = vm_trans m1 dir w" using rest unfolding maps_range_def at by blast
    then show ?thesis using one w by simp
  qed
  show ?thesis
    unfolding maps_range_def
  proof (intro conjI allI impI)
    fix j w assume "j < length (p # ps)" "OR1K_ADDR_PN_GET w = OR1K_ADDR_PN_GET (v + word_of_nat j * 0x2000)"
    then show "vm_trans m2 dir w = Some ((p # ps) ! j)"
      using first rest unfolding maps_range_def at by (cases j) auto
  next
    fix w assume w: "\<forall>j < length (p # ps). OR1K_ADDR_PN_GET w \<noteq> OR1K_ADDR_PN_GET (v + word_of_nat j * 0x2000)"
    then have "OR1K_ADDR_PN_GET w \<noteq> OR1K_ADDR_PN_GET v" by (auto dest: spec [of _ 0])
    moreover from w have "\<forall>j < length ps. OR1K_ADDR_PN_GET w \<noteq> OR1K_ADDR_PN_GET (v + word_of_nat (Suc j) * 0x2000)"
      by (auto simp del: of_nat_Suc)
    ultimately show "vm_trans m2 dir w = vm_trans m dir w" using rest one unfolding maps_range_def at by auto
  qed
qed

text \<open>The result of mapping the pages \<open>ps\<close>, which leaves \<open>qs\<close> in the pool.\<close>

definition range_done :: "ptr \<Rightarrow> u32 \<Rightarrow> u32 list \<Rightarrow> u32 list \<Rightarrow> gz \<Rightarrow> u32 \<times> gz \<Rightarrow> bool" where
  "range_done dir v ps qs s = (\<lambda>(v', s'). v' = v + word_of_nat (length ps) * 0x2000 \<and>
     vm_wf (g_vm s') dir \<and> maps_range dir v ps (g_vm s) (g_vm s') \<and>
     (\<exists>V b. store_inv (k_lists (g_k s')) V \<and> g_pagepool s' = g_pagepool s \<and> V (g_pagepool s) = Some (b, qs)))"

definition maps_one :: "ptr \<Rightarrow> u32 \<Rightarrow> u32 \<Rightarrow> vmem \<Rightarrow> vmem \<Rightarrow> bool" where
  "maps_one dir v p m m1 \<longleftrightarrow> (\<forall>w. vm_trans m1 dir w =
     (if OR1K_ADDR_PN_GET w = OR1K_ADDR_PN_GET v then Some p else vm_trans m dir w))"

lemma range_done_Cons:
  assumes "maps_one dir v p (g_vm s) (g_vm s1)" and "g_pagepool s1 = g_pagepool s" and "length ps < 2 ^ 19"
    and "range_done dir (v + 0x2000) ps qs s1 x"
  shows "range_done dir v (p # ps) qs s x"
proof (cases x)
  case (Pair v' s')
  with assms(4) have "maps_range dir (v + 0x2000) ps (g_vm s1) (g_vm s')" by (simp add: range_done_def)
  with assms(1,3) have "maps_range dir v (p # ps) (g_vm s) (g_vm s')"
    unfolding maps_one_def by (blast intro: maps_range_Cons)
  with assms(2,4) Pair show ?thesis by (simp add: range_done_def algebra_simps)
qed

text \<open>The next pages stay free when the first one was mapped.\<close>

lemma still_free:
  assumes "maps_one dir v p m m1" and "\<forall>j < length (p # ps). vm_trans m dir (v + word_of_nat j * 0x2000) = None"
    and "length (p # ps) \<le> 2 ^ 19"
  shows "\<forall>j < length ps. vm_trans m1 dir (v + 0x2000 + word_of_nat j * 0x2000) = None"
proof (intro allI impI)
  fix j assume j: "j < length ps"
  have e: "v + 0x2000 + word_of_nat j * 0x2000 = v + word_of_nat (Suc j) * 0x2000" by (simp add: algebra_simps)
  have "OR1K_ADDR_PN_GET (v + word_of_nat (Suc j) * 0x2000) \<noteq> OR1K_ADDR_PN_GET v"
    using page_numbers [of v "Suc j" 0] j assms(3) by auto
  moreover have "vm_trans m dir (v + word_of_nat (Suc j) * 0x2000) = None"
    using assms(2) j by (simp del: of_nat_Suc)
  ultimately show "vm_trans m1 dir (v + 0x2000 + word_of_nat j * 0x2000) = None"
    using assms(1) unfolding e maps_one_def by presburger
qed

lemma alloc_pages_range:
  assumes "store_inv (k_lists (g_k s)) V" and "V (g_pagepool s) = Some (b, ps @ qs)"
    and "vm_wf (g_vm s) dir" and "aligner_ok (ge_ma env)"
    and "\<forall>p \<in> set ps. p \<noteq> 0 \<and> p < 2 ^ 19" and "length ps \<le> 2 ^ 19"
    and "\<forall>j < length ps. vm_trans (g_vm s) dir (v + word_of_nat j * 0x2000) = None"
    and "sz \<le> 8192 * int (length ps)" and "8192 * int (length ps) < sz + 8192"
  shows "post (alloc_pages env dir v sz s) (range_done dir v ps qs s)"
  using assms
proof (induction ps arbitrary: v sz s V b)
  case Nil
  then show ?case by (auto simp: alloc_pages.simps [of env dir v sz s] maps_range_def range_done_def)
next
  case (Cons p ps)
  note prem = Cons.prems
  have "V (g_pagepool s) = Some (b, p # (ps @ qs))" using prem(2) by simp
  from page_alloc_step [OF prem(1) this] obtain s1 b1 where
    s1: "gzll_page_alloc s = ok (p, s1)" "g_pagepool s1 = g_pagepool s" "g_vm s1 = g_vm s"
      "store_inv (k_lists (g_k s1)) (V(g_pagepool s \<mapsto> (b1, ps @ qs)))" by blast
  have pos: "sz > 0" and p: "p \<noteq> 0" "p < 2 ^ 19" using prem(5,9) by auto
  have free: "vm_trans (g_vm s) dir v = None" using prem(7) by (auto dest: spec [of _ 0])
  have map: "post (optimsoc_vmm_map (ge_ma env) [] [] dir v (push_bit 13 p) (g_vm s))
      (\<lambda>(r, m1). vm_wf m1 dir \<and> maps_one dir v p (g_vm s) m1)"
    by (rule post_mono [OF map_wf [OF prem(3,4)]]) (auto simp: free page_number_push [OF p(2)] maps_one_def)
  have cont: "post (alloc_pages env dir (v + 0x2000) (sz - 0x2000) (s1\<lparr>g_vm := m1\<rparr>)) (range_done dir v (p # ps) qs s)"
    if m1: "vm_wf m1 dir" "maps_one dir v p (g_vm s) m1" for m1
  proof (rule post_mono)
    let ?s = "s1\<lparr>g_vm := m1\<rparr>"
    show "post (alloc_pages env dir (v + 0x2000) (sz - 0x2000) ?s) (range_done dir (v + 0x2000) ps qs ?s)"
      using prem(4,5,6,8,9) s1 m1(1) still_free [OF m1(2) prem(7,6)]
      by (intro Cons.IH [where V = "V(g_pagepool s \<mapsto> (b1, ps @ qs))" and b = b1])
        (auto simp: fun_upd_same simp del: fun_upd_apply)
    show "range_done dir (v + 0x2000) ps qs ?s x \<Longrightarrow> range_done dir v (p # ps) qs s x" for x
      by (rule range_done_Cons [of _ _ _ _ ?s]) (use m1 s1 prem(6) in auto)
  qed
  have "post (bnd (optimsoc_vmm_map (ge_ma env) [] [] dir v (push_bit 13 p) (g_vm s))
      (\<lambda>(_, vm). alloc_pages env dir (v + 0x2000) (sz - 0x2000) (s1\<lparr>g_vm := vm\<rparr>))) (range_done dir v (p # ps) qs s)"
    by (rule post_bndI [OF map]) (use cont in auto)
  then show ?case
    unfolding alloc_pages.simps [of env dir v sz s] using pos p(1) s1(1,3) by (simp del: alloc_pages.simps)
qed

subsection \<open>The system call\<close>

text \<open>
  C20: the system call that allocates memory maps the requested pages of the calling thread to
  as many pages from the head of the pool, in order, changes no other translation, leaves the
  remaining pages in the pool and answers the end of the new range, when the pages are free
  and the pool has enough of them.
\<close>

theorem alloc_page_maps:
  assumes "optimsoc_thread_current (ge_core env) (g_k s) = ok t" and "optimsoc_thread_get_pagedir t (g_k s) = ok dir"
    and "sc_id c = GZLL_SYSCALL_VMM_ALLOC_PAGE" and "sc_arg 0 c = v" and "sint (sc_arg 1 c) = sz"
    and "store_inv (k_lists (g_k s)) V" and "V (g_pagepool s) = Some (b, ps @ qs)"
    and "vm_wf (g_vm s) dir" and "aligner_ok (ge_ma env)" and "\<forall>p \<in> set ps. p \<noteq> 0 \<and> p < 2 ^ 19"
    and "sz \<le> 8192 * int (length ps)" and "8192 * int (length ps) < sz + 8192"
    and "\<forall>j < length ps. vm_trans (g_vm s) dir (v + word_of_nat j * 0x2000) = None"
  shows "post (gzll_syscall_handler env c s) (\<lambda>(c', s'). sc_output c' = v + word_of_nat (length ps) * 0x2000 \<and>
    vm_wf (g_vm s') dir \<and> maps_range dir v ps (g_vm s) (g_vm s') \<and>
    (\<exists>V' b'. store_inv (k_lists (g_k s')) V' \<and> V' (g_pagepool s') = Some (b', qs)))"
proof -
  have "sz < 2 ^ 31" using sint_lt [of "sc_arg 1 c"] assms(5) by simp
  then have "length ps \<le> 2 ^ 19" using assms(12) by simp
  from alloc_pages_range [OF assms(6-10) this assms(13,11,12)]
  have "post (gzll_syscall_alloc_page env c s) (\<lambda>(c', s'). range_done dir v ps qs s (sc_output c', s'))"
    using assms(1,2,4,5) by (simp add: gzll_syscall_alloc_page_def post_bnd case_prod_beta)
  then have "post (gzll_syscall_handler env c s) (\<lambda>(c', s'). range_done dir v ps qs s (sc_output c', s'))"
    using assms(3) by (simp add: gzll_syscall_handler_def)
  then show ?thesis by (rule post_mono) (auto simp: range_done_def)
qed

theorem alloc_page_maps_witness:
  "post (gzll_syscall_handler (demo_genv\<lparr>ge_ma := demo_aligner\<rparr>) \<lparr>sc_id = 1, sc_output = 0, sc_param = [0x4000, 0x3000, 0, 0, 0, 0]\<rparr>
     (demo_gz demo_lists demo_vm\<lparr>g_pagepool := 1\<rparr>))
     (\<lambda>(c', s'). sc_output c' = 0x8000 \<and> maps_range 0x10000 0x4000 [768, 896] demo_vm (g_vm s'))"
proof -
  let ?s = "demo_gz demo_lists demo_vm\<lparr>g_pagepool := 1\<rparr>"
  have k: "g_vm ?s = demo_vm" "g_pagepool ?s = 1" "k_lists (g_k ?s) = demo_lists" by (simp_all add: demo_gz_def)
  have inv: "store_inv (k_lists (g_k ?s)) demo_view"
    using demo_kq unfolding k by (simp add: kq_def demo_state_def)
  have pool: "demo_view (g_pagepool ?s) = Some (True, [768, 896] @ [960])" by (simp add: demo_view_def demo_gz_def)
  have cur: "optimsoc_thread_current (ge_core (demo_genv\<lparr>ge_ma := demo_aligner\<rparr>)) (g_k ?s) = ok 512"
    by (simp add: demo_genv_def demo_gz_def optimsoc_thread_current_def optimsoc_scheduler_get_current_def get_core_def demo_state_def)
  have dir: "optimsoc_thread_get_pagedir 512 (g_k ?s) = ok 0x10000"
    by (simp add: demo_gz_def optimsoc_thread_get_pagedir_def get_thread_def demo_thread_def demo_state_def)
  have "post (gzll_syscall_handler (demo_genv\<lparr>ge_ma := demo_aligner\<rparr>)
      \<lparr>sc_id = 1, sc_output = 0, sc_param = [0x4000, 0x3000, 0, 0, 0, 0]\<rparr> ?s)
      (\<lambda>(c', s'). sc_output c' = 0x4000 + word_of_nat (length [768 :: u32, 896]) * 0x2000 \<and>
        vm_wf (g_vm s') 0x10000 \<and> maps_range 0x10000 0x4000 [768, 896] (g_vm ?s) (g_vm s') \<and>
        (\<exists>V' b'. store_inv (k_lists (g_k s')) V' \<and> V' (g_pagepool s') = Some (b', [960])))"
    by (rule alloc_page_maps [OF cur dir _ _ _ inv pool, where sz = "0x3000"])
      (simp_all add: k demo_vm_wf demo_aligner_ok sc_arg_def demo_genv_def)
  then show ?thesis by (rule post_mono) (auto simp: k)
qed

end
