(* ===== verification/Boot_Props.thy ===== *)
theory Boot_Props
  imports Boot Sched_Props
begin

section \<open>Properties of the start of the runtime\<close>

subsection \<open>Creating threads while the cores are set up\<close>

text \<open>
  The creation of a thread does not look at the cores. So the operations on threads are
  applied to the state cut down to the cores that already have an idle thread, where the
  invariant of the scheduler holds.
\<close>

definition hw :: "core list \<Rightarrow> ctx list \<Rightarrow> ctx list \<Rightarrow> kstate \<Rightarrow> kstate" where
  "hw x f p s = s\<lparr>k_cores := x, k_frame := f, k_cpu := p\<rparr>"

definition up_to :: "nat \<Rightarrow> kstate \<Rightarrow> kstate" where
  "up_to n s = hw (take n (k_cores s)) (take n (k_frame s)) (take n (k_cpu s)) s"

lemma hw_simps [simp]:
  "k_lists (hw x f p s) = k_lists s" "k_threads (hw x f p s) = k_threads s" "k_all (hw x f p s) = k_all s"
  "k_ready (hw x f p s) = k_ready s" "k_wait (hw x f p s) = k_wait s" "k_next_id (hw x f p s) = k_next_id s"
  "k_timers (hw x f p s) = k_timers s" "k_cores (hw x f p s) = x" "k_frame (hw x f p s) = f" "k_cpu (hw x f p s) = p"
  "(hw x f p s)\<lparr>k_lists := m\<rparr> = hw x f p (s\<lparr>k_lists := m\<rparr>)"
  "(hw x f p s)\<lparr>k_next_id := i\<rparr> = hw x f p (s\<lparr>k_next_id := i\<rparr>)"
  "put_thread t cb (hw x f p s) = hw x f p (put_thread t cb s)"
  "hw x f p (hw x' f' p' s) = hw x f p s"
  "kq (hw x f p s) V b R W A = kq s V b R W A"
  by (simp_all add: hw_def put_thread_def kq_def)

lemma hw_same: "hw (k_cores s) (k_frame s) (k_cpu s) s = s"
  by (simp add: hw_def)

lemma hw_ops:
  "k_list_init env d (hw x f p s) = bnd (k_list_init env d s) (\<lambda>(l, s1). ok (l, hw x f p s1))"
  "k_add_tail env l t (hw x f p s) = bnd (k_add_tail env l t s) (\<lambda>s1. ok (hw x f p s1))"
  "get_thread t (hw x f p s) = get_thread t s"
  "upd_thread t g (hw x f p s) = bnd (upd_thread t g s) (\<lambda>s1. ok (hw x f p s1))"
  by (simp_all add: k_list_init_def k_add_tail_def get_thread_def upd_thread_def bnd_assoc case_prod_unfold)

lemma hw_add: "optimsoc_scheduler_add env t q (hw x f p s) =
    bnd (optimsoc_scheduler_add env t q s) (\<lambda>s1. ok (hw x f p s1))"
  by (simp add: optimsoc_scheduler_add_def hw_ops bnd_assoc)

lemma create_hw:
  "optimsoc_thread_create env [] start (Some a) (hw x f p s) =
     bnd (optimsoc_thread_create env [] start (Some a) s) (\<lambda>(t, s1). ok (t, hw x f p s1))"
  by (simp add: optimsoc_thread_create_def Let_def thread_draw_id_def hw_ops hw_add bnd_assoc if_distrib [of "k_wait"]
      case_prod_unfold cong: if_cong)

subsection \<open>The scheduler is initialised\<close>

text \<open>The first \<open>n\<close> cores have their idle threads, and the thread \<open>t\<close> is the only other one.\<close>

definition half_up :: "nat \<Rightarrow> ptr \<Rightarrow> kstate \<Rightarrow> bool" where
  "half_up n t s \<longleftrightarrow>
     n \<le> length (k_cores s) \<and> length (k_frame s) = length (k_cores s) \<and> length (k_cpu s) = length (k_cores s) \<and>
     t \<noteq> 0 \<and> has_state s THREAD_RUNNABLE t \<and> inj_on (idle_on s) {..<n} \<and>
     (\<forall>i<n. idle_on s i \<noteq> 0 \<and> k_threads s (idle_on s i) \<noteq> None \<and> idle_on s i \<noteq> t) \<and>
     k_timers s = 0 \<and> (\<exists>V b. kq s V b [t] [] [t])"

lemma idle_up_to: "i < n \<Longrightarrow> idle_on (up_to n s) i = idle_on s i"
  by (simp add: idle_on_def up_to_def)

lemma up_to_simps [simp]:
  "k_threads (up_to n s) = k_threads s" "k_timers (up_to n s) = k_timers s"
  "k_cores (up_to n s) = take n (k_cores s)" "k_frame (up_to n s) = take n (k_frame s)"
  "k_cpu (up_to n s) = take n (k_cpu s)" "kq (up_to n s) V b R W A = kq s V b R W A"
  by (simp_all add: up_to_def)

lemma half_up_kst:
  assumes "half_up n t s"
  shows "kst (up_to n s) {} [t] [] [t]"
proof -
  have c: "cores (up_to n s) = {..<n}" using assms by (auto simp: cores_def up_to_def half_up_def)
  have i: "inj_on (idle_on (up_to n s)) {..<n}" using assms by (auto simp: inj_on_def idle_up_to half_up_def)
  have h: "has_state (up_to n s) st x = has_state s st x" for st x by (simp add: has_state_def up_to_def)
  show ?thesis
    using assms i unfolding kst_def cores_ok_def c h
    by (auto simp: half_up_def idle_up_to running_def)
qed

lemma half_up_all:
  assumes "half_up (length (k_cores s)) t s"
  shows "sched_on s {} [t] [] [t]"
proof -
  have "up_to (length (k_cores s)) s = s" using assms by (simp add: up_to_def half_up_def hw_same)
  with half_up_kst [OF assms] show ?thesis using assms by (auto simp: sched_on_def half_up_def)
qed

text \<open>A thread that is created and taken out of the queues becomes the idle thread of the next core.\<close>

lemma idle_step:
  assumes "half_up n t s" and n: "n < length (k_cores s)"
    and mal: "alloc_ok (o_mal env)" "alloc_ok (o_tcb_mal env)"
    and a: "at_identifier a = Some nm" "at_flags a AND OPTIMSOC_THREAD_FLAG_CREATE_SUSPENDED = 0"
  shows "post (bnd (optimsoc_thread_create env [] start (Some a) s) (\<lambda>(u, s1).
      bnd (get_core n s1) (\<lambda>cr.
        bnd (k_remove (k_ready (set_core n (cr\<lparr>idle_thread := u\<rparr>) s1)) u (set_core n (cr\<lparr>idle_thread := u\<rparr>) s1)) (\<lambda>(_, s3).
          k_remove (k_all s3) u s3))))
    (\<lambda>(_, s'). half_up (Suc n) t s' \<and> length (k_cores s') = length (k_cores s))"
proof -
  let ?s = "up_to n s"
  obtain V b where q: "kq ?s V b [t] [] [t]" using assms(1) by (auto simp: half_up_def up_to_def)
  have hw: "hw (k_cores s) (k_frame s) (k_cpu s) ?s = s" by (simp add: up_to_def hw_def)
  note cr = create_moved [OF q half_up_kst [OF assms(1)] mal a(1) refl refl, of start]
  have "post (optimsoc_thread_create env [] start (Some a) (hw (k_cores s) (k_frame s) (k_cpu s) ?s)) (\<lambda>(u, s1).
      u \<noteq> 0 \<and> k_threads s u = None \<and> (\<exists>V b. kq s1 V b [t, u] [] [t, u]) \<and> has_state s1 THREAD_RUNNABLE t \<and>
      k_threads s1 u \<noteq> None \<and> (\<forall>x. x \<noteq> u \<longrightarrow> k_threads s1 x = k_threads s x) \<and> k_timers s1 = 0 \<and>
      k_cores s1 = k_cores s \<and> k_frame s1 = k_frame s \<and> k_cpu s1 = k_cpu s)"
    unfolding create_hw post_bnd
  proof (rule post_mono [OF cr], goal_cases)
    case (1 x)
    then obtain u s1 V' b' cb where x: "x = (u, s1)" "u \<noteq> 0" "k_threads ?s u = None" "k_threads s1 u = Some cb"
      "kq s1 V' b' [t, u] [] [t, u]" "kst s1 {} [t, u] [] [t, u]" "k_timers s1 = k_timers ?s"
      "\<And>x. x \<noteq> u \<Longrightarrow> k_threads s1 x = k_threads ?s x"
      using a(2) by (auto simp: moved_def)
    have "has_state s1 THREAD_RUNNABLE t" using x(6) by (simp add: kst_def)
    with x assms(1) show ?case by (auto simp: up_to_def half_up_def has_state_def)
  qed
  then show ?thesis
    unfolding hw post_bnd
  proof (rule post_mono, goal_cases)
    case (1 x)
    then obtain u s1 V b where x: "x = (u, s1)" and u: "u \<noteq> 0" "k_threads s u = None" "k_threads s1 u \<noteq> None"
      and q: "kq s1 V b [t, u] [] [t, u]" and t: "has_state s1 THREAD_RUNNABLE t"
      and other: "\<And>x. x \<noteq> u \<Longrightarrow> k_threads s1 x = k_threads s x" and tm: "k_timers s1 = 0"
      and c: "k_cores s1 = k_cores s" "k_frame s1 = k_frame s" "k_cpu s1 = k_cpu s" by auto
    have ut: "u \<noteq> t" using u(2) assms(1) by (auto simp: half_up_def has_state_def)
    let ?s2 = "set_core n ((k_cores s ! n)\<lparr>idle_thread := u\<rparr>) s1"
    have g: "get_core n s1 = ok (k_cores s ! n)" using n c by (simp add: get_core_def)
    have q2: "kq ?s2 V b [t, u] [] [t, u]" using q by simp
    have hd: "b \<or> length [t, u] \<le> 1 \<or> hd [t, u] \<noteq> u" and rm: "remove1 u [t, u] = [t]" "u \<in> set [t, u]" using ut by simp_all
    obtain m V2 b2 where
      r: "k_remove (k_ready ?s2) u ?s2 = ok (1, ?s2\<lparr>k_lists := m\<rparr>)" "kq (?s2\<lparr>k_lists := m\<rparr>) V2 b2 [t] [] [t, u]"
      by (rule k_remove_ready [OF q2 hd, unfolded rm(1) if_P [OF rm(2)]])
    obtain m2 V3 where
      r2: "k_remove (k_all (?s2\<lparr>k_lists := m\<rparr>)) u (?s2\<lparr>k_lists := m\<rparr>) = ok (1, ?s2\<lparr>k_lists := m, k_lists := m2\<rparr>)"
        "kq (?s2\<lparr>k_lists := m, k_lists := m2\<rparr>) V3 b2 [t] [] [t]"
      by (rule k_remove_all [OF r(2), of u, unfolded rm(1) if_P [OF rm(2)]])
    let ?s4 = "?s2\<lparr>k_lists := m, k_lists := m2\<rparr>"
    have lt: "n < length (k_cores s1)" using n c by simp
    have idle: "idle_on ?s4 = (idle_on s)(n := u)"
      using set_core_view(2) [OF lt] c by (simp add: idle_on_def fun_eq_iff)
    have old: "i < n \<Longrightarrow> idle_on s i \<noteq> u" for i using u(2) assms(1) by (auto simp: half_up_def)
    have inj: "inj_on (idle_on ?s4) {..<Suc n}"
      using assms(1) unfolding idle half_up_def by (auto simp: inj_on_def less_Suc_eq dest!: old)
    have "half_up (Suc n) t ?s4"
      unfolding half_up_def
    proof (intro conjI allI impI)
      show "\<exists>V b. kq ?s4 V b [t] [] [t]" using r2(2) by blast
      show "inj_on (idle_on ?s4) {..<Suc n}" by (rule inj)
      show "has_state ?s4 THREAD_RUNNABLE t" using t by (simp add: has_state_def)
      fix i assume i: "i < Suc n"
      show "idle_on ?s4 i \<noteq> 0" "k_threads ?s4 (idle_on ?s4 i) \<noteq> None" "idle_on ?s4 i \<noteq> t"
        using i u assms(1) other old ut unfolding idle by (auto simp: half_up_def less_Suc_eq)
    qed (use assms(1) c n tm in \<open>simp_all add: half_up_def set_core_def\<close>)
    then show ?case using x g r(1) r2(1) c by simp
  qed
qed

lemma idle_loop:
  assumes "half_up n t s" and "length (k_cores s) = n + k"
    and mal: "alloc_ok (o_mal env)" "alloc_ok (o_tcb_mal env)"
  shows "post (scheduler_init_idle env idle n k s) (\<lambda>s'. half_up (n + k) t s' \<and> length (k_cores s') = n + k)"
  using assms(1,2)
proof (induction k arbitrary: n s)
  case (Suc k)
  obtain a where a: "optimsoc_thread_attr_init (Some (o_attr_junk env)) = ok a" "at_flags a = 0"
    by (simp add: optimsoc_thread_attr_init_def)
  let ?a = "a\<lparr>at_flags := at_flags a OR OPTIMSOC_THREAD_FLAG_KERNEL, at_identifier := Some ''idle''\<rparr>"
  have n: "n < length (k_cores s)" using Suc.prems by simp
  have fl: "at_identifier ?a = Some ''idle''" "at_flags ?a AND OPTIMSOC_THREAD_FLAG_CREATE_SUSPENDED = 0"
    using a(2) by simp_all
  show ?case
    unfolding scheduler_init_idle.simps a(1) bnd_simps
    using idle_step [OF Suc.prems(1) n mal fl, of idle]
    unfolding post_bnd case_prod_unfold Let_def
    by (elim post_mono) (use Suc.IH [of "Suc n"] Suc.prems(2) in \<open>auto elim!: post_mono\<close>)
qed simp

lemma k_init_post:
  assumes "store_inv (k_lists s) V" and "alloc_ok (o_mal env)"
    and "\<And>l m. l \<noteq> 0 \<Longrightarrow> V l = None \<Longrightarrow> store_inv m (V(l \<mapsto> (True, []))) \<Longrightarrow> P (l, s\<lparr>k_lists := m\<rparr>)"
  shows "post (k_list_init env 0 s) P"
  unfolding k_list_init_def post_bnd
  by (rule ls.init_post [OF assms(1,2)]) (use assms(3) in simp)

lemma scheduler_init_ok:
  assumes empty: "k_lists s = empty_lmem" "k_timers s = 0"
    and hwl: "length (k_frame s) = n" "length (k_cpu s) = n"
    and mal: "alloc_ok (o_mal env)" "alloc_ok (o_tcb_mal env)"
  shows "post (optimsoc_scheduler_init env n init idle s) (\<lambda>s'.
    \<exists>t. sched_on s' {} [t] [] [t] \<and> cores s' = {..<n})"
proof -
  obtain a where a: "optimsoc_thread_attr_init (Some (o_attr_junk env)) = ok a" "at_flags a = 0"
    by (simp add: optimsoc_thread_attr_init_def)
  let ?a = "a\<lparr>at_flags := at_flags a OR OPTIMSOC_THREAD_FLAG_KERNEL, at_identifier := Some ''init''\<rparr>"
  let ?c = "replicate n \<lparr>idle_thread = 0, active_thread = 0\<rparr>"
  have main: "post (bnd (optimsoc_thread_create env [] init (Some ?a) s3) (\<lambda>(t, s4).
      scheduler_init_idle env idle 0 n (s4\<lparr>k_init := t, k_cores := ?c\<rparr>)))
      (\<lambda>s'. \<exists>t. sched_on s' {} [t] [] [t] \<and> cores s' = {..<n})"
    if q: "kq s3 V True [] [] []" and k: "k_timers s3 = 0" "length (k_frame s3) = n" "length (k_cpu s3) = n" for s3 V
  proof -
    have k0: "kst (up_to 0 s3) {} [] [] []"
      by (simp add: kst_def cores_ok_def cores_def running_def)
    have q0: "kq (up_to 0 s3) V True [] [] []" using q by simp
    have hw: "hw (k_cores s3) (k_frame s3) (k_cpu s3) (up_to 0 s3) = s3" by (simp add: up_to_def hw_def)
    have "post (optimsoc_thread_create env [] init (Some ?a) (hw (k_cores s3) (k_frame s3) (k_cpu s3) (up_to 0 s3)))
        (\<lambda>(t, s4). half_up 0 t (s4\<lparr>k_init := t, k_cores := ?c\<rparr>))"
      unfolding create_hw post_bnd
    proof (rule post_mono [OF create_moved [OF q0 k0 mal _ refl refl]], simp, goal_cases)
      case (1 x)
      then obtain t s4 V' b' where x: "x = (t, s4)" "t \<noteq> 0" "kq s4 V' b' [t] [] [t]" "kst s4 {} [t] [] [t]"
        "k_timers s4 = 0"
        using a(2) k by (auto simp: moved_def)
      have "kq (s4\<lparr>k_frame := k_frame s3, k_cpu := k_cpu s3, k_init := t, k_cores := ?c\<rparr>) V' b' [t] [] [t]"
        using x(3) by (simp add: kq_def)
      moreover have "has_state s4 THREAD_RUNNABLE t" using x(4) by (simp add: kst_def)
      ultimately show ?case using x k by (auto simp: half_up_def hw_def has_state_def kq_def)
    qed
    then have "post (optimsoc_thread_create env [] init (Some ?a) s3)
        (\<lambda>(t, s4). half_up 0 t (s4\<lparr>k_init := t, k_cores := ?c\<rparr>))" unfolding hw .
    then show ?thesis
      unfolding post_bnd
    proof (rule post_mono, goal_cases)
      case (1 x)
      then obtain t s4 where x: "x = (t, s4)" "half_up 0 t (s4\<lparr>k_init := t, k_cores := ?c\<rparr>)" by auto
      have "length (k_cores (s4\<lparr>k_init := t, k_cores := ?c\<rparr>)) = 0 + n" by simp
      from idle_loop [OF x(2) this mal, of idle] show ?case
        unfolding x(1) prod.case
      proof (rule post_mono, goal_cases)
        case (1 s')
        then have "half_up (length (k_cores s')) t s'" by simp
        from half_up_all [OF this] 1 show ?case by (auto simp: cores_def)
      qed
    qed
  qed
  let ?Q = "\<lambda>s'. \<exists>t. sched_on s' {} [t] [] [t] \<and> cores s' = {..<n}"
  let ?R = "\<lambda>s3. bnd (optimsoc_thread_create env [] init (Some ?a) s3) (\<lambda>(t, s4).
      scheduler_init_idle env idle 0 n (s4\<lparr>k_init := t, k_cores := ?c\<rparr>))"
  let ?hw = "\<lambda>s. k_timers s = 0 \<and> length (k_frame s) = n \<and> length (k_cpu s) = n"
  have 3: "post (bnd (k_list_init env 0 s2) (\<lambda>(al, s3). ?R (s3\<lparr>k_all := al\<rparr>))) ?Q"
    if "store_inv (k_lists s2) [k_wait s2 \<mapsto> (True, []), k_ready s2 \<mapsto> (True, [])]" "k_wait s2 \<noteq> k_ready s2" "?hw s2" for s2 :: kstate
    unfolding post_bnd [of "k_list_init env 0 s2"]
  proof (rule k_init_post [OF that(1) mal(1)], unfold prod.case)
    fix l m assume "[k_wait s2 \<mapsto> (True, []), k_ready s2 \<mapsto> (True, [])] l = None"
      "store_inv m ([k_wait s2 \<mapsto> (True, []), k_ready s2 \<mapsto> (True, [])](l \<mapsto> (True, [])))"
    with that(2) have "kq (s2\<lparr>k_lists := m, k_all := l\<rparr>)
        ([k_wait s2 \<mapsto> (True, []), k_ready s2 \<mapsto> (True, [])](l \<mapsto> (True, []))) True [] [] []"
      by (auto simp: kq_def split: if_splits)
    from main [OF this] that(3) show "post (?R (s2\<lparr>k_lists := m, k_all := l\<rparr>)) ?Q" by simp
  qed
  have 2: "post (bnd (k_list_init env 0 s1) (\<lambda>(r, s2). bnd (k_list_init env 0 (s2\<lparr>k_ready := r\<rparr>)) (\<lambda>(al, s3). ?R (s3\<lparr>k_all := al\<rparr>)))) ?Q"
    if "store_inv (k_lists s1) [k_wait s1 \<mapsto> (True, [])]" "?hw s1" for s1 :: kstate
    unfolding post_bnd [of "k_list_init env 0 s1"]
  proof (rule k_init_post [OF that(1) mal(1)], unfold prod.case, rule 3)
    fix l m assume "[k_wait s1 \<mapsto> (True, [])] l = None" "store_inv m ([k_wait s1 \<mapsto> (True, [])](l \<mapsto> (True, [])))"
    then show "store_inv (k_lists (s1\<lparr>k_lists := m, k_ready := l\<rparr>)) [k_wait (s1\<lparr>k_lists := m, k_ready := l\<rparr>) \<mapsto> (True, []),
        k_ready (s1\<lparr>k_lists := m, k_ready := l\<rparr>) \<mapsto> (True, [])]"
      "k_wait (s1\<lparr>k_lists := m, k_ready := l\<rparr>) \<noteq> k_ready (s1\<lparr>k_lists := m, k_ready := l\<rparr>)"
      by (auto split: if_splits)
  qed (use that(2) in simp)
  have e: "store_inv (k_lists s) Map.empty" using empty store_inv_empty by simp
  show ?thesis
    unfolding optimsoc_scheduler_init_def a(1) bnd_simps post_bnd [of "k_list_init env 0 s"]
  proof (rule k_init_post [OF e mal(1)], goal_cases)
    case (1 l m)
    then have "store_inv (k_lists (s\<lparr>k_lists := m, k_wait := l\<rparr>)) [k_wait (s\<lparr>k_lists := m, k_wait := l\<rparr>) \<mapsto> (True, [])]"
      by simp
    from 2 [OF this] show ?case using empty hwl by simp
  qed
qed

text \<open>A core that starts takes the head of the ready queue, or its idle thread.\<close>

lemma scheduler_start_ok:
  assumes inv: "sched_on s C R W A" and c: "c \<in> cores s" "c \<notin> C"
  shows "post (optimsoc_scheduler_start c s) (\<lambda>s'. sched_on s' (insert c C) (tl R) W A \<and> cores s' = cores s)"
proof -
  from inv obtain V b where q: "kq s V b R W A" and k: "kst s C R W A" and t: "k_timers s = 0"
    by (auto simp: sched_on_def)
  from schedule_moved [OF q k c refl] obtain s1 cb where s1: "optimsoc_schedule c s = ok s1"
    "moved s V (insert c C) (tl R) W A s1" "active_on s1 c = (if R = [] then idle_on s c else hd R)"
    "k_threads s1 = k_threads s" "k_threads s (if R = [] then idle_on s c else hd R) = Some cb" by blast
  from s1(2) obtain V' b' where q1: "kq s1 V' b' (tl R) W A" and k1: "kst s1 (insert c C) (tl R) W A"
    and m: "k_timers s1 = k_timers s" "cores s1 = cores s" by (auto simp: moved_def)
  note cur = current_ok [OF k1 insertI1]
  let ?s = "s1\<lparr>k_cpu := (k_cpu s1)[c := (t_ctx cb)\<lparr>c_regs := 0 # drop 1 (c_regs (t_ctx cb))\<rparr>]\<rparr>"
  have "optimsoc_scheduler_start c s = ok ?s"
    using s1(1,3,4,5) cur
    by (simp add: optimsoc_scheduler_start_def get_core_def active_on_def get_thread_def optimsoc_context_replace_def)
  moreover have "kst ?s (insert c C) (tl R) W A" "kq ?s V' b' (tl R) W A" using k1 q1 by (simp_all add: kst_frame)
  ultimately show ?thesis using t m by (auto simp: sched_on_def)
qed

subsection \<open>Every interleaving of the boot\<close>

definition running_cores :: "runtime \<Rightarrow> nat set" where
  "running_cores r = {c. c < length (r_stage r) \<and> r_stage r ! c = Running}"

text \<open>A core takes a step in the boot function, or a core that runs does an operation on threads.\<close>

inductive boot_run :: "osenv \<Rightarrow> machine \<Rightarrow> runtime \<Rightarrow> runtime \<Rightarrow> bool" for env m where
  boot: "c < m_numcores m \<Longrightarrow> runtime_boot_step env m c r = ok r' \<Longrightarrow> boot_run env m r r'"
| threads: "running_cores r \<noteq> {} \<Longrightarrow> kstep env (running_cores r) (r_k r) k' \<Longrightarrow> boot_run env m r (r\<lparr>r_k := k'\<rparr>)"

fun level :: "stage \<Rightarrow> nat" where
  "level Entry = 0" | "level InitDma = 1" | "level InitContext = 2" | "level InitVmm = 3"
| "level InitSyscalls = 4" | "level InitScheduler = 5" | "level OpenBarrier = 6" | "level Waiting = 6"
| "level Starting = 7" | "level Running = 8"

text \<open>
  What core 0 has done when it is at a position. With \<open>p\<close>, no core has done an operation on
  threads yet: the first thread is the only one, and in the ready queue until a core starts.
\<close>

definition set_up :: "bool \<Rightarrow> machine \<Rightarrow> stage \<Rightarrow> nat set \<Rightarrow> runtime \<Rightarrow> bool" where
  "set_up p m st C r \<longleftrightarrow>
     (level st \<le> 5 \<longrightarrow> k_lists (r_k r) = empty_lmem \<and> k_timers (r_k r) = 0 \<and> length (k_cpu (r_k r)) = m_numcores m) \<and>
     (2 \<le> level st \<longrightarrow> dma_initialized (r_dma r)) \<and>
     (3 \<le> level st \<longrightarrow> level st \<le> 5 \<longrightarrow> length (k_frame (r_k r)) = m_numcores m) \<and>
     (4 \<le> level st \<longrightarrow> (\<forall>e\<in>{3, 4, 9, 10}. r_exceptions r e \<noteq> None)) \<and>
     (5 \<le> level st \<longrightarrow> r_exceptions r 12 = Some optimsoc_syscall_entry_point \<and> length (r_syscall_data r) = m_numcores m) \<and>
     (6 \<le> level st \<longrightarrow> cores (r_k r) = {..<m_numcores m} \<and> (\<exists>R W A. sched_on (r_k r) C R W A \<and>
        (p \<longrightarrow> (\<exists>t. A = [t] \<and> W = [] \<and> R = (if C = {} then [t] else []))))) \<and>
     r_barrier r = (if 7 \<le> level st then 1 else 0)"

lemma set_up_sched:
  assumes "set_up p m st C r" and "6 \<le> level st"
  obtains R W A where "sched_on (r_k r) C R W A" and "cores (r_k r) = {..<m_numcores m}"
    and "p \<Longrightarrow> \<exists>t. A = [t] \<and> W = [] \<and> tl R = []"
proof -
  from assms have "cores (r_k r) = {..<m_numcores m} \<and> (\<exists>R W A. sched_on (r_k r) C R W A \<and>
      (p \<longrightarrow> (\<exists>t. A = [t] \<and> W = [] \<and> R = (if C = {} then [t] else []))))"
    by (simp only: set_up_def)
  then obtain R W A where 1: "sched_on (r_k r) C R W A" "cores (r_k r) = {..<m_numcores m}"
    and 2: "p \<longrightarrow> (\<exists>t. A = [t] \<and> W = [] \<and> R = (if C = {} then [t] else []))" by (elim conjE exE) rule
  show thesis
  proof (rule that [OF 1])
    assume p
    with 2 obtain t where "A = [t]" "W = []" "R = (if C = {} then [t] else [])" by (elim impE exE conjE) simp
    then show "\<exists>t. A = [t] \<and> W = [] \<and> tl R = []" by simp
  qed
qed

definition boot_inv :: "bool \<Rightarrow> machine \<Rightarrow> runtime \<Rightarrow> bool" where
  "boot_inv p m r \<longleftrightarrow>
     length (r_stage r) = m_numcores m \<and>
     (0 < m_numcores m \<longrightarrow> r_stage r ! 0 \<noteq> Waiting \<and> set_up p m (r_stage r ! 0) (running_cores r) r) \<and>
     (\<forall>c. 0 < c \<and> c < m_numcores m \<longrightarrow>
        r_stage r ! c \<in> {Entry, Waiting} \<union> (if 7 \<le> level (r_stage r ! 0) then {Starting, Running} else {}))"

definition machine_ok :: "machine \<Rightarrow> bool" where
  "machine_ok m \<longleftrightarrow> m_alloc_ctx m \<and> m_alloc_syscalls m \<and> m_numcores m \<le> length (m_frames m)"

lemma running_go:
  assumes "c < length (r_stage r)"
  shows "running_cores (go c st r) = (if st = Running then insert c (running_cores r) else running_cores r - {c})"
  using assms by (auto simp: running_cores_def go_def nth_list_update)

lemma go_simps [simp]:
  "r_k (go c st r) = r_k r" "r_dma (go c st r) = r_dma r" "r_exceptions (go c st r) = r_exceptions r"
  "r_syscall_data (go c st r) = r_syscall_data r" "r_barrier (go c st r) = r_barrier r"
  "r_stage (go c st r) = (r_stage r)[c := st]"
  by (simp_all add: go_def)

lemma boot_reset: "runtime_reset m r \<Longrightarrow> boot_inv p m r"
  by (auto simp: runtime_reset_def boot_inv_def set_up_def)

lemma set_up_go [simp]: "set_up p m st C (go c st' r) = set_up p m st C r"
  by (simp add: set_up_def)

lemma set_up_stage: "set_up p m st C (r\<lparr>r_stage := x\<rparr>) = set_up p m st C r"
  by (simp add: set_up_def)

text \<open>The steps of core 0.\<close>

lemma boot_inv_go0:
  assumes inv: "boot_inv p m r" and n: "0 < m_numcores m" and same: "r_stage r1 = r_stage r"
    and st: "st \<noteq> Waiting" "level (r_stage r ! 0) \<le> level st"
    and su: "set_up p m st (if st = Running then insert 0 (running_cores r) else running_cores r - {0}) r1"
  shows "boot_inv p m (go 0 st r1)"
proof -
  have l: "0 < length (r_stage r1)" "length (r_stage r1) = m_numcores m" using inv n same by (auto simp: boot_inv_def)
  have run: "running_cores r1 = running_cores r" using same by (simp add: running_cores_def)
  have "r_stage r ! c \<in> {Entry, Waiting} \<union> (if 7 \<le> level st then {Starting, Running} else {})"
    if "0 < c" "c < m_numcores m" for c
    using inv that st(2) by (auto simp: boot_inv_def split: if_splits)
  then show ?thesis
    using l su st(1) n by (simp add: boot_inv_def running_go run same split: if_splits)
qed

lemma no_running:
  assumes "boot_inv p m r" and "level (r_stage r ! 0) < 7" and "0 < m_numcores m"
  shows "running_cores r = {}"
proof -
  have "r_stage r ! c \<noteq> Running" if "c < m_numcores m" for c
    using assms that by (cases "c = 0") (auto simp: boot_inv_def)
  then show ?thesis using assms(1) by (auto simp: running_cores_def boot_inv_def)
qed

lemma boot_core0:
  assumes inv: "boot_inv p m r" and m: "machine_ok m" and n: "0 < m_numcores m"
    and mal: "alloc_ok (o_mal env)" "alloc_ok (o_tcb_mal env)"
  shows "post (runtime_boot_step env m 0 r) (\<lambda>r'. boot_inv p m r' \<and> r_stage r' ! 0 \<noteq> Waiting \<and>
    level (r_stage r' ! 0) = min 8 (Suc (level (r_stage r ! 0))))"
proof -
  have l: "0 < length (r_stage r)" "length (r_stage r) = m_numcores m" using inv n by (auto simp: boot_inv_def)
  have su: "set_up p m (r_stage r ! 0) (running_cores r) r" using inv n by (simp add: boot_inv_def)
  note go0 = boot_inv_go0 [OF inv n]
  show ?thesis
  proof (cases "r_stage r ! 0")
    case Entry
    have "boot_inv p m (go 0 InitDma r)" by (rule go0) (use Entry su in \<open>auto simp: set_up_def\<close>)
    with Entry l show ?thesis by (simp add: runtime_boot_step_def)
  next
    case InitDma
    have "boot_inv p m (go 0 InitContext (r\<lparr>r_dma := dma_init (r_dma r)\<rparr>))"
      by (rule go0) (use InitDma su in \<open>auto simp: set_up_def dma_init_def\<close>)
    with InitDma l show ?thesis by (simp add: runtime_boot_step_def)
  next
    case InitContext
    have "boot_inv p m (go 0 InitVmm (r\<lparr>r_k := (r_k r)\<lparr>k_frame := take (m_numcores m) (m_frames m)\<rparr>\<rparr>))"
      by (rule go0) (use InitContext su m in \<open>auto simp: set_up_def machine_ok_def\<close>)
    with InitContext l m show ?thesis by (simp add: runtime_boot_step_def optimsoc_context_init_def machine_ok_def)
  next
    case InitVmm
    have "boot_inv p m (go 0 InitSyscalls (r\<lparr>r_exceptions := optimsoc_vmm_init (r_exceptions r)\<rparr>))"
      by (rule go0) (use InitVmm su in \<open>auto simp: set_up_def optimsoc_vmm_init_def\<close>)
    with InitVmm l show ?thesis by (simp add: runtime_boot_step_def)
  next
    case InitSyscalls
    obtain r1 where r1: "optimsoc_syscalls_init m r = ok r1" "r_stage r1 = r_stage r" "set_up p m InitScheduler {} r1"
      using InitSyscalls su m by (auto simp: optimsoc_syscalls_init_def machine_ok_def set_up_def)
    have "boot_inv p m (go 0 InitScheduler r1)"
      by (rule go0) (use InitSyscalls r1(2,3) no_running [OF inv _ n] in auto)
    with InitSyscalls l r1 show ?thesis by (simp add: runtime_boot_step_def)
  next
    case InitScheduler
    have "k_lists (r_k r) = empty_lmem" "k_timers (r_k r) = 0" "length (k_frame (r_k r)) = m_numcores m"
      "length (k_cpu (r_k r)) = m_numcores m" using InitScheduler su by (auto simp: set_up_def)
    from scheduler_init_ok [OF this mal, of "m_init m" "m_idle m"] show ?thesis
      unfolding runtime_boot_step_def InitScheduler stage.case post_bnd
    proof (rule post_mono, goal_cases)
      case (1 k)
      have "boot_inv p m (go 0 OpenBarrier (r\<lparr>r_k := k\<rparr>))"
        by (rule go0) (use InitScheduler su no_running [OF inv _ n] 1 in \<open>auto simp: set_up_def\<close>)
      then show ?case using l by simp
    qed
  next
    case OpenBarrier
    have "boot_inv p m (go 0 Starting (r\<lparr>r_barrier := 1\<rparr>))"
      by (rule go0) (use OpenBarrier su no_running [OF inv _ n] in \<open>auto simp: set_up_def\<close>)
    with OpenBarrier l show ?thesis by (simp add: runtime_boot_step_def)
  next
    case Waiting
    then show ?thesis using inv n by (simp add: boot_inv_def)
  next
    case Starting
    obtain R W A where k: "sched_on (r_k r) (running_cores r) R W A" and c: "cores (r_k r) = {..<m_numcores m}"
      and p: "p \<Longrightarrow> \<exists>t. A = [t] \<and> W = [] \<and> tl R = []"
      by (rule set_up_sched [OF su]) (use Starting in auto)
    have c0: "0 \<in> cores (r_k r)" "0 \<notin> running_cores r" using c n Starting by (simp_all add: running_cores_def)
    show ?thesis
      unfolding runtime_boot_step_def Starting stage.case post_bnd
    proof (rule post_mono [OF scheduler_start_ok [OF k c0]], goal_cases)
      case (1 k)
      have "boot_inv p m (go 0 Running (r\<lparr>r_k := k\<rparr>))"
        by (rule go0) (use Starting su 1 c p in \<open>auto simp: set_up_def\<close>)
      then show ?case using l by simp
    qed
  next
    case Running
    with inv show ?thesis by (simp add: runtime_boot_step_def)
  qed
qed

text \<open>The steps of the other cores.\<close>

fun side_level :: "stage \<Rightarrow> nat" where
  "side_level Waiting = 1" | "side_level Starting = 2" | "side_level Running = 3" | "side_level _ = 0"

lemma boot_inv_go:
  assumes inv: "boot_inv p m r" and c: "0 < c" "c < m_numcores m" and same: "r_stage r1 = r_stage r"
    and st: "st \<in> {Waiting} \<union> (if 7 \<le> level (r_stage r ! 0) then {Starting, Running} else {})"
    and su: "set_up p m (r_stage r ! 0) (if st = Running then insert c (running_cores r) else running_cores r - {c}) r1"
  shows "boot_inv p m (go c st r1)"
proof -
  have l: "c < length (r_stage r1)" "length (r_stage r1) = m_numcores m" using inv c same by (auto simp: boot_inv_def)
  have run: "running_cores r1 = running_cores r" using same by (simp add: running_cores_def)
  have su1: "set_up p m (r_stage r ! 0) (running_cores (go c st r1)) r1" using su by (simp add: running_go [OF l(1)] run split: if_splits)
  show ?thesis
    unfolding boot_inv_def
  proof (intro conjI impI allI)
    fix d assume d: "0 < d \<and> d < m_numcores m"
    then show "r_stage (go c st r1) ! d \<in> {Entry, Waiting} \<union>
        (if 7 \<le> level (r_stage (go c st r1) ! 0) then {Starting, Running} else {})"
      using inv st c l same by (cases "d = c") (auto simp: boot_inv_def)
  next
    show "r_stage (go c st r1) ! 0 \<noteq> Waiting" using inv c same by (simp add: boot_inv_def)
    show "set_up p m (r_stage (go c st r1) ! 0) (running_cores (go c st r1)) (go c st r1)" using su1 c same by simp
  qed (use l in simp)
qed

lemma boot_core:
  assumes inv: "boot_inv p m r" and c: "0 < c" "c < m_numcores m"
  shows "post (runtime_boot_step env m c r) (\<lambda>r'. boot_inv p m r' \<and> r_stage r' ! 0 = r_stage r ! 0 \<and>
    side_level (r_stage r' ! c) = (if r_stage r ! c = Entry then 1
      else if level (r_stage r ! 0) < 7 then side_level (r_stage r ! c) else min 3 (Suc (side_level (r_stage r ! c)))) \<and>
    (\<forall>d. d \<noteq> c \<longrightarrow> r_stage r' ! d = r_stage r ! d))"
proof -
  have l: "c < length (r_stage r)" using inv c by (auto simp: boot_inv_def)
  have su: "set_up p m (r_stage r ! 0) (running_cores r) r" using inv c by (simp add: boot_inv_def)
  have at: "r_stage r ! c \<in> {Entry, Waiting} \<union> (if 7 \<le> level (r_stage r ! 0) then {Starting, Running} else {})"
    using inv c by (simp add: boot_inv_def)
  note goc = boot_inv_go [OF inv c]
  have off: "running_cores r - {c} = running_cores r" if "r_stage r ! c \<noteq> Running"
    using that by (auto simp: running_cores_def)
  consider "r_stage r ! c = Entry" | "r_stage r ! c = Waiting" |
    "r_stage r ! c = Starting" "7 \<le> level (r_stage r ! 0)" | "r_stage r ! c = Running" "7 \<le> level (r_stage r ! 0)"
    using at by (auto split: if_splits)
  then show ?thesis
  proof cases
    case 1
    have "boot_inv p m (go c Waiting r)" by (rule goc) (use 1 su off in auto)
    with 1 l c show ?thesis by (simp add: runtime_boot_step_def)
  next
    case 2
    show ?thesis
    proof (cases "r_barrier r = 0")
      case True
      then have "level (r_stage r ! 0) < 7" using su by (auto simp: set_up_def split: if_splits)
      with True 2 inv show ?thesis by (simp add: runtime_boot_step_def)
    next
      case False
      then have 7: "7 \<le> level (r_stage r ! 0)" using su by (auto simp: set_up_def split: if_splits)
      have "boot_inv p m (go c Starting r)" by (rule goc) (use 2 7 su off in auto)
      with False 7 2 l c show ?thesis by (simp add: runtime_boot_step_def)
    qed
  next
    case 3
    obtain R W A where k: "sched_on (r_k r) (running_cores r) R W A" and cs: "cores (r_k r) = {..<m_numcores m}"
      and p: "p \<Longrightarrow> \<exists>t. A = [t] \<and> W = [] \<and> tl R = []"
      by (rule set_up_sched [OF su]) (use 3 in auto)
    have c0: "c \<in> cores (r_k r)" "c \<notin> running_cores r" using cs c 3 by (simp_all add: running_cores_def)
    show ?thesis
      unfolding runtime_boot_step_def 3(1) stage.case post_bnd
    proof (rule post_mono [OF scheduler_start_ok [OF k c0]], goal_cases)
      case (1 k)
      have "boot_inv p m (go c Running (r\<lparr>r_k := k\<rparr>))"
        by (rule goc) (use 3 su 1 cs p in \<open>auto simp: set_up_def\<close>)
      then show ?case using l c 3 by simp
    qed
  next
    case 4
    with inv show ?thesis by (simp add: runtime_boot_step_def)
  qed
qed

lemma boot_step_inv:
  assumes "boot_inv p m r" and "machine_ok m" and "c < m_numcores m"
    and "alloc_ok (o_mal env)" "alloc_ok (o_tcb_mal env)"
  shows "post (runtime_boot_step env m c r) (boot_inv p m)"
proof (cases "c = 0")
  case True
  with boot_core0 [OF assms(1,2) _ assms(4,5)] assms(3) show ?thesis by (auto elim: post_mono)
next
  case False
  then show ?thesis using post_mono [OF boot_core [OF assms(1) _ assms(3)], where Q = "boot_inv p m"] by simp
qed

lemma boot_run_inv:
  assumes "boot_run env m r r'" and "boot_inv False m r" and "machine_ok m"
    and mal: "alloc_ok (o_mal env)" "alloc_ok (o_tcb_mal env)"
  shows "boot_inv False m r'"
  using assms(1)
proof cases
  case (boot c)
  with boot_step_inv [OF assms(2,3) boot(1) mal] show ?thesis by simp
next
  case (threads k')
  have n: "0 < m_numcores m" using threads(2) assms(2) by (auto simp: running_cores_def boot_inv_def)
  then have up: "7 \<le> level (r_stage r ! 0)" using no_running [OF assms(2)] threads(2) by force
  then obtain R W A where k: "sched_on (r_k r) (running_cores r) R W A" "cores (r_k r) = {..<m_numcores m}"
    using assms(2) n by (auto simp: boot_inv_def set_up_def)
  from kstep_sched_on [OF threads(3) k(1) mal] obtain R' W' A' where
    "sched_on k' (running_cores r) R' W' A'" "cores k' = cores (r_k r)" by blast
  moreover have "running_cores (r\<lparr>r_k := k'\<rparr>) = running_cores r" by (simp add: running_cores_def)
  ultimately show ?thesis
    using assms(2) up k(2) threads(1) by (auto simp: boot_inv_def set_up_def)
qed


subsection \<open>Fair schedules end the boot\<close>

text \<open>How far the cores of \<open>S\<close> have got from \<open>r\<close> to \<open>r'\<close>; no core goes back.\<close>

definition advanced :: "nat set \<Rightarrow> nat \<Rightarrow> runtime \<Rightarrow> runtime \<Rightarrow> bool" where
  "advanced S n r r' \<longleftrightarrow>
     level (r_stage r ! 0) \<le> level (r_stage r' ! 0) \<and>
     (0 \<in> S \<longrightarrow> min 8 (Suc (level (r_stage r ! 0))) \<le> level (r_stage r' ! 0)) \<and>
     (\<forall>d. 0 < d \<and> d < n \<longrightarrow> side_level (r_stage r ! d) \<le> side_level (r_stage r' ! d) \<and>
        (d \<in> S \<longrightarrow> 1 \<le> side_level (r_stage r' ! d) \<and>
           (7 \<le> level (r_stage r ! 0) \<longrightarrow> min 3 (Suc (side_level (r_stage r ! d))) \<le> side_level (r_stage r' ! d))))"

lemma advanced_trans:
  assumes "advanced S n r r1" and "advanced T n r1 r2"
  shows "advanced (S \<union> T) n r r2"
proof -
  have 0: "level (r_stage r ! 0) \<le> level (r_stage r1 ! 0)" "level (r_stage r1 ! 0) \<le> level (r_stage r2 ! 0)"
    "0 \<in> S \<Longrightarrow> min 8 (Suc (level (r_stage r ! 0))) \<le> level (r_stage r1 ! 0)"
    "0 \<in> T \<Longrightarrow> min 8 (Suc (level (r_stage r1 ! 0))) \<le> level (r_stage r2 ! 0)"
    using assms by (simp_all add: advanced_def)
  have d: "side_level (r_stage r ! d) \<le> side_level (r_stage r1 ! d)" "side_level (r_stage r1 ! d) \<le> side_level (r_stage r2 ! d)"
    "d \<in> S \<Longrightarrow> 1 \<le> side_level (r_stage r1 ! d)" "d \<in> T \<Longrightarrow> 1 \<le> side_level (r_stage r2 ! d)"
    "d \<in> S \<Longrightarrow> 7 \<le> level (r_stage r ! 0) \<Longrightarrow> min 3 (Suc (side_level (r_stage r ! d))) \<le> side_level (r_stage r1 ! d)"
    "d \<in> T \<Longrightarrow> 7 \<le> level (r_stage r1 ! 0) \<Longrightarrow> min 3 (Suc (side_level (r_stage r1 ! d))) \<le> side_level (r_stage r2 ! d)"
    if "0 < d" "d < n" for d
    using assms that by (simp_all add: advanced_def)
  show ?thesis
    unfolding advanced_def
  proof (intro conjI allI impI)
    show "level (r_stage r ! 0) \<le> level (r_stage r2 ! 0)" using 0(1,2) by simp
    show "0 \<in> S \<union> T \<Longrightarrow> min 8 (Suc (level (r_stage r ! 0))) \<le> level (r_stage r2 ! 0)"
      using 0 by (elim UnE) simp_all
    fix d assume dn: "0 < d \<and> d < n"
    then have d0: "0 < d" and d1: "d < n" by simp_all
    note dd = d [OF d0 d1]
    show "side_level (r_stage r ! d) \<le> side_level (r_stage r2 ! d)" using dd(1,2) by simp
    assume "d \<in> S \<union> T"
    then show "1 \<le> side_level (r_stage r2 ! d)" using dd(1-4) by (elim UnE) linarith+
    assume 7: "7 \<le> level (r_stage r ! 0)"
    then have "7 \<le> level (r_stage r1 ! 0)" using 0(1) by simp
    with \<open>d \<in> S \<union> T\<close> 7 dd show "min 3 (Suc (side_level (r_stage r ! d))) \<le> side_level (r_stage r2 ! d)"
      by (elim UnE) simp_all
  qed
qed

lemma level_le: "level st \<le> 8" "side_level st \<le> 3"
  by (cases st; simp)+

lemma step_advances:
  assumes "boot_inv p m r" and "machine_ok m" and "c < m_numcores m"
    and "alloc_ok (o_mal env)" "alloc_ok (o_tcb_mal env)"
  shows "post (runtime_boot_step env m c r) (\<lambda>r'. boot_inv p m r' \<and> advanced {c} (m_numcores m) r r')"
proof (cases "c = 0")
  case True
  have n: "0 < m_numcores m" using assms(3) by simp
  have same: "r_stage r' ! d = r_stage r ! d" if "runtime_boot_step env m 0 r = ok r'" "0 < d" for r' d
    using that by (auto simp: runtime_boot_step_def bnd_ok_iff optimsoc_syscalls_init_def split: stage.splits if_splits)
  show ?thesis
    using boot_core0 [OF assms(1,2) n assms(4,5)] True same level_le(1) [of "r_stage r ! 0"]
    by (auto simp: post_def advanced_def split: option.splits sum.splits)
next
  case False
  then have c: "0 < c" by simp
  show ?thesis
  proof (rule post_mono [OF boot_core [OF assms(1) c assms(3)]], goal_cases)
    case (1 r')
    have l1: "side_level (r_stage r ! c) \<le> side_level (r_stage r' ! c) \<and> 1 \<le> side_level (r_stage r' ! c) \<and>
      (7 \<le> level (r_stage r ! 0) \<longrightarrow> min 3 (Suc (side_level (r_stage r ! c))) \<le> side_level (r_stage r' ! c))"
      using 1 assms(1) c assms(3)
      by (cases "r_stage r ! c") (auto simp: boot_inv_def)
    have "side_level (r_stage r ! d) \<le> side_level (r_stage r' ! d)" for d using l1 1 by (cases "d = c") simp_all
    with l1 1 c show ?case by (simp add: advanced_def)
  qed
qed

lemma schedule_advances:
  assumes "boot_inv p m r" and m: "machine_ok m" and mal: "alloc_ok (o_mal env)" "alloc_ok (o_tcb_mal env)"
    and "set cs \<subseteq> {..<m_numcores m}"
  shows "post (boot_schedule env m cs r) (\<lambda>r'. boot_inv p m r' \<and> advanced (set cs) (m_numcores m) r r')"
  using assms(1,5)
proof (induction cs arbitrary: r)
  case (Cons c cs)
  have c: "c < m_numcores m" "c < length (r_stage r)" "set cs \<subseteq> {..<m_numcores m}"
    using Cons.prems by (auto simp: boot_inv_def)
  show ?case
    unfolding boot_schedule.simps if_P [OF c(2)]
  proof (rule post_bndI [OF step_advances [OF Cons.prems(1) m c(1) mal]])
    fix r1 assume r1: "boot_inv p m r1 \<and> advanced {c} (m_numcores m) r r1"
    from Cons.IH [OF conjunct1 [OF r1] c(3)]
    show "post (boot_schedule env m cs r1) (\<lambda>r'. boot_inv p m r' \<and> advanced (set (c # cs)) (m_numcores m) r r')"
    proof (rule post_mono)
      fix r2 assume r2: "boot_inv p m r2 \<and> advanced (set cs) (m_numcores m) r1 r2"
      have "advanced ({c} \<union> set cs) (m_numcores m) r r2"
        using r1 r2 by (blast intro: advanced_trans)
      with r2 show "boot_inv p m r2 \<and> advanced (set (c # cs)) (m_numcores m) r r2" by simp
    qed
  qed
qed (simp add: advanced_def)

lemma schedule_append:
  "boot_schedule env m (cs @ ds) = (\<lambda>r. bnd (boot_schedule env m cs r) (boot_schedule env m ds))"
proof (induction cs)
  case (Cons c cs)
  show ?case by (rule ext) (simp add: Cons.IH bnd_assoc)
qed simp

definition after_rounds :: "nat \<Rightarrow> machine \<Rightarrow> runtime \<Rightarrow> bool" where
  "after_rounds k m r \<longleftrightarrow>
     boot_inv True m r \<and> min 8 k \<le> level (r_stage r ! 0) \<and>
     (\<forall>d. 0 < d \<and> d < m_numcores m \<longrightarrow>
        (if 9 \<le> k then 3 else if 8 \<le> k then 2 else if 1 \<le> k then 1 else 0) \<le> side_level (r_stage r ! d))"

lemma one_round:
  assumes "after_rounds k m r" and m: "machine_ok m" and mal: "alloc_ok (o_mal env)" "alloc_ok (o_tcb_mal env)"
    and cs: "set cs = {..<m_numcores m}" and n: "0 < m_numcores m"
  shows "post (boot_schedule env m cs r) (after_rounds (Suc k) m)"
proof -
  have inv: "boot_inv True m r" and l: "min 8 k \<le> level (r_stage r ! 0)"
    and s: "\<And>d. 0 < d \<Longrightarrow> d < m_numcores m \<Longrightarrow>
      (if 9 \<le> k then 3 else if 8 \<le> k then 2 else if 1 \<le> k then 1 else 0) \<le> side_level (r_stage r ! d)"
    using assms(1) by (simp_all add: after_rounds_def)
  have sub: "set cs \<subseteq> {..<m_numcores m}" using cs by simp
  show ?thesis
  proof (rule post_mono [OF schedule_advances [OF inv m mal sub]])
    fix r' assume r': "boot_inv True m r' \<and> advanced (set cs) (m_numcores m) r r'"
    show "after_rounds (Suc k) m r'"
    proof -
      have "min 8 (Suc (level (r_stage r ! 0))) \<le> level (r_stage r' ! 0)" using r' cs n by (simp add: advanced_def)
      then have l': "min 8 (Suc k) \<le> level (r_stage r' ! 0)" using l by linarith
      have "(if 9 \<le> Suc k then 3 else if 8 \<le> Suc k then 2 else if 1 \<le> Suc k then 1 else 0) \<le> side_level (r_stage r' ! d)"
        if d: "0 < d" "d < m_numcores m" for d
      proof -
        have a: "side_level (r_stage r ! d) \<le> side_level (r_stage r' ! d)" "1 \<le> side_level (r_stage r' ! d)"
          "7 \<le> level (r_stage r ! 0) \<Longrightarrow> min 3 (Suc (side_level (r_stage r ! d))) \<le> side_level (r_stage r' ! d)"
          using r' d cs by (simp_all add: advanced_def)
        show ?thesis using a s [OF d] l by (auto split: if_splits)
      qed
      with r' l' show ?thesis by (simp add: after_rounds_def)
    qed
  qed
qed

lemma many_rounds:
  assumes "after_rounds k m r" and m: "machine_ok m" and mal: "alloc_ok (o_mal env)" "alloc_ok (o_tcb_mal env)"
    and "\<And>cs. cs \<in> set rounds \<Longrightarrow> set cs = {..<m_numcores m}" and n: "0 < m_numcores m"
  shows "post (boot_schedule env m (concat rounds) r) (after_rounds (k + length rounds) m)"
  using assms(1,5)
proof (induction rounds arbitrary: k r)
  case (Cons cs rounds)
  have cs: "set cs = {..<m_numcores m}" using Cons.prems(2) by simp
  show ?case
    unfolding concat.simps schedule_append
  proof (rule post_bndI [OF one_round [OF Cons.prems(1) m mal cs n]])
    fix r1 assume "after_rounds (Suc k) m r1"
    from Cons.IH [OF this] Cons.prems(2) show "post (boot_schedule env m (concat rounds) r1) (after_rounds (k + length (cs # rounds)) m)"
      by simp
  qed
qed simp

lemma all_running:
  assumes "after_rounds k m r" and "9 \<le> k" and n: "0 < m_numcores m"
  shows "running_cores r = {..<m_numcores m}"
proof -
  have r: "st = Running" if "3 \<le> side_level st" for st using that by (cases st) simp_all
  have r0: "st = Running" if "8 \<le> level st" for st using that by (cases st) simp_all
  have "r_stage r ! d = Running" if "d < m_numcores m" for d
    using assms that r r0 by (cases "d = 0") (auto simp: after_rounds_def)
  then show ?thesis using assms(1) by (auto simp: running_cores_def after_rounds_def boot_inv_def)
qed


subsection \<open>Two cores\<close>

definition demo_machine :: machine where
  "demo_machine = \<lparr>m_numcores = 2, m_frames = [zero_ctx, zero_ctx], m_init = 64, m_idle = 68,
     m_alloc_ctx = True, m_alloc_syscalls = True\<rparr>"

definition demo_boot :: runtime where
  "demo_boot = \<lparr>r_k = demo_state\<lparr>k_lists := empty_lmem, k_threads := Map.empty, k_cpu := [zero_ctx, zero_ctx]\<rparr>,
     r_dma = \<lparr>dma_initialized = False, dma_slots = [], dma_writes = []\<rparr>, r_exceptions = (\<lambda>_. None),
     r_syscall_data = [], r_barrier = 0, r_stage = [Entry, Entry]\<rparr>"

lemma demo_boot_ok: "runtime_reset demo_machine demo_boot" "machine_ok demo_machine" "m_numcores demo_machine = 2"
  by (simp_all add: runtime_reset_def demo_boot_def demo_machine_def machine_ok_def numeral_2_eq_2 demo_state_def)



subsection \<open>DMA transfers of threads\<close>

definition dma_slots_ok :: "dma_state \<Rightarrow> bool" where
  "dma_slots_ok d \<longleftrightarrow> dma_initialized d \<and> length (dma_slots d) = DMA_SLOTS \<and>
     (\<forall>i<DMA_SLOTS. snd (dma_slots d ! i) = word_of_nat i)"

lemma dma_init_slots: "dma_slots_ok (dma_init d)"
  by (auto simp: dma_slots_ok_def dma_init_def)

text \<open>
  A transfer of a multiple of four bytes, with a free slot, programs that slot once, with the
  number of words and the start bit at the end, and leaves all slots as they were.
\<close>

lemma dma_transfer_slot:
  assumes ok: "dma_slots_ok d" and free: "List.find (\<lambda>i. fst (dma_slots d ! i) = DMA_SLOT_FREE) [0..<DMA_SLOTS] = Some h"
    and sz: "sz mod 4 = 0" and st: "\<exists>x\<in>set status. x \<noteq> 0"
  shows "optimsoc_dma_transfer env c others status local remote_tile remote sz dir (k, d) =
    ok (k, d\<lparr>dma_writes := dma_writes d @ (let base = DMA_BASE + 0x20 * word_of_nat h in
      [(base, local), (base + 4, sz div 4), (base + 8, remote_tile), (base + 0xc, remote), (base + 0x10, dir), (base + 0x14, 1)])\<rparr>)"
proof -
  from free have h: "h < DMA_SLOTS" "fst (dma_slots d ! h) = DMA_SLOT_FREE"
    by (auto simp: find_Some_iff simp del: upt_Suc)
  let ?d1 = "d\<lparr>dma_slots := (dma_slots d)[h := (DMA_SLOT_ALLOC, word_of_nat h)]\<rparr>"
  have l: "length (dma_slots d) = 4" "snd (dma_slots d ! h) = word_of_nat h" "dma_initialized d"
    using ok h by (simp_all add: dma_slots_ok_def)
  have a: "dma_acquire env c others (k, d) = ok (word_of_nat h, k, ?d1)"
    by (subst dma_acquire.simps) (use free l h in \<open>simp add: dma_alloc_def dma_alloc_slot_def\<close>)
  have u: "unat (word_of_nat h :: u32) = h" using h by (simp add: unat_of_nat)
  have w: "dma_wait_loop status = Some DMA_SUCCESS" using st by (induction status) auto
  have same: "(dma_slots d)[h := (DMA_SLOT_FREE, word_of_nat h)] = dma_slots d"
    using h l by (metis list_update_id prod.collapse)
  show ?thesis
    using h l by (simp add: optimsoc_dma_transfer_def a sz dma_transfer_def dma_wait_def dma_free_def u w same Let_def
      del: dma_acquire.simps)
qed

subsection \<open>The load monitor\<close>

lemma history_shift_eq:
  "l < length h \<Longrightarrow> history_shift l h = take 1 h @ take l h @ drop (Suc l) h"
proof (induction l arbitrary: h)
  case 0
  then show ?case by (cases h) simp_all
next
  case (Suc l)
  have t: "take 1 (h[Suc l := h ! l]) = take 1 h" "take l (h[Suc l := h ! l]) = take l h" by simp_all
  have "drop (Suc l) (h[Suc l := h ! l]) = h ! l # drop (Suc (Suc l)) h"
    using Suc.prems by (metis Cons_nth_drop_Suc length_list_update lessI drop_update_cancel nth_list_update_eq)
  with Suc t show ?case by (simp add: take_Suc_conv_app_nth)
qed

fun monitor_runs :: "nat \<Rightarrow> nat \<Rightarrow> bool \<Rightarrow> u32 list \<Rightarrow> monitor \<Rightarrow> monitor exec" where
  "monitor_runs n me ready [] s = ok s"
| "monitor_runs n me ready (x # xs) s = bnd (monitor_schedule_run n me ready x s) (monitor_runs n me ready xs)"

text \<open>The load is the sum of the last sixteen samples, and the entry of this instance is the load.\<close>

lemma monitor_window:
  assumes "length (mo_history s) = 16" and "mo_current s = sum_list (mo_history s)" and "me < length (mo_array s)"
  shows "\<exists>s'. monitor_runs n me ready xs s = ok s' \<and> mo_history s' = take 16 (rev xs @ mo_history s) \<and>
    mo_current s' = sum_list (take 16 (rev xs @ mo_history s)) \<and> length (mo_array s') = length (mo_array s) \<and>
    (xs \<noteq> [] \<longrightarrow> mo_array s' ! me = mo_current s')"
  using assms
proof (induction xs arbitrary: s)
  case (Cons x xs)
  let ?h = "x # take 15 (mo_history s)"
  have h: "(history_shift 15 (mo_history s))[0 := x] = ?h"
    using Cons.prems(1) by (cases "mo_history s") (simp_all add: history_shift_eq)
  have "mo_history s = take 15 (mo_history s) @ [mo_history s ! 15]"
    using Cons.prems(1) take_Suc_conv_app_nth [of 15 "mo_history s"] by simp
  then have "sum_list (mo_history s) = sum_list (take 15 (mo_history s)) + mo_history s ! 15"
    by (metis sum_list.append sum_list.Cons sum_list.Nil add.right_neutral)
  then have c: "mo_current s - mo_history s ! 15 + x = sum_list ?h" using Cons.prems(2) by simp
  obtain s1 where s1: "monitor_schedule_run n me ready x s = ok s1" "mo_history s1 = ?h" "mo_current s1 = sum_list ?h"
    "mo_array s1 = (mo_array s)[me := sum_list ?h]"
    using Cons.prems(3) c by (cases "mo_counter s = 0") (simp_all add: monitor_schedule_run_def h Let_def)
  have l: "length (mo_history s1) = 16" "me < length (mo_array s1)" using s1 Cons.prems by simp_all
  from Cons.IH [OF l(1) _ l(2)] s1 obtain s' where s': "monitor_runs n me ready xs s1 = ok s'"
    "mo_history s' = take 16 (rev xs @ ?h)" "mo_current s' = sum_list (take 16 (rev xs @ ?h))"
    "length (mo_array s') = length (mo_array s1)" "xs \<noteq> [] \<Longrightarrow> mo_array s' ! me = mo_current s'"
    "xs = [] \<Longrightarrow> s' = s1" by (metis Inr_inject monitor_runs.simps(1) option.inject)
  have t: "take 16 (rev xs @ ?h) = take 16 (rev (x # xs) @ mo_history s)"
    using Cons.prems(1) by (simp add: take_Cons' min_def)
  show ?case
    using s' s1 Cons.prems(3) t by (cases "xs = []") auto
qed simp

end
