(* ===== verification/Syscall_Props.thy ===== *)
theory Syscall_Props
  imports Gzll_Props Boot_Props
begin

section \<open>System calls from the program to the kernel and back\<close>

subsection \<open>What the handlers leave alone\<close>

definition same_threads :: "gz \<Rightarrow> gz \<Rightarrow> bool" where
  "same_threads s s' \<longleftrightarrow> k_frame (g_k s') = k_frame (g_k s) \<and> k_cores (g_k s') = k_cores (g_k s) \<and>
     k_threads (g_k s') = k_threads (g_k s)"

lemma same_threads_refl [simp]: "same_threads s s"
  by (simp add: same_threads_def)

lemma same_threads_trans: "same_threads s s1 \<Longrightarrow> same_threads s1 s2 \<Longrightarrow> same_threads s s2"
  by (simp add: same_threads_def)

lemma same_threads_upd [simp]:
  "same_threads s (s'\<lparr>g_mem := x1\<rparr>) = same_threads s s'" "same_threads s (s'\<lparr>g_dirs := x2\<rparr>) = same_threads s s'"
  "same_threads s (s'\<lparr>g_mp := x3\<rparr>) = same_threads s s'" "same_threads s (s'\<lparr>g_in := x4\<rparr>) = same_threads s s'"
  "same_threads s (s'\<lparr>g_vm := x5\<rparr>) = same_threads s s'"
  "same_threads s (mem_write a bs s') = same_threads s s'" "same_threads s (set_dir p d s') = same_threads s s'"
  by (simp_all add: same_threads_def mem_write_def set_dir_def)

lemma to_userspace_same: "gzll_memcpy_to_userspace env dest bs s = ok s' \<Longrightarrow> same_threads s s'"
  by (auto simp: gzll_memcpy_to_userspace_def bnd_ok_iff)

lemma page_alloc_same: "gzll_page_alloc s = ok (p, s') \<Longrightarrow> same_threads s s'"
  by (auto simp: gzll_page_alloc_def on_k_val_def k_remove_head_def bnd_ok_iff same_threads_def)

lemma alloc_pages_same: "alloc_pages env pdir v sz s = ok (v', s') \<Longrightarrow> same_threads s s'"
proof (induction env pdir v sz s rule: alloc_pages.induct)
  case (1 env pdir vaddr sz s)
  show ?case
  proof (cases "0 < sz")
    case True
    with 1(2) obtain p s1 vm where a: "gzll_page_alloc s = ok (p, s1)" "p \<noteq> 0"
      "alloc_pages env pdir (vaddr + 0x2000) (sz - 0x2000) (s1\<lparr>g_vm := vm\<rparr>) = ok (v', s')"
      by (subst (asm) alloc_pages.simps) (auto simp: bnd_ok_iff assert_c_def simp del: alloc_pages.simps split: if_splits)
    have "same_threads (s1\<lparr>g_vm := vm\<rparr>) s'" by (rule 1(1) [OF True a(3)])
    moreover have "same_threads s (s1\<lparr>g_vm := vm\<rparr>)" using page_alloc_same [OF a(1)] by simp
    ultimately show ?thesis by (rule same_threads_trans [rotated])
  next
    case False
    with 1(2) show ?thesis by (subst (asm) alloc_pages.simps) (simp del: alloc_pages.simps)
  qed
qed

lemma calls_keep:
  "gzll_syscall_get_kernelinfo env c s = ok (c1, s1) \<Longrightarrow> same_threads s s1 \<and> sc_id c1 = sc_id c \<and> sc_param c1 = sc_param c"
  "gzll_syscall_self env c s = ok (c1, s1) \<Longrightarrow> same_threads s s1 \<and> sc_id c1 = sc_id c \<and> sc_param c1 = sc_param c"
  "gzll_syscall_get_taskid env c s = ok (c1, s1) \<Longrightarrow> same_threads s s1 \<and> sc_id c1 = sc_id c \<and> sc_param c1 = sc_param c"
  "gzll_syscall_alloc_page env c s = ok (c1, s1) \<Longrightarrow> same_threads s s1 \<and> sc_id c1 = sc_id c \<and> sc_param c1 = sc_param c"
  "gzll_syscall_endpoint_create env c s = ok (c1, s1) \<Longrightarrow> same_threads s s1 \<and> sc_id c1 = sc_id c \<and> sc_param c1 = sc_param c"
  "gzll_syscall_endpoint_get env c s = ok (c1, s1) \<Longrightarrow> same_threads s s1 \<and> sc_id c1 = sc_id c \<and> sc_param c1 = sc_param c"
  "gzll_syscall_channel_connect env c s = ok (c1, s1) \<Longrightarrow> same_threads s s1 \<and> sc_id c1 = sc_id c \<and> sc_param c1 = sc_param c"
  subgoal by (auto simp: gzll_syscall_get_kernelinfo_def bnd_ok_iff dest: to_userspace_same)
  subgoal by (auto simp: gzll_syscall_self_def bnd_ok_iff)
  subgoal
    by (auto simp: gzll_syscall_get_taskid_def bnd_ok_iff Let_def dest!: to_userspace_same)
      (simp add: same_threads_def set_dir_def)
  subgoal by (auto simp: gzll_syscall_alloc_page_def bnd_ok_iff dest!: alloc_pages_same simp del: alloc_pages.simps)
  subgoal by (auto simp: gzll_syscall_endpoint_create_def bnd_ok_iff)
  subgoal by (auto simp: gzll_syscall_endpoint_get_def bnd_ok_iff)
  subgoal by (auto simp: gzll_syscall_channel_connect_def bnd_ok_iff)
  done

lemma handler_keeps:
  assumes "gzll_syscall_handler env c s = ok (c1, s1)" and "sc_id c \<in> {1, 2, 3, 4, 5, 6, 7}"
  shows "same_threads s s1 \<and> sc_id c1 = sc_id c \<and> sc_param c1 = sc_param c"
  using assms(2,1) calls_keep [of env c s c1 s1]
  unfolding insert_iff empty_iff by (elim disjE) (simp_all add: gzll_syscall_handler_def)

subsection \<open>A call returns its result and nothing else\<close>

lemma load_call_regs:
  assumes "length regs = 32" and "length ps = 6"
  shows "load_call i ps regs ! 11 = i" "map ((!) (load_call i ps regs)) [3..<9] = ps"
    "length (load_call i ps regs) = 32"
proof -
  obtain a b c d e f where ps: "ps = [a, b, c, d, e, f]"
    using assms(2) by (auto simp: numeral_eq_Suc length_Suc_conv)
  show "load_call i ps regs ! 11 = i" "length (load_call i ps regs) = 32"
    using assms(1) by (simp_all add: load_call_def)
  have "[3..<9] = [3, 4, 5, 6, 7, 8 :: nat]" by (simp add: upt_rec)
  then show "map ((!) (load_call i ps regs)) [3..<9] = ps"
    using assms(1) by (simp add: load_call_def ps)
qed

lemma trap_runs:
  assumes "ge_core env < length data" and "ge_core env < length (k_frame (g_k s))"
    and "length (c_regs (k_frame (g_k s) ! ge_core env)) = 32" and "length ps = 6"
    and regs: "regs = load_call i ps (c_regs (k_frame (g_k s) ! ge_core env))"
    and s1: "s1 = s\<lparr>g_k := (g_k s)\<lparr>k_frame := (k_frame (g_k s))[ge_core env := (k_frame (g_k s) ! ge_core env)\<lparr>c_regs := regs\<rparr>]\<rparr>\<rparr>"
  shows "user_syscall env i ps (data, s) =
    bnd (gzll_syscall_handler env ((data ! ge_core env)\<lparr>sc_id := i, sc_param := ps\<rparr>) s1) (\<lambda>(call, s2).
      ok (c_regs (k_frame (frame_put (ge_core env) 11 (sc_output call) (g_k s2)) ! ge_core env) ! 11,
          data[ge_core env := call], s2\<lparr>g_k := frame_put (ge_core env) 11 (sc_output call) (g_k s2)\<rparr>))"
  using assms load_call_regs [OF assms(3,4)]
  by (simp add: user_syscall_def gzll_trap_def optimsoc_syscall_entry_def optimsoc_syscall_handler_set_def Let_def
      bnd_assoc case_prod_unfold)

text \<open>
  C21: a system call of a program with the number 1 to 7 that returns gives the output that the
  handler stored. The handler received the number and the six parameters of the program; of the
  registers of the program only those of the call and its result changed, and no thread and no
  core changed.
\<close>

theorem syscall_return:
  assumes "user_syscall env i ps (data, s) = ok (v, data', s')" and "i \<in> {1, 2, 3, 4, 5, 6, 7}"
    and "ge_core env < length data" and "ge_core env < length (k_frame (g_k s))"
    and "length (c_regs (k_frame (g_k s) ! ge_core env)) = 32" and "length ps = 6"
  shows "v = sc_output (data' ! ge_core env) \<and> sc_id (data' ! ge_core env) = i \<and> sc_param (data' ! ge_core env) = ps \<and>
    k_threads (g_k s') = k_threads (g_k s) \<and> k_cores (g_k s') = k_cores (g_k s) \<and>
    k_frame (g_k s') = (k_frame (g_k s))[ge_core env := (k_frame (g_k s) ! ge_core env)
      \<lparr>c_regs := load_call v ps (c_regs (k_frame (g_k s) ! ge_core env))\<rparr>]"
proof -
  let ?c = "ge_core env" and ?f = "k_frame (g_k s) ! ge_core env"
  define s1 where "s1 = s\<lparr>g_k := (g_k s)\<lparr>k_frame := (k_frame (g_k s))[?c := ?f\<lparr>c_regs := load_call i ps (c_regs ?f)\<rparr>]\<rparr>\<rparr>"
  from assms(1) [unfolded trap_runs [OF assms(3-6) refl s1_def]] obtain call s2 where
    h: "gzll_syscall_handler env ((data ! ?c)\<lparr>sc_id := i, sc_param := ps\<rparr>) s1 = ok (call, s2)"
    and v: "v = c_regs (k_frame (frame_put ?c 11 (sc_output call) (g_k s2)) ! ?c) ! 11"
    and d: "data' = data[?c := call]" and s': "s' = s2\<lparr>g_k := frame_put ?c 11 (sc_output call) (g_k s2)\<rparr>"
    by (auto simp: bnd_ok_iff)
  from handler_keeps [OF h] assms(2) have k: "same_threads s1 s2" "sc_id call = i" "sc_param call = ps" by simp_all
  have l: "length (load_call i ps (c_regs ?f)) = 32" by (rule load_call_regs [OF assms(5,6)])
  have f2: "k_frame (g_k s2) = (k_frame (g_k s))[?c := ?f\<lparr>c_regs := load_call i ps (c_regs ?f)\<rparr>]"
    using k(1) by (simp add: same_threads_def s1_def)
  have v': "v = sc_output call" using v f2 l assms(4) by (simp add: frame_put_def)
  have "(load_call i ps (c_regs ?f))[11 := v] = load_call v ps (c_regs ?f)"
    by (simp add: load_call_def list_update_swap [of 11])
  then have "k_frame (g_k s') = (k_frame (g_k s))[?c := ?f\<lparr>c_regs := load_call v ps (c_regs ?f)\<rparr>]"
    using f2 v' assms(4) by (simp add: s' frame_put_def)
  moreover have "k_threads (g_k s') = k_threads (g_k s)" "k_cores (g_k s') = k_cores (g_k s)"
    using k(1) by (simp_all add: s' frame_put_def same_threads_def s1_def)
  ultimately show ?thesis using v' d k assms(3) by simp
qed

subsection \<open>The call that ends a thread\<close>

text \<open>
  C36: the call that ends a thread damages the thread that runs next. The assembly entry stores the
  output into register 11 of the exception frame after the handler has returned, but the handler
  has replaced the frame by the registers of the next thread; so this thread continues with the
  output of an earlier system call of the core in its register 11.
\<close>

theorem exit_overwrites_next:
  assumes q: "kq (g_k s) V b (t # R) W A" and k: "kst (g_k s) C (t # R) W A" and c: "ge_core env \<in> C"
    and cur: "active_on (g_k s) (ge_core env) = u" "u \<noteq> idle_on (g_k s) (ge_core env)" "k_threads (g_k s) u = Some cb"
    and j: "V (t_joinlist cb) = Some (jb, js)" "0 \<notin> set js" "t_joinlist cb \<notin> {k_ready (g_k s), k_wait (g_k s), k_all (g_k s)}"
    and d: "ge_core env < length data" and regs: "length (c_regs (k_frame (g_k s) ! ge_core env)) = 32" "length ps = 6"
  shows "\<exists>v s' cb'. user_syscall env 0 ps (data, s) = ok (v, data[ge_core env := (data ! ge_core env)\<lparr>sc_id := 0, sc_param := ps\<rparr>], s') \<and>
    active_on (g_k s') (ge_core env) = t \<and> k_threads (g_k s) t = Some cb' \<and>
    k_frame (g_k s') ! ge_core env = (t_ctx cb')\<lparr>c_regs := (c_regs (t_ctx cb'))[11 := sc_output (data ! ge_core env)]\<rparr>"
proof -
  let ?c = "ge_core env"
  define f where "f = (k_frame (g_k s))[?c := (k_frame (g_k s) ! ?c)\<lparr>c_regs := load_call 0 ps (c_regs (k_frame (g_k s) ! ?c))\<rparr>]"
  define s1 where "s1 = s\<lparr>g_k := (g_k s)\<lparr>k_frame := f\<rparr>\<rparr>"
  have lf: "length f = length (k_frame (g_k s))" by (simp add: f_def)
  have lt: "?c < length (k_frame (g_k s))" using current_ok(6) [OF k c] .
  have q1: "kq (g_k s1) V b (t # R) W A" using q by (simp add: s1_def)
  have k1: "kst (g_k s1) C (t # R) W A" using k lf by (simp add: s1_def kst_frame)
  have c1: "active_on (g_k s1) ?c = u" "u \<noteq> idle_on (g_k s1) ?c" "k_threads (g_k s1) u = Some cb" using cur by (simp_all add: s1_def)
  have j1: "t_joinlist cb \<notin> {k_ready (g_k s1), k_wait (g_k s1), k_all (g_k s1)}" using j by (simp add: s1_def)
  from exit_moved [OF q1 k1 c c1 j(1,2) j1] obtain k' cb' where
    e: "optimsoc_thread_exit ?c (g_k s1) = ok k'" "active_on k' ?c = t" "k_threads (g_k s1) t = Some cb'"
    "k_frame k' = (k_frame (g_k s1))[?c := t_ctx cb']" by auto
  have h: "gzll_syscall_handler env ((data ! ?c)\<lparr>sc_id := 0, sc_param := ps\<rparr>) s1 =
      ok ((data ! ?c)\<lparr>sc_id := 0, sc_param := ps\<rparr>, s1\<lparr>g_k := k'\<rparr>)"
    by (simp add: gzll_syscall_handler_def syscall_exit_def on_k_def e(1))
  have run: "user_syscall env 0 ps (data, s) = bnd (gzll_syscall_handler env ((data ! ?c)\<lparr>sc_id := 0, sc_param := ps\<rparr>) s1) (\<lambda>(call, s2).
      ok (c_regs (k_frame (frame_put ?c 11 (sc_output call) (g_k s2)) ! ?c) ! 11,
          data[?c := call], s2\<lparr>g_k := frame_put ?c 11 (sc_output call) (g_k s2)\<rparr>))"
    by (rule trap_runs [OF d lt regs refl]) (simp add: s1_def f_def)
  have "k_frame k' ! ?c = t_ctx cb'" using e(4) lt lf by (simp add: s1_def)
  moreover have "active_on (frame_put ?c 11 x k') = active_on k'" for x by (simp add: frame_put_def active_on_def)
  moreover have "k_threads (g_k s) t = Some cb'" using e(3) by (simp add: s1_def)
  moreover have "length (k_frame k') = length (k_frame (g_k s))" using e(4) lf by (simp add: s1_def)
  ultimately show ?thesis
    unfolding run h bnd_simps prod.case using e(2) lt by (simp add: frame_put_def)
qed

subsection \<open>A program that asks for its number, and one that ends\<close>

definition demo_calls :: "syscall list" where
  "demo_calls = [\<lparr>sc_id = 3, sc_output = 99, sc_param = replicate 6 0\<rparr>]"

definition demo_call_gz :: gz where
  "demo_call_gz = (demo_gz demo_lists Map.empty)
     \<lparr>g_k := demo_state\<lparr>k_threads := (k_threads demo_state)(512 \<mapsto> (demo_thread 2 THREAD_RUNNABLE)\<lparr>t_extra_data := 0x500\<rparr>)\<rparr>,
      g_nodes := [0x500 \<mapsto> \<lparr>gn_id = 1, gn_identifier = ''n'', gn_app = 0, gn_taskid = 7, gn_state = 0, gn_pagedir = 0, gn_thread = 512\<rparr>]\<rparr>"

theorem syscall_return_witness:
  "\<exists>data' s'. user_syscall demo_genv 3 [1, 2, 3, 4, 5, 6] (demo_calls, demo_call_gz) = ok (7, data', s') \<and>
     c_regs (k_frame (g_k s') ! 0) = [0, 0, 0, 1, 2, 3, 4, 5, 6, 0, 0, 7] @ replicate 20 0"
proof -
  have d: "ge_core demo_genv = 0" "ge_core demo_genv < length demo_calls" "ge_core demo_genv < length (k_frame (g_k demo_call_gz))"
    "length (c_regs (k_frame (g_k demo_call_gz) ! ge_core demo_genv)) = 32" "length [1, 2, 3, 4, 5, 6 :: u32] = 6"
    by (simp_all add: demo_genv_def demo_calls_def demo_call_gz_def demo_state_def zero_ctx_def)
  have "\<exists>data' s'. user_syscall demo_genv 3 [1, 2, 3, 4, 5, 6] (demo_calls, demo_call_gz) = ok (7, data', s')"
    unfolding trap_runs [OF d(2-5) refl refl]
    by (simp add: gzll_syscall_handler_def gzll_syscall_self_def current_node_def node_at_def
        optimsoc_thread_current_def optimsoc_scheduler_get_current_def get_core_def optimsoc_thread_get_extra_data_def
        get_thread_def demo_call_gz_def demo_gz_def demo_genv_def demo_state_def demo_thread_def demo_calls_def frame_put_def
        load_call_def zero_ctx_def)
  then obtain data' s' where run: "user_syscall demo_genv 3 [1, 2, 3, 4, 5, 6] (demo_calls, demo_call_gz) = ok (7, data', s')"
    by blast
  have "c_regs (k_frame (g_k s') ! 0) = load_call 7 [1, 2, 3, 4, 5, 6] (c_regs (k_frame (g_k demo_call_gz) ! 0))"
    using syscall_return [OF run _ d(2-5)] d(1,3) by simp
  also have "\<dots> = [0, 0, 0, 1, 2, 3, 4, 5, 6, 0, 0, 7] @ replicate 20 0"
    by (simp add: load_call_def demo_call_gz_def demo_state_def zero_ctx_def numeral_eq_Suc)
  finally show ?thesis using run by blast
qed

theorem exit_overwrites_next_witness:
  "\<exists>v data' s'. user_syscall demo_genv 0 (replicate 6 0) (demo_calls, demo_call_gz) = ok (v, data', s') \<and>
     active_on (g_k s') 0 = 768 \<and> c_regs (k_frame (g_k s') ! 0) = (c_regs (t_ctx (demo_thread 3 THREAD_RUNNABLE)))[11 := 99]"
proof -
  let ?cb = "(demo_thread 2 THREAD_RUNNABLE)\<lparr>t_extra_data := 0x500\<rparr>"
  have c0: "ge_core demo_genv = 0" by (simp add: demo_genv_def)
  have q: "kq (g_k demo_call_gz) demo_view True (768 # [896, 960]) [1024] [512, 768, 896, 960, 1024]"
    using demo_kq by (simp add: demo_call_gz_def demo_gz_def)
  have "g_k demo_call_gz = put_thread 512 ?cb demo_state" by (simp add: demo_call_gz_def put_thread_def)
  moreover have "k_threads demo_state 512 = Some (demo_thread 2 THREAD_RUNNABLE)" by (simp add: demo_state_def)
  ultimately have k: "kst (g_k demo_call_gz) (cores demo_state) (768 # [896, 960]) [1024] [512, 768, 896, 960, 1024]"
    using kst_put_same [OF demo_kst] by (simp add: demo_thread_def)
  show ?thesis
    using exit_overwrites_next [OF q k, of demo_genv 512 ?cb True "[]" demo_calls "replicate 6 0"] demo_core
    by (auto simp: c0 demo_call_gz_def demo_state_def demo_thread_def demo_view_def demo_calls_def zero_ctx_def
        active_on_def idle_on_def)
qed

end
