(* ===== verification/Dbgnoc.thy ===== *)
theory Dbgnoc
  imports Prelude "HOL-Library.Signed_Division"
begin

section \<open>The debug network on the host (liboptimsochost/src/backend_dbgnoc.c)\<close>

text \<open>
  The library on the workstation talks to the debug system of the chip in packets of 16 bit
  flits, over the byte stream of the library GLIP. A packet in the stream is its length and
  its flits. The state of the backend is a record; what GLIP answers to the successive writes,
  and whether the successive tested allocations succeed, are fields of it. The host stores
  words least significant byte first. Logging is left out.

  The thread that receives and the functions that wait for an answer share the last received
  packet and hand it over with semaphores; in the model a waiting function takes the packets
  handed over to it, in order, from a list, and times out at its end.
\<close>

subsection \<open>State\<close>

record dbg_module =
  dm_addr :: nat
  dm_type :: u16
  dm_version :: u16

abbreviation (input) OPTIMSOC_MODULE_TYPE_ITM :: u16 where "OPTIMSOC_MODULE_TYPE_ITM \<equiv> 2"
abbreviation (input) OPTIMSOC_MODULE_TYPE_NRM :: u16 where "OPTIMSOC_MODULE_TYPE_NRM \<equiv> 3"
abbreviation (input) OPTIMSOC_MODULE_TYPE_NCM :: u16 where "OPTIMSOC_MODULE_TYPE_NCM \<equiv> 4"
abbreviation (input) OPTIMSOC_MODULE_TYPE_MAM :: u16 where "OPTIMSOC_MODULE_TYPE_MAM \<equiv> 7"

text \<open>
  The number of the modules is the length of their list. The configurations are arrays of
  pointers to a single number each.
\<close>

record sysinfo =
  si_sysid :: u16
  si_modules :: "dbg_module list"
  si_itm :: "u32 option list"
  si_stm :: "u32 option list"
  si_mam :: "u32 option list"

datatype dbg_event =
    ItmEvent u32 u32 u32 int
  | NrmEvent int u32 "u8 list"
  | StmEvent u32 u32 u16 u32

record dbg =
  d_itm_cb :: bool
  d_nrm_cb :: bool
  d_stm_cb :: bool
  d_ncm_dbgnoc :: int
  d_ncm_lisnoc :: int
  d_pkt16 :: "u16 list"
  d_len32 :: nat
  d_pkt32 :: "u32 list"
  d_signal :: bool
  d_sysinfo :: "sysinfo option"
  d_out :: "u8 list"
  d_glip :: "nat \<Rightarrow> int \<times> nat"
  d_writes :: nat
  d_al :: "nat \<Rightarrow> bool"
  d_allocs :: nat
  d_events :: "dbg_event list"
  d_handed :: "u16 list list"

abbreviation (input) DBG_NOC_ADDR_TCM :: nat where "DBG_NOC_ADDR_TCM \<equiv> 1"
abbreviation (input) DBG_NOC_CLASS_REG_READ_RESP :: u16 where "DBG_NOC_CLASS_REG_READ_RESP \<equiv> 1"
abbreviation (input) DBG_NOC_CLASS_REG_WRITE_REQ :: u16 where "DBG_NOC_CLASS_REG_WRITE_REQ \<equiv> 2"
abbreviation (input) DBG_NOC_CLASS_STM :: u16 where "DBG_NOC_CLASS_STM \<equiv> 3"
abbreviation (input) DBG_NOC_CLASS_ITM :: u16 where "DBG_NOC_CLASS_ITM \<equiv> 4"
abbreviation (input) DBG_NOC_CLASS_NRM :: u16 where "DBG_NOC_CLASS_NRM \<equiv> 5"
abbreviation (input) DBG_NOC_CLASS_NCM :: u16 where "DBG_NOC_CLASS_NCM \<equiv> 7"
abbreviation (input) NUM_SAMPLES_PER_TRANSFER :: nat where "NUM_SAMPLES_PER_TRANSFER \<equiv> 256"
abbreviation (input) NCM_MAX_LISNOC32_FLITS_PER_PKG :: nat where "NCM_MAX_LISNOC32_FLITS_PER_PKG \<equiv> 16"
abbreviation (input) LISNOC16_MAX_FLITS_PER_PKG :: int where "LISNOC16_MAX_FLITS_PER_PKG \<equiv> 32"
abbreviation (input) REGISTER_READ_MAXPKGS :: nat where "REGISTER_READ_MAXPKGS \<equiv> 100000"
abbreviation (input) ENOMEM :: int where "ENOMEM \<equiv> 12"
abbreviation (input) ETIMEDOUT :: int where "ETIMEDOUT \<equiv> 110"

text \<open>The outcome of the next tested allocation.\<close>

definition halloc :: "dbg \<Rightarrow> bool \<times> dbg" where
  "halloc c = (d_al c (d_allocs c), c\<lparr>d_allocs := d_allocs c + 1\<rparr>)"

subsection \<open>Words and bytes\<close>

definition le_bytes :: "u16 list \<Rightarrow> u8 list" where
  "le_bytes ws = concat (map (\<lambda>w. [ucast w, ucast (drop_bit 8 w)]) ws)"

fun le_words :: "u8 list \<Rightarrow> u16 list" where
  "le_words (a # b # bs) = (ucast a OR push_bit 8 (ucast b)) # le_words bs"
| "le_words _ = []"

definition pair32 :: "u16 \<Rightarrow> u16 \<Rightarrow> u32" where
  "pair32 h l = push_bit 16 (ucast h) OR ucast l"

definition flit_class :: "u16 \<Rightarrow> u16" where
  "flit_class f = drop_bit 8 (f AND 0x0700)"

subsection \<open>Sending\<close>

text \<open>
  \<open>glip_write_b\<close> answers with a status and the number of the bytes it has written, which are
  all of them when the status is zero.
\<close>

definition glip_write :: "u8 list \<Rightarrow> dbg \<Rightarrow> int \<times> dbg" where
  "glip_write bs c =
     (let (rv, n) = d_glip c (d_writes c)
      in (rv, c\<lparr>d_writes := d_writes c + 1, d_out := d_out c @ (if rv = 0 then bs else take n bs)\<rparr>))"

definition stream_words :: "u16 list list \<Rightarrow> u16 list" where
  "stream_words pkts = concat (map (\<lambda>p. word_of_nat (length p) # p) pkts)"

definition lisnoc16_send_packets :: "u16 list list \<Rightarrow> dbg \<Rightarrow> int \<times> dbg" where
  "lisnoc16_send_packets pkts c =
     (let (got, c1) = halloc c in
      if \<not> got then (- ENOMEM, c1)
      else
        let (ret, c2) = glip_write (le_bytes (stream_words pkts)) c1
        in if ret \<noteq> 0 then (-1, c2) else (0, c2))"

definition split32 :: "u32 \<Rightarrow> u16 list" where
  "split32 w = [ucast (drop_bit 16 w), ucast w]"

text \<open>A failed send is not reported.\<close>

fun wrap32 :: "u32 list list \<Rightarrow> dbg \<Rightarrow> (int + u16 list list) \<times> dbg" where
  "wrap32 [] c = (Inr [], c)"
| "wrap32 (p # ps) c =
     (if NCM_MAX_LISNOC32_FLITS_PER_PKG < length p then (Inl (-1), c)
      else
        let (got, c1) = halloc c in
        if \<not> got then (Inl (- ENOMEM), c1)
        else
          let hdr = push_bit 11 (word_of_int (d_ncm_dbgnoc c) AND 0x1F) OR push_bit 8 DBG_NOC_CLASS_NCM
          in case wrap32 ps c1 of
               (Inl e, c2) \<Rightarrow> (Inl e, c2)
             | (Inr qs, c2) \<Rightarrow> (Inr ((hdr # concat (map split32 p)) # qs), c2))"

definition lisnoc32_send_packets :: "u32 list list \<Rightarrow> dbg \<Rightarrow> int \<times> dbg" where
  "lisnoc32_send_packets pkts c =
     (if d_ncm_dbgnoc c = -1 then (-1, c)
      else
        let (got, c1) = halloc c in
        if \<not> got then (- ENOMEM, c1)
        else case wrap32 pkts c1 of
               (Inl e, c2) \<Rightarrow> (e, c2)
             | (Inr qs, c2) \<Rightarrow> (0, snd (lisnoc16_send_packets qs c2)))"

subsection \<open>Registers\<close>

definition module_field :: "nat \<Rightarrow> u16" where
  "module_field addr = push_bit 11 (word_of_nat addr AND 0x1F)"

definition register_write_packet :: "nat \<Rightarrow> nat \<Rightarrow> u16 list \<Rightarrow> u16 list" where
  "register_write_packet module_addr reg_addr ws =
     (module_field module_addr OR push_bit 8 DBG_NOC_CLASS_REG_WRITE_REQ OR push_bit 2 (word_of_nat reg_addr AND 0x3F)) # ws"

definition register_write :: "nat \<Rightarrow> nat \<Rightarrow> u16 list \<Rightarrow> dbg \<Rightarrow> int \<times> dbg" where
  "register_write module_addr reg_addr ws c =
     (let (got, c1) = halloc c in
      if \<not> got then (- ENOMEM, c1)
      else
        let (rv, c2) = lisnoc16_send_packets [register_write_packet module_addr reg_addr ws] c1
        in if rv < 0 then (-1, c2) else (0, c2))"

definition register_read_packet :: "nat \<Rightarrow> nat \<Rightarrow> nat \<Rightarrow> u16 list" where
  "register_read_packet module_addr reg_addr burst_len =
     [module_field module_addr OR push_bit 2 (word_of_nat reg_addr AND 0x3F) OR (word_of_nat burst_len - 1 AND 3)]"

text \<open>Packets handed over while waiting; the wait for one more packet times out after the last.\<close>

type_synonym handed = "u16 list list"

fun register_wait :: "nat \<Rightarrow> nat \<Rightarrow> handed \<Rightarrow> dbg \<Rightarrow> int \<times> u16 list \<times> handed \<times> dbg" where
  "register_wait 0 burst_len rx c = (-1, [], rx, c)"
| "register_wait (Suc n) burst_len [] c = (- ETIMEDOUT, [], [], c\<lparr>d_signal := False\<rparr>)"
| "register_wait (Suc n) burst_len (p # rx) c =
     (if length p = burst_len + 1 \<and> flit_class (hd p) = DBG_NOC_CLASS_REG_READ_RESP
      then (0, tl p, rx, c\<lparr>d_signal := False\<rparr>)
      else register_wait n burst_len rx (if n = 0 then c\<lparr>d_signal := False\<rparr> else c))"

definition register_read :: "nat \<Rightarrow> nat \<Rightarrow> nat \<Rightarrow> handed \<Rightarrow> dbg \<Rightarrow> int \<times> u16 list \<times> handed \<times> dbg" where
  "register_read module_addr reg_addr burst_len rx c =
     (if 4 < burst_len then (-1, [], rx, c)
      else
        let (rv, c1) = lisnoc16_send_packets [register_read_packet module_addr reg_addr burst_len] (c\<lparr>d_signal := True\<rparr>)
        in if rv \<noteq> 0 then (-1, [], rx, c1)
           else register_wait REGISTER_READ_MAXPKGS burst_len rx c1)"

subsection \<open>Control of the processors\<close>

definition ob_dbgnoc_cpu_start :: "dbg \<Rightarrow> int \<times> dbg" where
  "ob_dbgnoc_cpu_start c = register_write DBG_NOC_ADDR_TCM 3 [push_bit 4 1] c"

definition ob_dbgnoc_cpu_stall :: "bool \<Rightarrow> dbg \<Rightarrow> int \<times> dbg" where
  "ob_dbgnoc_cpu_stall do_stall c =
     register_write DBG_NOC_ADDR_TCM 3 [if do_stall then push_bit 0 1 else push_bit 1 1] c"

definition ob_dbgnoc_cpu_reset :: "dbg \<Rightarrow> int \<times> dbg" where
  "ob_dbgnoc_cpu_reset c = register_write DBG_NOC_ADDR_TCM 3 [push_bit 2 1] c"

text \<open>The two results are the clock and the halted clock.\<close>

definition ob_dbgnoc_read_clkstats :: "handed \<Rightarrow> dbg \<Rightarrow> int \<times> (u32 \<times> u32) option \<times> handed \<times> dbg" where
  "ob_dbgnoc_read_clkstats rx c =
     (let (rv, c1) = register_write DBG_NOC_ADDR_TCM 3 [push_bit 3 1] c in
      if rv < 0 then (-1, None, rx, c1)
      else
        let (rv, ws, rx1, c2) = register_read DBG_NOC_ADDR_TCM 4 4 rx c1 in
        if rv < 0 then (-1, None, rx1, c2)
        else (0, Some (pair32 (ws ! 2) (ws ! 3), pair32 (ws ! 0) (ws ! 1)), rx1, c2))"

definition sysinfo_of :: "dbg \<Rightarrow> sysinfo exec" where
  "sysinfo_of c = (case d_sysinfo c of None \<Rightarrow> flt NullDeref | Some si \<Rightarrow> ok si)"

text \<open>The second test of the interval is never reached.\<close>

fun nrm_write_all :: "dbg_module list \<Rightarrow> u16 \<Rightarrow> dbg \<Rightarrow> dbg" where
  "nrm_write_all [] w c = c"
| "nrm_write_all (m # ms) w c =
     nrm_write_all ms w
       (if dm_type m = OPTIMSOC_MODULE_TYPE_NRM then snd (register_write (dm_addr m) 2 [w] c) else c)"

definition ob_dbgnoc_nrm_set_sample_interval :: "int \<Rightarrow> dbg \<Rightarrow> (int \<times> dbg) exec" where
  "ob_dbgnoc_nrm_set_sample_interval sample_interval c =
     (case d_sysinfo c of None \<Rightarrow> flt AssertFail
      | Some si \<Rightarrow>
          if 255 < sample_interval then ok (0, nrm_write_all (si_modules si) (word_of_int sample_interval) c)
          else if 65536 < sample_interval then ok (-1, c)
          else ok (0, nrm_write_all (si_modules si) (word_of_int sample_interval) c))"

subsection \<open>Writing to memory\<close>

text \<open>The loop over the modules keeps the last match.\<close>

fun find_mam :: "dbg_module list \<Rightarrow> u32 option list \<Rightarrow> u32 \<Rightarrow> nat option \<Rightarrow> nat option exec" where
  "find_mam [] mam memory_id r = ok r"
| "find_mam (m # ms) mam memory_id r =
     (if dm_type m \<noteq> OPTIMSOC_MODULE_TYPE_MAM then find_mam ms mam memory_id r
      else if length mam \<le> dm_addr m then flt OutOfBounds
      else case mam ! dm_addr m of
             None \<Rightarrow> flt NullDeref
           | Some i \<Rightarrow> find_mam ms mam memory_id (if i = memory_id then Some (dm_addr m) else r))"

abbreviation (input) bytes_per_pkg :: int where "bytes_per_pkg \<equiv> 24"

definition data_flit :: "u8 list \<Rightarrow> nat \<Rightarrow> u16" where
  "data_flit bs i = push_bit 8 (ucast (bs ! i)) OR ucast (bs ! (i + 1))"

text \<open>
  One packet: \<open>flits\<close> is its length, \<open>idx\<close> the position in the data. Three flits are written
  whatever the length is.
\<close>

definition mam_packet :: "nat \<Rightarrow> u32 \<Rightarrow> u8 list \<Rightarrow> nat \<Rightarrow> nat \<Rightarrow> u16 list" where
  "mam_packet module_addr base_address bs idx flits =
     (let next_write_addr = base_address + word_of_nat idx
      in [module_field module_addr OR push_bit 8 7, ucast (drop_bit 16 next_write_addr), ucast next_write_addr]
         @ map (\<lambda>j. data_flit bs (idx + 2 * j)) [0..<flits - 3])"

fun mam_packets ::
    "nat \<Rightarrow> nat \<Rightarrow> u32 \<Rightarrow> u8 list \<Rightarrow> nat \<Rightarrow> int \<Rightarrow> dbg \<Rightarrow> ((int + u16 list list) \<times> dbg) exec" where
  "mam_packets 0 module_addr base_address bs idx remaining c = ok (Inr [], c)"
| "mam_packets (Suc n) module_addr base_address bs idx remaining c =
     (let flits = (if remaining < bytes_per_pkg then 3 + remaining sdiv 2 else 3 + bytes_per_pkg sdiv 2);
          (got, c1) = halloc c
      in if \<not> got \<or> flits < 0 then ok (Inl (- ENOMEM), c1)
         else if flits < 3 \<or> length bs < idx + 2 * nat (flits - 3) then flt OutOfBounds
         else
           let k = 2 * nat (flits - 3) in
           bnd (mam_packets n module_addr base_address bs (idx + k) (remaining - int k) c1) (\<lambda>(r, c2).
             case r of Inl e \<Rightarrow> ok (Inl e, c2)
             | Inr ps \<Rightarrow> ok (Inr (mam_packet module_addr base_address bs idx (nat flits) # ps), c2)))"

definition ob_dbgnoc_mem_write :: "u32 \<Rightarrow> u32 \<Rightarrow> u8 list \<Rightarrow> u32 \<Rightarrow> dbg \<Rightarrow> (int \<times> dbg) exec" where
  "ob_dbgnoc_mem_write memory_id base_address bs data_len c =
     bnd (sysinfo_of c) (\<lambda>si.
     bnd (find_mam (si_modules si) (si_mam si) memory_id None) (\<lambda>r.
       case r of None \<Rightarrow> ok (-1, c)
       | Some module_addr \<Rightarrow>
           let number_of_pkgs = 1 + unat ((data_len - 1) div 24);
               (got, c1) = halloc c
           in if \<not> got then ok (- ENOMEM, c1)
              else
                bnd (mam_packets number_of_pkgs module_addr base_address bs 0 (sint data_len) c1) (\<lambda>(r, c2).
                  case r of Inl e \<Rightarrow> ok (e, c2)
                  | Inr pkts \<Rightarrow>
                      let (rv, c3) = lisnoc16_send_packets pkts c2 in ok (if rv < 0 then -1 else 0, c3))))"

subsection \<open>Discovery of the modules\<close>

definition set_config :: "nat \<Rightarrow> u16 \<Rightarrow> u32 option list \<Rightarrow> u32 option list exec" where
  "set_config addr w cfg = (if addr < length cfg then ok (cfg[addr := Some (ucast w)]) else flt OutOfBounds)"

definition ob_dbgnoc_itm_refresh_config :: "dbg_module \<Rightarrow> handed \<Rightarrow> dbg \<Rightarrow> (int \<times> handed \<times> dbg) exec" where
  "ob_dbgnoc_itm_refresh_config m rx c =
     (let (rv, ws, rx1, c1) = register_read (dm_addr m) 1 1 rx c in
      if rv < 0 then ok (-1, rx1, c1)
      else
        bnd (sysinfo_of c1) (\<lambda>si. bnd (set_config (dm_addr m) (ws ! 0) (si_itm si)) (\<lambda>cfg.
          ok (0, rx1, c1\<lparr>d_sysinfo := Some (si\<lparr>si_itm := cfg\<rparr>)\<rparr>))))"

definition ob_dbgnoc_stm_refresh_config :: "dbg_module \<Rightarrow> handed \<Rightarrow> dbg \<Rightarrow> (int \<times> handed \<times> dbg) exec" where
  "ob_dbgnoc_stm_refresh_config m rx c =
     (let (rv, ws, rx1, c1) = register_read (dm_addr m) 1 1 rx c in
      if rv < 0 then ok (-1, rx1, c1)
      else
        bnd (sysinfo_of c1) (\<lambda>si. bnd (set_config (dm_addr m) (ws ! 0) (si_stm si)) (\<lambda>cfg.
          ok (0, rx1, c1\<lparr>d_sysinfo := Some (si\<lparr>si_stm := cfg\<rparr>)\<rparr>))))"

fun mam_get_loop :: "dbg_module list \<Rightarrow> handed \<Rightarrow> dbg \<Rightarrow> (int \<times> handed \<times> dbg) exec" where
  "mam_get_loop [] rx c = ok (0, rx, c)"
| "mam_get_loop (m # ms) rx c =
     (if dm_type m \<noteq> OPTIMSOC_MODULE_TYPE_MAM then mam_get_loop ms rx c
      else
        let (rv, ws, rx1, c1) = register_read (dm_addr m) 1 1 rx c in
        if rv < 0 then ok (-1, rx1, c1)
        else
          bnd (sysinfo_of c1) (\<lambda>si. bnd (set_config (dm_addr m) (ws ! 0) (si_mam si)) (\<lambda>cfg.
            mam_get_loop ms rx1 (c1\<lparr>d_sysinfo := Some (si\<lparr>si_mam := cfg\<rparr>)\<rparr>))))"

definition ob_dbgnoc_mam_get_config :: "handed \<Rightarrow> dbg \<Rightarrow> (int \<times> handed \<times> dbg) exec" where
  "ob_dbgnoc_mam_get_config rx c = bnd (sysinfo_of c) (\<lambda>si. mam_get_loop (si_modules si) rx c)"

text \<open>
  The loop over the addresses of the modules. The arrays the code allocates without a test are
  taken to be allocated.
\<close>

fun discover_modules :: "nat \<Rightarrow> nat \<Rightarrow> handed \<Rightarrow> dbg \<Rightarrow> dbg_module list option \<times> handed \<times> dbg" where
  "discover_modules 0 addr rx c = (Some [], rx, c)"
| "discover_modules (Suc n) addr rx c =
     (let (rv, ws, rx1, c1) = register_read addr 0 1 rx c in
      if rv < 0 then (None, rx1, c1)
      else
        let module_type = drop_bit 8 (ws ! 0) AND 0xFF;
            m = \<lparr>dm_addr = addr, dm_type = module_type, dm_version = ws ! 0 AND 0xFF\<rparr>;
            (ok1, rx2, c2) =
              (if module_type = OPTIMSOC_MODULE_TYPE_NCM then
                 let (rv, ws, rx2, c2) = register_read addr 1 1 rx1 (c1\<lparr>d_ncm_dbgnoc := int addr\<rparr>)
                 in if rv < 0 then (False, rx2, c2) else (True, rx2, c2\<lparr>d_ncm_lisnoc := uint (ws ! 0)\<rparr>)
               else if module_type = OPTIMSOC_MODULE_TYPE_ITM then
                 (True, rx1, snd (register_write addr 4 [0, 0] (snd (register_write addr 2 [0, 0] c1))))
               else (True, rx1, c1))
        in if \<not> ok1 then (None, rx2, c2)
           else case discover_modules n (addr + 1) rx2 c2 of
                  (None, rx3, c3) \<Rightarrow> (None, rx3, c3)
                | (Some ms, rx3, c3) \<Rightarrow> (Some (m # ms), rx3, c3))"

definition ob_dbgnoc_discover_system :: "handed \<Rightarrow> dbg \<Rightarrow> (int \<times> handed \<times> dbg) exec" where
  "ob_dbgnoc_discover_system rx c =
     (let (rv, ws, rx1, c1) = register_read DBG_NOC_ADDR_TCM 0 3 rx c in
      if rv < 0 then ok (-1, rx1, c1)
      else if ws ! 0 \<noteq> 0 then ok (-1, rx1, c1)
      else
        let (got, c2) = halloc c1 in
        if \<not> got then ok (- ENOMEM, rx1, c2)
        else
          let n = unat (ws ! 2) in
          case discover_modules n (DBG_NOC_ADDR_TCM + 1) rx1 c2 of
            (None, rx2, c3) \<Rightarrow> ok (-1, rx2, c3)
          | (Some ms, rx2, c3) \<Rightarrow>
              let none = replicate (n + DBG_NOC_ADDR_TCM + 1) None in
              bnd (ob_dbgnoc_mam_get_config rx2
                     (c3\<lparr>d_sysinfo := Some \<lparr>si_sysid = ws ! 1, si_modules = ms, si_itm = none, si_stm = none, si_mam = none\<rparr>\<rparr>))
                (\<lambda>(_, rx3, c4). ok (0, rx3, c4)))"

definition ob_dbgnoc_get_sysinfo :: "dbg \<Rightarrow> int \<times> sysinfo option" where
  "ob_dbgnoc_get_sysinfo c = (0, d_sysinfo c)"

subsection \<open>The receiving thread\<close>

text \<open>
  Packets of the class of the adapter wrap packets of the network of the chip; a packet with
  a length the thread does not support ends it. The array of the last wrapped packet keeps
  what was there beyond the length. The semaphores make the thread wait until a waiting
  function has seen the packet; the packets that are handed over are kept in order.
\<close>

fun pairs32 :: "u16 list \<Rightarrow> u32 list" where
  "pairs32 (h # l # ws) = pair32 h l # pairs32 ws"
| "pairs32 _ = []"

definition itm_event :: "u16 list \<Rightarrow> dbg_event" where
  "itm_event p = ItmEvent (ucast (p ! 0 AND 0xFF)) (pair32 (p ! 1) (p ! 2)) (pair32 (p ! 3) (p ! 4)) (uint (p ! 5))"

definition nrm_event :: "u16 list \<Rightarrow> dbg_event" where
  "nrm_event p = NrmEvent (uint (p ! 0 AND 0xFF)) (pair32 (p ! 1) (p ! 2))
     (concat (map (\<lambda>w. [ucast (drop_bit 8 w), ucast w]) (drop 3 p)))"

definition stm_event :: "u16 list \<Rightarrow> dbg_event" where
  "stm_event p = StmEvent (ucast (p ! 0 AND 0xFF)) (pair32 (p ! 1) (p ! 2)) (p ! 5) (pair32 (p ! 3) (p ! 4))"

definition packet_events :: "u16 list \<Rightarrow> dbg \<Rightarrow> dbg_event list" where
  "packet_events p c =
     (if d_itm_cb c \<and> length p = 6 \<and> flit_class (p ! 0) = DBG_NOC_CLASS_ITM then [itm_event p] else []) @
     (if d_nrm_cb c \<and> 4 \<le> length p \<and> flit_class (p ! 0) = DBG_NOC_CLASS_NRM then [nrm_event p] else []) @
     (if d_stm_cb c \<and> length p = 6 \<and> flit_class (p ! 0) = DBG_NOC_CLASS_STM then [stm_event p] else [])"

definition recv_packet :: "u16 list \<Rightarrow> dbg \<Rightarrow> dbg option" where
  "recv_packet p c =
     (if flit_class (p ! 0) = DBG_NOC_CLASS_NCM then
        if length p mod 2 \<noteq> 1 then Some c
        else
          let n = (length p - 1) div 2 in
          if NCM_MAX_LISNOC32_FLITS_PER_PKG < n then None
          else Some (c\<lparr>d_len32 := n, d_pkt32 := pairs32 (tl p) @ drop n (d_pkt32 c)\<rparr>)
      else if NUM_SAMPLES_PER_TRANSFER < length p then None
      else
        let c1 = c\<lparr>d_pkt16 := p, d_events := d_events c @ packet_events p c\<rparr>
        in Some (if d_signal c1 then c1\<lparr>d_handed := d_handed c1 @ [p]\<rparr> else c1))"

text \<open>
  The buffer has two halves of 256 words; a block is read into the second one. The first half
  of the bytes there is cleared before. \<open>past\<close> is the word in memory behind the buffer, which
  is read when a packet ends with the buffer.
\<close>

datatype recv = RecvGo "u16 list" nat dbg | RecvStop dbg

definition recv_fill :: "u16 list \<Rightarrow> u8 list \<Rightarrow> u16 list" where
  "recv_fill buf bs =
     take 256 buf @ le_words (bs @ drop (length bs) (replicate 256 0 @ drop 256 (le_bytes (drop 256 buf))))"

function recv_pass :: "u16 \<Rightarrow> u16 list \<Rightarrow> nat \<Rightarrow> dbg \<Rightarrow> recv" where
  "recv_pass past buf pos c =
     (let n = unat (if pos < 512 then buf ! pos else past) in
      if 511 < pos + n then
        if pos < 256 then RecvStop c
        else RecvGo (drop 256 buf @ drop 256 buf) (pos - 256) c
      else if n < 1 then recv_pass past buf (pos + n + 1) c
      else case recv_packet (take n (drop (pos + 1) buf)) c of
             None \<Rightarrow> RecvStop c
           | Some c1 \<Rightarrow> recv_pass past buf (pos + n + 1) c1)"
  by pat_completeness auto
termination
  by (relation "measure (\<lambda>(_, _, pos, _). 512 - pos)") auto

declare recv_pass.simps [simp del]

text \<open>\<open>rds\<close> are the answers of the successive reads, a status and the bytes that were read.\<close>

fun receive_thread :: "u16 \<Rightarrow> (int \<times> u8 list) list \<Rightarrow> u16 list \<Rightarrow> nat \<Rightarrow> dbg \<Rightarrow> recv" where
  "receive_thread past [] buf pos c = RecvGo buf pos c"
| "receive_thread past ((rv, bs) # rds) buf pos c =
     (let buf1 = recv_fill buf bs in
      if bs = [] \<and> rv = - ETIMEDOUT then receive_thread past rds buf1 pos c
      else if rv \<noteq> 0 \<and> rv \<noteq> - ETIMEDOUT then receive_thread past rds buf1 pos c
      else case recv_pass past buf1 pos c of
             RecvStop c1 \<Rightarrow> RecvStop c1
           | RecvGo buf2 pos2 c1 \<Rightarrow> receive_thread past rds buf2 pos2 c1)"

definition receive_start :: "u16 \<Rightarrow> (int \<times> u8 list) list \<Rightarrow> u16 list \<Rightarrow> dbg \<Rightarrow> recv" where
  "receive_start past rds junk c =
     receive_thread past rds junk 256 (c\<lparr>d_pkt16 := [], d_len32 := 0, d_pkt32 := replicate 16 0\<rparr>)"

subsection \<open>Life cycle\<close>

text \<open>
  What the calls of GLIP, of the semaphores and of the thread library return is an argument.
\<close>

fun conn_option :: "string \<Rightarrow> (string \<times> string) list \<Rightarrow> string" where
  "conn_option conn [] = conn"
| "conn_option conn ((n, v) # os) =
     conn_option (if n = ''conn'' then
                    if v = ''usb'' then ''cypressfx2'' else if v = ''tcp'' then ''tcp'' else conn
                  else conn) os"

definition ob_dbgnoc_new ::
    "bool \<Rightarrow> (string \<Rightarrow> (string \<times> string) list \<Rightarrow> int) \<Rightarrow> (nat \<Rightarrow> int \<times> nat) \<Rightarrow> (nat \<Rightarrow> bool) \<Rightarrow> (string \<times> string) list \<Rightarrow>
     int \<times> dbg option" where
  "ob_dbgnoc_new got glip_new answers allocs options =
     (if \<not> got then (- ENOMEM, None)
      else
        let c = \<lparr>d_itm_cb = False, d_nrm_cb = False, d_stm_cb = False, d_ncm_dbgnoc = 0, d_ncm_lisnoc = 0,
                 d_pkt16 = [], d_len32 = 0, d_pkt32 = [], d_signal = False, d_sysinfo = None, d_out = [],
                 d_glip = answers, d_writes = 0, d_al = allocs, d_allocs = 0, d_events = [], d_handed = []\<rparr>
        in (if glip_new (conn_option ''cypressfx2'' options) options \<noteq> 0 then -1 else 0, Some c))"

definition ob_dbgnoc_free :: "dbg \<Rightarrow> int \<times> dbg" where
  "ob_dbgnoc_free c = (0, c\<lparr>d_pkt16 := [], d_pkt32 := [], d_sysinfo := None\<rparr>)"

definition ob_dbgnoc_connect :: "int \<Rightarrow> int \<Rightarrow> int \<Rightarrow> int \<Rightarrow> dbg \<Rightarrow> int \<times> dbg" where
  "ob_dbgnoc_connect glip_open sem1 sem2 thread c =
     (if glip_open < 0 then (glip_open, c)
      else
        let c1 = c\<lparr>d_signal := False\<rparr>
        in if sem1 < 0 then (-1, c1) else if sem2 < 0 then (-1, c1)
           else if thread \<noteq> 0 then (-1, c1) else (0, c1))"

definition ob_dbgnoc_disconnect :: "int \<Rightarrow> dbg \<Rightarrow> int \<times> dbg" where
  "ob_dbgnoc_disconnect glip_close c =
     (let c1 = c\<lparr>d_signal := False\<rparr> in if glip_close < 0 then (glip_close, c1) else (0, c1))"

definition ob_dbgnoc_reset :: "int \<Rightarrow> dbg \<Rightarrow> int \<times> dbg" where
  "ob_dbgnoc_reset glip_logic_reset c = (if glip_logic_reset \<noteq> 0 then glip_logic_reset else 0, c)"

definition ob_dbgnoc_itm_register_callback :: "bool \<Rightarrow> dbg \<Rightarrow> int \<times> dbg" where
  "ob_dbgnoc_itm_register_callback cb c = (0, c\<lparr>d_itm_cb := cb\<rparr>)"

definition ob_dbgnoc_nrm_register_callback :: "bool \<Rightarrow> dbg \<Rightarrow> int \<times> dbg" where
  "ob_dbgnoc_nrm_register_callback cb c = (0, c\<lparr>d_nrm_cb := cb\<rparr>)"

definition ob_dbgnoc_stm_register_callback :: "bool \<Rightarrow> dbg \<Rightarrow> int \<times> dbg" where
  "ob_dbgnoc_stm_register_callback cb c = (0, c\<lparr>d_stm_cb := cb\<rparr>)"

end
