(* ===== verification/Simtcp.thy ===== *)
theory Simtcp
  imports Dbgnoc
begin

section \<open>The simulation backend of the host library (backend_simtcp.c)\<close>

text \<open>
  A simulated system answers over a socket in messages of a length byte, a type byte and the
  payload. The receiving thread keeps the payload of the last control message; a function that
  waits for an answer takes it from a list of the payloads that arrive, and times out at its
  end. The arguments of the sockets are left out; what a call of the system returns is an
  argument.
\<close>

record sim =
  s_stm_cb :: bool
  s_host :: string
  s_port :: int
  s_sock :: int
  s_locked :: bool
  s_ctrl :: "u8 list option"
  s_out :: "u8 list"
  s_sysinfo :: "sysinfo option"
  s_events :: "dbg_event list"

abbreviation (input) MSGTYPE_SYSDISCOVER :: u8 where "MSGTYPE_SYSDISCOVER \<equiv> 0"
abbreviation (input) MSGTYPE_SYSENUMERATE :: u8 where "MSGTYPE_SYSENUMERATE \<equiv> 1"
abbreviation (input) MSGTYPE_SYSSTART :: u8 where "MSGTYPE_SYSSTART \<equiv> 2"
abbreviation (input) MSGTYPE_SYSRESET :: u8 where "MSGTYPE_SYSRESET \<equiv> 3"
abbreviation (input) MSGTYPE_TRACE :: u8 where "MSGTYPE_TRACE \<equiv> 7"
abbreviation (input) DBGTYPE_STM :: u8 where "DBGTYPE_STM \<equiv> 5"

subsection \<open>The receiving thread\<close>

definition le32 :: "u8 list \<Rightarrow> nat \<Rightarrow> u32" where
  "le32 p i = ucast (p ! i) OR push_bit 8 (ucast (p ! (i + 1))) OR push_bit 16 (ucast (p ! (i + 2)))
     OR push_bit 24 (ucast (p ! (i + 3)))"

definition sim_trace :: "u8 list \<Rightarrow> dbg_event" where
  "sim_trace p = StmEvent (le32 p 4) (le32 p 8) (ucast (p ! 12) OR push_bit 8 (ucast (p ! 13))) (le32 p 14)"

definition sim_message :: "u8 \<Rightarrow> u8 list \<Rightarrow> sim \<Rightarrow> sim exec" where
  "sim_message type p c =
     (if type = MSGTYPE_SYSDISCOVER \<or> type = MSGTYPE_SYSENUMERATE \<or> type = MSGTYPE_SYSSTART then
        ok (c\<lparr>s_ctrl := Some p\<rparr>)
      else if type = MSGTYPE_TRACE then
        if p = [] then flt OutOfBounds
        else if p ! 0 = DBGTYPE_STM \<and> s_stm_cb c then
          bnd (assert_c (length p = 18)) (\<lambda>_. ok (c\<lparr>s_events := s_events c @ [sim_trace p]\<rparr>))
        else ok c
      else ok c)"

text \<open>
  The list holds what the successive calls of \<open>read\<close> return; it ends when the connection is
  closed. A short read of a header or of a payload fails an assertion.
\<close>

fun ob_simtcp_receive_thread :: "u8 list list \<Rightarrow> sim \<Rightarrow> sim exec" where
  "ob_simtcp_receive_thread [] c = ok c"
| "ob_simtcp_receive_thread [h] c = (if h = [] then ok c else flt AssertFail)"
| "ob_simtcp_receive_thread (h # p # rds) c =
     (if h = [] then ok c
      else bnd (assert_c (length h = 2)) (\<lambda>_.
        if h ! 0 < 2 then flt OutOfBounds
        else bnd (assert_c (length p = unat (h ! 0) - 2)) (\<lambda>_.
          bnd (sim_message (h ! 1) p c) (ob_simtcp_receive_thread rds))))"

subsection \<open>Life cycle\<close>

fun sim_options :: "(string \<Rightarrow> int) \<Rightarrow> (string \<times> string) list \<Rightarrow> sim \<Rightarrow> sim" where
  "sim_options atoi [] c = c"
| "sim_options atoi ((n, v) # os) c =
     sim_options atoi os
       (if n = ''host'' then c\<lparr>s_host := v\<rparr> else if n = ''port'' then c\<lparr>s_port := atoi v\<rparr> else c)"

definition ob_simtcp_new :: "bool \<Rightarrow> (string \<Rightarrow> int) \<Rightarrow> (string \<times> string) list \<Rightarrow> int \<times> sim option" where
  "ob_simtcp_new got atoi options =
     (if \<not> got then (- ENOMEM, None)
      else (0, Some ((sim_options atoi options
        \<lparr>s_stm_cb = False, s_host = ''localhost'', s_port = 22000, s_sock = 0, s_locked = False, s_ctrl = None,
         s_out = [], s_sysinfo = None, s_events = []\<rparr>)\<lparr>s_sock := -1\<rparr>)))"

definition ob_simtcp_connect :: "int \<Rightarrow> bool \<Rightarrow> int \<Rightarrow> sim \<Rightarrow> int \<times> sim" where
  "ob_simtcp_connect socket found connect c =
     (let c1 = c\<lparr>s_sock := socket\<rparr>
      in if socket < 0 then (-1, c1) else if \<not> found then (-1, c1) else if connect < 0 then (-1, c1) else (0, c1))"

definition ob_simtcp_disconnect :: "int \<Rightarrow> sim \<Rightarrow> int \<times> sim" where
  "ob_simtcp_disconnect close c = (close, c\<lparr>s_sock := -1\<rparr>)"

definition ob_simtcp_connected :: "sim \<Rightarrow> bool" where
  "ob_simtcp_connected c \<longleftrightarrow> s_sock c \<noteq> -1"

subsection \<open>Requests\<close>

text \<open>A lock that is held already blocks; \<open>wrote\<close> is what \<open>write\<close> returns.\<close>

definition sim_lock :: "sim \<Rightarrow> sim exec" where
  "sim_lock c = (if s_locked c then None else ok (c\<lparr>s_locked := True\<rparr>))"

definition sim_unlock :: "sim \<Rightarrow> sim" where
  "sim_unlock c = c\<lparr>s_locked := False\<rparr>"

definition sim_request :: "int \<Rightarrow> u8 \<Rightarrow> sim \<Rightarrow> sim exec" where
  "sim_request wrote type c =
     bnd (assert_c (wrote = 2)) (\<lambda>_. ok (c\<lparr>s_out := s_out c @ [2, type]\<rparr>))"

text \<open>The next control message, \<open>None\<close> when the wait times out.\<close>

fun sim_wait :: "u8 list list \<Rightarrow> sim \<Rightarrow> u8 list option \<times> u8 list list \<times> sim" where
  "sim_wait [] c = (None, [], c)"
| "sim_wait (p # rx) c = (Some p, rx, c\<lparr>s_ctrl := Some p\<rparr>)"

definition ob_simtcp_cpu_start :: "int \<Rightarrow> u8 list list \<Rightarrow> sim \<Rightarrow> (int \<times> u8 list list \<times> sim) exec" where
  "ob_simtcp_cpu_start wrote rx c =
     bnd (sim_lock c) (\<lambda>c1. bnd (sim_request wrote MSGTYPE_SYSSTART c1) (\<lambda>c2.
       let (p, rx1, c3) = sim_wait rx c2 in
       case p of None \<Rightarrow> flt AssertFail
       | Some p \<Rightarrow> ok (if p = [] then 0 else -1, rx1, sim_unlock c3)))"

definition ob_simtcp_reset :: "int \<Rightarrow> sim \<Rightarrow> (int \<times> sim) exec" where
  "ob_simtcp_reset wrote c =
     bnd (sim_lock c) (\<lambda>c1. bnd (sim_request wrote MSGTYPE_SYSRESET c1) (\<lambda>c2. ok (0, sim_unlock c2)))"

fun sim_modules :: "u16 list \<Rightarrow> dbg_module list" where
  "sim_modules (a # t # v # ws) = \<lparr>dm_addr = unat a, dm_type = t, dm_version = v\<rparr> # sim_modules ws"
| "sim_modules _ = []"

text \<open>
  The arrays of the configurations have one entry for each module. The lock stays held when
  the first wait times out.
\<close>

definition ob_simtcp_discover_system :: "int \<Rightarrow> int \<Rightarrow> u8 list list \<Rightarrow> sim \<Rightarrow> (int \<times> u8 list list \<times> sim) exec" where
  "ob_simtcp_discover_system wrote1 wrote2 rx c =
     bnd (sim_lock c) (\<lambda>c1. bnd (sim_request wrote1 MSGTYPE_SYSDISCOVER c1) (\<lambda>c2.
       let (p, rx1, c3) = sim_wait rx c2 in
       case p of None \<Rightarrow> ok (-1, rx1, c3)
       | Some p \<Rightarrow>
           if length p < 6 then flt OutOfBounds
           else
             let sysid = push_bit 8 (ucast (p ! 4)) OR ucast (p ! 5);
                 n = unat (push_bit 8 (ucast (p ! 2)) OR ucast (p ! 3) :: u16);
                 si = \<lparr>si_sysid = sysid, si_modules = replicate n \<lparr>dm_addr = 0, dm_type = 0, dm_version = 0\<rparr>,
                       si_itm = replicate n None, si_stm = replicate n None, si_mam = replicate n None\<rparr>
             in bnd (sim_request wrote2 MSGTYPE_SYSENUMERATE (c3\<lparr>s_sysinfo := Some si\<rparr>)) (\<lambda>c4.
                  let (q, rx2, c5) = sim_wait rx1 c4 in
                  case q of None \<Rightarrow> flt AssertFail
                  | Some q \<Rightarrow>
                      bnd (assert_c (length q = n * 6)) (\<lambda>_.
                        ok (0, rx2, sim_unlock (c5\<lparr>s_sysinfo := Some (si\<lparr>si_modules := sim_modules (le_words q)\<rparr>)\<rparr>))))))"

definition ob_simtcp_get_sysinfo :: "sim \<Rightarrow> int \<times> sysinfo option" where
  "ob_simtcp_get_sysinfo c = (0, s_sysinfo c)"

text \<open>The result is the error code also when the function is registered.\<close>

definition ob_simtcp_stm_register_callback :: "bool \<Rightarrow> sim \<Rightarrow> int \<times> sim" where
  "ob_simtcp_stm_register_callback cb c = (-1, c\<lparr>s_stm_cb := cb\<rparr>)"

definition ob_simtcp_stm_refresh_config :: "dbg_module \<Rightarrow> sim \<Rightarrow> (int \<times> sim) exec" where
  "ob_simtcp_stm_refresh_config m c =
     (case s_sysinfo c of None \<Rightarrow> flt NullDeref
      | Some si \<Rightarrow>
          if length (si_stm si) \<le> dm_addr m then flt OutOfBounds
          else ok (0, c\<lparr>s_sysinfo := Some (si\<lparr>si_stm := (si_stm si)[dm_addr m := Some (word_of_nat (dm_addr m))]\<rparr>)\<rparr>))"

text \<open>What is not implemented returns the error code.\<close>

definition ob_simtcp_mem_write :: "u32 \<Rightarrow> u32 \<Rightarrow> u8 list \<Rightarrow> u32 \<Rightarrow> sim \<Rightarrow> (int \<times> sim) exec" where
  "ob_simtcp_mem_write mem_tile_id base_address bs data_len c = ok (-1, c)"

definition ob_simtcp_cpu_stall :: "bool \<Rightarrow> sim \<Rightarrow> int \<times> sim" where
  "ob_simtcp_cpu_stall do_stall c = (-1, c)"

definition ob_simtcp_cpu_reset :: "sim \<Rightarrow> int \<times> sim" where
  "ob_simtcp_cpu_reset c = (-1, c)"

end
