(* ===== verification/Host.thy ===== *)
theory Host
  imports Simtcp
begin

section \<open>The host library (liboptimsochost/src/liboptimsochost.c, log.c)\<close>

text \<open>
  The library dispatches to the functions of the selected backend. A backend is a record of
  functions on its state \<open>'s\<close>; what arrives from the system and what the operating system
  answers is a part of the state. The library context is the backend context.
\<close>

subsection \<open>Backends\<close>

record 's backend =
  be_connect :: "'s \<Rightarrow> (int \<times> 's) exec"
  be_disconnect :: "'s \<Rightarrow> (int \<times> 's) exec"
  be_connected :: "'s \<Rightarrow> bool"
  be_free :: "'s \<Rightarrow> (int \<times> 's) exec"
  be_reset :: "'s \<Rightarrow> (int \<times> 's) exec"
  be_discover_system :: "'s \<Rightarrow> (int \<times> 's) exec"
  be_get_sysinfo :: "'s \<Rightarrow> int \<times> sysinfo option"
  be_cpu_start :: "'s \<Rightarrow> (int \<times> 's) exec"
  be_cpu_stall :: "bool \<Rightarrow> 's \<Rightarrow> (int \<times> 's) exec"
  be_cpu_reset :: "'s \<Rightarrow> (int \<times> 's) exec"
  be_mem_write :: "u32 \<Rightarrow> u32 \<Rightarrow> u8 list \<Rightarrow> u32 \<Rightarrow> 's \<Rightarrow> (int \<times> 's) exec"
  be_itm_register_callback :: "bool \<Rightarrow> 's \<Rightarrow> (int \<times> 's) exec"
  be_nrm_register_callback :: "bool \<Rightarrow> 's \<Rightarrow> (int \<times> 's) exec"
  be_stm_register_callback :: "bool \<Rightarrow> 's \<Rightarrow> (int \<times> 's) exec"
  be_nrm_set_sample_interval :: "int \<Rightarrow> 's \<Rightarrow> (int \<times> 's) exec"
  be_read_clkstats :: "'s \<Rightarrow> (int \<times> (u32 \<times> u32) option \<times> 's) exec"
  be_itm_refresh_config :: "dbg_module \<Rightarrow> 's \<Rightarrow> (int \<times> 's) exec"
  be_stm_refresh_config :: "dbg_module \<Rightarrow> 's \<Rightarrow> (int \<times> 's) exec"

text \<open>
  The backend over GLIP: its state with the packets handed over to waiting functions and the
  answers of GLIP and of the operating system at connection, disconnection and reset.
\<close>

record dbg_world =
  w_dbg :: dbg
  w_rx :: handed
  w_open :: "int \<times> int \<times> int \<times> int"
  w_close :: int
  w_logic_reset :: int
  w_connected :: bool

definition on_dbg :: "(dbg \<Rightarrow> int \<times> dbg) \<Rightarrow> dbg_world \<Rightarrow> (int \<times> dbg_world) exec" where
  "on_dbg f w = (let (rv, c) = f (w_dbg w) in ok (rv, w\<lparr>w_dbg := c\<rparr>))"

definition on_dbg_exec :: "(dbg \<Rightarrow> (int \<times> dbg) exec) \<Rightarrow> dbg_world \<Rightarrow> (int \<times> dbg_world) exec" where
  "on_dbg_exec f w = bnd (f (w_dbg w)) (\<lambda>(rv, c). ok (rv, w\<lparr>w_dbg := c\<rparr>))"

definition on_dbg_rx :: "(handed \<Rightarrow> dbg \<Rightarrow> (int \<times> handed \<times> dbg) exec) \<Rightarrow> dbg_world \<Rightarrow> (int \<times> dbg_world) exec" where
  "on_dbg_rx f w = bnd (f (w_rx w) (w_dbg w)) (\<lambda>(rv, rx, c). ok (rv, w\<lparr>w_dbg := c, w_rx := rx\<rparr>))"

definition dbgnoc_backend :: "dbg_world backend" where
  "dbgnoc_backend =
     \<lparr>be_connect = (\<lambda>w. case w_open w of (a, b, c, d) \<Rightarrow> on_dbg (ob_dbgnoc_connect a b c d) w),
      be_disconnect = (\<lambda>w. on_dbg (ob_dbgnoc_disconnect (w_close w)) w),
      be_connected = w_connected,
      be_free = on_dbg ob_dbgnoc_free,
      be_reset = (\<lambda>w. on_dbg (ob_dbgnoc_reset (w_logic_reset w)) w),
      be_discover_system = on_dbg_rx ob_dbgnoc_discover_system,
      be_get_sysinfo = (\<lambda>w. ob_dbgnoc_get_sysinfo (w_dbg w)),
      be_cpu_start = on_dbg ob_dbgnoc_cpu_start,
      be_cpu_stall = (\<lambda>b. on_dbg (ob_dbgnoc_cpu_stall b)),
      be_cpu_reset = on_dbg ob_dbgnoc_cpu_reset,
      be_mem_write = (\<lambda>i a bs n. on_dbg_exec (ob_dbgnoc_mem_write i a bs n)),
      be_itm_register_callback = (\<lambda>b. on_dbg (ob_dbgnoc_itm_register_callback b)),
      be_nrm_register_callback = (\<lambda>b. on_dbg (ob_dbgnoc_nrm_register_callback b)),
      be_stm_register_callback = (\<lambda>b. on_dbg (ob_dbgnoc_stm_register_callback b)),
      be_nrm_set_sample_interval = (\<lambda>i. on_dbg_exec (ob_dbgnoc_nrm_set_sample_interval i)),
      be_read_clkstats = (\<lambda>w. case ob_dbgnoc_read_clkstats (w_rx w) (w_dbg w) of
         (rv, r, rx, c) \<Rightarrow> ok (rv, r, w\<lparr>w_dbg := c, w_rx := rx\<rparr>)),
      be_itm_refresh_config = (\<lambda>m. on_dbg_rx (ob_dbgnoc_itm_refresh_config m)),
      be_stm_refresh_config = (\<lambda>m. on_dbg_rx (ob_dbgnoc_stm_refresh_config m))\<rparr>"

text \<open>The simulation backend, in the same way.\<close>

record sim_world =
  v_sim :: sim
  v_rx :: "u8 list list"
  v_socket :: "int \<times> bool \<times> int"
  v_close :: int
  v_wrote :: "int \<times> int"

definition on_sim :: "(sim \<Rightarrow> int \<times> sim) \<Rightarrow> sim_world \<Rightarrow> (int \<times> sim_world) exec" where
  "on_sim f w = (let (rv, c) = f (v_sim w) in ok (rv, w\<lparr>v_sim := c\<rparr>))"

definition on_sim_exec :: "(sim \<Rightarrow> (int \<times> sim) exec) \<Rightarrow> sim_world \<Rightarrow> (int \<times> sim_world) exec" where
  "on_sim_exec f w = bnd (f (v_sim w)) (\<lambda>(rv, c). ok (rv, w\<lparr>v_sim := c\<rparr>))"

definition on_sim_rx :: "(u8 list list \<Rightarrow> sim \<Rightarrow> (int \<times> u8 list list \<times> sim) exec) \<Rightarrow> sim_world \<Rightarrow> (int \<times> sim_world) exec" where
  "on_sim_rx f w = bnd (f (v_rx w) (v_sim w)) (\<lambda>(rv, rx, c). ok (rv, w\<lparr>v_sim := c, v_rx := rx\<rparr>))"

definition simtcp_backend :: "sim_world backend" where
  "simtcp_backend =
     \<lparr>be_connect = (\<lambda>w. case v_socket w of (a, b, c) \<Rightarrow> on_sim (ob_simtcp_connect a b c) w),
      be_disconnect = (\<lambda>w. on_sim (ob_simtcp_disconnect (v_close w)) w),
      be_connected = (\<lambda>w. ob_simtcp_connected (v_sim w)),
      be_free = (\<lambda>w. ok (0, w)),
      be_reset = (\<lambda>w. on_sim_exec (ob_simtcp_reset (fst (v_wrote w))) w),
      be_discover_system = (\<lambda>w. on_sim_rx (ob_simtcp_discover_system (fst (v_wrote w)) (snd (v_wrote w))) w),
      be_get_sysinfo = (\<lambda>w. ob_simtcp_get_sysinfo (v_sim w)),
      be_cpu_start = (\<lambda>w. on_sim_rx (ob_simtcp_cpu_start (fst (v_wrote w))) w),
      be_cpu_stall = (\<lambda>b. on_sim (ob_simtcp_cpu_stall b)),
      be_cpu_reset = on_sim ob_simtcp_cpu_reset,
      be_mem_write = (\<lambda>i a bs n. on_sim_exec (ob_simtcp_mem_write i a bs n)),
      be_itm_register_callback = (\<lambda>b w. ok (-1, w)),
      be_nrm_register_callback = (\<lambda>b w. ok (-1, w)),
      be_stm_register_callback = (\<lambda>b. on_sim (ob_simtcp_stm_register_callback b)),
      be_nrm_set_sample_interval = (\<lambda>i w. ok (-1, w)),
      be_read_clkstats = (\<lambda>w. ok (-1, None, w)),
      be_itm_refresh_config = (\<lambda>m w. ok (-1, w)),
      be_stm_refresh_config = (\<lambda>m. on_sim_exec (ob_simtcp_stm_refresh_config m))\<rparr>"

subsection \<open>The library\<close>

definition optimsoc_connect :: "'s backend \<Rightarrow> 's \<Rightarrow> (int \<times> 's) exec" where
  "optimsoc_connect be s = be_connect be s"

definition optimsoc_disconnect :: "'s backend \<Rightarrow> 's \<Rightarrow> (int \<times> 's) exec" where
  "optimsoc_disconnect be s = be_disconnect be s"

text \<open>A null context is \<open>None\<close>, and so is the one that was freed.\<close>

definition optimsoc_free :: "'s backend \<Rightarrow> 's option \<Rightarrow> (int \<times> 's option) exec" where
  "optimsoc_free be ctx =
     (case ctx of None \<Rightarrow> ok (0, None)
      | Some s \<Rightarrow>
          if be_connected be s then ok (-1, Some s)
          else bnd (be_free be s) (\<lambda>(rv, s1). if rv < 0 then ok (rv, Some s1) else ok (0, None)))"

definition optimsoc_cpu_start :: "'s backend \<Rightarrow> 's \<Rightarrow> (int \<times> 's) exec" where
  "optimsoc_cpu_start be s = be_cpu_start be s"

definition optimsoc_cpu_stall :: "'s backend \<Rightarrow> bool \<Rightarrow> 's \<Rightarrow> (int \<times> 's) exec" where
  "optimsoc_cpu_stall be do_stall s = be_cpu_stall be do_stall s"

definition optimsoc_cpu_reset :: "'s backend \<Rightarrow> 's \<Rightarrow> (int \<times> 's) exec" where
  "optimsoc_cpu_reset be s = be_cpu_reset be s"

definition optimsoc_reset :: "'s backend \<Rightarrow> 's \<Rightarrow> (int \<times> 's) exec" where
  "optimsoc_reset be s = be_reset be s"

definition optimsoc_discover_system :: "'s backend \<Rightarrow> 's \<Rightarrow> (int \<times> 's) exec" where
  "optimsoc_discover_system be s = be_discover_system be s"

definition optimsoc_mem_write :: "'s backend \<Rightarrow> u32 \<Rightarrow> u32 \<Rightarrow> u8 list \<Rightarrow> u32 \<Rightarrow> 's \<Rightarrow> (int \<times> 's) exec" where
  "optimsoc_mem_write be memory_id base_address bs data_len s =
     (if base_address AND 3 \<noteq> 0 then ok (-1, s)
      else if data_len mod 4 \<noteq> 0 then ok (-1, s)
      else be_mem_write be memory_id base_address bs data_len s)"

fun mem_init_loop :: "'s backend \<Rightarrow> u32 list \<Rightarrow> u8 list \<Rightarrow> u32 \<Rightarrow> 's \<Rightarrow> (int \<times> 's) exec" where
  "mem_init_loop be [] bs data_len s = ok (0, s)"
| "mem_init_loop be (i # is) bs data_len s =
     bnd (optimsoc_mem_write be i 0 bs data_len s) (\<lambda>(res, s1).
       if res < 0 then ok (-1, s1) else mem_init_loop be is bs data_len s1)"

text \<open>The length is a signed number here.\<close>

definition optimsoc_mem_init :: "'s backend \<Rightarrow> u32 list \<Rightarrow> u8 list \<Rightarrow> u32 \<Rightarrow> 's \<Rightarrow> (int \<times> 's) exec" where
  "optimsoc_mem_init be memory_ids bs data_len s =
     (if sint data_len mod 4 \<noteq> 0 then ok (-1, s)
      else
        bnd (optimsoc_cpu_stall be True s) (\<lambda>(res, s1).
        if res < 0 then ok (-1, s1)
        else
          bnd (mem_init_loop be memory_ids bs data_len s1) (\<lambda>(res, s2).
          if res < 0 then ok (-1, s2)
          else
            bnd (optimsoc_cpu_reset be s2) (\<lambda>(res, s3).
            if res < 0 then ok (-1, s3)
            else
              bnd (optimsoc_cpu_stall be False s3) (\<lambda>(res, s4).
              if res < 0 then ok (-1, s4) else ok (0, s4))))))"

definition optimsoc_get_sysid :: "'s backend \<Rightarrow> 's \<Rightarrow> int" where
  "optimsoc_get_sysid be s =
     (let (rv, si) = be_get_sysinfo be s
      in if rv < 0 then rv else case si of None \<Rightarrow> -1 | Some si \<Rightarrow> uint (si_sysid si))"

definition optimsoc_get_modules :: "'s backend \<Rightarrow> 's \<Rightarrow> int \<times> dbg_module list option" where
  "optimsoc_get_modules be s =
     (let (rv, si) = be_get_sysinfo be s
      in if rv < 0 then (rv, None)
         else case si of None \<Rightarrow> (-1, None) | Some si \<Rightarrow> (0, Some (si_modules si)))"

definition optimsoc_get_module_name :: "u32 \<Rightarrow> string" where
  "optimsoc_get_module_name module_type =
     (if module_type = 1 then ''CTM'' else if module_type = 2 then ''ITM'' else if module_type = 3 then ''NRM''
      else if module_type = 4 then ''NCM'' else if module_type = 5 then ''STM'' else if module_type = 7 then ''MAM''
      else ''unknown'')"

text \<open>A failed refresh of a configuration is only logged. The last result is what is at the address.\<close>

definition config_at :: "nat \<Rightarrow> u32 option list \<Rightarrow> u32 option exec" where
  "config_at addr cfg = (if addr < length cfg then ok (cfg ! addr) else flt OutOfBounds)"

definition optimsoc_itm_get_config :: "'s backend \<Rightarrow> dbg_module \<Rightarrow> 's \<Rightarrow> (int \<times> u32 option \<times> 's) exec" where
  "optimsoc_itm_get_config be m s =
     bnd (be_itm_refresh_config be m s) (\<lambda>(_, s1).
       let (rv, si) = be_get_sysinfo be s1
       in if rv < 0 then ok (rv, None, s1)
          else case si of None \<Rightarrow> ok (-1, None, s1)
          | Some si \<Rightarrow> bnd (config_at (dm_addr m) (si_itm si)) (\<lambda>cfg. ok (0, cfg, s1)))"

definition optimsoc_stm_get_config :: "'s backend \<Rightarrow> dbg_module \<Rightarrow> 's \<Rightarrow> (int \<times> u32 option \<times> 's) exec" where
  "optimsoc_stm_get_config be m s =
     bnd (be_stm_refresh_config be m s) (\<lambda>(_, s1).
       let (rv, si) = be_get_sysinfo be s1
       in if rv < 0 then ok (rv, None, s1)
          else case si of None \<Rightarrow> ok (-1, None, s1)
          | Some si \<Rightarrow> bnd (config_at (dm_addr m) (si_stm si)) (\<lambda>cfg. ok (0, cfg, s1)))"

definition optimsoc_nrm_set_sample_interval :: "'s backend \<Rightarrow> int \<Rightarrow> 's \<Rightarrow> (int \<times> 's) exec" where
  "optimsoc_nrm_set_sample_interval be sample_interval s = be_nrm_set_sample_interval be sample_interval s"

definition optimsoc_read_clkstats :: "'s backend \<Rightarrow> 's \<Rightarrow> (int \<times> (u32 \<times> u32) option \<times> 's) exec" where
  "optimsoc_read_clkstats be s = be_read_clkstats be s"

definition optimsoc_itm_register_callback :: "'s backend \<Rightarrow> bool \<Rightarrow> 's \<Rightarrow> (int \<times> 's) exec" where
  "optimsoc_itm_register_callback be cb s = be_itm_register_callback be cb s"

definition optimsoc_nrm_register_callback :: "'s backend \<Rightarrow> bool \<Rightarrow> 's \<Rightarrow> (int \<times> 's) exec" where
  "optimsoc_nrm_register_callback be cb s = be_nrm_register_callback be cb s"

definition optimsoc_stm_register_callback :: "'s backend \<Rightarrow> bool \<Rightarrow> 's \<Rightarrow> (int \<times> 's) exec" where
  "optimsoc_stm_register_callback be cb s = be_stm_register_callback be cb s"

end
