(* ===== verification/Host_Props.thy ===== *)
theory Host_Props
  imports Host
begin

section \<open>Properties of the host library\<close>

subsection \<open>Words and bytes\<close>

lemma le_words_bytes: "le_words (le_bytes ws) = ws"
proof (induction ws)
  case (Cons w ws)
  have "(ucast (ucast w :: u8) OR push_bit 8 (ucast (ucast (drop_bit 8 w) :: u8)) :: u16) = w"
    by (rule bit_word_eqI) (auto simp: bit_simps)
  with Cons show ?case by (simp add: le_bytes_def)
qed (simp add: le_bytes_def)

lemma le_bytes_append: "le_bytes (xs @ ys) = le_bytes xs @ le_bytes ys"
  by (simp add: le_bytes_def)

lemma length_le_bytes: "length (le_bytes ws) = 2 * length ws"
  by (induction ws) (simp_all add: le_bytes_def)

lemma stream_words_simps:
  "stream_words [] = []" "stream_words (p # ps) = word_of_nat (length p) # p @ stream_words ps"
  "stream_words (ps @ qs) = stream_words ps @ stream_words qs"
  by (simp_all add: stream_words_def)

subsection \<open>Reassembly of the stream of packets\<close>

text \<open>What the thread does with a sequence of packets; empty ones fill up a transfer.\<close>

fun recv_list :: "u16 list list \<Rightarrow> dbg \<Rightarrow> dbg option" where
  "recv_list [] c = Some c"
| "recv_list (p # ps) c =
     (if p = [] then recv_list ps c else case recv_packet p c of None \<Rightarrow> None | Some c1 \<Rightarrow> recv_list ps c1)"

definition supported :: "u16 list \<Rightarrow> bool" where
  "supported p \<longleftrightarrow> length p \<le> 256 \<and>
     (p \<noteq> [] \<and> flit_class (p ! 0) = DBG_NOC_CLASS_NCM \<and> odd (length p) \<longrightarrow> length p \<le> 33)"

lemma recv_supported: "supported p \<Longrightarrow> p \<noteq> [] \<Longrightarrow> \<exists>c1. recv_packet p c = Some c1"
  by (auto simp: supported_def recv_packet_def odd_iff_mod_2_eq_one Let_def)

text \<open>
  One pass over the buffer. What is still to come of the stream is the rest of the buffer and
  the blocks that are not read yet.
\<close>

lemma recv_pass_list:
  assumes "length buf = 512" and "pos \<le> 512" and "stream_words ps = drop pos buf @ rest" and "\<forall>p \<in> set ps. supported p"
  shows "\<exists>ps1 ps2 pos' c1. ps = ps1 @ ps2 \<and> recv_list ps1 c = Some c1 \<and> pos' \<le> 256 \<and>
    recv_pass past buf pos c = RecvGo (drop 256 buf @ drop 256 buf) pos' c1 \<and>
    stream_words ps2 = drop (pos' + 256) buf @ rest \<and> (rest = [] \<longrightarrow> ps2 = [])"
  using assms
proof (induction ps arbitrary: pos c)
  case Nil
  then have "pos = 512" by (simp add: stream_words_simps)
  with Nil show ?case
    by (intro exI [of _ "[]"] exI [of _ 256] exI [of _ c]) (simp add: recv_pass.simps stream_words_simps)
next
  case (Cons p ps)
  note prem = Cons.prems
  show ?case
  proof (cases "pos = 512")
    case True
    have "\<not> (p # ps = [])" by simp
    show ?thesis
    proof (cases "rest = []")
      case True
      with \<open>pos = 512\<close> prem show ?thesis by (simp add: stream_words_simps)
    next
      case False
      have "recv_pass past buf pos c = RecvGo (drop 256 buf @ drop 256 buf) 256 c"
        using \<open>pos = 512\<close> by (simp add: recv_pass.simps)
      then show ?thesis
        using \<open>pos = 512\<close> prem False
        by (intro exI [of _ "[]"] exI [of _ "p # ps"] exI [of _ 256] exI [of _ c]) simp
    qed
  next
    case False
    let ?n = "length p"
    have pos: "pos < 512" using False prem(2) by simp
    have len: "?n \<le> 256" using prem(4) by (simp add: supported_def)
    have "drop pos buf = buf ! pos # drop (Suc pos) buf"
      using pos prem(1) by (simp add: Cons_nth_drop_Suc)
    with prem(3) have hd: "buf ! pos = word_of_nat ?n" and tl: "p @ stream_words ps = drop (Suc pos) buf @ rest"
      by (simp_all add: stream_words_simps)
    have n: "unat (buf ! pos) = ?n"
      unfolding hd using len by (simp add: unsigned_of_nat take_bit_nat_eq_self)
    show ?thesis
    proof (cases "511 < pos + ?n")
      case True
      then have "\<not> pos < 256" using len by simp
      then have "recv_pass past buf pos c = RecvGo (drop 256 buf @ drop 256 buf) (pos - 256) c"
        using True pos n by (simp add: recv_pass.simps)
      moreover have "rest \<noteq> []"
      proof
        assume "rest = []"
        then have "length (p @ stream_words ps) = 511 - pos" using tl prem(1) by simp
        then show False using True pos by simp
      qed
      ultimately show ?thesis
        using prem(3) pos \<open>\<not> pos < 256\<close>
        by (intro exI [of _ "[]"] exI [of _ "p # ps"] exI [of _ "pos - 256"] exI [of _ c]) simp
    next
      case small: False
      have p: "take ?n (drop (Suc pos) buf) = p" and ps: "stream_words ps = drop (pos + ?n + 1) buf @ rest"
      proof -
        have le: "?n \<le> length (drop (Suc pos) buf)" using small pos prem(1) by simp
        have "take ?n (p @ stream_words ps) = take ?n (drop (Suc pos) buf @ rest)" using tl by simp
        with le show "take ?n (drop (Suc pos) buf) = p" by simp
        have "drop ?n (p @ stream_words ps) = drop ?n (drop (Suc pos) buf @ rest)" using tl by simp
        with le show "stream_words ps = drop (pos + ?n + 1) buf @ rest" by (simp add: ac_simps)
      qed
      have sup: "\<forall>p \<in> set ps. supported p" "supported p" using prem(4) by simp_all
      obtain c1 where c1: "recv_list [p] c = Some c1"
        "recv_pass past buf pos c = recv_pass past buf (pos + ?n + 1) c1"
      proof (cases "p = []")
        case True
        then show ?thesis
          using n pos small by (intro that [of c]) (simp_all add: recv_pass.simps [of past buf pos])
      next
        case False
        then obtain c1 where "recv_packet p c = Some c1" using recv_supported sup(2) by blast
        then show ?thesis
          using n pos small False p by (intro that [of c1]) (simp_all add: recv_pass.simps [of past buf pos])
      qed
      have "pos + ?n + 1 \<le> 512" using small by simp
      from Cons.IH [OF prem(1) this ps sup(1), of c1] obtain ps1 ps2 pos' c2 where
        "ps = ps1 @ ps2" "recv_list ps1 c1 = Some c2" "pos' \<le> 256"
        "recv_pass past buf (pos + ?n + 1) c1 = RecvGo (drop 256 buf @ drop 256 buf) pos' c2"
        "stream_words ps2 = drop (pos' + 256) buf @ rest" "rest = [] \<longrightarrow> ps2 = []" by blast
      moreover have "recv_list (p # ps1) c = recv_list ps1 c1"
        using c1(1) by (cases "p = []"; cases "recv_packet p c") simp_all
      ultimately show ?thesis
        using c1(2) by (intro exI [of _ "p # ps1"] exI [of _ ps2] exI [of _ pos'] exI [of _ c2]) simp
    qed
  qed
qed

lemma recv_list_append:
  "recv_list ps c = Some c1 \<Longrightarrow> recv_list (ps @ qs) c = recv_list qs c1"
  by (induction ps c rule: recv_list.induct) (auto split: if_splits option.splits)

lemma recv_fill_block:
  "length buf = 512 \<Longrightarrow> length b = 256 \<Longrightarrow> recv_fill buf (le_bytes b) = take 256 buf @ b"
  by (simp add: recv_fill_def length_le_bytes le_words_bytes)

lemma receive_blocks:
  assumes "length buf = 512" and "pos \<le> 256" and "stream_words ps = drop pos (take 256 buf) @ concat bs"
    and "\<forall>b \<in> set bs. length b = 256" and "\<forall>p \<in> set ps. supported p" and "bs = [] \<longrightarrow> ps = []"
  shows "\<exists>buf' pos' c1. recv_list ps c = Some c1 \<and>
    receive_thread past (map (\<lambda>b. (0, le_bytes b)) bs) buf pos c = RecvGo buf' pos' c1"
  using assms
proof (induction bs arbitrary: buf pos ps c)
  case (Cons b bs)
  let ?buf = "take 256 buf @ b"
  have b: "length b = 256" "b \<noteq> []" using Cons.prems(4) by auto
  have "length ?buf = 512" "pos \<le> 512" "stream_words ps = drop pos ?buf @ concat bs"
    using Cons.prems b by simp_all
  from recv_pass_list [OF this Cons.prems(5), of c past] obtain ps1 ps2 pos' c1 where
    p: "ps = ps1 @ ps2" "recv_list ps1 c = Some c1" "pos' \<le> 256"
      "recv_pass past ?buf pos c = RecvGo (drop 256 ?buf @ drop 256 ?buf) pos' c1"
      "stream_words ps2 = drop (pos' + 256) ?buf @ concat bs" "concat bs = [] \<longrightarrow> ps2 = []" by blast
  have d: "drop 256 ?buf = b" using Cons.prems(1) by simp
  then have "stream_words ps2 = drop pos' b @ concat bs"
    using p(5) Cons.prems(1) by simp
  moreover have "\<forall>p \<in> set ps2. supported p" using Cons.prems(5) p(1) by simp
  ultimately have "\<exists>buf' pos'' c2. recv_list ps2 c1 = Some c2 \<and>
      receive_thread past (map (\<lambda>b. (0, le_bytes b)) bs) (b @ b) pos' c1 = RecvGo buf' pos'' c2"
    using Cons.prems(4) p(3,6) b by (intro Cons.IH) auto
  then obtain buf' pos'' c2 where r: "recv_list ps2 c1 = Some c2"
      "receive_thread past (map (\<lambda>b. (0, le_bytes b)) bs) (b @ b) pos' c1 = RecvGo buf' pos'' c2" by blast
  have "le_bytes b \<noteq> []" using b length_le_bytes [of b] by auto
  then have "receive_thread past (map (\<lambda>b. (0, le_bytes b)) (b # bs)) buf pos c = RecvGo buf' pos'' c2"
    using p(4) d r(2) b Cons.prems(1) by (simp add: recv_fill_block)
  with r(1) p(1,2) show ?case by (auto simp: recv_list_append)
qed simp


text \<open>A backend with a registered function for the instruction trace.\<close>

definition demo_dbg :: dbg where
  "demo_dbg = \<lparr>d_itm_cb = True, d_nrm_cb = False, d_stm_cb = False, d_ncm_dbgnoc = 0, d_ncm_lisnoc = 0,
     d_pkt16 = [], d_len32 = 0, d_pkt32 = [], d_signal = False,
     d_sysinfo = Some \<lparr>si_sysid = 1, si_modules = [\<lparr>dm_addr = 2, dm_type = 7, dm_version = 0\<rparr>],
       si_itm = replicate 3 None, si_stm = replicate 3 None, si_mam = [None, None, Some 5]\<rparr>,
     d_out = [], d_glip = (\<lambda>_. (0, 0)), d_writes = 0, d_al = (\<lambda>_. True), d_allocs = 0, d_events = [], d_handed = []\<rparr>"


subsection \<open>Writing to memory\<close>

text \<open>The bytes a packet makes the memory module write, with their addresses.\<close>

definition mam_writes :: "u16 list \<Rightarrow> (u32 \<times> u8) list" where
  "mam_writes p = concat (map (\<lambda>j.
     [(pair32 (p ! 1) (p ! 2) + word_of_nat (2 * j), ucast (drop_bit 8 (p ! (3 + j)))),
      (pair32 (p ! 1) (p ! 2) + word_of_nat (2 * j + 1), ucast (p ! (3 + j)))]) [0..<length p - 3])"

definition dbg_ok :: "dbg \<Rightarrow> bool" where
  "dbg_ok c \<longleftrightarrow> (\<forall>n. fst (d_glip c n) = 0) \<and> (\<forall>n. d_al c n)"

lemma pair32_split: "pair32 (ucast (drop_bit 16 a)) (ucast a) = a"
  by (rule bit_word_eqI) (auto simp: pair32_def bit_simps)

lemma data_flit_bytes: "ucast (drop_bit 8 (data_flit bs i)) = bs ! i" "ucast (data_flit bs i) = bs ! (i + 1)"
  by (rule bit_word_eqI; auto simp: data_flit_def bit_simps dest: bit_imp_le_length)+

lemma pairs_upt: "concat (map (\<lambda>j. [f (2 * j), f (2 * j + 1)]) [0..<n]) = map f [0..<2 * n]"
  by (induction n) simp_all

lemma mam_writes_packet:
  "mam_writes (mam_packet a base bs idx (3 + n)) =
     map (\<lambda>i. (base + word_of_nat i, bs ! i)) [idx..<idx + 2 * n]"
proof -
  let ?f = "\<lambda>i. (base + word_of_nat (idx + i), bs ! (idx + i))"
  let ?p = "mam_packet a base bs idx (3 + n)"
  have "length ?p - 3 = n" "pair32 (?p ! 1) (?p ! 2) = base + word_of_nat idx"
    by (simp_all add: mam_packet_def Let_def pair32_split)
  moreover have "?p ! (3 + j) = data_flit bs (idx + 2 * j)" if "j < n" for j
    using that by (simp add: mam_packet_def Let_def)
  ultimately have "mam_writes ?p = concat (map (\<lambda>j. [?f (2 * j), ?f (2 * j + 1)]) [0..<n])"
    by (auto simp: mam_writes_def data_flit_bytes ac_simps intro!: arg_cong [where f = concat])
  also have "\<dots> = map ?f [0..<2 * n]" by (rule pairs_upt)
  also have "\<dots> = map (\<lambda>i. (base + word_of_nat i, bs ! i)) (map (\<lambda>i. i + idx) [0..<2 * n])"
    by (simp add: ac_simps)
  also have "\<dots> = map (\<lambda>i. (base + word_of_nat i, bs ! i)) [idx..<idx + 2 * n]"
    by (simp only: map_add_upt) (simp add: ac_simps)
  finally show ?thesis .
qed

lemma sdiv2: "int m sdiv 2 = int (m div 2)"
  by (cases "m = 0") (simp_all add: signed_divide_int_def zdiv_int)

lemma mam_packets_ok:
  assumes "dbg_ok c" and "idx \<le> length bs" and "(length bs - idx) div 2 \<le> 12 * n"
  shows "\<exists>ps. mam_packets n a base bs idx (int (length bs - idx)) c =
      ok (Inr ps, c\<lparr>d_allocs := d_allocs c + n\<rparr>) \<and>
    (\<forall>p \<in> set ps. length p \<le> 15 \<and> hd p = module_field a OR push_bit 8 7) \<and>
    concat (map mam_writes ps) =
      map (\<lambda>i. (base + word_of_nat i, bs ! i)) [idx..<idx + 2 * ((length bs - idx) div 2)]"
  using assms
proof (induction n arbitrary: idx c)
  case (Suc n)
  define r where "r = length bs - idx"
  define m where "m = (if r < 24 then r div 2 else 12)"
  have m: "2 * m \<le> r" "m \<le> 12" "(r - 2 * m) div 2 \<le> 12 * n" "r div 2 = m + (r - 2 * m) div 2"
    using Suc.prems(3) unfolding m_def r_def [symmetric] by (auto split: if_splits)
  let ?c = "c\<lparr>d_allocs := d_allocs c + 1\<rparr>"
  have "dbg_ok ?c" "idx + 2 * m \<le> length bs" "(length bs - (idx + 2 * m)) div 2 \<le> 12 * n"
    using Suc.prems m r_def by (simp_all add: dbg_ok_def diff_diff_eq)
  from Suc.IH [OF this] obtain ps where
    ps: "mam_packets n a base bs (idx + 2 * m) (int (r - 2 * m)) ?c = ok (Inr ps, ?c\<lparr>d_allocs := d_allocs ?c + n\<rparr>)"
      "\<forall>p \<in> set ps. length p \<le> 15 \<and> hd p = module_field a OR push_bit 8 7"
      "concat (map mam_writes ps) = map (\<lambda>i. (base + word_of_nat i, bs ! i))
         [idx + 2 * m..<idx + 2 * m + 2 * ((r - 2 * m) div 2)]"
    unfolding r_def by (auto simp: diff_diff_eq)
  have f: "(if int r < 24 then 3 + int r sdiv 2 else 3 + 24 sdiv 2) = int (3 + m)"
    unfolding m_def by (cases "r = 0") (simp_all add: signed_divide_int_def zdiv_int)
  have al: "halloc c = (True, ?c)" using Suc.prems(1) by (simp add: halloc_def dbg_ok_def)
  let ?p = "mam_packet a base bs idx (3 + m)"
  have "idx + 2 * m \<le> length bs" by fact
  then have run: "mam_packets (Suc n) a base bs idx (int r) c = ok (Inr (?p # ps), c\<lparr>d_allocs := d_allocs c + Suc n\<rparr>)"
    unfolding mam_packets.simps Let_def f al using ps(1) m(1)
    by (simp add: nat_add_distrib of_nat_diff)
  have "[idx..<idx + 2 * m] @ [idx + 2 * m..<idx + 2 * m + 2 * ((r - 2 * m) div 2)] = [idx..<idx + 2 * (r div 2)]"
    unfolding m(4) using upt_add_eq_append [of idx "idx + 2 * m" "2 * ((r - 2 * m) div 2)"]
    by (simp add: distrib_left add.assoc)
  then have "concat (map mam_writes (?p # ps)) = map (\<lambda>i. (base + word_of_nat i, bs ! i)) [idx..<idx + 2 * (r div 2)]"
    using ps(3) by (simp add: mam_writes_packet map_append [symmetric] del: map_append)
  moreover have "length ?p \<le> 15 \<and> hd ?p = module_field a OR push_bit 8 7"
    using m(2) by (simp add: mam_packet_def Let_def)
  ultimately show ?case
    using run ps(2) unfolding r_def [symmetric] by (intro exI [of _ "?p # ps"]) simp
qed (simp add: dbg_ok_def)

lemma send_ok:
  assumes "dbg_ok c"
  shows "lisnoc16_send_packets ps c = (0, c\<lparr>d_allocs := d_allocs c + 1, d_writes := d_writes c + 1,
    d_out := d_out c @ le_bytes (stream_words ps)\<rparr>)"
  using assms by (simp add: lisnoc16_send_packets_def halloc_def dbg_ok_def glip_write_def Let_def case_prod_beta)

lemma half_chunks: "0 < k \<Longrightarrow> k div 2 \<le> 12 * (1 + (k - 1) div 24)" for k :: nat
proof -
  assume "0 < k"
  have "k - 1 < 24 + 24 * ((k - 1) div 24)" by (rule dividend_less_times_div) simp
  with \<open>0 < k\<close> have "k \<le> 24 * (1 + (k - 1) div 24)" by simp
  then have "k div 2 \<le> (24 * (1 + (k - 1) div 24)) div 2" by (rule div_le_mono)
  then show ?thesis by simp
qed

lemma mem_write_ok:
  assumes "dbg_ok c" and "d_sysinfo c = Some si" and "find_mam (si_modules si) (si_mam si) i None = ok (Some a)"
    and "length bs = unat n" and "0 < n" and "n < 0x80000000"
  shows "\<exists>c' ps. ob_dbgnoc_mem_write i base bs n c = ok (0, c') \<and>
    d_out c' = d_out c @ le_bytes (stream_words ps) \<and> dbg_ok c' \<and> d_sysinfo c' = d_sysinfo c \<and>
    (\<forall>p \<in> set ps. length p \<le> 15 \<and> hd p = module_field a OR push_bit 8 7) \<and>
    concat (map mam_writes ps) = map (\<lambda>i. (base + word_of_nat i, bs ! i)) [0..<2 * (length bs div 2)]"
proof -
  let ?n = "1 + unat ((n - 1) div 24)" and ?c = "c\<lparr>d_allocs := d_allocs c + 1\<rparr>"
  have "unat (n - 1) = length bs - 1" using assms(4,5) by (simp add: unat_minus_one word_neq_0_conv)
  then have n: "?n = 1 + (length bs - 1) div 24" by (simp add: unat_div)
  have "0 < length bs" using assms(4,5) by (simp add: word_less_nat_alt)
  then have "(length bs - 0) div 2 \<le> 12 * ?n" unfolding n using half_chunks by simp
  moreover have c: "dbg_ok ?c" using assms(1) by (simp add: dbg_ok_def)
  ultimately obtain ps where ps: "mam_packets ?n a base bs 0 (int (length bs - 0)) ?c =
      ok (Inr ps, ?c\<lparr>d_allocs := d_allocs ?c + ?n\<rparr>)"
    "\<forall>p \<in> set ps. length p \<le> 15 \<and> hd p = module_field a OR push_bit 8 7"
    "concat (map mam_writes ps) = map (\<lambda>i. (base + word_of_nat i, bs ! i)) [0..<0 + 2 * ((length bs - 0) div 2)]"
    using mam_packets_ok [OF c le0] by blast
  let ?d = "?c\<lparr>d_allocs := d_allocs ?c + ?n\<rparr>"
  have "uint n < 2 ^ 31" using assms(6) by (simp add: word_less_def)
  moreover have "- (2 ^ 31) \<le> uint n" by (rule order_trans [of _ 0]) simp_all
  ultimately have "signed_take_bit 31 (uint n) = uint n" by (rule signed_take_bit_int_eq_self [rotated])
  then have "sint n = uint n" by (simp add: sint_uint)
  then have "sint n = int (length bs)" unfolding assms(4) by (simp only: uint_nat)
  moreover have "dbg_ok ?d" using assms(1) by (simp add: dbg_ok_def)
  ultimately have "ob_dbgnoc_mem_write i base bs n c = ok (0, ?d\<lparr>d_allocs := d_allocs ?d + 1, d_writes := d_writes ?d + 1,
      d_out := d_out ?d @ le_bytes (stream_words ps)\<rparr>)"
    using assms(1,2,3) ps(1)
    by (simp add: ob_dbgnoc_mem_write_def sysinfo_of_def halloc_def dbg_ok_def send_ok Let_def)
  then show ?thesis using ps(2,3) assms(1) by (auto simp: dbg_ok_def)
qed

text \<open>
  C27: a write to a memory sends packets of at most fifteen flits to the module of that memory,
  and these make it write each byte of the data once, in order, at its address. The last byte
  of an odd number of bytes is not sent, and the call reports success all the same.
\<close>

theorem mem_write_covers:
  assumes "dbg_ok c" and "d_sysinfo c = Some si" and "find_mam (si_modules si) (si_mam si) i None = ok (Some a)"
    and "length bs = unat n" and "0 < n" and "n < 0x80000000"
  shows "\<exists>c' ps. ob_dbgnoc_mem_write i base bs n c = ok (0, c') \<and>
    d_out c' = d_out c @ le_bytes (stream_words ps) \<and>
    (\<forall>p \<in> set ps. length p \<le> 15 \<and> hd p = module_field a OR push_bit 8 7) \<and>
    concat (map mam_writes ps) = map (\<lambda>i. (base + word_of_nat i, bs ! i)) [0..<2 * (length bs div 2)]"
  using mem_write_ok [OF assms] by blast

theorem mem_write_covers_witness:
  "\<exists>c' ps. ob_dbgnoc_mem_write 5 0x100 [1, 2, 3] 3 demo_dbg = ok (0, c') \<and>
    d_out c' = le_bytes (stream_words ps) \<and> concat (map mam_writes ps) = [(0x100, 1), (0x101, 2)]"
proof -
  have "dbg_ok demo_dbg" by (simp add: dbg_ok_def demo_dbg_def)
  moreover have "find_mam [\<lparr>dm_addr = 2, dm_type = 7, dm_version = 0\<rparr>] [None, None, Some 5] 5 None = ok (Some 2)"
    by simp
  ultimately show ?thesis
    using mem_write_covers [of demo_dbg "the (d_sysinfo demo_dbg)" 5 2 "[1, 2, 3]" 3 "0x100"]
    by (auto simp: demo_dbg_def upt_rec)
qed

subsection \<open>Initialising the memories\<close>

text \<open>
  What the library needs of a backend: when it is ready, each call succeeds, appends its
  commands to what was sent and leaves the backend ready. \<open>image\<close> says that a piece of the
  output writes given bytes to a memory.
\<close>

locale memory_backend =
  fixes be :: "'s backend" and ready :: "'s \<Rightarrow> bool" and out :: "'s \<Rightarrow> 'o list" and has :: "u32 \<Rightarrow> bool"
    and stall_w :: "bool \<Rightarrow> 'o list" and reset_w :: "'o list"
    and image :: "u32 \<Rightarrow> u32 \<Rightarrow> u8 list \<Rightarrow> 'o list \<Rightarrow> bool"
  assumes stall_law: "ready s \<Longrightarrow> \<exists>s'. be_cpu_stall be b s = ok (0, s') \<and> ready s' \<and> out s' = out s @ stall_w b"
    and reset_law: "ready s \<Longrightarrow> \<exists>s'. be_cpu_reset be s = ok (0, s') \<and> ready s' \<and> out s' = out s @ reset_w"
    and write_law: "ready s \<Longrightarrow> has i \<Longrightarrow> length bs = unat n \<Longrightarrow> 0 < n \<Longrightarrow> n < 0x80000000 \<Longrightarrow> n mod 4 = 0 \<Longrightarrow>
      \<exists>s' x. be_mem_write be i base bs n s = ok (0, s') \<and> ready s' \<and> out s' = out s @ x \<and> image i base bs x"
begin

lemma loop_images:
  assumes "ready s" and "\<forall>i \<in> set ids. has i" and "length bs = unat n" and "0 < n" and "n < 0x80000000" and "n mod 4 = 0"
  shows "\<exists>s' xs. mem_init_loop be ids bs n s = ok (0, s') \<and> ready s' \<and> out s' = out s @ concat xs \<and>
    list_all2 (\<lambda>i. image i 0 bs) ids xs"
  using assms(1,2)
proof (induction ids arbitrary: s)
  case (Cons i ids)
  then have "has i" by simp
  from write_law [OF Cons.prems(1) this assms(3-6), of 0] obtain s1 x where
    1: "be_mem_write be i 0 bs n s = ok (0, s1)" "ready s1" "out s1 = out s @ x" "image i 0 bs x" by blast
  from Cons.IH [OF 1(2)] Cons.prems(2) obtain s2 xs where
    "mem_init_loop be ids bs n s1 = ok (0, s2)" "ready s2" "out s2 = out s1 @ concat xs" "list_all2 (\<lambda>i. image i 0 bs) ids xs"
    by auto
  with 1 show ?case
    by (intro exI [of _ s2] exI [of _ "x # xs"]) (simp add: optimsoc_mem_write_def assms(6))
qed simp

lemma init_images:
  assumes "ready s" and "\<forall>i \<in> set ids. has i" and "length bs = unat n" and "0 < n" and "n < 0x80000000" and "n mod 4 = 0"
  shows "\<exists>s' xs. optimsoc_mem_init be ids bs n s = ok (0, s') \<and> ready s' \<and>
    out s' = out s @ stall_w True @ concat xs @ reset_w @ stall_w False \<and> list_all2 (\<lambda>i. image i 0 bs) ids xs"
proof -
  have "sint n mod 4 = 0"
  proof -
    have "(4 :: u32) dvd n" using assms(6) by (simp add: mod_0_imp_dvd)
    then have "take_bit 2 n = 0" using assms(6) by (simp add: take_bit_eq_mod)
    moreover have "take_bit 2 (sint n) = uint (take_bit 2 n)"
      by (rule bit_eqI) (auto simp: bit_simps)
    ultimately show ?thesis by (simp add: take_bit_eq_mod)
  qed
  moreover from stall_law [OF assms(1), of True] obtain s1 where
    1: "be_cpu_stall be True s = ok (0, s1)" "ready s1" "out s1 = out s @ stall_w True" by blast
  moreover from loop_images [OF 1(2) assms(2-6)] obtain s2 xs where
    2: "mem_init_loop be ids bs n s1 = ok (0, s2)" "ready s2" "out s2 = out s1 @ concat xs"
      "list_all2 (\<lambda>i. image i 0 bs) ids xs" by blast
  moreover from reset_law [OF 2(2)] obtain s3 where
    3: "be_cpu_reset be s2 = ok (0, s3)" "ready s3" "out s3 = out s2 @ reset_w" by blast
  moreover from stall_law [OF 3(2), of False] obtain s4 where
    4: "be_cpu_stall be False s3 = ok (0, s4)" "ready s4" "out s4 = out s3 @ stall_w False" by blast
  ultimately show ?thesis
    by (intro exI [of _ s4] exI [of _ xs])
      (simp add: optimsoc_mem_init_def optimsoc_cpu_stall_def optimsoc_cpu_reset_def)
qed

end

definition mam_image :: "nat \<Rightarrow> u32 \<Rightarrow> u8 list \<Rightarrow> u16 list list \<Rightarrow> bool" where
  "mam_image a base bs ps \<longleftrightarrow>
     (\<forall>p \<in> set ps. length p \<le> 15 \<and> hd p = module_field a OR push_bit 8 7) \<and>
     concat (map mam_writes ps) = map (\<lambda>i. (base + word_of_nat i, bs ! i)) [0..<length bs]"

definition dbg_image :: "sysinfo \<Rightarrow> u32 \<Rightarrow> u32 \<Rightarrow> u8 list \<Rightarrow> u8 list \<Rightarrow> bool" where
  "dbg_image si i base bs x \<longleftrightarrow> (\<exists>a ps. find_mam (si_modules si) (si_mam si) i None = ok (Some a) \<and>
     mam_image a base bs ps \<and> x = le_bytes (stream_words ps))"

definition tcm_bytes :: "u16 \<Rightarrow> u8 list" where
  "tcm_bytes w = le_bytes (stream_words [register_write_packet 1 3 [w]])"

definition dbg_ready :: "sysinfo \<Rightarrow> dbg_world \<Rightarrow> bool" where
  "dbg_ready si w \<longleftrightarrow> dbg_ok (w_dbg w) \<and> d_sysinfo (w_dbg w) = Some si"

lemma register_write_ok:
  assumes "dbg_ok c"
  shows "\<exists>c'. register_write a r ws c = (0, c') \<and> dbg_ok c' \<and> d_sysinfo c' = d_sysinfo c \<and>
    d_out c' = d_out c @ le_bytes (stream_words [register_write_packet a r ws])"
proof -
  have "halloc c = (True, c\<lparr>d_allocs := d_allocs c + 1\<rparr>)" "dbg_ok (c\<lparr>d_allocs := d_allocs c + 1\<rparr>)"
    using assms by (simp_all add: halloc_def dbg_ok_def)
  then show ?thesis using assms by (simp add: register_write_def send_ok Let_def) (simp add: dbg_ok_def)
qed

interpretation mb: memory_backend dbgnoc_backend "dbg_ready si" "\<lambda>w. d_out (w_dbg w)"
  "\<lambda>i. \<exists>a. find_mam (si_modules si) (si_mam si) i None = ok (Some a)"
  "\<lambda>b. tcm_bytes (if b then 1 else 2)" "tcm_bytes 4" "dbg_image si" for si
proof
  fix w b assume r: "dbg_ready si w"
  then have "dbg_ok (w_dbg w)" by (simp add: dbg_ready_def)
  note rw = register_write_ok [OF this, of 1 3]
  show "\<exists>s'. be_cpu_stall dbgnoc_backend b w = ok (0, s') \<and> dbg_ready si s' \<and>
      d_out (w_dbg s') = d_out (w_dbg w) @ tcm_bytes (if b then 1 else 2)"
    using rw [of "[if b then push_bit 0 1 else push_bit 1 1]"] r
    by (cases b) (auto simp: dbgnoc_backend_def on_dbg_def ob_dbgnoc_cpu_stall_def dbg_ready_def tcm_bytes_def)
  show "\<exists>s'. be_cpu_reset dbgnoc_backend w = ok (0, s') \<and> dbg_ready si s' \<and>
      d_out (w_dbg s') = d_out (w_dbg w) @ tcm_bytes 4"
    using rw [of "[push_bit 2 1]"] r
    by (auto simp: dbgnoc_backend_def on_dbg_def ob_dbgnoc_cpu_reset_def dbg_ready_def tcm_bytes_def)
next
  fix w i base and bs :: "u8 list" and n :: u32
  assume r: "dbg_ready si w" and a: "\<exists>a. find_mam (si_modules si) (si_mam si) i None = ok (Some a)"
    and n: "length bs = unat n" "0 < n" "n < 0x80000000" "n mod 4 = 0"
  from a obtain a where a: "find_mam (si_modules si) (si_mam si) i None = ok (Some a)" by blast
  have "unat n mod 4 = unat (n mod 4)" by (simp add: unat_mod)
  then have "4 dvd length bs" using n(1,4) by (simp add: mod_0_imp_dvd)
  then have "2 * (length bs div 2) = length bs" by auto
  with mem_write_ok [OF _ _ a n(1-3), of "w_dbg w" base] r
  obtain c' ps where "ob_dbgnoc_mem_write i base bs n (w_dbg w) = ok (0, c')"
    "d_out c' = d_out (w_dbg w) @ le_bytes (stream_words ps)" "dbg_ok c'" "d_sysinfo c' = Some si" "mam_image a base bs ps"
    by (auto simp: dbg_ready_def mam_image_def)
  with a show "\<exists>s' x. be_mem_write dbgnoc_backend i base bs n w = ok (0, s') \<and> dbg_ready si s' \<and>
      d_out (w_dbg s') = d_out (w_dbg w) @ x \<and> dbg_image si i base bs x"
    by (auto simp: dbgnoc_backend_def on_dbg_exec_def dbg_ready_def dbg_image_def)
qed

text \<open>
  C28: initialising memories through the debug network stalls the processors, then writes the
  whole image to each memory in the given order, then resets the processors and lets them run
  again; nothing else is sent.
\<close>

theorem mem_init_image:
  assumes "dbg_ok (w_dbg w)" and "d_sysinfo (w_dbg w) = Some si"
    and "\<forall>i \<in> set ids. \<exists>a. find_mam (si_modules si) (si_mam si) i None = ok (Some a)"
    and "length bs = unat n" and "0 < n" and "n < 0x80000000" and "n mod 4 = 0"
  shows "\<exists>w' xs. optimsoc_mem_init dbgnoc_backend ids bs n w = ok (0, w') \<and>
    d_out (w_dbg w') = d_out (w_dbg w) @ tcm_bytes 1 @ concat xs @ tcm_bytes 4 @ tcm_bytes 2 \<and>
    list_all2 (\<lambda>i. dbg_image si i 0 bs) ids xs"
  using mb.init_images [of si w ids bs n] assms by (auto simp: dbg_ready_def)

definition demo_world :: dbg_world where
  "demo_world = \<lparr>w_dbg = demo_dbg, w_rx = [], w_open = (0, 0, 0, 0), w_close = 0, w_logic_reset = 0, w_connected = True\<rparr>"

theorem mem_init_image_witness:
  "\<exists>w' x. optimsoc_mem_init dbgnoc_backend [5] [1, 2, 3, 4] 4 demo_world = ok (0, w') \<and>
    d_out (w_dbg w') = tcm_bytes 1 @ x @ tcm_bytes 4 @ tcm_bytes 2"
proof -
  have "dbg_ok (w_dbg demo_world)" by (simp add: dbg_ok_def demo_world_def demo_dbg_def)
  moreover have "d_sysinfo (w_dbg demo_world) = Some (the (d_sysinfo demo_dbg))" "d_out (w_dbg demo_world) = []"
    by (simp_all add: demo_world_def demo_dbg_def)
  moreover have "\<forall>i \<in> set [5]. \<exists>a. find_mam (si_modules (the (d_sysinfo demo_dbg))) (si_mam (the (d_sysinfo demo_dbg))) i None = ok (Some a)"
    by (simp add: demo_dbg_def)
  ultimately show ?thesis
    using mem_init_image [of demo_world "the (d_sysinfo demo_dbg)" "[5]" "[1, 2, 3, 4]" 4] by auto
qed

end
