(* ===== verification/C_Text.thy ===== *)
theory C_Text
  imports Prelude
begin

section \<open>The text functions of the C library that the host programs use\<close>

text \<open>
  Strings are lists of characters without the terminating null. The section holds the
  character classes, \<open>strtol\<close>, \<open>strtok\<close>, the conversions of \<open>sscanf\<close> and \<open>printf\<close> that the
  programs on the workstation use, and the decoding of the hexadecimal digits that
  \<open>printf\<close> writes. The workstation is a 64 bit system: \<open>long\<close> has 64 bits and \<open>int\<close> 32.
\<close>

subsection \<open>Characters\<close>

abbreviation (input) code :: "char \<Rightarrow> nat" where "code c \<equiv> of_char c"

definition NUL :: char where "NUL = char_of (0::nat)"

definition newline_char :: char where "newline_char = char_of (10::nat)"

definition isspace :: "char \<Rightarrow> bool" where
  "isspace c \<longleftrightarrow> code c = 32 \<or> 9 \<le> code c \<and> code c \<le> 13"

definition isdigit :: "char \<Rightarrow> bool" where
  "isdigit c \<longleftrightarrow> 48 \<le> code c \<and> code c \<le> 57"

definition digit_value :: "char \<Rightarrow> nat option" where
  "digit_value c =
     (if 48 \<le> code c \<and> code c \<le> 57 then Some (code c - 48)
      else if 97 \<le> code c \<and> code c \<le> 122 then Some (code c - 87)
      else if 65 \<le> code c \<and> code c \<le> 90 then Some (code c - 55)
      else None)"

definition is_digit_of :: "nat \<Rightarrow> char \<Rightarrow> bool" where
  "is_digit_of base c \<longleftrightarrow> (case digit_value c of None \<Rightarrow> False | Some d \<Rightarrow> d < base)"

definition digits_value :: "nat \<Rightarrow> string \<Rightarrow> int" where
  "digits_value base s = foldl (\<lambda>v c. v * int base + int (the (digit_value c))) 0 s"

subsection \<open>Numbers in text\<close>

text \<open>
  The sign, the prefix \<open>0x\<close> (of base 16, in front of a digit) and the digits at the start
  of a text: the number with the count of the characters it takes, \<open>None\<close> when there is
  none.
\<close>

definition skip_prefix :: "nat \<Rightarrow> string \<Rightarrow> nat" where
  "skip_prefix base s =
     (case s of a # b # c # _ \<Rightarrow>
        if base = 16 \<and> a = CHR ''0'' \<and> (b = CHR ''x'' \<or> b = CHR ''X'') \<and> is_digit_of 16 c then 2 else 0
      | _ \<Rightarrow> 0)"

definition scan_number :: "nat \<Rightarrow> string \<Rightarrow> (int \<times> nat) option" where
  "scan_number base s =
     (let sg = (case s of [] \<Rightarrow> 0 | c # _ \<Rightarrow> if c = CHR ''-'' \<or> c = CHR ''+'' then 1 else (0::nat));
          neg = (case s of [] \<Rightarrow> False | c # _ \<Rightarrow> c = CHR ''-'');
          px = skip_prefix base (drop sg s);
          ds = takeWhile (is_digit_of base) (drop (sg + px) s)
      in if ds = [] then None
         else Some (if neg then - digits_value base ds else digits_value base ds, sg + px + length ds))"

text \<open>
  \<open>strtol\<close>: the value, the offset of the end pointer, and whether \<open>errno\<close> is set to
  \<open>ERANGE\<close>. Without a number the end pointer is the start of the text.
\<close>

definition strtol :: "string \<Rightarrow> nat \<Rightarrow> int \<times> nat \<times> bool" where
  "strtol s base =
     (let sp = length (takeWhile isspace s)
      in case scan_number base (drop sp s) of
           None \<Rightarrow> (0, 0, False)
         | Some (v, n) \<Rightarrow>
             if v < - (2 ^ 63) then (- (2 ^ 63), sp + n, True)
             else if 2 ^ 63 \<le> v then (2 ^ 63 - 1, sp + n, True)
             else (v, sp + n, False))"

text \<open>The conversion of a \<open>long\<close> to \<open>int\<close>.\<close>

definition to_int :: "int \<Rightarrow> int" where
  "to_int v = sint (word_of_int v :: u32)"

definition atoi :: "string \<Rightarrow> int" where
  "atoi s = to_int (fst (strtol s 10))"

subsection \<open>Splitting\<close>

text \<open>
  \<open>strtok\<close>: the next token and the text after its separator, which is where the next call
  with a null pointer goes on.
\<close>

definition strtok :: "char list \<Rightarrow> string \<Rightarrow> (string \<times> string) option" where
  "strtok delims s =
     (let s1 = dropWhile (\<lambda>c. c \<in> set delims) s
      in if s1 = [] then None
         else Some (takeWhile (\<lambda>c. c \<notin> set delims) s1, drop 1 (dropWhile (\<lambda>c. c \<notin> set delims) s1)))"

lemma strtok_shorter: "strtok d s = Some (t, r) \<Longrightarrow> length r < length s"
proof -
  assume a: "strtok d s = Some (t, r)"
  let ?s1 = "dropWhile (\<lambda>c. c \<in> set d) s"
  have ne: "?s1 \<noteq> []" and r: "r = drop 1 (dropWhile (\<lambda>c. c \<notin> set d) ?s1)"
    using a by (auto simp: strtok_def Let_def split: if_splits)
  have "hd ?s1 \<notin> set d"
    using hd_dropWhile [OF ne] by simp
  then have "length (dropWhile (\<lambda>c. c \<notin> set d) (tl ?s1)) \<le> length (tl ?s1)"
    using length_dropWhile_le by blast
  moreover have "dropWhile (\<lambda>c. c \<notin> set d) ?s1 = dropWhile (\<lambda>c. c \<notin> set d) (tl ?s1)"
    using ne \<open>hd ?s1 \<notin> set d\<close> by (cases ?s1) auto
  moreover have "length ?s1 \<le> length s" by (rule length_dropWhile_le)
  ultimately show ?thesis using r ne by (cases ?s1) auto
qed

text \<open>All tokens of a text.\<close>

function (sequential) strtok_all :: "char list \<Rightarrow> string \<Rightarrow> string list" where
  "strtok_all d s = (case strtok d s of None \<Rightarrow> [] | Some (t, r) \<Rightarrow> t # strtok_all d r)"
  by pat_completeness auto
termination by (relation "measure (length \<circ> snd)") (auto dest: strtok_shorter)

declare strtok_all.simps [simp del]

text \<open>Text without separators is one token, up to the next separator.\<close>

lemma strtok_token:
  assumes "t \<noteq> []" "set t \<inter> set d = {}" "c \<in> set d"
  shows "strtok d (t @ c # r) = Some (t, r)" "strtok d t = Some (t, [])"
proof -
  have n: "x \<in> set t \<Longrightarrow> x \<notin> set d" for x using assms(2) by blast
  have h: "hd t \<notin> set d" using n assms(1) by simp
  have dw: "dropWhile (\<lambda>c. c \<in> set d) (t @ u) = t @ u" for u
    using h assms(1) by (cases t) auto
  show "strtok d (t @ c # r) = Some (t, r)"
    using n assms(1,3) by (simp add: strtok_def dw)
  show "strtok d t = Some (t, [])"
    using n assms(1) dw [of "[]"] by (simp add: strtok_def dropWhile_eq_Nil_conv [THEN iffD2])
qed

lemma strtok_nothing: "strtok d [] = None"
  by (simp add: strtok_def)

text \<open>The tokens of a text that is cut at a separator.\<close>

lemma strtok_all_Nil [simp]: "strtok_all d [] = []"
  by (simp add: strtok_all.simps strtok_nothing)

lemma strtok_all_skip: "c \<in> set d \<Longrightarrow> strtok_all d (c # s) = strtok_all d s"
  by (simp add: strtok_all.simps [of d "c # s"] strtok_all.simps [of d s] strtok_def)

lemma strtok_all_token:
  assumes "t \<noteq> []" "set t \<inter> set d = {}" "c \<in> set d"
  shows "strtok_all d (t @ c # r) = t # strtok_all d r" "strtok_all d t = [t]"
  using strtok_token(1) [OF assms, of r] strtok_token(2) [OF assms] by (simp_all add: strtok_all.simps [of d "t @ c # r"] strtok_all.simps [of d t])

lemma strtok_all_append:
  assumes c: "c \<in> set d"
  shows "strtok_all d (x @ c # y) = strtok_all d x @ strtok_all d y"
proof (induction "length x" arbitrary: x rule: less_induct)
  case less
  show ?case
  proof (cases x)
    case Nil
    then show ?thesis using c by (simp add: strtok_all_skip)
  next
    case (Cons a x')
    show ?thesis
    proof (cases "a \<in> set d")
      case True
      then show ?thesis using less [of x'] Cons by (simp add: strtok_all_skip)
    next
      case False
      define t where "t = takeWhile (\<lambda>c. c \<notin> set d) x"
      have t: "t \<noteq> []" "set t \<inter> set d = {}"
        using False by (auto simp: t_def Cons dest: set_takeWhileD)
      have x: "x = t @ dropWhile (\<lambda>c. c \<notin> set d) x" by (simp add: t_def)
      show ?thesis
      proof (cases "dropWhile (\<lambda>c. c \<notin> set d) x")
        case Nil
        then have "x = t" using x by (metis append_Nil2)
        then show ?thesis using strtok_all_token [OF t c] by simp
      next
        case (Cons c' r)
        then have c': "c' \<in> set d" by (metis dropWhile_eq_Cons_conv)
        have x': "x = t @ c' # r" using x Cons by simp
        then have "length r < length x" by simp
        from less [OF this] show ?thesis
          unfolding x' append_assoc append_Cons strtok_all_token(1) [OF t c'] by simp
      qed
    qed
  qed
qed

subsection \<open>\<open>sscanf\<close>\<close>

text \<open>
  A format is a list of directives: white space, a character of its own, a number in base 10
  or 16 with an optional width (stored or not), and a nonempty run of characters of a class
  with a width. The result is what is stored, in order; its length is what \<open>sscanf\<close> returns,
  up to the end of the text, which it reports as \<open>-1\<close> when nothing is stored.
\<close>

datatype directive =
    SWhite
  | SChar char
  | SNum nat "nat option" bool
  | SRun nat "char \<Rightarrow> bool"

datatype scanned = ScanNum int | ScanStr string

fun sscanf :: "directive list \<Rightarrow> string \<Rightarrow> scanned list" where
  "sscanf [] s = []"
| "sscanf (SWhite # fs) s = sscanf fs (dropWhile isspace s)"
| "sscanf (SChar c # fs) s = (case s of [] \<Rightarrow> [] | x # r \<Rightarrow> if x = c then sscanf fs r else [])"
| "sscanf (SNum base w keep # fs) s =
     (let s1 = dropWhile isspace s
      in case scan_number base (case w of None \<Rightarrow> s1 | Some k \<Rightarrow> take k s1) of
           None \<Rightarrow> []
         | Some (v, n) \<Rightarrow> (if keep then [ScanNum v] else []) @ sscanf fs (drop n s1))"
| "sscanf (SRun w P # fs) s =
     (let t = takeWhile P (take w s)
      in if t = [] then [] else ScanStr t # sscanf fs (drop (length t) s))"

text \<open>The characters of a format are directives.\<close>

definition literal :: "string \<Rightarrow> directive list" where
  "literal s = map (\<lambda>c. if isspace c then SWhite else SChar c) s"

subsection \<open>\<open>printf\<close>\<close>

definition hex_digit :: "nat \<Rightarrow> char" where
  "hex_digit d = (if d < 10 then char_of (48 + d) else char_of (87 + d))"

fun hex_of :: "nat \<Rightarrow> string" where
  "hex_of n = (if n < 16 then [hex_digit n] else hex_of (n div 16) @ [hex_digit (n mod 16)])"

declare hex_of.simps [simp del]

text \<open>A number padded in front to a width.\<close>

definition pad_to :: "nat \<Rightarrow> char \<Rightarrow> string \<Rightarrow> string" where
  "pad_to w c s = replicate (w - length s) c @ s"

text \<open>\<open>%0<w>x\<close> and \<open>%.<w>x\<close> of a number that is not negative, \<open>%-<w>s\<close> of a text, \<open>%d\<close>.\<close>

definition hexw :: "nat \<Rightarrow> nat \<Rightarrow> string" where
  "hexw w n = pad_to w (CHR ''0'') (hex_of n)"

definition decw :: "nat \<Rightarrow> nat \<Rightarrow> string" where
  "decw w n = pad_to w (CHR ''0'') (dec_of n)"

definition left_to :: "nat \<Rightarrow> string \<Rightarrow> string" where
  "left_to w s = s @ replicate (w - length s) (CHR '' '')"

definition sdec_of :: "int \<Rightarrow> string" where
  "sdec_of i = (if i < 0 then CHR ''-'' # dec_of (nat (- i)) else dec_of (nat i))"

subsection \<open>Hexadecimal digits read back\<close>

lemma hex_digit_value: "d < 16 \<Longrightarrow> digit_value (hex_digit d) = Some d"
  by (auto simp: digit_value_def hex_digit_def)

lemma hex_of_digits: "c \<in> set (hex_of n) \<Longrightarrow> is_digit_of 16 c"
  by (induction n rule: hex_of.induct)
     (subst (asm) hex_of.simps, auto simp: is_digit_of_def hex_digit_value split: if_splits)

lemma digits_value_snoc: "digits_value b (s @ [c]) = digits_value b s * int b + int (the (digit_value c))"
  by (simp add: digits_value_def)

lemma digits_value_hex: "digits_value 16 (hex_of n) = int n"
proof (induction n rule: hex_of.induct)
  case (1 n)
  show ?case
  proof (cases "n < 16")
    case True
    then show ?thesis by (subst hex_of.simps) (simp add: digits_value_def hex_digit_value)
  next
    case False
    have e: "hex_of n = hex_of (n div 16) @ [hex_digit (n mod 16)]"
      using False by (subst hex_of.simps) simp
    have "int (n div 16) * 16 + int (n mod 16) = int n" by presburger
    then show ?thesis
      using 1 False by (simp add: e digits_value_snoc hex_digit_value)
  qed
qed

lemma digits_value_zeros: "digits_value b (replicate k (CHR ''0'') @ s) = digits_value b s"
proof (induction k)
  case (Suc k)
  have "digit_value (CHR ''0'') = Some 0" by (simp add: digit_value_def)
  then show ?case using Suc by (simp add: digits_value_def)
qed simp

lemma digits_value_hexw: "digits_value 16 (hexw w n) = int n"
  by (simp add: hexw_def pad_to_def digits_value_zeros digits_value_hex)

lemma zero_digit: "is_digit_of 16 (CHR ''0'')"
  by (simp add: is_digit_of_def digit_value_def)

lemma hexw_digits: "c \<in> set (hexw w n) \<Longrightarrow> is_digit_of 16 c"
  using hex_of_digits [of c n] zero_digit by (auto simp: hexw_def pad_to_def)

lemma length_hex_of: "n < 16 ^ Suc k \<Longrightarrow> length (hex_of n) \<le> Suc k"
proof (induction k arbitrary: n)
  case 0
  then show ?case by (subst hex_of.simps) simp
next
  case (Suc k)
  have "n div 16 < 16 ^ Suc k" using Suc.prems by (simp add: less_mult_imp_div_less mult.commute)
  with Suc.IH [of "n div 16"] show ?case by (subst hex_of.simps) simp
qed

lemma length_hexw: "n < 16 ^ Suc k \<Longrightarrow> length (hexw (Suc k) n) = Suc k"
  using length_hex_of [of n k] by (simp add: hexw_def pad_to_def)

text \<open>Decimal numerals are read back.\<close>

lemma digits_value_dec: "digits_value 10 (dec_of n) = int n"
proof (induction n rule: dec_of.induct)
  case (1 n)
  show ?case
  proof (cases "n < 10")
    case True
    then show ?thesis by (subst dec_of.simps) (simp add: digits_value_def digit_value_def)
  next
    case False
    have e: "dec_of n = dec_of (n div 10) @ [char_of (48 + n mod 10)]"
      using False by (subst dec_of.simps) simp
    have d: "digit_value (char_of (48 + n mod 10)) = Some (n mod 10)"
      by (simp add: digit_value_def)
    have "int (n div 10) * 10 + int (n mod 10) = int n" by presburger
    moreover have "digits_value 10 (dec_of (n div 10)) = int (n div 10)" using 1 False by simp
    ultimately show ?thesis by (simp only: e digits_value_snoc d option.sel of_nat_numeral)
  qed
qed

lemma dec_digit_of: "c \<in> set (dec_of n) \<Longrightarrow> is_digit_of 10 c"
  using dec_of_digits [of c n] by (auto simp: is_digit_of_def digit_value_def)

lemma dec_isdigit: "c \<in> set (dec_of n) \<Longrightarrow> isdigit c"
  using dec_of_digits [of c n] by (auto simp: isdigit_def)

lemma isdigit_not:
  assumes "isdigit c"
  shows "c \<noteq> CHR ''-''" "c \<noteq> CHR ''+''" "\<not> isspace c" "c \<noteq> CHR '' ''"
  using assms by (auto simp: isdigit_def isspace_def)

lemma strtol_dec:
  assumes "n < 2 ^ 31"
  shows "strtol (dec_of n) 10 = (int n, length (dec_of n), False)"
proof -
  obtain c cs where c: "dec_of n = c # cs" by (cases "dec_of n") auto
  have dc: "isdigit c" using dec_isdigit [of c n] by (simp add: c)
  have tw: "takeWhile (is_digit_of 10) (dec_of n) = dec_of n"
    using dec_digit_of by (simp add: takeWhile_eq_all_conv)
  have sp: "takeWhile isspace (dec_of n) = []"
    using isdigit_not(3) [OF dc] by (simp add: c)
  have px: "skip_prefix 10 (dec_of n) = 0"
    by (simp add: skip_prefix_def split: list.split)
  have "scan_number 10 (dec_of n) = Some (int n, length (dec_of n))"
    using isdigit_not(1,2) [OF dc] tw px digits_value_dec [of n] by (simp add: scan_number_def c)
  then show ?thesis
    using assms sp by (simp add: strtol_def)
qed

lemma to_int_small: "0 \<le> v \<Longrightarrow> v < 2 ^ 31 \<Longrightarrow> to_int v = v"
  unfolding to_int_def sint_sbintrunc' by (simp add: signed_take_bit_int_eq_self)

end
