(* ===== verification/Bin2vmem.thy ===== *)
theory Bin2vmem
  imports C_Text
begin

section \<open>Memory images for the simulators (tools/utils/bin2vmem.c)\<close>

text \<open>
  The program turns a binary image into the text that the simulators load into the memories.
  The arguments, the state of the loops and the text on the standard output are modelled; the
  error messages are left out, an error is the exit status. A file is its bytes. The branch
  of \<open>write_size_word\<close>, a variable that is always zero, is not reached and left out, as is
  \<open>total_word_counter\<close>, which is never read.
\<close>

subsection \<open>Arguments\<close>

record vmem_opts =
  o_bpw :: int
  o_wpl :: int
  o_addr :: bool
  o_pad_row :: bool
  o_pad_addr :: bool
  o_row_number :: int
  o_addr_number :: int
  o_file :: "u8 list option"

definition vmem_defaults :: vmem_opts where
  "vmem_defaults = \<lparr>o_bpw = 4, o_wpl = 4, o_addr = True, o_pad_row = False, o_pad_addr = False,
     o_row_number = 0, o_addr_number = 0, o_file = None\<rparr>"

text \<open>The number in a text, with characters in front of it.\<close>

definition scan_after :: "string \<Rightarrow> nat \<Rightarrow> string \<Rightarrow> int option" where
  "scan_after prefix base s =
     (case sscanf (literal prefix @ [SNum base None True]) s of [ScanNum v] \<Rightarrow> Some (to_int v) | _ \<Rightarrow> None)"

text \<open>
  The loop over the arguments. \<open>tmp\<close> is \<open>bytes_per_word_tmp\<close>, \<open>None\<close> before its first
  assignment. \<open>Inl\<close> is an exit with a status. \<open>-bpw=N\<close> and \<open>--bpw\<close> share a branch, so the
  second test for \<open>--bpw\<close>, with its upper bound, is never reached.
\<close>

definition vmem_set_bpw :: "int option \<Rightarrow> vmem_opts \<Rightarrow> vmem_opts exec" where
  "vmem_set_bpw tmp opts =
     (case tmp of None \<Rightarrow> flt Uninit | Some v \<Rightarrow> ok (if 0 < v then opts\<lparr>o_bpw := v\<rparr> else opts))"

fun vmem_args :: "(string \<Rightarrow> u8 list option) \<Rightarrow> string list \<Rightarrow> int option \<Rightarrow> vmem_opts \<Rightarrow> (int + vmem_opts) exec" where
  "vmem_args fs [] tmp opts = ok (Inr opts)"
| "vmem_args fs (a # as) tmp opts =
     (if a = ''-synfmt'' \<or> a = ''--synfmt'' then vmem_args fs as tmp (opts\<lparr>o_wpl := 1, o_addr := False\<rparr>)
      else if a = ''--bpw'' then
        (case as of
           [] \<Rightarrow> bnd (vmem_set_bpw tmp opts) (\<lambda>o1. ok (Inr o1))
         | v # as1 \<Rightarrow> bnd (vmem_set_bpw (Some (atoi v)) opts) (vmem_args fs as1 (Some (atoi v))))
      else case scan_after ''-bpw='' 10 a of
        Some v \<Rightarrow> bnd (vmem_set_bpw (Some v) opts) (vmem_args fs as (Some v))
      | None \<Rightarrow>
          if a = ''--pad-to-row'' then
            (case as of
               [] \<Rightarrow> ok (Inl 1)
             | v # as1 \<Rightarrow>
                 case scan_after '''' 10 v of None \<Rightarrow> ok (Inl 1)
                 | Some n \<Rightarrow>
                     if o_pad_addr opts then ok (Inl 1)
                     else vmem_args fs as1 tmp (opts\<lparr>o_row_number := n, o_pad_row := True\<rparr>))
          else if a = ''--pad-to-addr'' then
            (case as of
               [] \<Rightarrow> ok (Inl 1)
             | v # as1 \<Rightarrow>
                 case scan_after ''0x'' 16 v of None \<Rightarrow> ok (Inl 1)
                 | Some n \<Rightarrow>
                     if o_pad_addr opts then ok (Inl 1)
                     else vmem_args fs as1 tmp (opts\<lparr>o_addr_number := n, o_pad_addr := True\<rparr>))
          else case fs a of None \<Rightarrow> ok (Inl 1)
             | Some bs \<Rightarrow> vmem_args fs as tmp (opts\<lparr>o_file := Some bs\<rparr>))"

subsection \<open>The loops\<close>

record vmem_state =
  m_addr :: int
  m_words :: int
  m_bytes :: int
  m_new :: bool
  m_row :: int
  m_out :: string

definition vmem_start :: vmem_state where
  "vmem_start = \<lparr>m_addr = 0, m_words = 0, m_bytes = 0, m_new = True, m_row = 1, m_out = ''''\<rparr>"

text \<open>\<open>%.8x\<close> of the address, an \<open>int\<close>.\<close>

definition addr_text :: "int \<Rightarrow> string" where
  "addr_text a = CHR ''@'' # hexw 8 (unat (word_of_int a :: u32))"

definition vmem_line :: "vmem_opts \<Rightarrow> vmem_state \<Rightarrow> vmem_state" where
  "vmem_line opts st =
     (if m_words st = o_wpl opts
      then st\<lparr>m_out := m_out st @ [newline_char], m_words := 0, m_addr := m_addr st + o_wpl opts,
              m_new := True, m_row := m_row st + 1\<rparr>
      else st)"

text \<open>The body of the loop over the file and of the two loops of the padding.\<close>

definition vmem_put :: "vmem_opts \<Rightarrow> u8 \<Rightarrow> vmem_state \<Rightarrow> vmem_state" where
  "vmem_put opts b st =
     (let s1 = (if m_new st
                then st\<lparr>m_out := m_out st @ (if o_addr opts then addr_text (m_addr st) else ''''), m_new := False\<rparr>
                else st);
          s2 = (if m_bytes s1 = 0 \<and> (1 < o_wpl opts \<or> o_addr opts) then s1\<lparr>m_out := m_out s1 @ '' ''\<rparr> else s1);
          s3 = s2\<lparr>m_out := m_out s2 @ hexw 2 (unat b), m_bytes := m_bytes s2 + 1\<rparr>;
          s4 = (if m_bytes s3 = o_bpw opts then s3\<lparr>m_words := m_words s3 + 1, m_bytes := 0\<rparr> else s3)
      in vmem_line opts s4)"

definition vmem_copy :: "vmem_opts \<Rightarrow> u8 list \<Rightarrow> vmem_state \<Rightarrow> vmem_state" where
  "vmem_copy opts bs st = fold (vmem_put opts) bs st"

definition vmem_fill_word :: "vmem_opts \<Rightarrow> vmem_state \<Rightarrow> vmem_state" where
  "vmem_fill_word opts st =
     (if 0 < m_bytes st
      then st\<lparr>m_out := m_out st @ concat (replicate (nat (o_bpw opts - m_bytes st)) (hexw 2 0)),
              m_bytes := 0, m_words := m_words st + 1\<rparr>
      else st)"

partial_function (option) vmem_row_loop :: "vmem_opts \<Rightarrow> vmem_state \<Rightarrow> vmem_state option" where
  "vmem_row_loop opts st =
     (if m_row st < o_row_number opts + 1 then vmem_row_loop opts (vmem_put opts 0 st) else Some st)"

partial_function (option) vmem_addr_loop :: "vmem_opts \<Rightarrow> int \<Rightarrow> vmem_state \<Rightarrow> vmem_state option" where
  "vmem_addr_loop opts tb st =
     (if o_pad_addr opts \<and> tb < o_addr_number opts \<or> o_pad_row opts \<and> m_row st < o_row_number opts + 1
      then vmem_addr_loop opts (tb + 1) (vmem_put opts 0 st)
      else Some st)"

declare vmem_row_loop.simps [code] vmem_addr_loop.simps [code]

definition vmem_pad_rows :: "vmem_opts \<Rightarrow> vmem_state \<Rightarrow> vmem_state option" where
  "vmem_pad_rows opts st =
     (if o_pad_row opts then vmem_row_loop opts (vmem_line opts (vmem_fill_word opts st)) else Some st)"

definition vmem_pad_end :: "vmem_opts \<Rightarrow> vmem_state \<Rightarrow> vmem_state option" where
  "vmem_pad_end opts st =
     (if o_pad_addr opts \<or> o_pad_row opts
      then vmem_addr_loop opts (m_addr st * o_bpw opts + m_words st * o_bpw opts + m_bytes st) st
      else Some st)"

definition vmem_convert :: "vmem_opts \<Rightarrow> u8 list \<Rightarrow> string option" where
  "vmem_convert opts bs =
     map_option m_out
       (Option.bind (vmem_pad_rows opts (vmem_copy opts bs vmem_start)) (vmem_pad_end opts))"

text \<open>The program: its arguments without its name, the exit status and the standard output.\<close>

definition bin2vmem :: "(string \<Rightarrow> u8 list option) \<Rightarrow> string list \<Rightarrow> (int \<times> string) exec" where
  "bin2vmem fs args =
     (if args = [] then ok (1, '''')
      else bnd (vmem_args fs args None vmem_defaults) (\<lambda>r.
        case r of Inl e \<Rightarrow> ok (e, '''')
        | Inr opts \<Rightarrow>
            case o_file opts of None \<Rightarrow> ok (1, '''')
            | Some bs \<Rightarrow>
                case vmem_convert opts bs of None \<Rightarrow> None | Some out \<Rightarrow> ok (0, out)))"

subsection \<open>The text as a function of the positions\<close>

text \<open>What the byte at position \<open>n\<close> contributes to the text.\<close>

definition vmem_piece :: "vmem_opts \<Rightarrow> nat \<Rightarrow> u8 \<Rightarrow> string" where
  "vmem_piece opts n b =
     (let w = nat (o_bpw opts); l = w * nat (o_wpl opts)
      in (if n mod l = 0 \<and> o_addr opts then addr_text (int (nat (o_wpl opts) * (n div l))) else '''')
         @ (if n mod w = 0 \<and> (1 < o_wpl opts \<or> o_addr opts) then '' '' else '''')
         @ hexw 2 (unat b) @ (if Suc n mod l = 0 then [newline_char] else ''''))"

definition vmem_text :: "vmem_opts \<Rightarrow> u8 list \<Rightarrow> string" where
  "vmem_text opts bs = concat (map (\<lambda>i. vmem_piece opts i (bs ! i)) [0..<length bs])"

text \<open>The state of the loops after the bytes \<open>bs\<close>.\<close>

definition vmem_after :: "vmem_opts \<Rightarrow> u8 list \<Rightarrow> vmem_state" where
  "vmem_after opts bs =
     (let n = length bs; w = nat (o_bpw opts); l = w * nat (o_wpl opts)
      in \<lparr>m_addr = int (nat (o_wpl opts) * (n div l)), m_words = int (n div w mod nat (o_wpl opts)),
          m_bytes = int (n mod w), m_new = (n mod l = 0), m_row = 1 + int (n div l),
          m_out = vmem_text opts bs\<rparr>)"

definition vmem_sane :: "vmem_opts \<Rightarrow> bool" where
  "vmem_sane opts \<longleftrightarrow> 0 < o_bpw opts \<and> 0 < o_wpl opts"

lemma mod_pos_eq:
  fixes n :: nat
  assumes "0 < w" "0 < k"
  shows "(n mod (w * k) = 0) = (n mod w = 0 \<and> n div w mod k = 0)"
    and "n div (w * k) = n div w div k"
  using assms by (auto simp: mod_mult2_eq div_mult2_eq)

lemma Suc_div_mod:
  fixes n :: nat
  assumes "0 < w"
  shows "Suc n mod w = (if Suc (n mod w) = w then 0 else Suc (n mod w))"
    and "Suc n div w = (if Suc (n mod w) = w then Suc (n div w) else n div w)"
  using assms by (simp_all add: mod_Suc div_Suc)

lemma vmem_text_snoc: "vmem_text opts (bs @ [b]) = vmem_text opts bs @ vmem_piece opts (length bs) b"
proof -
  have "map (\<lambda>i. vmem_piece opts i ((bs @ [b]) ! i)) [0..<length bs]
      = map (\<lambda>i. vmem_piece opts i (bs ! i)) [0..<length bs]"
    by (rule map_cong) (auto simp: nth_append)
  then have "concat (map (\<lambda>i. vmem_piece opts i ((bs @ [b]) ! i)) [0..<length bs]) = vmem_text opts bs"
    by (simp only: vmem_text_def)
  then show ?thesis by (simp add: vmem_text_def [of opts "bs @ [b]"])
qed

lemma vmem_start_after: "vmem_start = vmem_after opts []"
  by (simp add: vmem_start_def vmem_after_def vmem_text_def)

lemma vmem_put_fields:
  "m_bytes (vmem_put opts b st) = (if m_bytes st + 1 = o_bpw opts then 0 else m_bytes st + 1)"
  "m_words (vmem_put opts b st) =
     (let k = (if m_bytes st + 1 = o_bpw opts then m_words st + 1 else m_words st) in if k = o_wpl opts then 0 else k)"
  "m_new (vmem_put opts b st) =
     ((if m_bytes st + 1 = o_bpw opts then m_words st + 1 else m_words st) = o_wpl opts)"
  "m_addr (vmem_put opts b st) =
     m_addr st + (if (if m_bytes st + 1 = o_bpw opts then m_words st + 1 else m_words st) = o_wpl opts then o_wpl opts else 0)"
  "m_row (vmem_put opts b st) =
     m_row st + (if (if m_bytes st + 1 = o_bpw opts then m_words st + 1 else m_words st) = o_wpl opts then 1 else 0)"
  "m_out (vmem_put opts b st) =
     m_out st @ (if m_new st \<and> o_addr opts then addr_text (m_addr st) else '''')
       @ (if m_bytes st = 0 \<and> (1 < o_wpl opts \<or> o_addr opts) then '' '' else '''') @ hexw 2 (unat b)
       @ (if (if m_bytes st + 1 = o_bpw opts then m_words st + 1 else m_words st) = o_wpl opts
          then [newline_char] else '''')"
  by (simp_all add: vmem_put_def vmem_line_def Let_def)

text \<open>The state in terms of the number of the words and of the bytes of the word begun.\<close>

lemma vmem_put_after:
  assumes "vmem_sane opts"
  shows "vmem_put opts b (vmem_after opts bs) = vmem_after opts (bs @ [b])"
proof -
  define n where "n = length bs"
  define w where "w = nat (o_bpw opts)"
  define k where "k = nat (o_wpl opts)"
  have o: "o_bpw opts = int w" "o_wpl opts = int k" and pos: "0 < w" "0 < k"
    using assms by (auto simp: vmem_sane_def w_def k_def)
  define q r where "q = n div w" and "r = n mod w"
  have lt: "r < w" "q mod k < k" using pos by (simp_all add: r_def)
  note eqs = mod_pos_eq [OF pos] Suc_div_mod [OF pos(1)] Suc_div_mod [OF pos(2)]
  have i: "int r + 1 = int w \<longleftrightarrow> Suc r = w" "int (q mod k) + 1 = int k \<longleftrightarrow> Suc (q mod k) = k"
    "int (q mod k) \<noteq> int k"
    using lt by linarith+
  note st = vmem_after_def vmem_text_snoc vmem_piece_def Let_def o n_def [symmetric] nat_int length_append_singleton
    eqs q_def [symmetric] r_def [symmetric]
  have n: "(if Suc r = w then int (q mod k) + 1 else int (q mod k)) = int k \<longleftrightarrow> Suc r = w \<and> Suc (q mod k) = k"
    using i by simp
  show ?thesis
    by (rule vmem_state.equality) (simp_all add: vmem_put_fields st i n distrib_left less_imp_neq [OF lt(2)] pos)
qed

subsection \<open>The loops end, and padding is conversion of the padded image\<close>

lemma vmem_fold_after:
  "vmem_sane opts \<Longrightarrow> fold (vmem_put opts) ys (vmem_after opts xs) = vmem_after opts (xs @ ys)"
  by (induction ys arbitrary: xs) (simp_all add: vmem_put_after)

lemma vmem_copy_after: "vmem_sane opts \<Longrightarrow> vmem_copy opts bs vmem_start = vmem_after opts bs"
  by (simp add: vmem_copy_def vmem_start_after [of opts] vmem_fold_after)

lemma vmem_fill_puts:
  assumes "0 < m_bytes st" "\<not> m_new st" "m_words st \<noteq> o_wpl opts" "o_bpw opts - m_bytes st = int (Suc d)"
  shows "fold (vmem_put opts) (replicate (Suc d) 0) st = vmem_line opts (vmem_fill_word opts st)"
  using assms
proof (induction d arbitrary: st)
  case 0
  then show ?case by (cases st) (simp add: vmem_put_def vmem_fill_word_def Let_def)
next
  case (Suc d)
  let ?s = "vmem_put opts 0 st"
  have s: "?s = st\<lparr>m_out := m_out st @ hexw 2 0, m_bytes := m_bytes st + 1\<rparr>"
    using Suc.prems by (simp add: vmem_put_def vmem_line_def Let_def)
  have "fold (vmem_put opts) (replicate (Suc d) 0) ?s = vmem_line opts (vmem_fill_word opts ?s)"
    by (rule Suc.IH) (use Suc.prems in \<open>simp_all add: s\<close>)
  moreover have "nat (o_bpw opts - m_bytes st) = Suc (Suc d)" "nat (o_bpw opts - (m_bytes st + 1)) = Suc d"
    using Suc.prems by linarith+
  then have "vmem_fill_word opts ?s = vmem_fill_word opts st"
    using Suc.prems(1) by (simp add: s vmem_fill_word_def)
  ultimately show ?case by simp
qed

definition round_up :: "nat \<Rightarrow> nat \<Rightarrow> nat" where
  "round_up w n = n + (w - n mod w) mod w"

lemma vmem_fill_after:
  assumes "vmem_sane opts"
  shows "vmem_line opts (vmem_fill_word opts (vmem_after opts bs))
    = vmem_after opts (bs @ replicate (round_up (nat (o_bpw opts)) (length bs) - length bs) 0)"
proof -
  define w where "w = nat (o_bpw opts)"
  define k where "k = nat (o_wpl opts)"
  have o: "o_bpw opts = int w" "o_wpl opts = int k" and pos: "0 < w" "0 < k"
    using assms by (auto simp: vmem_sane_def w_def k_def)
  let ?st = "vmem_after opts bs"
  have words: "m_words ?st \<noteq> o_wpl opts"
    using pos by (simp add: vmem_after_def o Let_def less_imp_neq)
  show ?thesis
  proof (cases "length bs mod w = 0")
    case True
    then have "m_bytes ?st = 0" by (simp add: vmem_after_def o Let_def)
    then show ?thesis using words True
      by (simp add: vmem_line_def vmem_fill_word_def round_up_def o)
  next
    case False
    obtain d where d: "w - length bs mod w = Suc d"
      using mod_less_divisor [OF pos(1), of "length bs"] by (metis Suc_diff_Suc)
    have b: "m_bytes ?st = int (length bs mod w)" "\<not> m_new ?st"
      using False mod_pos_eq [OF pos] by (simp_all add: vmem_after_def o Let_def)
    have "Suc d < w" using d False by linarith
    then have r: "round_up w (length bs) - length bs = Suc d"
      by (simp add: round_up_def d)
    have "fold (vmem_put opts) (replicate (Suc d) 0) ?st = vmem_line opts (vmem_fill_word opts ?st)"
      by (rule vmem_fill_puts) (use b False words d in \<open>simp_all add: o\<close>)
    with vmem_fold_after [OF assms, of "replicate (Suc d) 0" bs] show ?thesis
      unfolding w_def [symmetric] r by metis
  qed
qed

lemma vmem_row_loop_after:
  assumes "vmem_sane opts"
  shows "vmem_row_loop opts (vmem_after opts bs)
    = Some (vmem_after opts (bs @ replicate (nat (o_row_number opts) * (nat (o_bpw opts) * nat (o_wpl opts)) - length bs) 0))"
proof -
  define l where "l = nat (o_bpw opts) * nat (o_wpl opts)"
  define t where "t = nat (o_row_number opts)"
  have pos: "0 < l" using assms by (simp add: vmem_sane_def l_def)
  have c: "m_row (vmem_after opts bs) < o_row_number opts + 1 \<longleftrightarrow> length bs < t * l" for bs
    using pos by (simp add: vmem_after_def Let_def l_def [symmetric] div_less_iff_less_mult [symmetric] t_def) linarith
  have "vmem_row_loop opts (vmem_after opts bs) = Some (vmem_after opts (bs @ replicate (t * l - length bs) 0))"
  proof (induction "t * l - length bs" arbitrary: bs)
    case 0
    then show ?case by (subst vmem_row_loop.simps, subst c) simp
  next
    case (Suc x)
    have x: "x = t * l - length (bs @ [0])" and lt: "length bs < t * l" using Suc.hyps(2) by simp_all
    have "vmem_row_loop opts (vmem_after opts bs) = vmem_row_loop opts (vmem_after opts (bs @ [0]))"
      using lt by (subst vmem_row_loop.simps, subst c) (simp add: vmem_put_after assms)
    also have "\<dots> = Some (vmem_after opts ((bs @ [0]) @ replicate x 0))"
      using Suc.hyps(1) [OF x] x by simp
    finally show ?case using Suc.hyps(2) by (metis append.assoc append_Cons append_Nil replicate_Suc)
  qed
  then show ?thesis by (simp add: t_def l_def)
qed

text \<open>The length up to which the last loop pads.\<close>

definition vmem_target :: "vmem_opts \<Rightarrow> nat" where
  "vmem_target opts =
     max (if o_pad_addr opts then nat (o_addr_number opts) else 0)
         (if o_pad_row opts then nat (o_row_number opts) * (nat (o_bpw opts) * nat (o_wpl opts)) else 0)"

lemma vmem_addr_loop_after:
  assumes "vmem_sane opts"
  shows "vmem_addr_loop opts (int (length bs)) (vmem_after opts bs)
    = Some (vmem_after opts (bs @ replicate (vmem_target opts - length bs) 0))"
proof -
  define l where "l = nat (o_bpw opts) * nat (o_wpl opts)"
  have pos: "0 < l" using assms by (simp add: vmem_sane_def l_def)
  have r: "m_row (vmem_after opts bs) < o_row_number opts + 1 \<longleftrightarrow> length bs < nat (o_row_number opts) * l" for bs
    using pos by (simp add: vmem_after_def Let_def l_def [symmetric] div_less_iff_less_mult [symmetric]) linarith
  have c: "(o_pad_addr opts \<and> int (length bs) < o_addr_number opts \<or>
      o_pad_row opts \<and> m_row (vmem_after opts bs) < o_row_number opts + 1) \<longleftrightarrow> length bs < vmem_target opts" for bs
    unfolding r vmem_target_def l_def [symmetric] by auto
  show ?thesis
  proof (induction "vmem_target opts - length bs" arbitrary: bs)
    case 0
    then show ?case by (subst vmem_addr_loop.simps, subst c) simp
  next
    case (Suc x)
    have x: "x = vmem_target opts - length (bs @ [0])" and lt: "length bs < vmem_target opts"
      using Suc.hyps(2) by simp_all
    have "vmem_addr_loop opts (int (length bs)) (vmem_after opts bs)
        = vmem_addr_loop opts (int (length (bs @ [0]))) (vmem_after opts (bs @ [0]))"
      using lt by (subst vmem_addr_loop.simps, subst c) (simp add: vmem_put_after assms algebra_simps)
    also have "\<dots> = Some (vmem_after opts ((bs @ [0]) @ replicate x 0))"
      using Suc.hyps(1) [OF x] x by simp
    finally show ?case using Suc.hyps(2) by (metis append.assoc append_Cons append_Nil replicate_Suc)
  qed
qed

lemma vmem_total:
  assumes "vmem_sane opts"
  shows "m_addr (vmem_after opts bs) * o_bpw opts + m_words (vmem_after opts bs) * o_bpw opts
      + m_bytes (vmem_after opts bs) = int (length bs)"
proof -
  define n where "n = length bs"
  define w where "w = nat (o_bpw opts)"
  define k where "k = nat (o_wpl opts)"
  have o: "o_bpw opts = int w" "o_wpl opts = int k" and pos: "0 < w" "0 < k"
    using assms by (auto simp: vmem_sane_def w_def k_def)
  have "n = (k * (n div w div k) + n div w mod k) * w + n mod w" by simp
  then have "int n = int ((k * (n div w div k) + n div w mod k) * w + n mod w)" by (rule arg_cong)
  then have "int n = int k * int (n div w div k) * int w + int (n div w mod k) * int w + int (n mod w)"
    by (simp only: of_nat_add of_nat_mult distrib_right)
  then show ?thesis
    by (simp add: vmem_after_def Let_def o n_def [symmetric] mod_pos_eq [OF pos] distrib_right)
qed

text \<open>The length of the image that the padding makes of \<open>n\<close> bytes.\<close>

definition vmem_length :: "vmem_opts \<Rightarrow> nat \<Rightarrow> nat" where
  "vmem_length opts n =
     max (if o_pad_row opts then round_up (nat (o_bpw opts)) n else n) (vmem_target opts)"

lemma round_up_ge: "n \<le> round_up w n"
  by (simp add: round_up_def)

lemma pad_twice:
  "n \<le> a \<Longrightarrow> (bs @ replicate (a - n) z) @ replicate (b - a) z = bs @ replicate (max a b - n) z"
  by (simp add: replicate_add [symmetric] max_def)

lemma vmem_pad_end_after:
  assumes "vmem_sane opts"
  shows "vmem_pad_end opts (vmem_after opts bs)
    = Some (vmem_after opts (bs @ replicate (vmem_target opts - length bs) 0))"
  using vmem_addr_loop_after [OF assms, of bs] vmem_total [OF assms, of bs]
  by (simp add: vmem_pad_end_def vmem_target_def)

lemma vmem_convert_eq:
  assumes "vmem_sane opts"
  shows "vmem_convert opts bs
    = Some (vmem_text opts (bs @ replicate (vmem_length opts (length bs) - length bs) 0))"
proof -
  have out: "m_out (vmem_after opts xs) = vmem_text opts xs" for xs
    by (simp add: vmem_after_def Let_def)
  let ?n = "length bs"
  show ?thesis
  proof (cases "o_pad_row opts")
    case False
    then show ?thesis
      by (simp add: vmem_convert_def vmem_copy_after assms vmem_pad_rows_def vmem_pad_end_after out vmem_length_def max_def)
  next
    case True
    define r where "r = round_up (nat (o_bpw opts)) ?n"
    define t where "t = nat (o_row_number opts) * (nat (o_bpw opts) * nat (o_wpl opts))"
    have rn: "?n \<le> r" by (simp add: r_def round_up_ge)
    have t: "max (max r t) (vmem_target opts) = max r (vmem_target opts)"
      using True by (simp add: vmem_target_def t_def max.assoc max.left_commute [of t])
    let ?b1 = "bs @ replicate (r - ?n) 0" let ?b2 = "?b1 @ replicate (t - length ?b1) 0"
    have "vmem_pad_rows opts (vmem_after opts bs) = Some (vmem_after opts ?b2)"
      using True vmem_row_loop_after [OF assms, of ?b1] vmem_fill_after [OF assms, of bs]
      by (simp add: vmem_pad_rows_def r_def t_def)
    moreover have "?b2 = bs @ replicate (max r t - ?n) 0"
      using pad_twice [OF rn, of bs 0 t] rn by simp
    moreover have "(bs @ replicate (max r t - ?n) 0) @ replicate (vmem_target opts - max r t) 0
        = bs @ replicate (max r (vmem_target opts) - ?n) 0"
      using pad_twice [of ?n "max r t" bs 0 "vmem_target opts"] rn t by simp
    ultimately show ?thesis using rn True
      by (simp add: vmem_convert_def vmem_copy_after assms vmem_pad_end_after out vmem_length_def r_def [symmetric]
          del: append_assoc)
  qed
qed

subsection \<open>Reading the text back\<close>

text \<open>
  How a simulator reads such a text: tokens separated by white space; a token with \<open>@\<close> sets
  the address, any other is the word at the address, which is then incremented.
\<close>

fun readmemh :: "nat \<Rightarrow> string list \<Rightarrow> (nat \<times> string) list" where
  "readmemh a [] = []"
| "readmemh a (t # ts) =
     (if hd t = CHR ''@'' then readmemh (nat (digits_value 16 (tl t))) ts else (a, t) # readmemh (a + 1) ts)"

definition vmem_tokens :: "string \<Rightarrow> string list" where
  "vmem_tokens s = strtok_all [CHR '' '', newline_char] s"

text \<open>The bytes of a word.\<close>

fun unhex :: "string \<Rightarrow> u8 list" where
  "unhex (a # b # s) = word_of_int (digits_value 16 [a, b]) # unhex s"
| "unhex _ = []"

definition word_text :: "u8 list \<Rightarrow> string" where
  "word_text bs = concat (map (\<lambda>b. hexw 2 (unat b)) bs)"

lemma unat_lt_256: "unat (b :: u8) < 256"
  using unsigned_less [of b] by simp

lemma length_hex_byte: "length (hexw 2 (unat (b::u8))) = 2"
  using length_hexw [of "unat b" 1] unat_lt_256 [of b] by (simp add: numeral_2_eq_2)

lemma unhex_word_text: "unhex (word_text bs) = bs"
proof (induction bs)
  case (Cons b bs)
  obtain x y where xy: "hexw 2 (unat b) = [x, y]"
    using length_hex_byte [of b] by (metis (no_types, opaque_lifting) length_0_conv length_Suc_conv numeral_2_eq_2)
  have "digits_value 16 [x, y] = int (unat b)"
    using digits_value_hexw [of 2 "unat b"] by (simp add: xy)
  with Cons show ?case by (simp add: word_text_def xy)
qed (simp add: word_text_def)

subsection \<open>The words of the text\<close>

function (sequential) chunks :: "nat \<Rightarrow> 'a list \<Rightarrow> 'a list list" where
  "chunks w bs = (if bs = [] \<or> w = 0 then [] else take w bs # chunks w (drop w bs))"
  by pat_completeness auto
termination by (relation "measure (length \<circ> snd)") auto

declare chunks.simps [simp del]

lemma chunks_snoc:
  "length xs = k * w \<Longrightarrow> ys \<noteq> [] \<Longrightarrow> length ys \<le> w \<Longrightarrow> chunks w (xs @ ys) = chunks w xs @ [ys]"
proof (induction k arbitrary: xs)
  case 0
  then have "0 < w" by (cases ys) auto
  with 0 show ?case by (simp add: chunks.simps [of w ys] chunks.simps [of w "[]"])
next
  case (Suc k)
  have w: "0 < w" using Suc.prems(2,3) by (cases ys) auto
  have l: "w \<le> length xs" using Suc.prems(1) by simp
  have "length (drop w xs) = k * w" using Suc.prems by simp
  from Suc.IH [OF this Suc.prems(2,3)] show ?case
    using w l by (simp add: chunks.simps [of w "xs @ ys"] chunks.simps [of w xs]) auto
qed

lemma length_chunks_full: "0 < w \<Longrightarrow> length xs = k * w \<Longrightarrow> length (chunks w xs) = k"
proof (induction k arbitrary: xs)
  case (Suc k)
  then have "xs \<noteq> []" "length (drop w xs) = k * w" by auto
  with Suc show ?case by (simp add: chunks.simps [of w xs])
qed (simp add: chunks.simps)

lemma concat_chunks: "0 < w \<Longrightarrow> concat (chunks w bs) = bs"
  by (induction w bs rule: chunks.induct) (subst chunks.simps, simp)

lemma vmem_text_word:
  assumes "vmem_sane opts" "length xs = k * nat (o_bpw opts)" "ys \<noteq> []" "length ys \<le> nat (o_bpw opts)"
  shows "vmem_text opts (xs @ ys) = vmem_text opts xs
      @ (if k mod nat (o_wpl opts) = 0 \<and> o_addr opts then addr_text (int k) else '''')
      @ (if 1 < o_wpl opts \<or> o_addr opts then '' '' else '''') @ word_text ys
      @ (if length ys = nat (o_bpw opts) \<and> Suc k mod nat (o_wpl opts) = 0 then [newline_char] else '''')"
  using assms(3,4)
proof (induction ys rule: rev_induct)
  case Nil
  then show ?case by simp
next
  case (snoc b ys)
  define w where "w = nat (o_bpw opts)"
  define j where "j = length ys"
  define K where "K = nat (o_wpl opts)"
  have pos: "0 < w" "0 < K" using assms(1) by (auto simp: vmem_sane_def w_def K_def)
  have j: "j < w" using snoc.prems by (simp add: j_def w_def)
  let ?n = "j + k * w"
  have n: "length (xs @ ys) = ?n" using assms(2) by (simp add: j_def w_def)
  have n': "Suc ?n = Suc j + k * w" by simp
  have d: "?n mod w = j" "?n div w = k" using j pos by simp_all
  have e: "Suc ?n mod (w * K) = 0 \<longleftrightarrow> Suc j = w \<and> Suc k mod K = 0"
    using Suc_div_mod [OF pos(1), of ?n] unfolding mod_pos_eq [OF pos] d by simp
  have a: "k mod K = 0 \<Longrightarrow> K * (k div K) = k" by (metis add.right_neutral mult_div_mod_eq)
  have p: "vmem_piece opts ?n b =
      (if j = 0 \<and> k mod K = 0 \<and> o_addr opts then addr_text (int k) else '''')
      @ (if j = 0 \<and> (1 < o_wpl opts \<or> o_addr opts) then '' '' else '''') @ hexw 2 (unat b)
      @ (if Suc j = w \<and> Suc k mod K = 0 then [newline_char] else '''')"
    unfolding vmem_piece_def Let_def w_def [symmetric] K_def [symmetric] e
    unfolding mod_pos_eq [OF pos] d by (auto simp: a)
  have t: "vmem_text opts (xs @ ys @ [b]) = vmem_text opts (xs @ ys) @ vmem_piece opts ?n b"
    using vmem_text_snoc [of opts "xs @ ys" b] n by simp
  show ?case
  proof (cases "ys = []")
    case True
    then show ?thesis using p t by (simp add: j_def word_text_def w_def K_def)
  next
    case False
    with snoc.IH snoc.prems j show ?thesis
      unfolding t p by (simp add: j_def word_text_def w_def K_def)
  qed
qed

definition vmem_header :: "vmem_opts \<Rightarrow> nat \<Rightarrow> string list" where
  "vmem_header opts k = (if k mod nat (o_wpl opts) = 0 \<and> o_addr opts then [addr_text (int k)] else [])"

lemma hex_not_sep:
  assumes "is_digit_of 16 c"
  shows "c \<noteq> CHR '' ''" "c \<noteq> newline_char" "c \<noteq> CHR ''@''"
  using assms by (auto simp: is_digit_of_def digit_value_def newline_char_def split: if_splits)

lemma word_text_token:
  "ys \<noteq> [] \<Longrightarrow> word_text ys \<noteq> [] \<and> set (word_text ys) \<inter> set [CHR '' '', newline_char] = {} \<and> hd (word_text ys) \<noteq> CHR ''@''"
proof -
  assume ne: "ys \<noteq> []"
  have h: "c \<in> set (word_text ys) \<Longrightarrow> is_digit_of 16 c" for c
    using hexw_digits by (auto simp: word_text_def)
  have n: "word_text ys \<noteq> []"
    using ne length_hex_byte by (cases ys) (auto simp: word_text_def dest: arg_cong [of _ "[]" length])
  then have "hd (word_text ys) \<in> set (word_text ys)" by simp
  then show ?thesis using h hex_not_sep n by auto
qed

lemma addr_text_token:
  "addr_text a \<noteq> [] \<and> set (addr_text a) \<inter> set [CHR '' '', newline_char] = {}"
proof -
  have "c \<in> set (hexw 8 n) \<Longrightarrow> c \<noteq> CHR '' '' \<and> c \<noteq> newline_char" for c n
    using hex_not_sep hexw_digits by blast
  moreover have "of_char newline_char \<noteq> (of_char (CHR ''@'') :: nat)" by (simp add: newline_char_def)
  then have "newline_char \<noteq> CHR ''@''" by metis
  ultimately show ?thesis by (auto simp: addr_text_def)
qed

lemma tokens_line: "x = [] \<or> (\<exists>u. x = u @ [newline_char]) \<Longrightarrow>
  t \<noteq> [] \<Longrightarrow> set t \<inter> set [CHR '' '', newline_char] = {} \<Longrightarrow> vmem_tokens (x @ t) = vmem_tokens x @ [t]"
  using strtok_all_append [of newline_char "[CHR '' '', newline_char]"]
    strtok_all_token(2) [of t "[CHR '' '', newline_char]" newline_char]
  by (auto simp: vmem_tokens_def)

lemma tokens_space: "vmem_tokens (x @ CHR '' '' # y) = vmem_tokens x @ vmem_tokens y"
  by (simp add: vmem_tokens_def strtok_all_append)

lemma tokens_newline: "vmem_tokens (x @ [newline_char]) = vmem_tokens x"
  using strtok_all_append [of newline_char "[CHR '' '', newline_char]" x "[]"] by (simp add: vmem_tokens_def)

lemma vmem_tokens_word:
  assumes "vmem_sane opts" "length xs = k * nat (o_bpw opts)" "ys \<noteq> []" "length ys \<le> nat (o_bpw opts)"
    and nl: "k mod nat (o_wpl opts) = 0 \<Longrightarrow> vmem_text opts xs = [] \<or> (\<exists>u. vmem_text opts xs = u @ [newline_char])"
  shows "vmem_tokens (vmem_text opts (xs @ ys)) = vmem_tokens (vmem_text opts xs) @ vmem_header opts k @ [word_text ys]"
proof -
  note w = word_text_token [OF assms(3)]
  let ?x = "vmem_text opts xs"
  let ?a = "if k mod nat (o_wpl opts) = 0 \<and> o_addr opts then addr_text (int k) else ''''"
  let ?l = "if length ys = nat (o_bpw opts) \<and> Suc k mod nat (o_wpl opts) = 0 then [newline_char] else ''''"
  have z: "vmem_tokens (word_text ys @ ?l) = [word_text ys]"
    using w tokens_line [of "[]" "word_text ys"] by (simp add: tokens_newline) (simp add: vmem_tokens_def)
  have a: "vmem_tokens (?x @ ?a) = vmem_tokens ?x @ vmem_header opts k"
    using tokens_line [OF nl, of "addr_text (int k)"] addr_text_token by (simp add: vmem_header_def)
  show ?thesis
  proof (cases "1 < o_wpl opts \<or> o_addr opts")
    case True
    then have "vmem_text opts (xs @ ys) = (?x @ ?a) @ CHR '' '' # (word_text ys @ ?l)"
      using vmem_text_word [OF assms(1-4)] by simp
    then show ?thesis using a z tokens_space by (metis append_assoc)
  next
    case False
    then have k: "nat (o_wpl opts) = 1" "\<not> o_addr opts" using assms(1) by (auto simp: vmem_sane_def)
    have "vmem_text opts (xs @ ys) = (?x @ word_text ys) @ ?l"
      using vmem_text_word [OF assms(1-4)] False by simp
    then have "vmem_tokens (vmem_text opts (xs @ ys)) = vmem_tokens (?x @ word_text ys)"
      by (simp add: tokens_newline del: append_assoc)
    also have "\<dots> = vmem_tokens ?x @ [word_text ys]"
      by (rule tokens_line) (use nl w k in simp_all)
    finally show ?thesis by (simp add: vmem_header_def k)
  qed
qed

text \<open>The address after a list of tokens.\<close>

fun readmemh_end :: "nat \<Rightarrow> string list \<Rightarrow> nat" where
  "readmemh_end a [] = a"
| "readmemh_end a (t # ts) =
     (if hd t = CHR ''@'' then readmemh_end (nat (digits_value 16 (tl t))) ts else readmemh_end (a + 1) ts)"

lemma readmemh_append: "readmemh a (ts @ us) = readmemh a ts @ readmemh (readmemh_end a ts) us"
  by (induction a ts rule: readmemh.induct) simp_all

lemma readmemh_end_append: "readmemh_end a (ts @ us) = readmemh_end (readmemh_end a ts) us"
  by (induction a ts rule: readmemh_end.induct) simp_all

lemma readmemh_word:
  assumes "ys \<noteq> []" "k < 2 ^ 32"
  shows "readmemh k (vmem_header opts k @ [word_text ys]) = [(k, word_text ys)]"
    "readmemh_end k (vmem_header opts k @ [word_text ys]) = k + 1"
proof -
  have "unat (word_of_nat k :: u32) = k"
    using assms(2) by (simp add: unat_of_nat take_bit_nat_eq_self)
  then have "nat (digits_value 16 (tl (addr_text (int k)))) = k"
    by (simp add: addr_text_def digits_value_hexw)
  moreover have "hd (addr_text (int k)) = CHR ''@''" by (simp add: addr_text_def)
  moreover have "hd (word_text ys) \<noteq> CHR ''@''" using word_text_token [OF assms(1)] by simp
  ultimately show "readmemh k (vmem_header opts k @ [word_text ys]) = [(k, word_text ys)]"
    "readmemh_end k (vmem_header opts k @ [word_text ys]) = k + 1"
    by (simp_all add: vmem_header_def)
qed

definition vmem_memory :: "vmem_opts \<Rightarrow> u8 list \<Rightarrow> (nat \<times> string) list" where
  "vmem_memory opts bs = readmemh 0 (vmem_tokens (vmem_text opts bs))"

lemma vmem_memory_full:
  assumes "vmem_sane opts"
  shows "length xs = k * nat (o_bpw opts) \<Longrightarrow> k \<le> 2 ^ 32 \<Longrightarrow>
    vmem_memory opts xs = enumerate 0 (map word_text (chunks (nat (o_bpw opts)) xs))
    \<and> readmemh_end 0 (vmem_tokens (vmem_text opts xs)) = k
    \<and> (k mod nat (o_wpl opts) = 0 \<longrightarrow> vmem_text opts xs = [] \<or> (\<exists>u. vmem_text opts xs = u @ [newline_char]))"
proof (induction k arbitrary: xs)
  case 0
  then show ?case by (simp add: vmem_memory_def vmem_text_def vmem_tokens_def chunks.simps)
next
  case (Suc k)
  define w where "w = nat (o_bpw opts)"
  have pos: "0 < w" using assms by (simp add: vmem_sane_def w_def)
  define us where "us = take (k * w) xs"
  define ys where "ys = drop (k * w) xs"
  have xs: "xs = us @ ys" by (simp add: us_def ys_def)
  have lu: "length us = k * w" and ly: "length ys = w" using Suc.prems(1) by (simp_all add: us_def ys_def w_def)
  have ne: "ys \<noteq> []" using ly pos by auto
  have k: "k < 2 ^ 32" using Suc.prems(2) by simp
  from Suc.IH [of us] lu k have IH: "vmem_memory opts us = enumerate 0 (map word_text (chunks w us))"
    "readmemh_end 0 (vmem_tokens (vmem_text opts us)) = k"
    "k mod nat (o_wpl opts) = 0 \<Longrightarrow> vmem_text opts us = [] \<or> (\<exists>u. vmem_text opts us = u @ [newline_char])"
    by (simp_all add: w_def)
  have t: "vmem_tokens (vmem_text opts xs) = vmem_tokens (vmem_text opts us) @ vmem_header opts k @ [word_text ys]"
    unfolding xs by (rule vmem_tokens_word [OF assms _ ne _ IH(3)]) (use lu ly in \<open>simp_all add: w_def\<close>)
  have c: "chunks w xs = chunks w us @ [ys]"
    unfolding xs by (rule chunks_snoc [OF lu ne]) (simp add: ly)
  have "vmem_memory opts xs = enumerate 0 (map word_text (chunks w xs))"
    using IH(1,2) length_chunks_full [OF pos lu] readmemh_word [OF ne k, of opts]
    by (simp add: vmem_memory_def t c readmemh_append enumerate_append_eq del: append_assoc)
  moreover have "readmemh_end 0 (vmem_tokens (vmem_text opts xs)) = Suc k"
    using IH(2) readmemh_word [OF ne k, of opts] by (simp add: t readmemh_end_append del: append_assoc)
  moreover have "Suc k mod nat (o_wpl opts) = 0 \<longrightarrow> (\<exists>u. vmem_text opts xs = u @ [newline_char])"
    using vmem_text_word [OF assms _ ne, of us k] lu ly by (auto simp: xs w_def)
  ultimately show ?case by (simp add: w_def)
qed

lemma vmem_memory_eq:
  assumes "vmem_sane opts" "length bs < 2 ^ 31"
  shows "vmem_memory opts bs = enumerate 0 (map word_text (chunks (nat (o_bpw opts)) bs))"
proof -
  define w where "w = nat (o_bpw opts)"
  have pos: "0 < w" using assms by (simp add: vmem_sane_def w_def)
  define k where "k = length bs div w"
  have kw: "k * w \<le> length bs" "length bs < k * w + w"
    using dividend_less_div_times [OF pos, of "length bs"] by (simp_all add: k_def add.commute)
  have "k \<le> length bs" unfolding k_def by (rule div_le_dividend)
  also have "\<dots> < 2 ^ 31" by (rule assms(2))
  also have "(2::nat) ^ 31 < 2 ^ 32" by simp
  finally have k: "k < 2 ^ 32" .
  define us where "us = take (k * w) bs"
  define ys where "ys = drop (k * w) bs"
  have bs: "bs = us @ ys" by (simp add: us_def ys_def)
  have lu: "length us = k * w" and ly: "length ys \<le> w" using kw by (simp_all add: us_def ys_def)
  have F: "vmem_memory opts us = enumerate 0 (map word_text (chunks w us))"
    "readmemh_end 0 (vmem_tokens (vmem_text opts us)) = k"
    "k mod nat (o_wpl opts) = 0 \<Longrightarrow> vmem_text opts us = [] \<or> (\<exists>u. vmem_text opts us = u @ [newline_char])"
    using vmem_memory_full [OF assms(1), of us k] lu k by (simp_all add: w_def)
  show ?thesis
  proof (cases "ys = []")
    case True
    then show ?thesis using F(1) bs by (simp add: w_def)
  next
    case False
    have t: "vmem_tokens (vmem_text opts bs) = vmem_tokens (vmem_text opts us) @ vmem_header opts k @ [word_text ys]"
      unfolding bs by (rule vmem_tokens_word [OF assms(1) _ False _ F(3)]) (use lu ly in \<open>simp_all add: w_def\<close>)
    have c: "chunks w bs = chunks w us @ [ys]" unfolding bs by (rule chunks_snoc [OF lu False ly])
    show ?thesis
      using F(1,2) length_chunks_full [OF pos lu] readmemh_word [OF False k, of opts]
      by (simp add: vmem_memory_def t c readmemh_append enumerate_append_eq w_def [symmetric] del: append_assoc)
  qed
qed

lemma vmem_memory_bytes:
  assumes "vmem_sane opts" "length bs < 2 ^ 31"
  shows "concat (map (unhex \<circ> snd) (vmem_memory opts bs)) = bs"
    and "map fst (vmem_memory opts bs) = [0..<length (chunks (nat (o_bpw opts)) bs)]"
proof -
  have "map (unhex \<circ> snd) (enumerate 0 (map word_text cs)) = cs" for cs
    by (rule nth_equalityI) (simp_all add: nth_enumerate_eq unhex_word_text)
  then show "concat (map (unhex \<circ> snd) (vmem_memory opts bs)) = bs"
    using assms by (simp add: vmem_memory_eq concat_chunks vmem_sane_def)
  show "map fst (vmem_memory opts bs) = [0..<length (chunks (nat (o_bpw opts)) bs)]"
    using vmem_memory_eq [OF assms] by simp
qed

subsection \<open>The program\<close>

text \<open>The arguments keep the sizes positive.\<close>

lemma vmem_set_bpw_sane: "vmem_set_bpw tmp opts = ok o1 \<Longrightarrow> vmem_sane opts \<Longrightarrow> vmem_sane o1"
  by (auto simp: vmem_set_bpw_def vmem_sane_def split: option.splits if_splits)

lemma vmem_args_sane: "vmem_args fs args tmp opts = ok (Inr o1) \<Longrightarrow> vmem_sane opts \<Longrightarrow> vmem_sane o1"
proof (induction fs args tmp opts rule: vmem_args.induct)
  case (2 fs a as tmp opts)
  have upd: "vmem_sane (opts\<lparr>o_wpl := 1, o_addr := False\<rparr>)" "vmem_sane (opts\<lparr>o_row_number := n, o_pad_row := True\<rparr>)"
    "vmem_sane (opts\<lparr>o_addr_number := n, o_pad_addr := True\<rparr>)" "vmem_sane (opts\<lparr>o_file := f\<rparr>)" for n f
    using 2(8) by (simp_all add: vmem_sane_def)
  note go = 2(7) [unfolded vmem_args.simps]
  show ?case
  proof (cases "a = ''-synfmt'' \<or> a = ''--synfmt''")
    case True
    then show ?thesis using 2(1) [OF True _ upd(1)] go by simp
  next
    case syn: False
    show ?thesis
    proof (cases "a = ''--bpw''")
      case True
      then show ?thesis
      proof (cases as)
        case Nil
        then show ?thesis using go True vmem_set_bpw_sane [OF _ 2(8)] by (auto simp: bnd_ok_iff)
      next
        case (Cons v as1)
        from go True Cons obtain o2 where o2: "vmem_set_bpw (Some (atoi v)) opts = ok o2"
          "vmem_args fs as1 (Some (atoi v)) o2 = ok (Inr o1)" by (auto simp: bnd_ok_iff)
        from 2(2) [OF syn True Cons o2(2)] show ?thesis using vmem_set_bpw_sane [OF o2(1) 2(8)] by simp
      qed
    next
      case bpw: False
      show ?thesis
      proof (cases "scan_after ''-bpw='' 10 a")
        case (Some v)
        from go syn bpw Some obtain o2 where o2: "vmem_set_bpw (Some v) opts = ok o2"
          "vmem_args fs as (Some v) o2 = ok (Inr o1)" by (auto simp: bnd_ok_iff)
        from 2(6) [OF syn bpw Some o2(2)] show ?thesis using vmem_set_bpw_sane [OF o2(1) 2(8)] by simp
      next
        case None
        note n = syn bpw None
        show ?thesis
        proof (cases "a = ''--pad-to-row''")
          case True
          with go n show ?thesis using 2(3) [OF n True] upd(2)
            by (auto split: list.splits option.splits if_splits)
        next
          case row: False
          show ?thesis
          proof (cases "a = ''--pad-to-addr''")
            case True
            with go n row show ?thesis using 2(4) [OF n row True] upd(3)
              by (auto split: list.splits option.splits if_splits)
          next
            case False
            with go n row show ?thesis using 2(5) [OF n row False] upd(4)
              by (auto split: option.splits)
          qed
        qed
      qed
    qed
  qed
qed simp


definition demo_image :: "string \<Rightarrow> u8 list option" where
  "demo_image f = (if f = ''a.bin'' then Some [0x18, 0x60, 0, 1, 0xAF] else None)"


subsection \<open>The image of the boot ROM (bootrom/bin2vlogarray.c)\<close>

text \<open>
  Each word of the input becomes an assignment of a case statement. Only the first of the four bytes of a word is
  compared with the end of the input; the others are stored as they come, so a byte that
  is missing is 255. The bytes of the word are in the order of a little-endian host.
\<close>

fun getchar_byte :: "u8 list \<Rightarrow> u8 \<times> u8 list" where
  "getchar_byte [] = (255, [])"
| "getchar_byte (b # bs) = (b, bs)"

lemma getchar_shorter: "getchar_byte bs = (b, cs) \<Longrightarrow> length cs \<le> length bs"
  by (cases bs) auto

definition vlog_line :: "nat \<Rightarrow> u8 \<times> u8 \<times> u8 \<times> u8 \<Rightarrow> string" where
  "vlog_line n = (\<lambda>(a, b, c, d).
     dec_of n @ '' : wb_dat_o =  32'' @ [char_of (39 :: nat)] @ ''h'' @
     hexw 8 (((unat a * 256 + unat b) * 256 + unat c) * 256 + unat d) @ '';'' @ [newline_char])"

function bin2vlogarray_from :: "nat \<Rightarrow> u8 list \<Rightarrow> string" where
  "bin2vlogarray_from n [] = []"
| "bin2vlogarray_from n (a # bs) =
     (let (b, bs1) = getchar_byte bs; (c, bs2) = getchar_byte bs1; (d, bs3) = getchar_byte bs2
      in vlog_line n (a, b, c, d) @ bin2vlogarray_from (Suc n) bs3)"
  by pat_completeness auto
termination
  by (relation "measure (length \<circ> snd)") (auto dest!: getchar_shorter [OF sym])

definition bin2vlogarray :: "u8 list \<Rightarrow> string" where
  "bin2vlogarray = bin2vlogarray_from 0"

fun vlog_missing :: "u8 list \<Rightarrow> u8 list" where
  "vlog_missing [] = []"
| "vlog_missing [a] = [255, 255, 255]"
| "vlog_missing [a, b] = [255, 255]"
| "vlog_missing [a, b, c] = [255]"
| "vlog_missing (a # b # c # d # bs) = vlog_missing bs"

lemma vlog_missing_length: "length (bs @ vlog_missing bs) mod 4 = 0"
  by (induction bs rule: vlog_missing.induct) simp_all

lemma bin2vlogarray_incomplete: "bin2vlogarray_from n bs = bin2vlogarray_from n (bs @ vlog_missing bs)"
  by (induction bs arbitrary: n rule: vlog_missing.induct) simp_all

end
