(* ===== verification/Host_Log.thy ===== *)
theory Host_Log
  imports Host C_Text
begin

section \<open>Logging and creation of the library context (host/log.c, liboptimsochost.c)\<close>

text \<open>
  The logging context is a priority and the function that gets the messages; the messages are
  collected. The macros of log.h report a message when its priority is not above the one of
  the context. Then the creation of a library context, which selects the backend, and the
  release of what the discovery has found out.
\<close>

subsection \<open>Logging\<close>

abbreviation (input) LOG_ERR :: int where "LOG_ERR \<equiv> 3"
abbreviation (input) LOG_INFO :: int where "LOG_INFO \<equiv> 6"
abbreviation (input) LOG_DEBUG :: int where "LOG_DEBUG \<equiv> 7"

datatype log_fn = LogStderr | LogCustom nat

record log_ctx =
  lg_fn :: log_fn
  lg_priority :: int
  lg_messages :: "(log_fn \<times> int \<times> string) list"

definition optimsoc_log :: "int \<Rightarrow> string \<Rightarrow> log_ctx \<Rightarrow> log_ctx" where
  "optimsoc_log priority msg c = c\<lparr>lg_messages := lg_messages c @ [(lg_fn c, priority, msg)]\<rparr>"

definition optimsoc_log_get_priority :: "log_ctx \<Rightarrow> int" where
  "optimsoc_log_get_priority c = lg_priority c"

definition optimsoc_log_set_priority :: "int \<Rightarrow> log_ctx \<Rightarrow> log_ctx" where
  "optimsoc_log_set_priority priority c = c\<lparr>lg_priority := priority\<rparr>"

definition optimsoc_log_cond :: "int \<Rightarrow> string \<Rightarrow> log_ctx \<Rightarrow> log_ctx" where
  "optimsoc_log_cond prio msg c =
     (if prio \<le> optimsoc_log_get_priority c then optimsoc_log prio msg c else c)"

text \<open>\<open>strncmp\<close> compares at most the given number of characters.\<close>

definition log_priority :: "string \<Rightarrow> int" where
  "log_priority priority =
     (let (prio, n, _) = strtol priority 10;
          rest = drop n priority
      in if rest = [] \<or> isspace (hd rest) then to_int prio
         else if take 3 priority = ''err'' then LOG_ERR
         else if take 4 priority = ''info'' then LOG_INFO
         else if take 5 priority = ''debug'' then LOG_DEBUG
         else 0)"

text \<open>\<open>env\<close> is the value of \<open>OPTIMSOC_LOG\<close> in the environment.\<close>

definition optimsoc_log_new :: "bool \<Rightarrow> string option \<Rightarrow> int \<times> log_ctx option" where
  "optimsoc_log_new got env =
     (if \<not> got then (- ENOMEM, None)
      else
        let c = \<lparr>lg_fn = LogStderr, lg_priority = LOG_ERR, lg_messages = []\<rparr>;
            c1 = (case env of None \<Rightarrow> c | Some e \<Rightarrow> c\<lparr>lg_priority := log_priority e\<rparr>)
        in (0, Some (optimsoc_log_cond LOG_DEBUG (''log_priority='' @ sdec_of (lg_priority c1)) c1)))"

definition optimsoc_log_set_log_fn :: "log_fn \<Rightarrow> log_ctx \<Rightarrow> log_ctx" where
  "optimsoc_log_set_log_fn f c =
     (let c1 = c\<lparr>lg_fn := f\<rparr> in optimsoc_log_cond LOG_INFO ''custom logging function registered'' c1)"

text \<open>The priority in the environment and the messages that it lets pass.\<close>

lemma log_priority_names:
  "log_priority ''err'' = LOG_ERR" "log_priority ''info'' = LOG_INFO" "log_priority ''debug'' = LOG_DEBUG"
  "log_priority ''7'' = 7" "log_priority ''none'' = 0"
  by code_simp+

lemma log_cond_reports:
  "(lg_fn c, prio, msg) \<in> set (lg_messages (optimsoc_log_cond prio msg c))
     \<longleftrightarrow> prio \<le> lg_priority c \<or> (lg_fn c, prio, msg) \<in> set (lg_messages c)"
  by (simp add: optimsoc_log_cond_def optimsoc_log_get_priority_def optimsoc_log_def)

subsection \<open>The library context\<close>

text \<open>
  An option is a name and, when the text has an equals sign, a value. What the functions that
  create a backend return is an argument, since they allocate and call GLIP; a value is
  compared or copied without a test, so the names that need one are told.
\<close>

type_synonym backend_option = "string \<times> string option"

fun option_values :: "string list \<Rightarrow> backend_option list \<Rightarrow> (string \<times> string) list exec" where
  "option_values needed [] = ok []"
| "option_values needed ((n, v) # os) =
     (case v of
        None \<Rightarrow> if n \<in> set needed then flt NullDeref
                else bnd (option_values needed os) (\<lambda>vs. ok ((n, '''') # vs))
      | Some v \<Rightarrow> bnd (option_values needed os) (\<lambda>vs. ok ((n, v) # vs)))"

datatype backend_id = OPTIMSOC_BACKEND_DBGNOC | OPTIMSOC_BACKEND_SIMTCP

definition optimsoc_new ::
    "bool \<Rightarrow> int \<Rightarrow> ((string \<times> string) list \<Rightarrow> int \<times> 's option) \<Rightarrow> ((string \<times> string) list \<Rightarrow> int \<times> 's option) \<Rightarrow>
     backend_id \<Rightarrow> backend_option list \<Rightarrow> (int \<times> 's option) exec" where
  "optimsoc_new got log_new dbgnoc_new simtcp_new backend options =
     (if \<not> got then ok (- ENOMEM, None)
      else if log_new < 0 then ok (log_new, None)
      else
        bnd (case backend of
               OPTIMSOC_BACKEND_DBGNOC \<Rightarrow> bnd (option_values [''conn''] options) (\<lambda>os. ok (dbgnoc_new os))
             | OPTIMSOC_BACKEND_SIMTCP \<Rightarrow> bnd (option_values [''host'', ''port''] options) (\<lambda>os. ok (simtcp_new os)))
          (\<lambda>(rv, c). if rv < 0 then ok (rv, None) else ok (0, c)))"

text \<open>The context of the library holds the logging context and the state of the backend.\<close>

record 's host_ctx =
  hc_log :: log_ctx
  hc_backend :: 's

definition optimsoc_set_log_fn :: "log_fn \<Rightarrow> 's host_ctx \<Rightarrow> 's host_ctx" where
  "optimsoc_set_log_fn f c = c\<lparr>hc_log := optimsoc_log_set_log_fn f (hc_log c)\<rparr>"

definition optimsoc_get_log_priority :: "'s host_ctx \<Rightarrow> int" where
  "optimsoc_get_log_priority c = optimsoc_log_get_priority (hc_log c)"

definition optimsoc_set_log_priority :: "int \<Rightarrow> 's host_ctx \<Rightarrow> 's host_ctx" where
  "optimsoc_set_log_priority p c = c\<lparr>hc_log := optimsoc_log_set_priority p (hc_log c)\<rparr>"

text \<open>After the priority is set, exactly the messages up to it pass, and the backend is not touched.\<close>

lemma set_priority_reports:
  "optimsoc_get_log_priority (optimsoc_set_log_priority p c) = p"
  "hc_backend (optimsoc_set_log_priority p c) = hc_backend c"
  "lg_messages (optimsoc_log_cond prio msg (hc_log (optimsoc_set_log_priority p c))) =
     lg_messages (hc_log c) @ (if prio \<le> p then [(lg_fn (hc_log c), prio, msg)] else [])"
  by (simp_all add: optimsoc_get_log_priority_def optimsoc_set_log_priority_def optimsoc_log_get_priority_def
      optimsoc_log_set_priority_def optimsoc_log_cond_def optimsoc_log_def)

text \<open>
  What is left allocated when the information on the system is freed: the entries of the
  arrays that the loops do not reach, and all those of the software trace modules. An array
  that is not there is empty.
\<close>

definition free_configs :: "nat \<Rightarrow> u32 option list \<Rightarrow> u32 option list exec" where
  "free_configs n cfg =
     (if cfg = [] then ok []
      else if length cfg < DBG_NOC_ADDR_TCM + n then flt OutOfBounds
      else ok (drop (DBG_NOC_ADDR_TCM + n) cfg))"

definition optimsoc_sysinfo_free :: "sysinfo option \<Rightarrow> u32 option list exec" where
  "optimsoc_sysinfo_free si =
     (case si of None \<Rightarrow> ok []
      | Some i \<Rightarrow>
          bnd (free_configs (length (si_modules i)) (si_itm i)) (\<lambda>l1.
          bnd (free_configs (length (si_modules i)) (si_mam i)) (\<lambda>l2.
            ok (l1 @ si_stm i @ l2))))"

text \<open>The entry of the last module is among those that are left.\<close>

lemma sysinfo_free_leaves_last:
  assumes "length (si_itm i) = length (si_modules i) + DBG_NOC_ADDR_TCM + 1"
    "length (si_mam i) = length (si_modules i) + DBG_NOC_ADDR_TCM + 1"
  shows "optimsoc_sysinfo_free (Some i) = ok (last (si_itm i) # si_stm i @ [last (si_mam i)])"
proof -
  have "drop (length xs - 1) xs = [last xs]" if "xs \<noteq> []" for xs :: "u32 option list"
    using that by (induction xs rule: rev_induct) auto
  moreover have "si_itm i \<noteq> []" "si_mam i \<noteq> []" using assms by auto
  ultimately have "drop (Suc (length (si_modules i))) (si_itm i) = [last (si_itm i)]"
    "drop (Suc (length (si_modules i))) (si_mam i) = [last (si_mam i)]"
    using assms by (metis Suc_eq_plus1 add_diff_cancel_right')+
  with \<open>si_itm i \<noteq> []\<close> \<open>si_mam i \<noteq> []\<close> show ?thesis
    using assms by (simp add: optimsoc_sysinfo_free_def free_configs_def)
qed

end
