(* ===== verification/Cli.thy ===== *)
theory Cli
  imports Host_Log
begin

section \<open>The command line client (host/liboptimsochost/src/tools/optimsoc_cli.c)\<close>

text \<open>
  The client keeps its state in global variables, a record here with the state of the library
  in it; the functions that the library calls on an event work on the same record. A \<open>FILE\<close>
  pointer is \<open>None\<close> or an index into the list of all streams opened for writing so far, with
  the text written to each. An array of characters is a list with its null characters. The
  text of the messages on the console is kept, without the numbers in it.

  What the operating system answers is a record: whether a file can be opened for writing,
  the size of a file, what is read from it, and what \<open>or32-elf-objdump\<close> prints, a list of the
  lines as \<open>fgets\<close> returns them. Allocations without a test are taken to succeed.
\<close>

subsection \<open>State\<close>

record disassembled_instruction =
  di_instr :: u32
  di_disassembly :: string
  di_funcname :: string

record itm_sink =
  sk_do_trace :: bool
  sk_add_disassembly :: bool
  sk_trace_file :: "nat option"
  sk_dis_instr_count :: nat
  sk_dis :: "disassembled_instruction option list option"

datatype console = Msg string | InteractiveHelp | Usage

record 's cli =
  c_ctx :: 's
  c_max_core_id :: u32
  c_nrm_stat_file :: "nat option"
  c_stm_trace_file :: "nat option"
  c_stm_printf_buf :: "string list option"
  c_stm_count_exit :: u32
  c_stm_exit_success :: bool
  c_itm_registered :: bool
  c_itm_sinks :: "itm_sink option list option"
  c_streams :: "(string \<times> string) list"
  c_console :: "console list"

record os =
  os_writable :: "string \<Rightarrow> bool"
  os_size :: "string \<Rightarrow> nat option"
  os_read :: "string \<Rightarrow> u8 list option"
  os_objdump :: "string \<Rightarrow> string list option"
  os_stale_errno :: bool

abbreviation (input) stm_print_width :: nat where "stm_print_width \<equiv> 72"

definition say :: "string \<Rightarrow> 's cli \<Rightarrow> 's cli" where
  "say m c = c\<lparr>c_console := c_console c @ [Msg m]\<rparr>"

definition display_interactive_help :: "'s cli \<Rightarrow> 's cli" where
  "display_interactive_help c = c\<lparr>c_console := c_console c @ [InteractiveHelp]\<rparr>"

definition display_help :: "'s cli \<Rightarrow> 's cli" where
  "display_help c = c\<lparr>c_console := c_console c @ [Usage]\<rparr>"

text \<open>Streams.\<close>

definition fopen_w :: "os \<Rightarrow> string \<Rightarrow> 's cli \<Rightarrow> nat option \<times> 's cli" where
  "fopen_w sys name c =
     (if os_writable sys name then (Some (length (c_streams c)), c\<lparr>c_streams := c_streams c @ [(name, '''')]\<rparr>)
      else (None, c))"

definition stream_put :: "nat option \<Rightarrow> string \<Rightarrow> 's cli \<Rightarrow> 's cli exec" where
  "stream_put f s c =
     (case f of None \<Rightarrow> flt NullDeref
      | Some i \<Rightarrow>
          if i < length (c_streams c)
          then ok (c\<lparr>c_streams := (c_streams c)[i := (fst (c_streams c ! i), snd (c_streams c ! i) @ s)]\<rparr>)
          else flt BadPtr)"

text \<open>A text in an array of characters ends at the first null character.\<close>

definition c_text :: "string \<Rightarrow> string exec" where
  "c_text buf = (if NUL \<in> set buf then ok (takeWhile (\<lambda>c. c \<noteq> NUL) buf) else flt OutOfBounds)"

definition strncpy_to :: "nat \<Rightarrow> string \<Rightarrow> string" where
  "strncpy_to n s = take n (takeWhile (\<lambda>c. c \<noteq> NUL) s @ replicate n NUL)"

subsection \<open>Disassembly\<close>

abbreviation (input) tab_char :: char where "tab_char \<equiv> char_of (9::nat)"

text \<open>The two formats: the label of a function, and an instruction with its address.\<close>

definition label_format :: "directive list" where
  "label_format = [SNum 16 (Some 8) False, SWhite, SChar (CHR ''<''), SRun 49 (\<lambda>c. c \<noteq> CHR ''>'')]
     @ [SChar (CHR ''>''), SChar (CHR '':''), SWhite]"

definition instr_format :: "directive list" where
  "instr_format = [SNum 16 (Some 8) True, SChar (CHR '':''), SWhite, SNum 16 None True, SWhite, SNum 16 None True,
     SWhite, SNum 16 None True, SWhite, SNum 16 None True, SWhite, SRun 49 (\<lambda>c. c \<noteq> newline_char)]"

definition instr_word :: "int \<Rightarrow> int \<Rightarrow> int \<Rightarrow> int \<Rightarrow> u32" where
  "instr_word b3 b2 b1 b0 =
     push_bit 24 (ucast (word_of_int b3 :: u8)) OR push_bit 16 (ucast (word_of_int b2 :: u8))
       OR push_bit 8 (ucast (word_of_int b1 :: u8)) OR ucast (word_of_int b0 :: u8)"

text \<open>
  The loop over the lines. \<open>funcname\<close> is an array of 50 characters, not initialised before
  the first label; its last character is set to a line feed.
\<close>

fun disassembly_lines ::
    "string list \<Rightarrow> string \<Rightarrow> nat \<Rightarrow> disassembled_instruction option list \<Rightarrow> disassembled_instruction option list exec" where
  "disassembly_lines [] funcname n instrs = ok instrs"
| "disassembly_lines (line # ls) funcname n instrs =
     (case sscanf label_format line of
        [ScanStr name] \<Rightarrow> disassembly_lines ls ((strncpy_to 50 name)[49 := newline_char]) n instrs
      | _ \<Rightarrow>
          case sscanf instr_format line of
            [ScanNum pc, ScanNum b3, ScanNum b2, ScanNum b1, ScanNum b0, ScanStr text] \<Rightarrow>
              let idx = unat (drop_bit 2 (word_of_int pc :: u32));
                  i = \<lparr>di_instr = instr_word b3 b2 b1 b0, di_disassembly = strncpy_to 50 text,
                       di_funcname = strncpy_to 50 funcname\<rparr>
              in bnd (assert_c (idx < n)) (\<lambda>_. disassembly_lines ls funcname n (instrs[idx := Some i]))
          | _ \<Rightarrow> disassembly_lines ls funcname n instrs)"

definition new_disassembly ::
    "os \<Rightarrow> string \<Rightarrow> bool \<Rightarrow> string \<Rightarrow> (int \<times> (disassembled_instruction option list \<times> nat) option) exec" where
  "new_disassembly sys funcname0 got elf_file_path =
     (case os_size sys elf_file_path of None \<Rightarrow> ok (-1, None)
      | Some sz \<Rightarrow>
          let instr_count = sz div 4 in
          if \<not> got then ok (- ENOMEM, None)
          else case os_objdump sys (take 254 (''or32-elf-objdump -d '' @ elf_file_path)) of
                 None \<Rightarrow> ok (-1, None)
               | Some ls \<Rightarrow>
                   bnd (disassembly_lines ls funcname0 instr_count (replicate instr_count None)) (\<lambda>instrs.
                     ok (0, Some (instrs, instr_count))))"

text \<open>The instructions are freed, not their array; the pointer to it is reset in a copy.\<close>

definition free_disassembly ::
    "disassembled_instruction option list option \<Rightarrow> nat \<Rightarrow> disassembled_instruction option list option exec" where
  "free_disassembly dis n =
     (case dis of None \<Rightarrow> ok None
      | Some is \<Rightarrow> if length is < n then flt OutOfBounds else ok (Some (replicate n None @ drop n is)))"

subsection \<open>Options of a backend\<close>

definition option_of :: "string \<Rightarrow> backend_option" where
  "option_of opt =
     (if CHR ''='' \<in> set opt
      then (takeWhile (\<lambda>c. c \<noteq> CHR ''='') opt, Some (drop 1 (dropWhile (\<lambda>c. c \<noteq> CHR ''='') opt)))
      else (opt, None))"

text \<open>The tokens are counted on a copy, then split off the text.\<close>

fun fill_options :: "nat \<Rightarrow> string \<Rightarrow> backend_option list" where
  "fill_options 0 s = []"
| "fill_options (Suc n) s =
     (case strtok [CHR '',''] s of None \<Rightarrow> [] | Some (opt, rest) \<Rightarrow> option_of opt # fill_options n rest)"

definition parse_options :: "string \<Rightarrow> backend_option list" where
  "parse_options str =
     (let count = length (strtok_all [CHR '',''] str) in if count = 0 then [] else fill_options count str)"

subsection \<open>Connecting and disconnecting\<close>

text \<open>An exit of the process with a status is \<open>Inl\<close>.\<close>

type_synonym 'a or_exit = "(int + 'a) exec"

definition bndx :: "'a or_exit \<Rightarrow> ('a \<Rightarrow> 'b or_exit) \<Rightarrow> 'b or_exit" where
  "bndx r f = bnd r (\<lambda>x. case x of Inl e \<Rightarrow> ok (Inl e) | Inr y \<Rightarrow> f y)"

text \<open>
  The loop that looks for the highest number of a core. The pointer to a configuration keeps
  its last value when a call fails, and has none before the first.
\<close>

type_synonym config_ptr = "u32 option option"

definition config_step :: "config_ptr \<Rightarrow> int \<times> u32 option \<times> 's \<Rightarrow> u32 \<Rightarrow> (u32 \<times> config_ptr \<times> 's) exec" where
  "config_step p r m =
     (case r of (rv, cfg, s) \<Rightarrow>
        case (if rv < 0 then p else Some cfg) of
          None \<Rightarrow> flt Uninit
        | Some None \<Rightarrow> flt NullDeref
        | Some (Some core_id) \<Rightarrow> ok (if m < core_id then core_id else m, Some (Some core_id), s))"

fun max_core_loop :: "'s backend \<Rightarrow> dbg_module list \<Rightarrow> config_ptr \<Rightarrow> config_ptr \<Rightarrow> u32 \<Rightarrow> 's \<Rightarrow> (u32 \<times> 's) exec" where
  "max_core_loop be [] pi ps m s = ok (m, s)"
| "max_core_loop be (d # ds) pi ps m s =
     (if dm_type d = OPTIMSOC_MODULE_TYPE_ITM then
        bnd (optimsoc_itm_get_config be d s) (\<lambda>r. bnd (config_step pi r m) (\<lambda>(m1, pi1, s1).
          max_core_loop be ds pi1 ps m1 s1))
      else if dm_type d = 5 then
        bnd (optimsoc_stm_get_config be d s) (\<lambda>r. bnd (config_step ps r m) (\<lambda>(m1, ps1, s1).
          max_core_loop be ds pi ps1 m1 s1))
      else max_core_loop be ds pi ps m s)"

text \<open>The messages in front of an exit are left out.\<close>

definition must :: "(int \<times> 's) exec \<Rightarrow> 's or_exit" where
  "must r = bnd r (\<lambda>(rv, s). if rv < 0 then ok (Inl 1) else ok (Inr s))"

definition connect :: "'s backend \<Rightarrow> (int \<times> 's option) exec \<Rightarrow> ('s \<Rightarrow> 's cli) \<Rightarrow> 's cli or_exit" where
  "connect be created start =
     bndx (bnd created (\<lambda>(rv, ctx).
             if rv < 0 then ok (Inl 1) else case ctx of None \<Rightarrow> flt NullDeref | Some s \<Rightarrow> ok (Inr s))) (\<lambda>s.
     bndx (must (optimsoc_connect be s)) (\<lambda>s1.
     bndx (must (optimsoc_reset be s1)) (\<lambda>s2.
     bndx (must (optimsoc_discover_system be s2)) (\<lambda>s3.
       case snd (optimsoc_get_modules be s3) of None \<Rightarrow> flt Uninit
       | Some modules \<Rightarrow>
           bnd (max_core_loop be modules None None 0 s3) (\<lambda>(m, s4).
             let c = start s4
             in ok (Inr (c\<lparr>c_max_core_id := m, c_itm_sinks := Some (replicate (unat (m + 1)) None)\<rparr>)))))))"

fun close_sinks :: "nat \<Rightarrow> itm_sink option list \<Rightarrow> unit exec" where
  "close_sinks 0 sinks = ok ()"
| "close_sinks (Suc n) [] = flt OutOfBounds"
| "close_sinks (Suc n) (s # ss) =
     bnd (case s of None \<Rightarrow> ok None | Some k \<Rightarrow> free_disassembly (sk_dis k) (sk_dis_instr_count k)) (\<lambda>_.
       close_sinks n ss)"

text \<open>
  The context is gone when it is freed; the state of the library in the result is the one at
  that moment.
\<close>

definition disconnect :: "'s backend \<Rightarrow> 's cli \<Rightarrow> (int \<times> 's cli) exec" where
  "disconnect be c =
     bnd (optimsoc_disconnect be (c_ctx c)) (\<lambda>(rv, s1).
     let c1 = say ''Disconnecting from system...'' (c\<lparr>c_ctx := s1\<rparr>) in
     if rv < 0 then ok (rv, c1)
     else
       bnd (optimsoc_free be (Some s1)) (\<lambda>(rv, s2).
       let c2 = (case s2 of None \<Rightarrow> c1 | Some s \<Rightarrow> c1\<lparr>c_ctx := s\<rparr>) in
       if rv < 0 then ok (rv, c2)
       else
         bnd (case c_itm_sinks c2 of None \<Rightarrow> ok () | Some ss \<Rightarrow> close_sinks (unat (c_max_core_id c2 + 1)) ss) (\<lambda>_.
           ok (0, say '' done'' (c2\<lparr>c_nrm_stat_file := None, c_stm_trace_file := None, c_itm_sinks := None,
                                     c_stm_printf_buf := None\<rparr>)))))"

subsection \<open>Memories\<close>

text \<open>The file is read into a buffer of the size it had, in blocks; the buffer is cleared first.\<close>

definition read_file :: "os \<Rightarrow> string \<Rightarrow> u8 list option exec" where
  "read_file sys path =
     (case os_size sys path of None \<Rightarrow> ok None
      | Some sz \<Rightarrow>
          case os_read sys path of None \<Rightarrow> ok None
          | Some bs \<Rightarrow>
              if sz < length bs then flt OutOfBounds
              else ok (Some (bs @ replicate (sz - length bs) 0)))"

definition mem_write :: "os \<Rightarrow> 's backend \<Rightarrow> u32 \<Rightarrow> string \<Rightarrow> u32 \<Rightarrow> 's cli \<Rightarrow> (int \<times> 's cli) exec" where
  "mem_write sys be memory_id path base_address c =
     bnd (read_file sys path) (\<lambda>d.
       case d of None \<Rightarrow> ok (-1, say ''Unable to stat or open file'' c)
       | Some data \<Rightarrow>
           bnd (optimsoc_mem_write be memory_id base_address data (word_of_nat (length data)) (c_ctx c)) (\<lambda>(rv, s).
             let c1 = c\<lparr>c_ctx := s\<rparr>
             in if rv < 0 then ok (-1, say ''optimsoc_mem_write() not successful'' c1) else ok (0, c1)))"

definition mem_init :: "os \<Rightarrow> 's backend \<Rightarrow> u32 list \<Rightarrow> string \<Rightarrow> 's cli \<Rightarrow> (int \<times> 's cli) exec" where
  "mem_init sys be memory_ids path c =
     bnd (read_file sys path) (\<lambda>d.
       case d of None \<Rightarrow> ok (-1, say ''Unable to stat or open file'' c)
       | Some data \<Rightarrow>
           bnd (optimsoc_mem_init be memory_ids data (word_of_nat (length data)) (c_ctx c)) (\<lambda>(rv, s).
             let c1 = c\<lparr>c_ctx := s\<rparr>
             in if rv < 0 then ok (-1, say ''optimsoc_mem_init() not successful'' c1)
                else ok (0, say ''Initialization successful!'' c1)))"

subsection \<open>Events\<close>

text \<open>Numbers as the formats print them: \<open>%d\<close> of an unsigned word, \<open>%04d\<close> of a number.\<close>

definition d32 :: "u32 \<Rightarrow> string" where
  "d32 w = sdec_of (sint w)"

definition d04 :: "int \<Rightarrow> string" where
  "d04 i = (if i < 0 then CHR ''-'' # decw 3 (nat (- i)) else decw 4 (nat i))"

definition itm_prefix :: "u32 \<Rightarrow> u32 \<Rightarrow> u32 \<Rightarrow> int \<Rightarrow> string" where
  "itm_prefix core_id timestamp pc count =
     ''0x'' @ hexw 2 (unat core_id) @ '' 0x'' @ hexw 8 (unat timestamp) @ '' 0x'' @ hexw 8 (unat pc) @ '' '' @ d04 count"

fun itm_dis_lines :: "nat \<Rightarrow> u32 \<Rightarrow> u32 \<Rightarrow> u32 \<Rightarrow> int \<Rightarrow> itm_sink \<Rightarrow> 's cli \<Rightarrow> 's cli exec" where
  "itm_dis_lines 0 core_id timestamp pc_word count sink c = ok c"
| "itm_dis_lines (Suc n) core_id timestamp pc_word count sink c =
     (case sk_dis sink of None \<Rightarrow> flt NullDeref
      | Some dis \<Rightarrow>
          if length dis \<le> unat pc_word then flt OutOfBounds
          else case dis ! unat pc_word of None \<Rightarrow> flt NullDeref
          | Some i \<Rightarrow>
              bnd (c_text (di_disassembly i)) (\<lambda>d. bnd (c_text (di_funcname i)) (\<lambda>f.
              bnd (stream_put (sk_trace_file sink)
                     (itm_prefix core_id timestamp (push_bit 2 pc_word) count @ '' '' @ left_to 50 d @ '' '' @ f
                        @ [newline_char]) c) (\<lambda>c1.
                itm_dis_lines n core_id timestamp (pc_word + 1) count sink c1))))"

definition write_itm_trace_to_file :: "u32 \<Rightarrow> u32 \<Rightarrow> u32 \<Rightarrow> int \<Rightarrow> 's cli \<Rightarrow> 's cli exec" where
  "write_itm_trace_to_file core_id timestamp pc count c =
     (if c_max_core_id c \<le> core_id then ok c
      else case c_itm_sinks c of None \<Rightarrow> flt NullDeref
      | Some sinks \<Rightarrow>
          if length sinks \<le> unat core_id then flt OutOfBounds
          else case sinks ! unat core_id of None \<Rightarrow> ok c
          | Some sink \<Rightarrow>
              if sk_add_disassembly sink then
                if sk_dis_instr_count sink \<le> unat (drop_bit 2 pc) then ok (say ''No disassembly for PC available.'' c)
                else itm_dis_lines (nat count) core_id timestamp (drop_bit 2 pc) count sink c
              else stream_put (sk_trace_file sink) (itm_prefix core_id timestamp pc count @ [newline_char]) c)"

text \<open>
  The text of a core is collected in an array of 73 characters up to a line feed or up to its
  end, which three dots replace.
\<close>

fun first_nul :: "nat \<Rightarrow> string \<Rightarrow> nat option" where
  "first_nul 0 buf = None"
| "first_nul (Suc n) [] = None"
| "first_nul (Suc n) (x # xs) = (if x = NUL then Some 0 else map_option Suc (first_nul n xs))"

definition stm_add_char :: "u32 \<Rightarrow> string \<Rightarrow> string \<times> bool" where
  "stm_add_char value buf =
     (case first_nul stm_print_width buf of None \<Rightarrow> (buf, False)
      | Some i \<Rightarrow>
          let b1 = buf[i := char_of (unat value)]
          in if i = stm_print_width - 4
             then (b1[stm_print_width - 3 := CHR ''.'', stm_print_width - 2 := CHR ''.'',
                      stm_print_width - 1 := CHR ''.'', stm_print_width := NUL], True)
             else (b1[i + 1 := NUL], False))"

definition stm_stamp :: "u32 \<Rightarrow> u32 \<Rightarrow> string" where
  "stm_stamp timestamp core_id = ''['' @ d32 timestamp @ '', '' @ d32 core_id @ '']''"

definition write_stm_trace_to_file :: "u32 \<Rightarrow> u32 \<Rightarrow> u16 \<Rightarrow> u32 \<Rightarrow> 's cli \<Rightarrow> 's cli exec" where
  "write_stm_trace_to_file core_id timestamp eid value c =
     (if eid = 1 then
        let c1 = c\<lparr>c_stm_count_exit := c_stm_count_exit c + 1,
                   c_stm_exit_success := c_stm_exit_success c \<and> value = 0\<rparr>
        in bnd (stream_put (c_stm_trace_file c1)
                  (stm_stamp timestamp core_id @ '' [Program terminated.]'' @ [newline_char]) c1) (\<lambda>c2.
             ok (if c_stm_count_exit c2 = c_max_core_id c2 + 1
                 then say ''Software on all cores has terminated'' c2 else c2))
      else if eid = 4 then
        (case c_stm_printf_buf c of None \<Rightarrow> flt NullDeref
         | Some bufs \<Rightarrow>
             if length bufs \<le> unat core_id then flt OutOfBounds
             else
               let buf = bufs ! unat core_id;
                   (b1, do_print) = (if value = 10 then (buf, True) else stm_add_char value buf)
               in if do_print then
                    bnd (c_text b1) (\<lambda>t.
                    bnd (stream_put (c_stm_trace_file c) (stm_stamp timestamp core_id @ '' '' @ t @ [newline_char]) c) (\<lambda>c1.
                      ok (c1\<lparr>c_stm_printf_buf := Some (bufs[unat core_id := b1[0 := NUL]])\<rparr>)))
                  else ok (c\<lparr>c_stm_printf_buf := Some (bufs[unat core_id := b1])\<rparr>))
      else
        stream_put (c_stm_trace_file c)
          (stm_stamp timestamp core_id @ '' Event 0x'' @ hex_of (unat eid) @ '': 0x'' @ hex_of (unat value) @ [newline_char]) c)"

definition write_noc_stats_to_file :: "int \<Rightarrow> u32 \<Rightarrow> u8 list \<Rightarrow> 's cli \<Rightarrow> 's cli exec" where
  "write_noc_stats_to_file router_id timestamp link_flit_count c =
     stream_put (c_nrm_stat_file c)
       (''0x'' @ hexw 2 (unat (word_of_int router_id :: u32)) @ '' 0x'' @ hexw 8 (unat timestamp)
          @ concat (map (\<lambda>n. '' '' @ decw 3 (unat n)) link_flit_count) @ [newline_char]) c"

text \<open>The functions the library calls.\<close>

fun cli_event :: "dbg_event \<Rightarrow> 's cli \<Rightarrow> 's cli exec" where
  "cli_event (ItmEvent core_id timestamp pc count) c = write_itm_trace_to_file core_id timestamp pc count c"
| "cli_event (NrmEvent router timestamp links) c = write_noc_stats_to_file router timestamp links c"
| "cli_event (StmEvent core_id timestamp eid value) c = write_stm_trace_to_file core_id timestamp eid value c"

subsection \<open>Logging\<close>

definition with_ctx :: "(int \<times> 's) exec \<Rightarrow> 's cli \<Rightarrow> (int \<times> 's cli) exec" where
  "with_ctx r c = bnd r (\<lambda>(rv, s). ok (rv, c\<lparr>c_ctx := s\<rparr>))"

definition fresh_sink :: itm_sink where
  "fresh_sink = \<lparr>sk_do_trace = False, sk_add_disassembly = False, sk_trace_file = None, sk_dis_instr_count = 0, sk_dis = None\<rparr>"

definition reuse_sink :: "itm_sink option \<Rightarrow> itm_sink exec" where
  "reuse_sink s =
     (case s of None \<Rightarrow> ok fresh_sink
      | Some k \<Rightarrow>
          bnd (free_disassembly (sk_dis k) (sk_dis_instr_count k)) (\<lambda>dis.
            ok (k\<lparr>sk_trace_file := None, sk_dis := dis, sk_dis_instr_count := 0\<rparr>)))"

definition register_itm_trace ::
    "os \<Rightarrow> 's backend \<Rightarrow> string \<Rightarrow> bool \<Rightarrow> int \<Rightarrow> string \<Rightarrow> bool \<Rightarrow> string option \<Rightarrow> 's cli \<Rightarrow> (int \<times> 's cli) exec" where
  "register_itm_trace sys be funcname0 got core_id trace_file_path add_disassembly elf_file_path c =
     (case c_itm_sinks c of None \<Rightarrow> flt NullDeref
      | Some sinks \<Rightarrow>
          if core_id < 0 \<or> int (length sinks) \<le> core_id then flt OutOfBounds
          else
            bnd (reuse_sink (sinks ! nat core_id)) (\<lambda>sink.
            let put = (\<lambda>k c. c\<lparr>c_itm_sinks := Some (sinks[nat core_id := Some k])\<rparr>);
                (f, c1) = fopen_w sys trace_file_path c
            in if f = None then ok (-1, say ''Opening instruction trace file failed'' (put sink c1))
               else
                 let sink1 = sink\<lparr>sk_trace_file := f, sk_do_trace := True\<rparr>
                 in bnd (case elf_file_path of
                           Some elf \<Rightarrow>
                             if add_disassembly then
                               bnd (new_disassembly sys funcname0 got elf) (\<lambda>(rv, d).
                                 ok (case d of None \<Rightarrow> sink1\<lparr>sk_add_disassembly := False\<rparr>
                                   | Some (is, n) \<Rightarrow> sink1\<lparr>sk_add_disassembly := True, sk_dis := Some is, sk_dis_instr_count := n\<rparr>))
                             else ok (sink1\<lparr>sk_add_disassembly := False, sk_dis := None, sk_dis_instr_count := 0\<rparr>)
                         | None \<Rightarrow> ok (sink1\<lparr>sk_add_disassembly := False, sk_dis := None, sk_dis_instr_count := 0\<rparr>)) (\<lambda>sink2.
                    let c2 = put sink2 c1
                    in bnd (if c_itm_registered c2 then ok c2
                            else bnd (optimsoc_itm_register_callback be True (c_ctx c2)) (\<lambda>(_, s).
                                   ok (c2\<lparr>c_ctx := s, c_itm_registered := True\<rparr>))) (\<lambda>c3.
                         ok (0, say ''Starting to log instruction traces'' c3)))))"

definition log_stm_trace :: "os \<Rightarrow> 's backend \<Rightarrow> string \<Rightarrow> 's cli \<Rightarrow> (int \<times> 's cli) exec" where
  "log_stm_trace sys be filename c =
     (let (f, c1) = fopen_w sys filename c;
          c2 = c1\<lparr>c_stm_trace_file := f\<rparr>
      in if f = None then ok (-1, say ''Opening STM trace file failed'' c2)
         else
           let bufs = replicate (unat (c_max_core_id c2 + 1)) (replicate (stm_print_width + 1) NUL)
           in bnd (optimsoc_stm_register_callback be True (c_ctx c2)) (\<lambda>(_, s).
                ok (0, say ''Starting to log STM trace'' (c2\<lparr>c_stm_printf_buf := Some bufs, c_ctx := s\<rparr>))))"

definition log_noc_stats :: "os \<Rightarrow> 's backend \<Rightarrow> string \<Rightarrow> 's cli \<Rightarrow> (int \<times> 's cli) exec" where
  "log_noc_stats sys be filename c =
     (let (f, c1) = fopen_w sys filename c;
          c2 = c1\<lparr>c_nrm_stat_file := f\<rparr>
      in if f = None then ok (-1, say ''Opening NRM statistics file failed'' c2)
         else
           bnd (optimsoc_nrm_register_callback be True (c_ctx c2)) (\<lambda>(_, s).
             ok (0, say ''Starting to log NoC statistics'' (c2\<lparr>c_ctx := s\<rparr>))))"

text \<open>The processors stay stalled when the statistics cannot be read.\<close>

definition display_clkstat :: "'s backend \<Rightarrow> 's cli \<Rightarrow> 's cli exec" where
  "display_clkstat be c =
     bnd (optimsoc_cpu_stall be True (c_ctx c)) (\<lambda>(_, s1).
     bnd (optimsoc_read_clkstats be s1) (\<lambda>(rv, r, s2).
       if rv < 0 then ok (say ''Unable to read clock statistics from system'' (c\<lparr>c_ctx := s2\<rparr>))
       else
         bnd (optimsoc_cpu_stall be False s2) (\<lambda>(_, s3).
           ok (say ''Clock was halted'' (c\<lparr>c_ctx := s3\<rparr>)))))"

subsection \<open>Commands\<close>

text \<open>
  A command is a line; \<open>rest\<close> is the text that the calls of \<open>strtok\<close> go on with. A missing or
  invalid argument is reported, with the help.
\<close>

definition token :: "string \<Rightarrow> (string \<times> string) option" where
  "token s = strtok '' '' s"

definition complain :: "string \<Rightarrow> 's cli \<Rightarrow> 's cli" where
  "complain m c = display_interactive_help (say m c)"

text \<open>A number with a base: \<open>None\<close> when there is none or it is out of range.\<close>

definition number_arg :: "nat \<Rightarrow> string \<Rightarrow> int option" where
  "number_arg base s =
     (let (v, n, erange) = strtol s base in if n = 0 \<or> erange then None else Some (to_int v))"

definition cmd_log_raw :: "os \<Rightarrow> 's backend \<Rightarrow> string \<Rightarrow> 's cli \<Rightarrow> 's cli exec" where
  "cmd_log_raw sys be rest c =
     (case token rest of None \<Rightarrow> ok (complain ''CORE_ID argument missing.'' c)
      | Some (tmp, rest1) \<Rightarrow>
          case number_arg 10 tmp of None \<Rightarrow> ok (complain ''CORE_ID argument invalid.'' c)
          | Some core_id \<Rightarrow>
              case token rest1 of None \<Rightarrow> ok (complain ''OUT_FILE argument missing.'' c)
              | Some (file, _) \<Rightarrow>
                  bnd (register_itm_trace sys be '''' True core_id file False None c) (\<lambda>(_, c1). ok c1))"

definition cmd_log_dis :: "os \<Rightarrow> 's backend \<Rightarrow> string \<Rightarrow> bool \<Rightarrow> string \<Rightarrow> 's cli \<Rightarrow> 's cli exec" where
  "cmd_log_dis sys be funcname0 got rest c =
     (case token rest of None \<Rightarrow> ok (complain ''CORE_ID argument missing.'' c)
      | Some (tmp, rest1) \<Rightarrow>
          case number_arg 10 tmp of None \<Rightarrow> ok (complain ''CORE_ID argument invalid.'' c)
          | Some core_id \<Rightarrow>
              case token rest1 of None \<Rightarrow> ok (complain ''ELF_FILE argument missing.'' c)
              | Some (elf, rest2) \<Rightarrow>
                  case token rest2 of None \<Rightarrow> ok (complain ''OUT_FILE argument missing.'' c)
                  | Some (file, _) \<Rightarrow>
                      bnd (register_itm_trace sys be funcname0 got core_id file True (Some elf) c) (\<lambda>(_, c1). ok c1))"

definition cmd_log_stm :: "os \<Rightarrow> 's backend \<Rightarrow> string \<Rightarrow> 's cli \<Rightarrow> 's cli exec" where
  "cmd_log_stm sys be rest c =
     (case token rest of None \<Rightarrow> ok (complain ''FILE argument missing.'' c)
      | Some (tmp, _) \<Rightarrow> bnd (log_stm_trace sys be tmp c) (\<lambda>(_, c1). ok c1))"

definition cmd_log_noc :: "os \<Rightarrow> 's backend \<Rightarrow> string \<Rightarrow> 's cli \<Rightarrow> 's cli exec" where
  "cmd_log_noc sys be rest c =
     (case token rest of None \<Rightarrow> ok (complain ''FILE argument missing.'' c)
      | Some (tmp, _) \<Rightarrow> bnd (log_noc_stats sys be tmp c) (\<lambda>(_, c1). ok c1))"

definition cmd_mem_write :: "os \<Rightarrow> 's backend \<Rightarrow> string \<Rightarrow> 's cli \<Rightarrow> 's cli exec" where
  "cmd_mem_write sys be rest c =
     (case token rest of None \<Rightarrow> ok (complain ''FILE argument missing.'' c)
      | Some (file, rest1) \<Rightarrow>
          case token rest1 of None \<Rightarrow> ok (complain ''MEMORY_ID argument missing.'' c)
          | Some (tmp, rest2) \<Rightarrow>
              case number_arg 10 tmp of None \<Rightarrow> ok (complain ''MEMORY_ID argument invalid.'' c)
              | Some memory_id \<Rightarrow>
                  case (case token rest2 of None \<Rightarrow> Some 0 | Some (tmp, _) \<Rightarrow> number_arg 16 tmp) of
                    None \<Rightarrow> ok (complain ''BASE_ADDR argument invalid.'' c)
                  | Some base_addr \<Rightarrow>
                      bnd (mem_write sys be (word_of_int memory_id) file (word_of_int base_addr) c) (\<lambda>(_, c1). ok c1))"

text \<open>
  The loop over the argument of \<open>mem_init\<close>. At a dash the text is cut, and its length, which
  the loop condition computes anew, ends the loop: \<open>Some (Some p)\<close> is a range with its dash
  at \<open>p\<close>, \<open>Some None\<close> a single number, \<open>None\<close> an invalid character.
\<close>

fun memory_id_scan :: "nat \<Rightarrow> string \<Rightarrow> nat option option" where
  "memory_id_scan cpos [] = Some None"
| "memory_id_scan cpos (x # xs) =
     (if x = CHR ''-'' then Some (Some cpos) else if isdigit x then memory_id_scan (cpos + 1) xs else None)"

text \<open>
  In the branch of a range \<open>errno\<close> is not reset before it is tested; the test for a missing
  end compares with the wrong pointer and never holds. A count that does not fit in an
  \<open>int\<close> overflows.
\<close>

definition memory_range :: "bool \<Rightarrow> string \<Rightarrow> nat \<Rightarrow> (string + int \<times> int) exec" where
  "memory_range stale_errno tmp p =
     (let (v1, n1, e1) = strtol (take p tmp) 10 in
      if n1 = 0 \<or> stale_errno \<or> e1 then ok (Inl ''Start of range is not a number.'')
      else
        let (v2, n2, e2) = strtol (drop (p + 1) tmp) 10 in
        if e2 then ok (Inl ''End of range is not a number.'')
        else if to_int v2 < to_int v1 then ok (Inl ''Range end smaller than range start!.'')
        else if 2 ^ 31 \<le> to_int v2 - to_int v1 + 1 \<or> to_int v2 = 2 ^ 31 - 1 then flt OutOfBounds
        else ok (Inr (to_int v1, to_int v2)))"

definition cmd_mem_init :: "os \<Rightarrow> 's backend \<Rightarrow> string \<Rightarrow> 's cli \<Rightarrow> 's cli exec" where
  "cmd_mem_init sys be rest c =
     (case token rest of None \<Rightarrow> ok (complain ''FILE argument missing.'' c)
      | Some (file, rest1) \<Rightarrow>
          case token rest1 of None \<Rightarrow> ok (complain ''MEMORY_ID argument missing.'' c)
          | Some (tmp, _) \<Rightarrow>
              case memory_id_scan 0 tmp of None \<Rightarrow> ok (complain ''Unable to parse MEMORY_ID argument. Invalid character'' c)
              | Some None \<Rightarrow>
                  (case number_arg 10 tmp of None \<Rightarrow> ok (complain ''Unable to parse MEMORY_ID argument. Not a number.'' c)
                   | Some memory_id \<Rightarrow> bnd (mem_init sys be [word_of_int memory_id] file c) (\<lambda>(_, c1). ok c1))
              | Some (Some p) \<Rightarrow>
                  bnd (memory_range (os_stale_errno sys) tmp p) (\<lambda>r.
                    case r of Inl m \<Rightarrow> ok (complain m c)
                    | Inr (a, b) \<Rightarrow> bnd (mem_init sys be (map word_of_int [a..b]) file c) (\<lambda>(_, c1). ok c1)))"

definition cmd_nrm_interval :: "'s backend \<Rightarrow> string \<Rightarrow> 's cli \<Rightarrow> 's cli exec" where
  "cmd_nrm_interval be rest c =
     (case token rest of None \<Rightarrow> ok (complain ''SAMPLE_INTERVAL argument missing.'' c)
      | Some (tmp, _) \<Rightarrow>
          case number_arg 10 tmp of None \<Rightarrow> ok (complain ''SAMPLE_INTERVAL argument invalid.'' c)
          | Some sample_interval \<Rightarrow>
              bnd (with_ctx (optimsoc_nrm_set_sample_interval be sample_interval (c_ctx c)) c) (\<lambda>(_, c1). ok c1))"

text \<open>
  The client is built without Python here, so running a script only prints a message. The
  test of the argument of \<open>exec\<close> looks at the option of the command line instead.
\<close>

definition execscript :: "string option \<Rightarrow> 's cli \<Rightarrow> 's cli" where
  "execscript scriptname c = say ''EXEC no python scripting compiled.'' c"

definition cmd_exec :: "string option \<Rightarrow> string \<Rightarrow> 's cli \<Rightarrow> 's cli exec" where
  "cmd_exec script rest c =
     (case script of None \<Rightarrow> ok (complain ''EXEC script missing.'' c)
      | Some _ \<Rightarrow> ok (execscript (map_option fst (token rest)) c))"

record settings =
  st_script :: "string option"
  st_funcname0 :: string
  st_got :: bool

text \<open>One line. The result says whether the loop ends.\<close>

definition cli_command :: "os \<Rightarrow> 's backend \<Rightarrow> settings \<Rightarrow> string \<Rightarrow> 's cli \<Rightarrow> (bool \<times> 's cli) exec" where
  "cli_command sys be st line c =
     (case token line of None \<Rightarrow> ok (False, c)
      | Some (cmd, rest) \<Rightarrow>
          let on = (\<lambda>r. bnd r (\<lambda>c1. ok (False, c1)));
              call = (\<lambda>r. bnd (with_ctx r c) (\<lambda>(_, c1). ok (False, c1)))
          in if cmd = ''quit'' then bnd (disconnect be c) (\<lambda>(_, c1). ok (True, c1))
             else if cmd = ''start'' then call (optimsoc_cpu_start be (c_ctx c))
             else if cmd = ''cpureset'' then call (optimsoc_cpu_reset be (c_ctx c))
             else if cmd = ''reset'' then call (optimsoc_reset be (c_ctx c))
             else if cmd = ''clkstat'' then on (display_clkstat be c)
             else if cmd = ''log_raw_instruction_trace'' then on (cmd_log_raw sys be rest c)
             else if cmd = ''log_dis_instruction_trace'' then on (cmd_log_dis sys be (st_funcname0 st) (st_got st) rest c)
             else if cmd = ''log_stm_trace'' then on (cmd_log_stm sys be rest c)
             else if cmd = ''log_noc_stats'' then on (cmd_log_noc sys be rest c)
             else if cmd = ''mem_write'' then on (cmd_mem_write sys be rest c)
             else if cmd = ''mem_init'' then on (cmd_mem_init sys be rest c)
             else if cmd = ''nrm_set_sample_interval'' then on (cmd_nrm_interval be rest c)
             else if cmd = ''exec'' then on (cmd_exec (st_script st) rest c)
             else ok (False, complain ''Unknown command'' c))"

text \<open>
  What happens while the loop runs: a line of the user, which is none at the end of the input,
  or an event from the system.
\<close>

datatype input = Line string | EndOfInput | Event dbg_event

fun interactive :: "os \<Rightarrow> 's backend \<Rightarrow> settings \<Rightarrow> input list \<Rightarrow> 's cli \<Rightarrow> (bool \<times> 's cli) exec" where
  "interactive sys be st [] c = ok (False, c)"
| "interactive sys be st (Line l # is) c =
     bnd (cli_command sys be st l c) (\<lambda>(stop, c1). if stop then ok (True, c1) else interactive sys be st is c1)"
| "interactive sys be st (EndOfInput # is) c = flt NullDeref"
| "interactive sys be st (Event e # is) c = bnd (cli_event e c) (interactive sys be st is)"

subsection \<open>The automatic mode and the program\<close>

text \<open>
  The program polls two global variables that the receiving thread changes. The list holds
  the polls and the events in the order in which they happen; at its end the program still
  waits. The result is the exit status.
\<close>

datatype auto_step = Poll | Arrives dbg_event

fun auto_wait :: "auto_step list \<Rightarrow> 's cli \<Rightarrow> (int option \<times> 's cli) exec" where
  "auto_wait [] c = ok (None, c)"
| "auto_wait (Poll # ss) c =
     (if c_stm_count_exit c = c_max_core_id c + 1 then ok (Some (if c_stm_exit_success c then 0 else 1), c)
      else auto_wait ss c)"
| "auto_wait (Arrives e # ss) c = bnd (cli_event e c) (auto_wait ss)"

definition auto_mode :: "os \<Rightarrow> 's backend \<Rightarrow> auto_step list \<Rightarrow> 's cli \<Rightarrow> (int option \<times> 's cli) exec" where
  "auto_mode sys be ss c =
     bnd (log_stm_trace sys be ''strace'' c) (\<lambda>(_, c1).
     bnd (with_ctx (optimsoc_cpu_start be (c_ctx c1)) (say ''Start system'' c1)) (\<lambda>(_, c2).
       auto_wait ss c2))"

text \<open>The options as \<open>getopt_long\<close> returns them: the short name and the argument.\<close>

record cli_args =
  a_backend :: backend_id
  a_options :: "backend_option list"
  a_interactive :: bool
  a_script :: "string option"
  a_auto :: bool

definition cli_args_start :: cli_args where
  "cli_args_start = \<lparr>a_backend = OPTIMSOC_BACKEND_DBGNOC, a_options = [], a_interactive = False, a_script = None, a_auto = False\<rparr>"

text \<open>\<open>Inl\<close> is an exit with a status. A later text of options replaces the ones before.\<close>

fun cli_options :: "(char \<times> string) list \<Rightarrow> cli_args \<Rightarrow> int + cli_args" where
  "cli_options [] a = Inr a"
| "cli_options ((c, optarg) # os) a =
     (if c = CHR ''b'' then
        cli_options os
          (if optarg = ''dbgnoc'' then a\<lparr>a_backend := OPTIMSOC_BACKEND_DBGNOC\<rparr>
           else if optarg = ''simtcp'' then a\<lparr>a_backend := OPTIMSOC_BACKEND_SIMTCP\<rparr> else a)
      else if c = CHR ''o'' then cli_options os (a\<lparr>a_options := parse_options optarg\<rparr>)
      else if c = CHR ''i'' then cli_options os (a\<lparr>a_interactive := True\<rparr>)
      else if c = CHR ''s'' then cli_options os (a\<lparr>a_script := Some optarg\<rparr>)
      else if c = CHR ''a'' then cli_options os (a\<lparr>a_auto := True\<rparr>)
      else if c = CHR ''v'' then Inl 0
      else if c = CHR ''h'' then Inl 0
      else Inl 1)"

definition cli_start :: "'s \<Rightarrow> 's cli" where
  "cli_start s =
     \<lparr>c_ctx = s, c_max_core_id = 0, c_nrm_stat_file = None, c_stm_trace_file = None, c_stm_printf_buf = None,
      c_stm_count_exit = 0, c_stm_exit_success = True, c_itm_registered = False, c_itm_sinks = None, c_streams = [],
      c_console = [Msg ''Connected to system.'']\<rparr>"

text \<open>
  The whole program up to its exit status, none while it waits. \<open>created\<close> is what
  \<open>optimsoc_new\<close> returns for a backend and its options. Script and interactive mode together
  are reported, and the interactive mode is entered.
\<close>

definition cli_main ::
    "os \<Rightarrow> 's backend \<Rightarrow> (backend_id \<Rightarrow> backend_option list \<Rightarrow> (int \<times> 's option) exec) \<Rightarrow> settings \<Rightarrow>
     (char \<times> string) list \<Rightarrow> auto_step list \<Rightarrow> input list \<Rightarrow> (int option \<times> 's cli option) exec" where
  "cli_main sys be created st opts ss is =
     (case cli_options opts cli_args_start of Inl e \<Rightarrow> ok (Some e, None)
      | Inr a \<Rightarrow>
          bnd (connect be (created (a_backend a) (a_options a)) cli_start) (\<lambda>r.
            case r of Inl e \<Rightarrow> ok (Some e, None)
            | Inr c \<Rightarrow>
                if a_auto a then bnd (auto_mode sys be ss c) (\<lambda>(e, c1). ok (e, Some c1))
                else if a_interactive a then
                  bnd (interactive sys be (st\<lparr>st_script := a_script a\<rparr>) is c) (\<lambda>(stop, c1).
                    ok (if stop then Some 0 else None, Some c1))
                else ok (Some 0, Some (case a_script a of None \<Rightarrow> c | Some s \<Rightarrow> execscript (Some s) c))))"

text \<open>The small client that only resets the system (optimsoc_reset.c).\<close>

definition reset_main :: "'s backend \<Rightarrow> (int \<times> 's option) exec \<Rightarrow> int or_exit" where
  "reset_main be created =
     bndx (bnd created (\<lambda>(rv, ctx).
             if rv < 0 then ok (Inl 1) else case ctx of None \<Rightarrow> flt NullDeref | Some s \<Rightarrow> ok (Inr s))) (\<lambda>s.
     bndx (must (optimsoc_connect be s)) (\<lambda>s1.
     bnd (optimsoc_reset be s1) (\<lambda>(_, s2).
     bnd (optimsoc_disconnect be s2) (\<lambda>(rv, s3).
       if rv < 0 then ok (Inr 0)
       else bnd (optimsoc_free be (Some s3)) (\<lambda>_. ok (Inr 0))))))"

text \<open>The handler of the interrupt; the other signals are not caught.\<close>

definition sighandler :: "'s backend \<Rightarrow> bool \<Rightarrow> 's cli \<Rightarrow> (int option \<times> 's cli) exec" where
  "sighandler be is_sigint c =
     (if is_sigint then bnd (disconnect be c) (\<lambda>(_, c1). ok (Some 0, c1)) else ok (None, c))"

subsection \<open>The commands of a script (optimsoc_cli_python.c)\<close>

text \<open>
  A script calls functions of a module; the arguments are what \<open>PyArg_ParseTuple\<close> makes of
  the tuple, none when they do not fit. \<open>start\<close> never returns.
\<close>

datatype python_call =
    python_version
  | python_mem_init "(u32 \<times> string) option"
  | python_start
  | python_log_raw_instruction_trace "(int \<times> string) option"
  | python_log_dis_instruction_trace "(int \<times> string \<times> string) option"
  | python_log_stm_trace "string option"

definition python_run :: "os \<Rightarrow> 's backend \<Rightarrow> string \<Rightarrow> bool \<Rightarrow> python_call \<Rightarrow> 's cli \<Rightarrow> 's cli exec" where
  "python_run sys be funcname0 got f c =
     (case f of
        python_version \<Rightarrow> ok (say ''liboptimsochost version'' c)
      | python_mem_init None \<Rightarrow> ok (say ''Invalid arguments when running mem_init'' c)
      | python_mem_init (Some (memory_id, path)) \<Rightarrow> bnd (mem_init sys be [memory_id] path c) (\<lambda>(_, c1). ok c1)
      | python_start \<Rightarrow>
          bnd (with_ctx (optimsoc_cpu_start be (c_ctx c)) (say ''Start system.'' c)) (\<lambda>_. None)
      | python_log_raw_instruction_trace None \<Rightarrow> ok (say ''Invalid arguments when running log_raw_instruction_trace'' c)
      | python_log_raw_instruction_trace (Some (core_id, path)) \<Rightarrow>
          bnd (register_itm_trace sys be funcname0 got core_id path False None c) (\<lambda>(_, c1). ok c1)
      | python_log_dis_instruction_trace None \<Rightarrow> ok (say ''Invalid arguments when running log_dis_instruction_trace'' c)
      | python_log_dis_instruction_trace (Some (core_id, path, elf)) \<Rightarrow>
          bnd (register_itm_trace sys be funcname0 got core_id path True (Some elf) c) (\<lambda>(_, c1). ok c1)
      | python_log_stm_trace None \<Rightarrow> ok (say ''Invalid arguments when running log_stm_trace'' c)
      | python_log_stm_trace (Some path) \<Rightarrow> bnd (log_stm_trace sys be path c) (\<lambda>(_, c1). ok c1))"

end
