(* ===== verification/Cli_Props.thy ===== *)
theory Cli_Props
  imports Cli Host_Props
begin

section \<open>Properties of the command line client\<close>

text \<open>
  The options of a backend are read back from their text; a range of memories in a command is
  what the library gets; the text that the cores print is put together core by core whatever
  the order in which their characters arrive; the automatic mode ends with the status of the
  programs.
\<close>

subsection \<open>A range of memories\<close>

lemma memory_id_scan_digits:
  "\<forall>x\<in>set xs. isdigit x \<Longrightarrow> memory_id_scan k (xs @ CHR ''-'' # ys) = Some (Some (k + length xs))"
  by (induction xs arbitrary: k) (auto dest: isdigit_not(1))

lemma memory_range_dec:
  assumes "a \<le> b" "b < 2 ^ 31 - 1"
  shows "memory_range False (dec_of a @ CHR ''-'' # dec_of b) (length (dec_of a)) = ok (Inr (int a, int b))"
  using assms
  by (simp add: memory_range_def strtol_dec to_int_small)

lemma token_word:
  assumes "w \<noteq> []" "CHR '' '' \<notin> set w"
  shows "token (w @ CHR '' '' # r) = Some (w, r)" "token w = Some (w, [])"
  using strtok_token(1) [of w "'' ''" "CHR '' ''" r] strtok_token(2) [of w "'' ''" "CHR '' ''"] assms by (simp_all add: token_def)

text \<open>
  the command \<open>mem_init FILE FROM-TO\<close> initialises exactly the memories \<open>FROM\<close> to \<open>TO\<close>
  with the file, in increasing order, when no error is left over from an earlier library call.
\<close>

theorem mem_init_range:
  assumes "file \<noteq> []" "CHR '' '' \<notin> set file" "a \<le> b" "b < 2 ^ 31 - 1" "\<not> os_stale_errno sys"
  shows "cli_command sys be st (''mem_init '' @ file @ '' '' @ dec_of a @ ''-'' @ dec_of b) c
    = bnd (mem_init sys be (map word_of_nat [a..<Suc b]) file c) (\<lambda>(_, c1). ok (False, c1))"
proof -
  let ?r = "dec_of a @ CHR ''-'' # dec_of b"
  have sp: "CHR '' '' \<notin> set ?r" using dec_isdigit isdigit_not(4) by auto
  have t: "token (''mem_init '' @ file @ '' '' @ ?r) = Some (''mem_init'', file @ CHR '' '' # ?r)"
    using token_word(1) [of "''mem_init''" "file @ CHR '' '' # ?r"] by simp
  have t2: "token (file @ CHR '' '' # ?r) = Some (file, ?r)" by (rule token_word(1) [OF assms(1,2)])
  have t3: "token ?r = Some (?r, [])" by (rule token_word(2)) (use sp in simp_all)
  have s: "memory_id_scan 0 ?r = Some (Some (length (dec_of a)))"
    using memory_id_scan_digits [of "dec_of a" 0 "dec_of b"] dec_isdigit by simp
  have m: "map word_of_int [int a..int b] = (map word_of_nat [a..<Suc b] :: u32 list)"
    by (rule nth_equalityI) (use assms(3) in \<open>simp_all del: upt_Suc\<close>)
  have "cmd_mem_init sys be (file @ CHR '' '' # ?r) c
      = bnd (mem_init sys be (map word_of_nat [a..<Suc b]) file c) (\<lambda>(_, c1). ok c1)"
    using memory_range_dec [OF assms(3,4)] assms(5) m by (simp add: cmd_mem_init_def t2 t3 s del: upt_Suc)
  then show ?thesis
    using t by (simp add: cli_command_def bnd_assoc case_prod_unfold del: upt_Suc)
qed

subsection \<open>The options of a backend\<close>

text \<open>The text of options.\<close>

definition option_text :: "backend_option \<Rightarrow> string" where
  "option_text o1 = (case o1 of (n, None) \<Rightarrow> n | (n, Some v) \<Rightarrow> n @ CHR ''='' # v)"

fun options_text :: "backend_option list \<Rightarrow> string" where
  "options_text [] = ''''"
| "options_text [o1] = option_text o1"
| "options_text (o1 # os) = option_text o1 @ CHR '','' # options_text os"

definition plain_option :: "backend_option \<Rightarrow> bool" where
  "plain_option o1 \<longleftrightarrow> fst o1 \<noteq> [] \<and> CHR '','' \<notin> set (fst o1) \<and> CHR ''='' \<notin> set (fst o1)
     \<and> (case snd o1 of None \<Rightarrow> True | Some v \<Rightarrow> CHR '','' \<notin> set v)"

lemma option_of_text: "plain_option o1 \<Longrightarrow> option_of (option_text o1) = o1"
proof -
  assume p: "plain_option o1"
  have n: "\<forall>c\<in>set (fst o1). c \<noteq> CHR ''=''" using p by (auto simp: plain_option_def)
  show ?thesis using n p
    by (cases o1; cases "snd o1")
       (auto simp: option_text_def option_of_def takeWhile_append dropWhile_append plain_option_def takeWhile_eq_all_conv)
qed

lemma option_token: "plain_option o1 \<Longrightarrow> option_text o1 \<noteq> [] \<and> set (option_text o1) \<inter> set [CHR '',''] = {}"
  by (auto simp: plain_option_def option_text_def split: prod.splits option.splits)

lemma options_tokens: "\<forall>o1\<in>set os. plain_option o1 \<Longrightarrow> strtok_all [CHR '',''] (options_text os) = map option_text os"
proof (induction os rule: options_text.induct)
  case (2 o1)
  then show ?case using strtok_all_token(2) [of "option_text o1" "[CHR '','']" "CHR '',''"] option_token [of o1] by simp
next
  case (3 o1 o2 os)
  then show ?case using strtok_all_token(1) [of "option_text o1" "[CHR '','']" "CHR '',''"] option_token [of o1] by simp
qed simp

lemma fill_options_eq: "fill_options (length (strtok_all [CHR '',''] s)) s = map option_of (strtok_all [CHR '',''] s)"
proof (induction "length s" arbitrary: s rule: less_induct)
  case less
  show ?case
  proof (cases "strtok [CHR '',''] s")
    case None
    then show ?thesis by (simp add: strtok_all.simps [of _ s])
  next
    case (Some p)
    then show ?thesis using less [of "snd p"] strtok_shorter [of "[CHR '','']" s]
      by (cases p) (simp add: strtok_all.simps [of _ s])
  qed
qed


subsection \<open>The text of the cores\<close>

text \<open>What is in an array of a core, and when the array is in order.\<close>

definition pending :: "string \<Rightarrow> string" where
  "pending buf = takeWhile (\<lambda>c. c \<noteq> NUL) buf"

definition buf_ok :: "string \<Rightarrow> bool" where
  "buf_ok buf \<longleftrightarrow> length buf = 73 \<and> length (pending buf) \<le> 68"

lemma buf_split:
  assumes "buf_ok buf"
  obtains r where "buf = pending buf @ NUL # r" "length r = 72 - length (pending buf)"
proof -
  let ?r = "dropWhile (\<lambda>c. c \<noteq> NUL) buf"
  have b: "buf = pending buf @ ?r" by (simp add: pending_def)
  have "length buf = length (pending buf) + length ?r" by (metis b length_append)
  then have n: "length (pending buf) + length ?r = 73" using assms by (simp add: buf_ok_def)
  have "?r \<noteq> []"
  proof
    assume "?r = []"
    then have "length ?r = 0" by (simp only: list.size)
    then show False using n assms unfolding buf_ok_def by linarith
  qed
  moreover from this have "hd ?r = NUL" using hd_dropWhile [of "\<lambda>c. c \<noteq> NUL" buf] by simp
  ultimately have r: "?r = NUL # tl ?r" by (metis list.collapse)
  then have "length ?r = Suc (length (tl ?r))" by (metis length_Cons)
  then have "length (tl ?r) = 72 - length (pending buf)" using n by simp
  then show thesis using that [of "tl ?r"] b r by metis
qed

lemma pending_no_nul: "NUL \<notin> set (pending buf)"
  unfolding pending_def by (metis (mono_tags) set_takeWhileD)

lemma pending_append: "NUL \<notin> set p \<Longrightarrow> pending (p @ NUL # r) = p"
  unfolding pending_def by (subst takeWhile_append2) auto

lemma first_nul_pending: "NUL \<notin> set p \<Longrightarrow> length p < n \<Longrightarrow> first_nul n (p @ NUL # r) = Some (length p)"
proof (induction p arbitrary: n)
  case Nil
  then show ?case by (cases n) simp_all
next
  case (Cons x p)
  then obtain m where "n = Suc m" by (cases n) auto
  with Cons show ?case by auto
qed

text \<open>One character of one core: the text that is printed, and what is pending after it.\<close>

definition text_step :: "u32 \<Rightarrow> string \<Rightarrow> string option \<times> string" where
  "text_step v p =
     (if v = 10 then (Some p, '''')
      else let q = p @ [char_of (unat v)] in if length q = 69 then (Some (q @ ''...''), '''') else (None, q))"

lemma dot_not_nul: "CHR ''.'' \<noteq> NUL" "NUL \<noteq> CHR ''.''"
proof -
  have "of_char (CHR ''.'') \<noteq> (of_char NUL :: nat)" by (simp add: NUL_def)
  then show "CHR ''.'' \<noteq> NUL" "NUL \<noteq> CHR ''.''" by metis+
qed

lemma stm_add_char_eq:
  assumes "buf_ok buf" "char_of (unat v) \<noteq> NUL"
  shows "length (fst (stm_add_char v buf)) = 73"
    and "length (pending buf) = 68 \<Longrightarrow> snd (stm_add_char v buf)
      \<and> pending (fst (stm_add_char v buf)) = pending buf @ char_of (unat v) # ''...''
      \<and> NUL \<in> set (fst (stm_add_char v buf))"
    and "length (pending buf) \<noteq> 68 \<Longrightarrow> \<not> snd (stm_add_char v buf)
      \<and> pending (fst (stm_add_char v buf)) = pending buf @ [char_of (unat v)]"
proof -
  define p where "p = pending buf"
  obtain r where b: "buf = p @ NUL # r" and lr: "length r = 72 - length p"
    using buf_split [OF assms(1)] p_def by blast
  have p: "NUL \<notin> set p" "length p \<le> 68" using assms(1) pending_no_nul by (auto simp: p_def buf_ok_def)
  have f: "first_nul 72 buf = Some (length p)"
    unfolding b by (rule first_nul_pending) (use p in simp_all)
  show "length (fst (stm_add_char v buf)) = 73"
    using assms(1) by (simp add: stm_add_char_def f Let_def buf_ok_def)
  have u: "buf[length p := c] = p @ c # r" for c unfolding b by simp
  show "length (pending buf) = 68 \<Longrightarrow> snd (stm_add_char v buf)
      \<and> pending (fst (stm_add_char v buf)) = pending buf @ char_of (unat v) # ''...''
      \<and> NUL \<in> set (fst (stm_add_char v buf))"
  proof -
    assume "length (pending buf) = 68"
    then have l: "length p = 68" by (simp add: p_def)
    obtain r0 r1 r2 r3 where r: "r = [r0, r1, r2, r3]"
      using lr l by (auto simp: length_Suc_conv numeral_eq_Suc)
    have "fst (stm_add_char v buf) = (p @ [char_of (unat v), CHR ''.'', CHR ''.'', CHR ''.'']) @ [NUL]"
      using l by (simp add: stm_add_char_def f Let_def u [unfolded l] r list_update_append)
    then show ?thesis
      using pending_append [of "p @ [char_of (unat v), CHR ''.'', CHR ''.'', CHR ''.'']" "[]"] p l assms(2) dot_not_nul
      by (simp add: stm_add_char_def f Let_def p_def [symmetric])
  qed
  show "length (pending buf) \<noteq> 68 \<Longrightarrow> \<not> snd (stm_add_char v buf)
      \<and> pending (fst (stm_add_char v buf)) = pending buf @ [char_of (unat v)]"
  proof -
    assume "length (pending buf) \<noteq> 68"
    then have l: "length p \<noteq> 68" by (simp add: p_def)
    obtain x r' where r: "r = x # r'" using lr p(2) by (cases r) auto
    have "fst (stm_add_char v buf) = (p @ [char_of (unat v)]) @ NUL # r'"
      using l by (simp add: stm_add_char_def f Let_def u r list_update_append)
    then show ?thesis
      using pending_append [of "p @ [char_of (unat v)]" r'] p l assms(2)
      by (simp add: stm_add_char_def f Let_def p_def [symmetric])
  qed
qed

text \<open>
  The client logs software traces: the file is open and there is an array in order for each
  core. What is pending of a core, and the text in the file.
\<close>

definition stm_ready :: "'s cli \<Rightarrow> bool" where
  "stm_ready c \<longleftrightarrow>
     (case c_stm_trace_file c of None \<Rightarrow> False | Some i \<Rightarrow> i < length (c_streams c))
     \<and> (case c_stm_printf_buf c of None \<Rightarrow> False
        | Some bufs \<Rightarrow> length bufs = unat (c_max_core_id c + 1) \<and> (\<forall>b\<in>set bufs. buf_ok b))"

definition stm_pending :: "'s cli \<Rightarrow> u32 \<Rightarrow> string" where
  "stm_pending c k = pending (the (c_stm_printf_buf c) ! unat k)"

definition stm_text :: "'s cli \<Rightarrow> string" where
  "stm_text c = snd (c_streams c ! the (c_stm_trace_file c))"

definition core_ok :: "'s cli \<Rightarrow> u32 \<Rightarrow> bool" where
  "core_ok c k \<longleftrightarrow> k \<le> c_max_core_id c \<and> c_max_core_id c + 1 \<noteq> 0"

lemma core_okD: "core_ok c k \<Longrightarrow> unat k < unat (c_max_core_id c + 1)"
  unfolding core_ok_def
  by (metis add.commute less_Suc_eq_le unatSuc word_le_nat_alt)

definition stm_line :: "u32 \<Rightarrow> u32 \<Rightarrow> string \<Rightarrow> string" where
  "stm_line t k l = stm_stamp t k @ '' '' @ l @ [newline_char]"

lemma buf_ok_c_text: "buf_ok buf \<Longrightarrow> c_text buf = ok (pending buf)"
  by (erule buf_split) (metis c_text_def in_set_conv_decomp pending_def)

lemma buf_ok_reset: "length buf = 73 \<Longrightarrow> buf_ok (buf[0 := NUL]) \<and> pending (buf[0 := NUL]) = ''''"
  by (cases buf) (simp_all add: buf_ok_def pending_def)

lemma stm_char_step:
  assumes r: "stm_ready c" and k: "core_ok c k" and v: "char_of (unat v) \<noteq> NUL"
  shows "\<exists>c'. write_stm_trace_to_file k t 4 v c = ok c' \<and> stm_ready c'
    \<and> c_max_core_id c' = c_max_core_id c
    \<and> (\<forall>j. core_ok c j \<longrightarrow> stm_pending c' j = ((stm_pending c)(k := snd (text_step v (stm_pending c k)))) j)
    \<and> stm_text c' = stm_text c @ (case fst (text_step v (stm_pending c k)) of None \<Rightarrow> '''' | Some l \<Rightarrow> stm_line t k l)
    \<and> c_stm_count_exit c' = c_stm_count_exit c \<and> c_stm_exit_success c' = c_stm_exit_success c"
proof -
  from r obtain i bufs where i: "c_stm_trace_file c = Some i" "i < length (c_streams c)"
    and bufs: "c_stm_printf_buf c = Some bufs" "length bufs = unat (c_max_core_id c + 1)" "\<forall>b\<in>set bufs. buf_ok b"
    by (auto simp: stm_ready_def split: option.splits)
  let ?b = "bufs ! unat k"
  have kl: "unat k < length bufs" using core_okD [OF k] bufs(2) by simp
  have bo: "buf_ok ?b" using bufs(3) kl by simp
  have lb: "length ?b = 73" using bo by (simp add: buf_ok_def)
  have pk: "stm_pending c k = pending ?b" by (simp add: stm_pending_def bufs(1))
  have others: "core_ok c j \<Longrightarrow> (bufs[unat k := b1]) ! unat j = (if j = k then b1 else bufs ! unat j)" for j b1
    using kl core_okD [of c j] bufs(2) by (auto simp: nth_list_update word_unat_eq_iff)
  have keep: "buf_ok b1 \<Longrightarrow> \<forall>b\<in>set (bufs[unat k := b1]). buf_ok b" for b1
    using bufs(3) by (auto dest: set_update_subset_insert [THEN subsetD])
  note reset = buf_ok_reset [of ?b] buf_ok_reset [of "fst (stm_add_char v ?b)"]
  note add = stm_add_char_eq [OF bo v]
  note unf = write_stm_trace_to_file_def bufs(1) i(1) stream_put_def i(2) stm_ready_def stm_pending_def
    stm_text_def text_step_def stm_line_def Let_def
  show ?thesis
  proof (cases "v = 10")
    case True
    then show ?thesis
      using kl buf_ok_c_text [OF bo] keep [of "?b[0 := NUL]"] reset(1) lb i(2) bufs(2) others
      by (simp add: unf)
  next
    case v10: False
    obtain b1 pr where sa: "stm_add_char v ?b = (b1, pr)" by fastforce
    show ?thesis
    proof (cases "length (pending ?b) = 68")
      case True
      then have a: "pr" "pending b1 = pending ?b @ char_of (unat v) # ''...''" "NUL \<in> set b1" "length b1 = 73"
        using add sa by simp_all
      then have "c_text b1 = ok (pending b1)" by (simp add: c_text_def pending_def)
      then show ?thesis
        using v10 kl sa a keep [of "b1[0 := NUL]"] buf_ok_reset [of b1] i(2) bufs(2) others True
        by (simp add: unf)
    next
      case False
      then have a: "\<not> pr" "pending b1 = pending ?b @ [char_of (unat v)]" "length b1 = 73"
        using add sa by simp_all
      then have "buf_ok b1" using bo False by (simp add: buf_ok_def)
      then show ?thesis
        using v10 kl sa a keep [of b1] i(2) bufs(2) others False
        by (simp add: unf)
    qed
  qed
qed

fun cli_events :: "dbg_event list \<Rightarrow> 's cli \<Rightarrow> 's cli exec" where
  "cli_events [] c = ok c"
| "cli_events (e # es) c = bnd (cli_event e c) (cli_events es)"

text \<open>A character that a core prints: the core, the time stamp and the value.\<close>

type_synonym print_event = "u32 \<times> u32 \<times> u32"

definition as_event :: "print_event \<Rightarrow> dbg_event" where
  "as_event e = (case e of (k, t, v) \<Rightarrow> StmEvent k t 4 v)"

text \<open>The lines that a core prints, from its characters alone.\<close>

fun text_lines :: "string \<Rightarrow> u32 list \<Rightarrow> string list" where
  "text_lines p [] = []"
| "text_lines p (v # vs) =
     (case text_step v p of (None, p1) \<Rightarrow> text_lines p1 vs | (Some l, p1) \<Rightarrow> l # text_lines p1 vs)"

definition values_of :: "u32 \<Rightarrow> print_event list \<Rightarrow> u32 list" where
  "values_of k es = map (\<lambda>(_, _, v). v) (filter (\<lambda>(j, _, _). j = k) es)"

definition lines_of :: "u32 \<Rightarrow> (u32 \<times> u32 \<times> string) list \<Rightarrow> string list" where
  "lines_of k ls = map (\<lambda>(_, _, l). l) (filter (\<lambda>(j, _, _). j = k) ls)"

lemma values_of_Cons: "values_of k (e # es) = (if fst e = k then snd (snd e) # values_of k es else values_of k es)"
  by (cases e) (simp add: values_of_def)

lemma lines_of_Cons: "lines_of k (e # es) = (if fst e = k then snd (snd e) # lines_of k es else lines_of k es)"
  by (cases e) (simp add: lines_of_def)

definition print_ok :: "'s cli \<Rightarrow> print_event \<Rightarrow> bool" where
  "print_ok c e \<longleftrightarrow> core_ok c (fst e) \<and> char_of (unat (snd (snd e))) \<noteq> NUL"

lemma stm_text_run:
  "stm_ready c \<Longrightarrow> \<forall>e\<in>set es. print_ok c e \<Longrightarrow>
   \<exists>c' ls. cli_events (map as_event es) c = ok c' \<and> stm_ready c'
     \<and> stm_text c' = stm_text c @ concat (map (\<lambda>(k, t, l). stm_line t k l) ls)
     \<and> (\<forall>k. core_ok c k \<longrightarrow> lines_of k ls = text_lines (stm_pending c k) (values_of k es))"
proof (induction es arbitrary: c)
  case Nil
  then show ?case by (auto simp: lines_of_def values_of_def intro!: exI [of _ "[]"])
next
  case (Cons e es)
  obtain k t v where e: "e = (k, t, v)" by (cases e)
  have k: "core_ok c k" and v: "char_of (unat v) \<noteq> NUL" using Cons.prems(2) by (auto simp: e print_ok_def)
  obtain c1 where c1: "write_stm_trace_to_file k t 4 v c = ok c1" "stm_ready c1"
    "c_max_core_id c1 = c_max_core_id c"
    "\<forall>j. core_ok c j \<longrightarrow> stm_pending c1 j = ((stm_pending c)(k := snd (text_step v (stm_pending c k)))) j"
    "stm_text c1 = stm_text c @ (case fst (text_step v (stm_pending c k)) of None \<Rightarrow> '''' | Some l \<Rightarrow> stm_line t k l)"
    using stm_char_step [OF Cons.prems(1) k v] by blast
  have co: "core_ok c1 j = core_ok c j" for j using c1(3) by (simp add: core_ok_def)
  have "\<forall>e\<in>set es. print_ok c1 e" using Cons.prems(2) by (simp add: print_ok_def co)
  from Cons.IH [OF c1(2) this] obtain c' ls where r: "cli_events (map as_event es) c1 = ok c'" "stm_ready c'"
    "stm_text c' = stm_text c1 @ concat (map (\<lambda>(k, t, l). stm_line t k l) ls)"
    "\<forall>j. core_ok c j \<longrightarrow> lines_of j ls = text_lines (stm_pending c1 j) (values_of j es)"
    unfolding co by blast
  have run: "cli_events (map as_event (e # es)) c = ok c'"
    by (simp add: e as_event_def c1(1) r(1))
  obtain o1 p1 where ts: "text_step v (stm_pending c k) = (o1, p1)" by fastforce
  have pend: "core_ok c j \<Longrightarrow> stm_pending c1 j = (if j = k then p1 else stm_pending c j)" for j
    using c1(4) ts by simp
  show ?case
  proof (cases o1)
    case None
    have "lines_of j ls = text_lines (stm_pending c j) (values_of j (e # es))" if "core_ok c j" for j
      using that r(4) pend [OF that] ts None by (cases "j = k") (simp_all add: e values_of_Cons)
    then show ?thesis using run r(2,3) c1(5) ts None by (intro exI [of _ c'] exI [of _ ls]) simp
  next
    case (Some l)
    have "lines_of j ((k, t, l) # ls) = text_lines (stm_pending c j) (values_of j (e # es))" if "core_ok c j" for j
      using that r(4) pend [OF that] ts Some by (cases "j = k") (simp_all add: e values_of_Cons lines_of_Cons)
    then show ?thesis using run r(2,3) c1(5) ts Some by (intro exI [of _ c'] exI [of _ "(k, t, l) # ls"]) simp
  qed
qed

text \<open>
  C25: the software trace keeps the output of the cores apart. However the events of several cores
  that print characters interleave, the lines that are appended to the file for a core are the lines of
  the characters of this core in order, after those that were pending: a line ends at
  a newline or when the buffer is full.
\<close>

theorem stm_text_by_core:
  assumes "stm_ready c" "\<forall>e\<in>set es. print_ok c e"
  shows "\<exists>c' ls. cli_events (map as_event es) c = ok c'
     \<and> stm_text c' = stm_text c @ concat (map (\<lambda>(k, t, l). stm_line t k l) ls)
     \<and> (\<forall>k. core_ok c k \<longrightarrow> lines_of k ls = text_lines (stm_pending c k) (values_of k es))"
  using stm_text_run [OF assms] by blast

definition demo_stm :: "unit cli" where
  "demo_stm = (cli_start ())\<lparr>c_max_core_id := 1, c_stm_trace_file := Some 0, c_streams := [(''strace'', '''')],
     c_stm_printf_buf := Some (replicate 2 (replicate 73 NUL))\<rparr>"

lemma demo_stm_ready: "stm_ready demo_stm"
  by (simp add: stm_ready_def demo_stm_def cli_start_def buf_ok_def pending_def)

lemma stm_text_by_core_witness:
  "\<exists>c' ls. cli_events (map as_event [(0, 5, 72), (1, 6, 98), (0, 7, 105), (0, 8, 10)]) demo_stm = ok c'
     \<and> stm_text c' = concat (map (\<lambda>(k, t, l). stm_line t k l) ls)
     \<and> lines_of 0 ls = [''Hi''] \<and> lines_of 1 ls = []"
proof -
  have p: "\<forall>e\<in>set [(0, 5, 72), (1, 6, 98), (0, 7, 105), (0, 8, 10)]. print_ok demo_stm e"
    by (simp add: print_ok_def core_ok_def demo_stm_def NUL_def)
  have k: "core_ok demo_stm 0" "core_ok demo_stm 1" by (simp_all add: core_ok_def demo_stm_def)
  have t: "stm_text demo_stm = ''''" "stm_pending demo_stm 0 = ''''" "stm_pending demo_stm 1 = ''''"
    by (simp_all add: stm_text_def stm_pending_def demo_stm_def pending_def)
  have l: "text_lines '''' (values_of 0 [(0, 5, 72), (1, 6, 98), (0, 7, 105), (0, 8, 10)]) = [''Hi'']"
    "text_lines '''' (values_of 1 [(0, 5, 72), (1, 6, 98), (0, 7, 105), (0, 8, 10)]) = []"
    by code_simp+
  obtain c' ls where "cli_events (map as_event [(0, 5, 72), (1, 6, 98), (0, 7, 105), (0, 8, 10)]) demo_stm = ok c'"
    "stm_text c' = stm_text demo_stm @ concat (map (\<lambda>(k, t, l). stm_line t k l) ls)"
    "\<forall>k. core_ok demo_stm k \<longrightarrow> lines_of k ls
      = text_lines (stm_pending demo_stm k) (values_of k [(0, 5, 72), (1, 6, 98), (0, 7, 105), (0, 8, 10)])"
    using stm_text_by_core [OF demo_stm_ready p] by blast
  then show ?thesis using k t l by (intro exI [of _ c'] exI [of _ ls]) simp
qed

subsection \<open>The automatic mode\<close>

text \<open>
  What the software of a core sends: a character, its end with a status, or another event.
\<close>

definition soft_event :: "'s cli \<Rightarrow> dbg_event \<Rightarrow> bool" where
  "soft_event c e \<longleftrightarrow>
     (case e of StmEvent k t i v \<Rightarrow> core_ok c k \<and> (i = 4 \<longrightarrow> char_of (unat v) \<noteq> NUL) | _ \<Rightarrow> False)"

definition exit_value :: "auto_step \<Rightarrow> u32 option" where
  "exit_value s = (case s of Arrives (StmEvent k t i v) \<Rightarrow> if i = 1 then Some v else None | _ \<Rightarrow> None)"

definition exit_values :: "auto_step list \<Rightarrow> u32 list" where
  "exit_values ss = List.map_filter exit_value ss"

lemma stream_put_ready:
  assumes "stm_ready c"
  shows "\<exists>c'. stream_put (c_stm_trace_file c) s c = ok c' \<and> stm_ready c' \<and> c_max_core_id c' = c_max_core_id c
    \<and> c_stm_count_exit c' = c_stm_count_exit c \<and> c_stm_exit_success c' = c_stm_exit_success c"
  using assms by (auto simp: stm_ready_def stream_put_def split: option.splits)

lemma soft_step:
  assumes r: "stm_ready c" and e: "soft_event c (StmEvent k t i v)"
  shows "\<exists>c'. cli_event (StmEvent k t i v) c = ok c' \<and> stm_ready c' \<and> c_max_core_id c' = c_max_core_id c
    \<and> c_stm_count_exit c' = c_stm_count_exit c + (if i = 1 then 1 else 0)
    \<and> c_stm_exit_success c' = (c_stm_exit_success c \<and> (i = 1 \<longrightarrow> v = 0))"
proof -
  consider "i = 1" | "i = 4" | "i \<noteq> 1" "i \<noteq> 4" by blast
  then show ?thesis
  proof cases
    case 1
    let ?c1 = "c\<lparr>c_stm_count_exit := c_stm_count_exit c + 1, c_stm_exit_success := c_stm_exit_success c \<and> v = 0\<rparr>"
    let ?s = "stm_stamp t k @ '' [Program terminated.]'' @ [newline_char]"
    have "stm_ready ?c1" using r by (simp add: stm_ready_def split: option.splits)
    then obtain c2 where c2: "stream_put (c_stm_trace_file ?c1) ?s ?c1 = ok c2" "stm_ready c2"
      "c_max_core_id c2 = c_max_core_id c" "c_stm_count_exit c2 = c_stm_count_exit c + 1"
      "c_stm_exit_success c2 = (c_stm_exit_success c \<and> v = 0)"
      using stream_put_ready [of ?c1 ?s] by auto
    have say: "stm_ready (say m c2)" "c_max_core_id (say m c2) = c_max_core_id c2"
      "c_stm_count_exit (say m c2) = c_stm_count_exit c2" "c_stm_exit_success (say m c2) = c_stm_exit_success c2" for m
      using c2(2) by (simp_all add: say_def stm_ready_def split: option.splits)
    show ?thesis using c2 say 1 by (simp add: write_stm_trace_to_file_def Let_def)
  next
    case 2
    then show ?thesis using stm_char_step [OF r, of k v t] e by (auto simp: soft_event_def)
  next
    case 3
    then show ?thesis using stream_put_ready [OF r] by (simp add: write_stm_trace_to_file_def)
  qed
qed

definition auto_ok :: "'s cli \<Rightarrow> auto_step list \<Rightarrow> bool" where
  "auto_ok c ss \<longleftrightarrow> (\<forall>s\<in>set ss. case s of Poll \<Rightarrow> True | Arrives e \<Rightarrow> soft_event c e)"

lemma exit_values_simps:
  "exit_values [] = []" "exit_values (Poll # ss) = exit_values ss"
  "exit_values (Arrives (StmEvent k t i v) # ss) = (if i = 1 then v # exit_values ss else exit_values ss)"
  by (simp_all add: exit_values_def exit_value_def List.map_filter_simps)

lemma auto_wait_exit:
  "stm_ready c \<Longrightarrow> auto_ok c ss \<Longrightarrow> c_max_core_id c + 1 \<noteq> 0 \<Longrightarrow>
   unat (c_stm_count_exit c) + length (exit_values ss) = unat (c_max_core_id c + 1) \<Longrightarrow>
   \<exists>c'. auto_wait (ss @ [Poll]) c
     = ok (Some (if c_stm_exit_success c \<and> (\<forall>v\<in>set (exit_values ss). v = 0) then 0 else 1), c')"
proof (induction ss arbitrary: c)
  case Nil
  then show ?case by (simp add: exit_values_simps word_unat_eq_iff)
next
  case (Cons s ss)
  show ?case
  proof (cases s)
    case Poll
    show ?thesis
    proof (cases "c_stm_count_exit c = c_max_core_id c + 1")
      case True
      then have "exit_values ss = []" using Cons.prems(4) by (simp add: Poll exit_values_simps)
      then show ?thesis using True by (simp add: Poll exit_values_simps)
    next
      case False
      then show ?thesis using Cons.IH [of c] Cons.prems by (simp add: Poll exit_values_simps auto_ok_def)
    qed
  next
    case (Arrives e)
    then have "soft_event c e" using Cons.prems(2) by (simp add: auto_ok_def)
    then obtain k t i v where e: "e = StmEvent k t i v" "soft_event c (StmEvent k t i v)"
      by (cases e) (auto simp: soft_event_def)
    obtain c1 where c1: "cli_event e c = ok c1" "stm_ready c1" "c_max_core_id c1 = c_max_core_id c"
      "c_stm_count_exit c1 = c_stm_count_exit c + (if i = 1 then 1 else 0)"
      "c_stm_exit_success c1 = (c_stm_exit_success c \<and> (i = 1 \<longrightarrow> v = 0))"
      using soft_step [OF Cons.prems(1) e(2)] e(1) by auto
    have se: "soft_event c1 = soft_event c"
      by (rule ext) (simp add: c1(3) soft_event_def core_ok_def split: dbg_event.split)
    have ok1: "auto_ok c1 ss" using Cons.prems(2) unfolding auto_ok_def se by simp
    have lt: "i = 1 \<Longrightarrow> unat (c_stm_count_exit c + 1) = unat (c_stm_count_exit c) + 1"
      using Cons.prems(4) unsigned_less [of "c_max_core_id c + 1"]
      by (simp add: Arrives e(1) exit_values_simps unat_word_ariths)
    have cnt: "unat (c_stm_count_exit c1) + length (exit_values ss) = unat (c_max_core_id c1 + 1)"
      using Cons.prems(4) lt c1(3,4) by (simp add: Arrives e(1) exit_values_simps split: if_splits)
    have "c_max_core_id c1 + 1 \<noteq> 0" using Cons.prems(3) c1(3) by simp
    from Cons.IH [OF c1(2) ok1 this cnt] show ?thesis
      using c1(1,5) by (auto simp: Arrives e(1) exit_values_simps)
  qed
qed

lemma log_stm_trace_ready:
  assumes "os_writable sys f" "optimsoc_stm_register_callback be True (c_ctx c) = ok (rv, s1)"
  shows "\<exists>c1. log_stm_trace sys be f c = ok (0, c1) \<and> stm_ready c1 \<and> c_ctx c1 = s1
    \<and> c_max_core_id c1 = c_max_core_id c \<and> c_stm_count_exit c1 = c_stm_count_exit c
    \<and> c_stm_exit_success c1 = c_stm_exit_success c"
  using assms
  by (auto simp: log_stm_trace_def fopen_w_def Let_def say_def stm_ready_def buf_ok_def pending_def NUL_def)


definition demo_os :: os where
  "demo_os = \<lparr>os_writable = (\<lambda>_. True), os_size = (\<lambda>_. Some 4), os_read = (\<lambda>_. Some [1, 2, 3, 4]),
     os_objdump = (\<lambda>_. None), os_stale_errno = False\<rparr>"

definition demo_cli :: "dbg_world cli" where
  "demo_cli = (cli_start demo_world)\<lparr>c_max_core_id := 1\<rparr>"


lemma mem_init_range_witness:
  "cli_command demo_os dbgnoc_backend \<lparr>st_script = None, st_funcname0 = '''', st_got = True\<rparr>
     (''mem_init '' @ ''a.bin'' @ '' '' @ dec_of 0 @ ''-'' @ dec_of 3) demo_cli
   = bnd (mem_init demo_os dbgnoc_backend (map word_of_nat [0..<Suc 3]) ''a.bin'' demo_cli) (\<lambda>(_, c1). ok (False, c1))"
  by (rule mem_init_range) (simp_all add: demo_os_def)


end
