(* ===== verification/Cbuf.thy ===== *)
theory Cbuf
  imports Prelude
begin

section \<open>The circular buffer of GLIP (cbuf.c)\<close>

text \<open>
  The buffer between the threads of a GLIP backend, \<open>src/external/glip/src/cbuf.c\<close>. Positions
  run modulo twice the size, so that a full and an empty buffer differ. \<open>cbuf_reserve\<close> and
  \<open>cbuf_peek\<close> hand out a pointer into the buffer, or to a temporary block when the range wraps
  around; a pointer is a value of \<open>cloc\<close>. A function that waits takes what the lock and the
  condition variable answer and what the other thread does meanwhile as arguments.
\<close>

text \<open>The pointers: into the data of the buffer, to the temporary blocks, or \<open>NULL\<close>.\<close>

datatype cloc = LNull | LData u64 | LWTmp | LRTmp

record cbuf =
  cb_wr :: u64
  cb_rd :: u64
  cb_size :: u64
  cb_data :: "u8 list"
  cb_hint_r :: u64
  cb_rtmp_size :: u64
  cb_rtmp :: "u8 list option"
  cb_hint_w :: u64
  cb_wtmp_size :: u64
  cb_wtmp :: "u8 list option"
  cb_cancel :: bool

definition EINVAL :: int where "EINVAL = 22"
definition ENOMEM :: int where "ENOMEM = 12"
definition ECANCELED :: int where "ECANCELED = 125"

text \<open>
  What \<open>realloc\<close> returns for the old block and the new size in bytes: \<open>None\<close> when it fails,
  else a block of that size that begins with the bytes of the old one.
\<close>

type_synonym realloc_fn = "u8 list option \<Rightarrow> nat \<Rightarrow> u8 list option"

definition realloc_ok :: "realloc_fn \<Rightarrow> bool" where
  "realloc_ok re \<longleftrightarrow> (\<forall>old n new. re old n = Some new \<longrightarrow>
     length new = n \<and> (\<forall>o'. old = Some o' \<longrightarrow> take (min n (length o')) new = take (min n (length o')) o'))"

definition realloc_zero :: realloc_fn where
  "realloc_zero old n = Some (case old of None \<Rightarrow> replicate n 0 | Some xs \<Rightarrow> take n xs @ replicate (n - length xs) 0)"

subsection \<open>Positions and levels\<close>

definition cbuf_ptr_add :: "cbuf \<Rightarrow> u64 \<Rightarrow> u64 \<Rightarrow> u64" where
  "cbuf_ptr_add b v1 v2 = (v1 + v2) AND (2 * cb_size b - 1)"

text \<open>The index that a position stands for.\<close>

definition cbuf_index :: "cbuf \<Rightarrow> u64 \<Rightarrow> u64" where
  "cbuf_index b p = p AND (cb_size b - 1)"

definition cbuf_is_empty :: "cbuf \<Rightarrow> bool" where
  "cbuf_is_empty b \<longleftrightarrow> cb_wr b = cb_rd b"

definition cbuf_is_full :: "cbuf \<Rightarrow> bool" where
  "cbuf_is_full b \<longleftrightarrow> cb_wr b = (cb_rd b XOR cb_size b)"

definition cbuf_level_diff :: "cbuf \<Rightarrow> u64" where
  "cbuf_level_diff b =
     (let fill_level = cbuf_index b (cb_wr b) - cbuf_index b (cb_rd b) in
      if fill_level <s 0 then fill_level + cb_size b else fill_level)"

definition cbuf_fill_level :: "cbuf \<Rightarrow> u64" where
  "cbuf_fill_level b = (if cbuf_is_full b then cb_size b else cbuf_level_diff b)"

definition cbuf_free_level :: "cbuf \<Rightarrow> u64" where
  "cbuf_free_level b = cb_size b - cbuf_fill_level b"

text \<open>
  The size of a temporary block. The shift is one of the type \<open>int\<close>: from 31 on it is
  undefined.
\<close>

fun log2_loop :: "nat \<Rightarrow> nat \<Rightarrow> nat" where
  "log2_loop size_tmp log2_size =
     (if size_tmp div 2 = 0 then log2_size else log2_loop (size_tmp div 2) (Suc log2_size))"

declare log2_loop.simps [simp del]

definition cbuf_calc_bufsize :: "u64 \<Rightarrow> u64 \<Rightarrow> u64 exec" where
  "cbuf_calc_bufsize size_req size_max =
     (let log2_size = log2_loop (unat size_req) 0 in
      if 31 \<le> log2_size + 1 then flt BadArith
      else (let pow_two = push_bit (log2_size + 1) 1 in
        ok (if pow_two > size_max then size_max else pow_two)))"

subsection \<open>Creation\<close>

text \<open>The two flags say whether the two allocations succeed.\<close>

definition cbuf_init :: "bool \<Rightarrow> bool \<Rightarrow> u64 \<Rightarrow> (int \<times> cbuf option) exec" where
  "cbuf_init a1 a2 sz =
     bnd (assert_c (sz \<noteq> 0 \<and> sz AND (sz - 1) = 0)) (\<lambda>_.
     if \<not> a1 then ok (- ENOMEM, None)
     else if \<not> a2 then ok (- ENOMEM, None)
     else ok (0, Some \<lparr>cb_wr = 0, cb_rd = 0, cb_size = sz, cb_data = replicate (unat sz) 0,
       cb_hint_r = 0, cb_rtmp_size = 0, cb_rtmp = None, cb_hint_w = 0, cb_wtmp_size = 0,
       cb_wtmp = None, cb_cancel = False\<rparr>))"

definition cbuf_cancel_waits :: "cbuf \<Rightarrow> cbuf" where
  "cbuf_cancel_waits b = b\<lparr>cb_cancel := True\<rparr>"

text \<open>Freeing returns what the threads that still wait see last.\<close>

definition cbuf_free :: "cbuf option \<Rightarrow> int \<times> cbuf option" where
  "cbuf_free ob = (case ob of None \<Rightarrow> (0, None) | Some b \<Rightarrow> (0, Some (cbuf_cancel_waits b)))"

definition cbuf_set_hint_max_read_size :: "u64 \<Rightarrow> cbuf \<Rightarrow> int \<times> cbuf" where
  "cbuf_set_hint_max_read_size n b = (0, b\<lparr>cb_hint_r := n\<rparr>)"

definition cbuf_set_hint_max_write_size :: "u64 \<Rightarrow> cbuf \<Rightarrow> int \<times> cbuf" where
  "cbuf_set_hint_max_write_size n b = (0, b\<lparr>cb_hint_w := n\<rparr>)"

definition cbuf_size :: "cbuf \<Rightarrow> u64" where
  "cbuf_size b = cb_size b"

subsection \<open>The write side\<close>

text \<open>The bytes go from the position on, in one piece or in two.\<close>

definition cbuf_copy_in :: "u8 list \<Rightarrow> u64 \<Rightarrow> cbuf \<Rightarrow> cbuf exec" where
  "cbuf_copy_in data sz b =
     (let i = cbuf_index b (cb_wr b) in
      if i + sz \<le> cb_size b then
        bnd (bytes_at data 0 (unat sz)) (\<lambda>bs.
        bnd (put_at (cb_data b) (unat i) bs) (\<lambda>d. ok (b\<lparr>cb_data := d\<rparr>)))
      else
        (let size_at_end = cb_size b - i; size_at_start = sz - size_at_end in
         bnd (bytes_at data 0 (unat size_at_end)) (\<lambda>b1.
         bnd (put_at (cb_data b) (unat i) b1) (\<lambda>d1.
         bnd (bytes_at data (unat size_at_end) (unat size_at_start)) (\<lambda>b2.
         bnd (put_at d1 0 b2) (\<lambda>d2. ok (b\<lparr>cb_data := d2\<rparr>)))))))"

definition cbuf_publish :: "u64 \<Rightarrow> cbuf \<Rightarrow> cbuf" where
  "cbuf_publish sz b = b\<lparr>cb_wr := cbuf_ptr_add b (cb_wr b) sz\<rparr>"

definition cbuf_write :: "u8 list \<Rightarrow> u64 \<Rightarrow> cbuf \<Rightarrow> (int \<times> cbuf) exec" where
  "cbuf_write data sz b =
     (if sz > cbuf_free_level b then ok (- EINVAL, b)
      else bnd (cbuf_copy_in data sz b) (\<lambda>b1. ok (0, cbuf_publish sz b1)))"

definition cbuf_wtmp_loc :: "cbuf \<Rightarrow> cloc" where
  "cbuf_wtmp_loc b = (case cb_wtmp b of None \<Rightarrow> LNull | Some _ \<Rightarrow> LWTmp)"

text \<open>The pointer is \<open>None\<close> when it is not stored.\<close>

definition cbuf_reserve :: "realloc_fn \<Rightarrow> u64 \<Rightarrow> cbuf \<Rightarrow> (int \<times> cloc option \<times> cbuf) exec" where
  "cbuf_reserve re sz b =
     (if sz > cbuf_free_level b then ok (- EINVAL, None, b)
      else (let i = cbuf_index b (cb_wr b) in
        if i + sz \<le> cb_size b then ok (0, Some (LData i), b)
        else if cb_wtmp_size b < sz then
          bnd (if sz \<le> cb_hint_w b then ok (cb_hint_w b) else cbuf_calc_bufsize sz (cb_size b)) (\<lambda>n.
            (let b1 = b\<lparr>cb_wtmp_size := n, cb_wtmp := re (cb_wtmp b) (unat n)\<rparr> in
             if cb_wtmp b1 = None then ok (- ENOMEM, None, b1)
             else ok (0, Some (cbuf_wtmp_loc b1), b1)))
        else ok (0, Some (cbuf_wtmp_loc b), b)))"

text \<open>The caller writes through the pointer it got.\<close>

definition cbuf_store :: "cloc \<Rightarrow> u8 list \<Rightarrow> cbuf \<Rightarrow> cbuf exec" where
  "cbuf_store p bs b = (case p of
       LNull \<Rightarrow> if bs = [] then ok b else flt NullDeref
     | LData i \<Rightarrow> bnd (put_at (cb_data b) (unat i) bs) (\<lambda>d. ok (b\<lparr>cb_data := d\<rparr>))
     | LWTmp \<Rightarrow> (case cb_wtmp b of None \<Rightarrow> flt BadPtr
         | Some t \<Rightarrow> bnd (put_at t 0 bs) (\<lambda>t'. ok (b\<lparr>cb_wtmp := Some t'\<rparr>)))
     | LRTmp \<Rightarrow> (case cb_rtmp b of None \<Rightarrow> flt BadPtr
         | Some t \<Rightarrow> bnd (put_at t 0 bs) (\<lambda>t'. ok (b\<lparr>cb_rtmp := Some t'\<rparr>))))"

definition cbuf_commit :: "cloc \<Rightarrow> u64 \<Rightarrow> cbuf \<Rightarrow> (int \<times> cbuf) exec" where
  "cbuf_commit p sz b =
     (if sz = 0 then ok (0, b)
      else bnd (if p = cbuf_wtmp_loc b then
          (case cb_wtmp b of None \<Rightarrow> flt NullDeref | Some t \<Rightarrow>
            (let i = cbuf_index b (cb_wr b); size_at_end = cb_size b - i in
             bnd (bytes_at t 0 (unat size_at_end)) (\<lambda>b1.
             bnd (put_at (cb_data b) (unat i) b1) (\<lambda>d1.
             if sz > size_at_end then
               bnd (bytes_at t (unat size_at_end) (unat (sz - size_at_end))) (\<lambda>b2.
               bnd (put_at d1 0 b2) (\<lambda>d2. ok (b\<lparr>cb_data := d2\<rparr>)))
             else ok (b\<lparr>cb_data := d1\<rparr>)))))
        else ok b) (\<lambda>b1. ok (0, cbuf_publish sz b1)))"

subsection \<open>The read side\<close>

definition cbuf_copy_out :: "u64 \<Rightarrow> cbuf \<Rightarrow> u8 list exec" where
  "cbuf_copy_out sz b =
     (let i = cbuf_index b (cb_rd b) in
      if i + sz \<le> cb_size b then bytes_at (cb_data b) (unat i) (unat sz)
      else
        (let size_to_end = cb_size b - i in
         bnd (bytes_at (cb_data b) (unat i) (unat size_to_end)) (\<lambda>b1.
         bnd (bytes_at (cb_data b) 0 (unat (sz - size_to_end))) (\<lambda>b2. ok (b1 @ b2)))))"

definition cbuf_consume :: "u64 \<Rightarrow> cbuf \<Rightarrow> cbuf" where
  "cbuf_consume sz b = b\<lparr>cb_rd := cbuf_ptr_add b (cb_rd b) sz\<rparr>"

definition cbuf_read :: "u64 \<Rightarrow> cbuf \<Rightarrow> (int \<times> u8 list \<times> cbuf) exec" where
  "cbuf_read sz b =
     (if sz = 0 then ok (0, [], b)
      else if cbuf_fill_level b < sz then ok (- EINVAL, [], b)
      else bnd (cbuf_copy_out sz b) (\<lambda>bs. ok (0, bs, cbuf_consume sz b)))"

definition cbuf_rtmp_loc :: "cbuf \<Rightarrow> cloc" where
  "cbuf_rtmp_loc b = (case cb_rtmp b of None \<Rightarrow> LNull | Some _ \<Rightarrow> LRTmp)"

definition cbuf_fill_rtmp :: "u64 \<Rightarrow> cbuf \<Rightarrow> (int \<times> cloc option \<times> cbuf) exec" where
  "cbuf_fill_rtmp sz b = (case cb_rtmp b of None \<Rightarrow> flt NullDeref | Some t \<Rightarrow>
     (let i = cbuf_index b (cb_rd b); size_to_end = cb_size b - i in
      bnd (bytes_at (cb_data b) (unat i) (unat size_to_end)) (\<lambda>b1.
      bnd (put_at t 0 b1) (\<lambda>t1.
      bnd (bytes_at (cb_data b) 0 (unat (sz - size_to_end))) (\<lambda>b2.
      bnd (put_at t1 (unat size_to_end) b2) (\<lambda>t2.
        ok (0, Some (cbuf_rtmp_loc b), b\<lparr>cb_rtmp := Some t2\<rparr>)))))))"

definition cbuf_peek :: "realloc_fn \<Rightarrow> u64 \<Rightarrow> cbuf \<Rightarrow> (int \<times> cloc option \<times> cbuf) exec" where
  "cbuf_peek re sz b =
     (if sz = 0 then ok (0, None, b)
      else if cbuf_fill_level b < sz then ok (- EINVAL, None, b)
      else (let i = cbuf_index b (cb_rd b) in
        if i + sz \<le> cb_size b then ok (0, Some (LData i), b)
        else if cb_rtmp_size b < sz then
          bnd (if sz \<le> cb_hint_r b then ok (cb_hint_r b) else cbuf_calc_bufsize sz (cb_size b)) (\<lambda>n.
            (let b1 = b\<lparr>cb_rtmp_size := n, cb_rtmp := re (cb_rtmp b) (unat n)\<rparr> in
             if cb_rtmp b1 = None then ok (- ENOMEM, None, b1)
             else cbuf_fill_rtmp sz b1))
        else cbuf_fill_rtmp sz b))"

text \<open>The caller reads through the pointer it got.\<close>

definition cbuf_load :: "cloc \<Rightarrow> nat \<Rightarrow> cbuf \<Rightarrow> u8 list exec" where
  "cbuf_load p n b = (case p of
       LNull \<Rightarrow> if n = 0 then ok [] else flt NullDeref
     | LData i \<Rightarrow> bytes_at (cb_data b) (unat i) n
     | LWTmp \<Rightarrow> (case cb_wtmp b of None \<Rightarrow> flt BadPtr | Some t \<Rightarrow> bytes_at t 0 n)
     | LRTmp \<Rightarrow> (case cb_rtmp b of None \<Rightarrow> flt BadPtr | Some t \<Rightarrow> bytes_at t 0 n))"

definition cbuf_discard :: "u64 \<Rightarrow> cbuf \<Rightarrow> int \<times> cbuf" where
  "cbuf_discard sz b =
     (if cbuf_fill_level b < sz then (- EINVAL, b) else (0, cbuf_consume sz b))"

subsection \<open>Waiting\<close>

text \<open>
  \<open>lock\<close> is what taking the mutex returns, \<open>wait\<close> what waiting on the condition returns with the
  buffer as the other thread leaves it, \<open>later\<close> what it does after the mutex is released.
\<close>

definition cbuf_wait_for_level_change ::
    "int \<Rightarrow> (cbuf \<Rightarrow> int \<times> cbuf) \<Rightarrow> (cbuf \<Rightarrow> cbuf) \<Rightarrow> u64 \<Rightarrow> cbuf \<Rightarrow> int \<times> cbuf" where
  "cbuf_wait_for_level_change lock wait later level b =
     (let (rv, b1) =
        (if lock \<noteq> 0 then (lock, b)
         else if cbuf_fill_level b \<noteq> level then (0, b)
         else wait b);
        b2 = later b1;
        rv = (if cb_cancel b2 then ECANCELED else rv)
      in (- rv, b2))"

text \<open>The version with a timeout differs in the functions of the lock and of the wait only.\<close>

definition cbuf_timedwait_for_level_change ::
    "(nat \<Rightarrow> int) \<Rightarrow> (nat \<Rightarrow> cbuf \<Rightarrow> int \<times> cbuf) \<Rightarrow> (cbuf \<Rightarrow> cbuf) \<Rightarrow> u64 \<Rightarrow> nat \<Rightarrow> cbuf \<Rightarrow> int \<times> cbuf" where
  "cbuf_timedwait_for_level_change timedlock timedwait later level abs_timeout b =
     (let (rv, b1) =
        (if timedlock abs_timeout \<noteq> 0 then (timedlock abs_timeout, b)
         else if cbuf_fill_level b \<noteq> level then (0, b)
         else timedwait abs_timeout b);
        b2 = later b1;
        rv = (if cb_cancel b2 then ECANCELED else rv)
      in (- rv, b2))"

end
