(* ===== verification/Cbuf_Props.thy ===== *)
theory Cbuf_Props
  imports Cbuf
begin

section \<open>The circular buffer is a queue\<close>

lemma unat_pow2: "k < LENGTH('a::len) \<Longrightarrow> unat (2 ^ k :: 'a word) = 2 ^ k"
  by (metis of_nat_numeral of_nat_power take_bit_nat_eq_self_iff unsigned_of_nat power_strict_increasing_iff rel_simps(49) semiring_norm(76) numeral_less_iff)

lemma unat_and_mask:
  assumes "k < LENGTH('a::len)"
  shows "unat ((w::'a word) AND (2 ^ k - 1)) = unat w mod 2 ^ k"
proof -
  have "w AND (2 ^ k - 1) = take_bit k w" by (simp only: take_bit_eq_mask mask_eq_exp_minus_1)
  then show ?thesis by (simp only: unsigned_take_bit_eq) (simp only: take_bit_eq_mod)
qed

lemma bit_below: "(r::nat) < 2 ^ k \<Longrightarrow> bit r n \<Longrightarrow> n < k"
  by (metis bit_take_bit_iff take_bit_nat_eq_self)

lemma xor_pow2:
  assumes "r < 2 ^ Suc k"
  shows "(r::nat) XOR 2 ^ k = (if r < 2 ^ k then r + 2 ^ k else r - 2 ^ k)"
proof -
  have add: "q XOR 2 ^ k = q + 2 ^ k" if "q < 2 ^ k" for q :: nat
  proof -
    have "q AND 2 ^ k = 0"
      by (rule bit_eqI) (use bit_below [OF that] in \<open>auto simp: bit_simps\<close>)
    then show ?thesis by (simp add: disjunctive_add_eq_xor)
  qed
  show ?thesis
  proof (cases "r < 2 ^ k")
    case False
    define q where "q = r - 2 ^ k"
    have "r = q XOR 2 ^ k" and "q < 2 ^ k" using False assms add [of q] by (auto simp: q_def)
    then have "r XOR 2 ^ k = q" by (simp add: xor.assoc)
    then show ?thesis using False by (simp add: q_def)
  qed (simp add: add)
qed

lemma sless_zero: "(w::u64) <s 0 \<longleftrightarrow> 2 ^ 63 \<le> unat w"
proof -
  have "w <s 0 \<longleftrightarrow> sint w < 0" by (simp add: word_sless_alt)
  also have "\<dots> \<longleftrightarrow> bit w 63" using bit_last_iff [of w] by simp
  also have "\<dots> \<longleftrightarrow> bit (unat w) 63" by (simp add: bit_unsigned_iff)
  also have "\<dots> \<longleftrightarrow> 2 ^ 63 \<le> unat w"
  proof -
    have "unat w < 2 ^ 64" using unsigned_less [of w] by simp
    then have "unat w div 2 ^ 63 < 2" by (simp add: less_mult_imp_div_less)
    moreover have "2 ^ 63 \<le> unat w \<longleftrightarrow> 0 < unat w div 2 ^ 63" by (simp add: div_greater_zero_iff)
    ultimately show ?thesis unfolding bit_iff_odd by (auto simp del: div_greater_zero_iff dest: less_2_cases)
  qed
  finally show ?thesis .
qed

subsection \<open>What the buffer holds\<close>

definition cfill :: "cbuf \<Rightarrow> nat" where
  "cfill b = (if unat (cb_rd b) \<le> unat (cb_wr b) then unat (cb_wr b) - unat (cb_rd b)
     else unat (cb_wr b) + 2 * unat (cb_size b) - unat (cb_rd b))"

definition ccont :: "cbuf \<Rightarrow> u8 list" where
  "ccont b = map (\<lambda>j. cb_data b ! ((unat (cb_rd b) + j) mod unat (cb_size b))) [0..<cfill b]"

definition tmp_ok :: "u8 list option \<Rightarrow> u64 \<Rightarrow> bool" where
  "tmp_ok t n \<longleftrightarrow> (case t of None \<Rightarrow> n = 0 | Some xs \<Rightarrow> unat n = length xs)"

definition cbuf_ok :: "nat \<Rightarrow> cbuf \<Rightarrow> bool" where
  "cbuf_ok k b \<longleftrightarrow> k < 30 \<and> cb_size b = 2 ^ k \<and> length (cb_data b) = 2 ^ k \<and>
     unat (cb_wr b) < 2 * 2 ^ k \<and> unat (cb_rd b) < 2 * 2 ^ k \<and> cfill b \<le> 2 ^ k \<and>
     tmp_ok (cb_rtmp b) (cb_rtmp_size b) \<and> tmp_ok (cb_wtmp b) (cb_wtmp_size b)"

lemma pow_30: "k < 30 \<Longrightarrow> (2::nat) ^ k < 2 ^ 30"
  by (rule power_strict_increasing) simp_all

lemma unat_size: "cbuf_ok k b \<Longrightarrow> unat (cb_size b) = 2 ^ k"
  by (simp add: cbuf_ok_def unat_pow2)

lemma size_bound: "cbuf_ok k b \<Longrightarrow> unat (cb_size b) < 2 ^ 30"
  using pow_30 [of k] by (simp add: unat_size) (simp add: cbuf_ok_def)

lemma unat_index:
  assumes "cbuf_ok k b" shows "unat (cbuf_index b p) = unat p mod 2 ^ k"
proof -
  have "cb_size b = 2 ^ k" and "k < 30" using assms by (simp_all add: cbuf_ok_def)
  then show ?thesis by (simp add: cbuf_index_def unat_and_mask)
qed

lemma unat_ptr_add:
  assumes "cbuf_ok k b" shows "unat (cbuf_ptr_add b p s) = (unat p + unat s) mod (2 * 2 ^ k)"
proof -
  have k: "cb_size b = 2 ^ k" "k < 30" using assms by (simp_all add: cbuf_ok_def)
  have "unat (cbuf_ptr_add b p s) = unat (p + s) mod 2 ^ Suc k"
    using k unat_and_mask [of "Suc k" "p + s"] by (simp add: cbuf_ptr_add_def)
  also have "\<dots> = (unat p + unat s) mod 2 ^ 64 mod 2 ^ Suc k"
    by (simp add: unat_word_ariths)
  also have "\<dots> = (unat p + unat s) mod 2 ^ Suc k"
    by (rule mod_mod_cancel, rule le_imp_power_dvd) (use k in simp)
  finally show ?thesis by simp
qed

lemma cbuf_full_iff:
  assumes "cbuf_ok k b" shows "cbuf_is_full b \<longleftrightarrow> cfill b = 2 ^ k"
proof -
  have k: "cb_size b = 2 ^ k" "k < 30" and w: "unat (cb_wr b) < 2 * 2 ^ k" and r: "unat (cb_rd b) < 2 * 2 ^ k"
    using assms by (simp_all add: cbuf_ok_def)
  have "cbuf_is_full b \<longleftrightarrow> unat (cb_wr b) = unat (cb_rd b XOR cb_size b)"
    by (simp only: cbuf_is_full_def word_unat_eq_iff)
  also have "unat (cb_rd b XOR cb_size b) = unat (cb_rd b) XOR 2 ^ k"
    using k by (simp add: unsigned_xor_eq unat_pow2)
  also have "\<dots> = (if unat (cb_rd b) < 2 ^ k then unat (cb_rd b) + 2 ^ k else unat (cb_rd b) - 2 ^ k)"
    by (rule xor_pow2) (use r in simp)
  finally show ?thesis
    using w r unat_size [OF assms] by (auto simp: cfill_def split: if_splits)
qed

lemma diff_level:
  assumes ok: "cbuf_ok k b"
  shows "unat (cbuf_level_diff b) = (if cfill b = 2 ^ k then 0 else cfill b)"
proof -
  define W R N where "W = unat (cb_wr b)" and "R = unat (cb_rd b)" and "N = (2::nat) ^ k"
  have w: "W < 2 * N" and r: "R < 2 * N" and f: "cfill b \<le> N"
    using ok by (simp_all add: cbuf_ok_def W_def R_def N_def)
  have n: "N < 2 ^ 30" and s: "unat (cb_size b) = N" 
    using size_bound [OF ok] unat_size [OF ok] by (simp_all add: N_def)
  define a c where "a = cbuf_index b (cb_wr b)" and "c = cbuf_index b (cb_rd b)"
  have a: "unat a = W mod N" and c: "unat c = R mod N"
    by (simp_all add: a_def c_def unat_index [OF ok] W_def R_def N_def)
  have N0: "0 < N" by (simp add: N_def)
  have an: "unat a < N" and cn: "unat c < N" using N0 by (simp_all add: a c)
  have wc: "W mod N = (if W < N then W else W - N)" and rc: "R mod N = (if R < N then R else R - N)"
    using w r by (auto simp: mod_if)
  have lev: "unat (cbuf_level_diff b) = (if unat c \<le> unat a then unat a - unat c else unat a + N - unat c)"
  proof (cases "unat c \<le> unat a")
    case True
    then have "unat (a - c) = unat a - unat c" by (simp add: unat_sub_if')
    moreover have "\<not> (a - c) <s 0" using calculation an n by (simp add: sless_zero)
    ultimately show ?thesis using True by (simp add: cbuf_level_diff_def a_def c_def Let_def)
  next
    case False
    then have d: "unat (a - c) = unat a + 2 ^ 64 - unat c" by (simp add: unat_sub_if')
    moreover have "(a - c) <s 0" unfolding sless_zero d using cn n by simp
    moreover have "unat (a - c + cb_size b) = unat a + N - unat c"
    proof -
      have "unat (a - c + cb_size b) = (unat a + 2 ^ 64 - unat c + N) mod 2 ^ 64"
        by (simp add: unat_word_ariths s d)
      also have "unat a + 2 ^ 64 - unat c + N = unat a + N - unat c + 2 ^ 64"
        using cn n by simp
      also have "\<dots> mod 2 ^ 64 = unat a + N - unat c"
        using False an n by simp
      finally show ?thesis .
    qed
    ultimately show ?thesis using False by (simp add: cbuf_level_diff_def a_def c_def Let_def)
  qed
  have cf: "cfill b = (if R \<le> W then W - R else W + 2 * N - R)"
    by (simp add: cfill_def W_def R_def s)
  show ?thesis unfolding lev a c wc rc N_def [symmetric] using w r f unfolding cf by auto
qed

lemma fill_level: "cbuf_ok k b \<Longrightarrow> unat (cbuf_fill_level b) = cfill b"
  by (simp add: cbuf_fill_level_def cbuf_full_iff diff_level unat_size)

lemma fill_bound: "cbuf_ok k b \<Longrightarrow> cfill b \<le> 2 ^ k"
  by (simp add: cbuf_ok_def)

lemma free_level: "cbuf_ok k b \<Longrightarrow> unat (cbuf_free_level b) = 2 ^ k - cfill b"
  using fill_level [of k b] fill_bound [of k b] unat_size [of k b]
  by (simp add: cbuf_free_level_def unat_sub_if' word_le_nat_alt)

lemma length_ccont [simp]: "length (ccont b) = cfill b"
  by (simp add: ccont_def)

subsection \<open>Copying into the free part\<close>

definition wrote :: "cbuf \<Rightarrow> u8 list \<Rightarrow> u8 list \<Rightarrow> bool" where
  "wrote b d bs \<longleftrightarrow> length d = length (cb_data b) \<and>
     (\<forall>j<length bs. d ! ((unat (cb_wr b) + j) mod unat (cb_size b)) = bs ! j) \<and>
     (\<forall>x<cfill b. d ! ((unat (cb_rd b) + x) mod unat (cb_size b)) =
        cb_data b ! ((unat (cb_rd b) + x) mod unat (cb_size b)))"

lemma wr_is_end:
  assumes "cbuf_ok k b"
  shows "(unat (cb_rd b) + cfill b) mod 2 ^ k = unat (cb_wr b) mod 2 ^ k"
proof -
  have w: "unat (cb_rd b) < 2 * 2 ^ k" using assms by (simp add: cbuf_ok_def)
  have "unat (cb_rd b) + cfill b = unat (cb_wr b) \<or> unat (cb_rd b) + cfill b = unat (cb_wr b) + 2 ^ k * 2"
    using w unat_size [OF assms] by (auto simp: cfill_def)
  then show ?thesis by auto
qed

lemma free_pos:
  assumes ok: "cbuf_ok k b" and x: "x < cfill b" and j: "j < 2 ^ k - cfill b"
  shows "(unat (cb_wr b) mod 2 ^ k + j) mod 2 ^ k \<noteq> (unat (cb_rd b) + x) mod 2 ^ k"
proof
  assume "(unat (cb_wr b) mod 2 ^ k + j) mod 2 ^ k = (unat (cb_rd b) + x) mod 2 ^ k"
  then have "(unat (cb_rd b) + (cfill b + j)) mod 2 ^ k = (unat (cb_rd b) + x) mod 2 ^ k"
    unfolding wr_is_end [OF ok, symmetric] by (simp add: mod_add_left_eq add.assoc)
  then have "cfill b + j = x" by (rule mod_add_inj) (use x j in auto)
  then show False using x by simp
qed

definition filled :: "u8 list \<Rightarrow> nat \<Rightarrow> nat \<Rightarrow> u8 list \<Rightarrow> u8 list \<Rightarrow> bool" where
  "filled xs i m bs d \<longleftrightarrow> length d = length xs \<and>
     (\<forall>j<length bs. d ! ((i + j) mod length xs) = bs ! j) \<and>
     (\<forall>p<length xs. d ! p \<noteq> xs ! p \<longrightarrow> (\<exists>j<m. p = (i + j) mod length xs))"

lemma filled_wrote:
  assumes ok: "cbuf_ok k b" and f: "filled (cb_data b) (unat (cb_wr b) mod 2 ^ k) m bs d" and m: "m \<le> 2 ^ k - cfill b"
  shows "wrote b d bs"
proof -
  have l: "length (cb_data b) = 2 ^ k" using ok by (simp add: cbuf_ok_def)
  have "d ! ((unat (cb_rd b) + x) mod 2 ^ k) = cb_data b ! ((unat (cb_rd b) + x) mod 2 ^ k)"
    if "x < cfill b" for x
  proof (rule ccontr)
    assume "d ! ((unat (cb_rd b) + x) mod 2 ^ k) \<noteq> cb_data b ! ((unat (cb_rd b) + x) mod 2 ^ k)"
    moreover have "(unat (cb_rd b) + x) mod 2 ^ k < 2 ^ k" by simp
    moreover have "\<forall>p<2 ^ k. d ! p \<noteq> cb_data b ! p \<longrightarrow> (\<exists>j<m. p = (unat (cb_wr b) mod 2 ^ k + j) mod 2 ^ k)"
      using f l by (simp add: filled_def)
    ultimately obtain j where "j < m" "(unat (cb_rd b) + x) mod 2 ^ k = (unat (cb_wr b) mod 2 ^ k + j) mod 2 ^ k"
      by blast
    with free_pos [OF ok that, of j] m show False by simp
  qed
  then show ?thesis using f l by (auto simp: wrote_def unat_size [OF ok] filled_def mod_add_left_eq)
qed

lemma one_put:
  assumes "i + length bs \<le> length xs"
  shows "\<exists>d. put_at xs i bs = ok d \<and> filled xs i (length bs) bs d"
proof -
  obtain d where d: "put_at xs i bs = ok d" "length d = length xs"
    and n: "\<And>p. p < length xs \<Longrightarrow> d ! p = (if i \<le> p \<and> p < i + length bs then bs ! (p - i) else xs ! p)"
    using put_at_ex [OF assms] by blast
  have "\<exists>j<length bs. p = (i + j) mod length xs" if "p < length xs" "d ! p \<noteq> xs ! p" for p
    using that n [OF that(1)] by (intro exI [of _ "p - i"]) (auto split: if_splits)
  then have "filled xs i (length bs) bs d"
    unfolding filled_def using d(2) n assms by auto
  with d show ?thesis by blast
qed

lemma two_puts:
  assumes i: "i < length xs" and l1: "length b1 = length xs - i" and l2: "length b2 \<le> i"
  shows "\<exists>d1 d2. put_at xs i b1 = ok d1 \<and> put_at d1 0 b2 = ok d2 \<and>
    filled xs i (length b1 + length b2) (b1 @ b2) d2"
proof -
  obtain d1 where d1: "put_at xs i b1 = ok d1" "length d1 = length xs"
    and n1: "\<And>p. p < length xs \<Longrightarrow> d1 ! p = (if i \<le> p \<and> p < i + length b1 then b1 ! (p - i) else xs ! p)"
    using put_at_ex [of i b1 xs] i l1 by auto
  obtain d2 where d2: "put_at d1 0 b2 = ok d2" "length d2 = length xs"
    and n2: "\<And>p. p < length xs \<Longrightarrow> d2 ! p = (if p < length b2 then b2 ! p else d1 ! p)"
    using put_at_ex [of 0 b2 d1] i l2 d1(2) by auto
  have idx: "(i + j) mod length xs = (if j < length b1 then i + j else j - length b1)"
    if "j < length b1 + length b2" for j
  proof (cases "j < length b1")
    case False
    then have "i + j = j - length b1 + length xs" using l1 i by simp
    then show ?thesis using False that l2 i by (simp del: add_diff_assoc2) 
  qed (use l1 in simp)
  have "d2 ! ((i + j) mod length xs) = (b1 @ b2) ! j" if "j < length b1 + length b2" for j
    unfolding idx [OF that] using that i l1 l2 by (auto simp: n1 n2 nth_append)
  moreover have "\<exists>j<length b1 + length b2. p = (i + j) mod length xs"
    if p: "p < length xs" "d2 ! p \<noteq> xs ! p" for p
  proof (cases "p < length b2")
    case True
    then show ?thesis using idx [of "length b1 + p"] by (intro exI [of _ "length b1 + p"]) simp
  next
    case False
    then have "i \<le> p" using p n1 n2 by (auto split: if_splits)
    then show ?thesis using idx [of "p - i"] p(1) l1 i by (intro exI [of _ "p - i"]) auto
  qed
  ultimately have "filled xs i (length b1 + length b2) (b1 @ b2) d2"
    unfolding filled_def using d2(2) by simp
  with d1 d2 show ?thesis by blast
qed

lemma filled_take:
  assumes "filled xs i m bs d" shows "filled xs i m (take n bs) d"
  using assms by (auto simp: filled_def)

lemma filled_mono:
  assumes "filled xs i m bs d" and "m \<le> r" shows "filled xs i r bs d"
  unfolding filled_def
proof (intro conjI allI impI)
  fix p assume "p < length xs" "d ! p \<noteq> xs ! p"
  then obtain j where "j < m" "p = (i + j) mod length xs" using assms(1) by (auto simp: filled_def)
  then show "\<exists>j<r. p = (i + j) mod length xs" using assms(2) by (intro exI [of _ j]) simp
qed (use assms(1) in \<open>simp_all add: filled_def\<close>)

text \<open>Publishing what was written appends it.\<close>

lemma publish_ok:
  assumes ok: "cbuf_ok k b" and wr: "wrote b d bs" and fr: "unat s = length bs" "length bs \<le> 2 ^ k - cfill b"
    and t: "tmp_ok t n"
  defines "b' \<equiv> cbuf_publish s (b\<lparr>cb_data := d, cb_wtmp := t, cb_wtmp_size := n\<rparr>)"
  shows "cbuf_ok k b'" and "ccont b' = ccont b @ bs" and "cb_size b' = cb_size b"
proof -
  have ptr: "cbuf_ptr_add (b\<lparr>cb_data := d, cb_wtmp := t, cb_wtmp_size := n\<rparr>) p v = cbuf_ptr_add b p v" for p v
    by (simp add: cbuf_ptr_add_def)
  have flds: "cb_rd b' = cb_rd b" "cb_size b' = cb_size b" "cb_data b' = d" "unat (cb_size b') = 2 ^ k"
    "cb_wtmp b' = t" "cb_wtmp_size b' = n" "cb_rtmp b' = cb_rtmp b" "cb_rtmp_size b' = cb_rtmp_size b"
    using unat_size [OF ok] by (simp_all add: b'_def cbuf_publish_def)
  have wr': "unat (cb_wr b') = (unat (cb_wr b) + length bs) mod (2 * 2 ^ k)"
    using unat_ptr_add [OF ok, of "cb_wr b" s] fr by (simp add: b'_def cbuf_publish_def ptr)
  have w: "unat (cb_wr b) < 2 * 2 ^ k" and r: "unat (cb_rd b) < 2 * 2 ^ k" and f: "cfill b \<le> 2 ^ k"
    using ok by (simp_all add: cbuf_ok_def)
  have wr2: "unat (cb_wr b') = (if unat (cb_wr b) + length bs < 2 * 2 ^ k then unat (cb_wr b) + length bs
      else unat (cb_wr b) + length bs - 2 * 2 ^ k)"
    unfolding wr' using w fr(2) by (auto simp: mod_if)
  have fill: "cfill b' = cfill b + length bs"
    using w r f fr(2) unat_size [OF ok] unfolding cfill_def flds wr2 by (auto split: if_splits)
  show "cbuf_ok k b'"
    using ok wr f fr(2) t unfolding cbuf_ok_def fill flds wr' by (auto simp: wrote_def)
  show "cb_size b' = cb_size b" by (rule flds)
  have "ccont b' ! x = (ccont b @ bs) ! x" if "x < cfill b + length bs" for x
  proof (cases "x < cfill b")
    case True
    then show ?thesis using wr unat_size [OF ok]
      by (simp add: ccont_def fill flds nth_append wrote_def)
  next
    case False
    define j where "j = x - cfill b"
    have x: "x = cfill b + j" and j: "j < length bs" using False that by (auto simp: j_def)
    have "(unat (cb_rd b) + x) mod 2 ^ k = ((unat (cb_rd b) + cfill b) mod 2 ^ k + j) mod 2 ^ k"
      unfolding x by (simp add: mod_add_left_eq add.assoc)
    also have "\<dots> = (unat (cb_wr b) + j) mod 2 ^ k"
      unfolding wr_is_end [OF ok] by (simp add: mod_add_left_eq)
    finally show ?thesis using wr unat_size [OF ok] False j x
      by (simp add: ccont_def fill flds nth_append wrote_def)
  qed
  then show "ccont b' = ccont b @ bs" by (intro nth_equalityI) (simp_all add: fill)
qed

text \<open>Consuming drops the front.\<close>

lemma consume_ok:
  assumes ok: "cbuf_ok k b" and s: "unat s \<le> cfill b"
  shows "cbuf_ok k (cbuf_consume s b)" and "ccont (cbuf_consume s b) = drop (unat s) (ccont b)"
    and "cb_size (cbuf_consume s b) = cb_size b"
proof -
  let ?b = "cbuf_consume s b"
  have flds: "cb_wr ?b = cb_wr b" "cb_size ?b = cb_size b" "cb_data ?b = cb_data b"
    by (simp_all add: cbuf_consume_def)
  have rd: "unat (cb_rd ?b) = (unat (cb_rd b) + unat s) mod (2 * 2 ^ k)"
    by (simp add: cbuf_consume_def unat_ptr_add [OF ok])
  have w: "unat (cb_wr b) < 2 * 2 ^ k" and r: "unat (cb_rd b) < 2 * 2 ^ k" and f: "cfill b \<le> 2 ^ k"
    using ok by (simp_all add: cbuf_ok_def)
  have rd2: "unat (cb_rd ?b) = (if unat (cb_rd b) + unat s < 2 * 2 ^ k then unat (cb_rd b) + unat s
      else unat (cb_rd b) + unat s - 2 * 2 ^ k)"
    unfolding rd using r f s by (auto simp: mod_if)
  have fill: "cfill ?b = cfill b - unat s"
    using w r f s unat_size [OF ok] unfolding cfill_def flds rd2 by (auto split: if_splits)
  show "cbuf_ok k ?b"
    using ok unfolding cbuf_ok_def fill flds rd by (auto simp: cbuf_consume_def)
  show "cb_size ?b = cb_size b" by (rule flds)
  have pos: "(unat (cb_rd ?b) + x) mod 2 ^ k = (unat (cb_rd b) + (unat s + x)) mod 2 ^ k" for x
  proof -
    have "(unat (cb_rd ?b) + x) mod 2 ^ k = ((unat (cb_rd b) + unat s) mod (2 * 2 ^ k) mod 2 ^ k + x) mod 2 ^ k"
      unfolding rd by (simp add: mod_add_left_eq)
    also have "(unat (cb_rd b) + unat s) mod (2 * 2 ^ k) mod 2 ^ k = (unat (cb_rd b) + unat s) mod 2 ^ k"
      by (rule mod_mod_cancel) simp
    finally show ?thesis by (simp add: mod_add_left_eq add.assoc)
  qed
  show "ccont ?b = drop (unat s) (ccont b)"
    by (intro nth_equalityI) (use s in \<open>simp_all add: fill ccont_def flds pos unat_size [OF ok] less_diff_conv add.commute [of "unat s"]\<close>)
qed

lemma index_less: "cbuf_ok k b \<Longrightarrow> unat (cbuf_index b p) < 2 ^ k"
  by (simp add: unat_index)

lemma fits_iff:
  assumes "cbuf_ok k b" and "unat s \<le> 2 ^ k"
  shows "cbuf_index b p + s \<le> cb_size b \<longleftrightarrow> unat p mod 2 ^ k + unat s \<le> 2 ^ k"
proof -
  have "unat (cbuf_index b p) + unat s < 2 ^ 64"
    using size_bound [OF assms(1)] index_less [OF assms(1), of p] assms(2) unat_size [OF assms(1)] by simp
  then show ?thesis
    by (simp add: word_le_nat_alt unat_word_ariths unat_size [OF assms(1)] unat_index [OF assms(1)])
qed

lemma to_end:
  assumes "cbuf_ok k b"
  shows "unat (cb_size b - cbuf_index b p) = 2 ^ k - unat p mod 2 ^ k"
  using index_less [OF assms, of p] unat_size [OF assms]
  by (simp add: unat_sub_if' unat_index [OF assms])

lemma rest_of:
  assumes "cbuf_ok k b" and "unat s \<le> 2 ^ k" and "\<not> unat p mod 2 ^ k + unat s \<le> 2 ^ k"
  shows "unat (s - (cb_size b - cbuf_index b p)) = unat s - (2 ^ k - unat p mod 2 ^ k)"
  using assms(3) by (simp add: unat_sub_if' [of s] to_end [OF assms(1)])

lemma copy_in_ok:
  assumes ok: "cbuf_ok k b" and l: "unat s = length bs" and fr: "length bs \<le> 2 ^ k - cfill b"
  shows "\<exists>d. cbuf_copy_in bs s b = ok (b\<lparr>cb_data := d\<rparr>) \<and> wrote b d bs"
proof -
  define i where "i = unat (cb_wr b) mod 2 ^ k"
  have il: "i < length (cb_data b)" and dl: "length (cb_data b) = 2 ^ k"
    using ok by (simp_all add: i_def cbuf_ok_def)
  have sl: "unat s \<le> 2 ^ k" using l fr by simp
  show ?thesis
  proof (cases "i + unat s \<le> 2 ^ k")
    case True
    obtain d where "put_at (cb_data b) i bs = ok d" and f: "filled (cb_data b) i (length bs) bs d"
      using one_put [of i bs "cb_data b"] True l dl by auto
    then show ?thesis
      using True l filled_wrote [OF ok f [unfolded i_def] fr] fits_iff [OF ok sl, of "cb_wr b"]
      by (intro exI [of _ d]) (simp add: cbuf_copy_in_def unat_index [OF ok] i_def)
  next
    case False
    let ?e = "2 ^ k - i"
    have "length bs + i - 2 ^ k \<le> i" using l sl by simp
    then obtain d1 d where "put_at (cb_data b) i (take ?e bs) = ok d1" "put_at d1 0 (drop ?e bs) = ok d"
      and f: "filled (cb_data b) i (length bs) bs d"
      using two_puts [of i "cb_data b" "take ?e bs" "drop ?e bs"] False l dl il sl by auto
    then show ?thesis
      using False l filled_wrote [OF ok f [unfolded i_def] fr] fits_iff [OF ok sl, of "cb_wr b"]
        rest_of [OF ok sl, of "cb_wr b"]
      by (intro exI [of _ d]) (simp add: cbuf_copy_in_def unat_index [OF ok] to_end [OF ok] i_def Let_def)
  qed
qed

lemma copy_out_ok:
  assumes ok: "cbuf_ok k b" and s: "unat s \<le> cfill b"
  shows "cbuf_copy_out s b = ok (take (unat s) (ccont b))"
proof -
  define i where "i = unat (cb_rd b) mod 2 ^ k"
  have dl: "length (cb_data b) = 2 ^ k" and il: "i < 2 ^ k"
    using ok by (simp_all add: i_def cbuf_ok_def)
  have sl: "unat s \<le> 2 ^ k" using s fill_bound [OF ok] by simp
  have nth: "ccont b ! x = cb_data b ! ((i + x) mod 2 ^ k)" if "x < cfill b" for x
    using that by (simp add: ccont_def unat_size [OF ok] i_def mod_add_left_eq)
  show ?thesis
  proof (cases "i + unat s \<le> 2 ^ k")
    case True
    have "take (unat s) (drop i (cb_data b)) = take (unat s) (ccont b)"
      using True s dl by (intro nth_equalityI) (auto simp: nth)
    then show ?thesis using True fits_iff [OF ok sl, of "cb_rd b"] dl
      by (simp add: cbuf_copy_out_def unat_index [OF ok] i_def)
  next
    case False
    have "take (2 ^ k - i) (drop i (cb_data b)) @ take (unat s - (2 ^ k - i)) (cb_data b) = take (unat s) (ccont b)"
      (is "?l = ?r")
    proof (intro nth_equalityI)
      show "length ?l = length ?r" using False s sl dl il by auto
    next
      fix x assume x: "x < length ?l"
      then have xs: "x < unat s" using False sl dl il by auto
      have "(i + x) mod 2 ^ k = (if x < 2 ^ k - i then i + x else x - (2 ^ k - i))"
      proof (cases "x < 2 ^ k - i")
        case False
        then have "i + x = x - (2 ^ k - i) + 2 ^ k" using il by simp
        moreover have "x - (2 ^ k - i) < 2 ^ k" using xs sl by simp
        ultimately show ?thesis using False by (metis mod_add_self2 mod_less)
      qed simp
      then show "?l ! x = ?r ! x" using xs s dl il by (auto simp: nth nth_append)
    qed
    moreover have "unat s - (2 ^ k - i) \<le> 2 ^ k" using sl by simp
    ultimately show ?thesis using False fits_iff [OF ok sl, of "cb_rd b"] rest_of [OF ok sl, of "cb_rd b"] dl sl
      by (simp add: cbuf_copy_out_def unat_index [OF ok] to_end [OF ok] i_def Let_def)
  qed
qed

subsection \<open>The operations\<close>

lemma same_tmp: "b\<lparr>cb_data := d, cb_wtmp := cb_wtmp b, cb_wtmp_size := cb_wtmp_size b\<rparr> = b\<lparr>cb_data := d\<rparr>"
  by (cases b) simp

lemma tmp_okD:
  "cbuf_ok k b \<Longrightarrow> tmp_ok (cb_wtmp b) (cb_wtmp_size b)" "cbuf_ok k b \<Longrightarrow> tmp_ok (cb_rtmp b) (cb_rtmp_size b)"
  by (simp_all add: cbuf_ok_def)

lemma publish_data:
  assumes "cbuf_ok k b" and "wrote b d bs" and "unat s = length bs" "length bs \<le> 2 ^ k - cfill b"
  shows "cbuf_ok k (cbuf_publish s (b\<lparr>cb_data := d\<rparr>))" and "ccont (cbuf_publish s (b\<lparr>cb_data := d\<rparr>)) = ccont b @ bs"
  using publish_ok [OF assms tmp_okD(1) [OF assms(1)]] by (simp_all only: same_tmp)

lemma write_spec:
  assumes ok: "cbuf_ok k b" and l: "unat s = length bs"
  shows "length bs \<le> 2 ^ k - cfill b \<Longrightarrow>
      \<exists>b'. cbuf_write bs s b = ok (0, b') \<and> cbuf_ok k b' \<and> ccont b' = ccont b @ bs"
    and "\<not> length bs \<le> 2 ^ k - cfill b \<Longrightarrow> cbuf_write bs s b = ok (- EINVAL, b)"
proof -
  have c: "cbuf_free_level b < s \<longleftrightarrow> \<not> length bs \<le> 2 ^ k - cfill b"
    by (simp add: word_less_nat_alt free_level [OF ok] l not_le)
  {
    assume fr: "length bs \<le> 2 ^ k - cfill b"
    then obtain d where "cbuf_copy_in bs s b = ok (b\<lparr>cb_data := d\<rparr>)" "wrote b d bs"
      using copy_in_ok [OF ok l] by blast
    then show "\<exists>b'. cbuf_write bs s b = ok (0, b') \<and> cbuf_ok k b' \<and> ccont b' = ccont b @ bs"
      using c fr publish_data [OF ok _ l fr] by (simp add: cbuf_write_def)
  }
  show "\<not> length bs \<le> 2 ^ k - cfill b \<Longrightarrow> cbuf_write bs s b = ok (- EINVAL, b)"
    using c by (simp add: cbuf_write_def)
qed

lemma read_spec:
  assumes ok: "cbuf_ok k b"
  shows "unat s \<le> cfill b \<Longrightarrow> \<exists>b'. cbuf_read s b = ok (0, take (unat s) (ccont b), b') \<and>
      cbuf_ok k b' \<and> ccont b' = drop (unat s) (ccont b)"
    and "\<not> unat s \<le> cfill b \<Longrightarrow> cbuf_read s b = ok (- EINVAL, [], b)"
proof -
  have c: "cbuf_fill_level b < s \<longleftrightarrow> \<not> unat s \<le> cfill b"
    by (simp add: word_less_nat_alt fill_level [OF ok] not_le)
  have z: "s = 0 \<longleftrightarrow> unat s = 0" by (simp add: unat_eq_0)
  show "\<not> unat s \<le> cfill b \<Longrightarrow> cbuf_read s b = ok (- EINVAL, [], b)"
    using c z by (auto simp: cbuf_read_def)
  assume fr: "unat s \<le> cfill b"
  show "\<exists>b'. cbuf_read s b = ok (0, take (unat s) (ccont b), b') \<and> cbuf_ok k b' \<and> ccont b' = drop (unat s) (ccont b)"
  proof (cases "s = 0")
    case True
    then show ?thesis using ok by (simp add: cbuf_read_def)
  next
    case False
    then show ?thesis using c fr copy_out_ok [OF ok fr] consume_ok [OF ok fr]
      by (simp add: cbuf_read_def)
  qed
qed

lemma log2_bounds: "a \<le> log2_loop x a \<and> x < 2 ^ Suc (log2_loop x a - a) \<and> (0 < x \<longrightarrow> 2 ^ (log2_loop x a - a) \<le> x)"
proof (induction x a rule: log2_loop.induct)
  case (1 x a)
  show ?case
  proof (cases "x div 2 = 0")
    case True
    then show ?thesis by (subst (1 2 3) log2_loop.simps) auto
  next
    case False
    let ?l = "log2_loop (x div 2) (Suc a)"
    have e: "log2_loop x a = ?l" using False by (subst log2_loop.simps) simp
    have ih: "Suc a \<le> ?l" "x div 2 < 2 ^ Suc (?l - Suc a)" "2 ^ (?l - Suc a) \<le> x div 2"
      using 1 [OF False] False by auto
    have s: "?l - a = Suc (?l - Suc a)" using ih(1) by simp
    show ?thesis unfolding e s using ih by auto
  qed
qed

lemma calc_bufsize_ok:
  assumes "unat sz < 2 ^ 30" and "unat sz \<le> unat mx"
  shows "\<exists>m. cbuf_calc_bufsize sz mx = ok m \<and> unat sz \<le> unat m"
proof -
  let ?l = "log2_loop (unat sz) 0"
  have b: "unat sz < 2 ^ Suc ?l" "0 < unat sz \<longrightarrow> 2 ^ ?l \<le> unat sz" using log2_bounds [of 0 "unat sz"] by auto
  have l: "?l < 30"
  proof (cases "unat sz = 0")
    case True
    then show ?thesis by (simp add: log2_loop.simps)
  next
    case False
    then have "(2::nat) ^ ?l < 2 ^ 30" using b assms(1) by simp
    then show ?thesis by (simp only: power_strict_increasing_iff one_less_numeral_iff semiring_norm)
  qed
  have p: "unat (push_bit (?l + 1) 1 :: u64) = 2 ^ Suc ?l"
    using l unat_pow2 [of "Suc ?l", where 'a = 64] by (simp add: push_bit_eq_mult)
  show ?thesis using l b(1) assms(2) p by (simp add: cbuf_calc_bufsize_def Let_def)
qed

definition reallocs :: "realloc_fn \<Rightarrow> bool" where
  "reallocs re \<longleftrightarrow> realloc_ok re \<and> (\<forall>t n. re t n \<noteq> None)"

lemma reallocsE:
  assumes "reallocs re" obtains t' where "re t n = Some t'" "length t' = n"
  using assms by (fastforce simp: reallocs_def realloc_ok_def)

lemma reallocs_zero: "reallocs realloc_zero"
  by (auto simp: reallocs_def realloc_ok_def realloc_zero_def min_def split: option.splits)

lemma reserve_spec:
  assumes ok: "cbuf_ok k b" and re: "reallocs re" and fr: "unat n \<le> 2 ^ k - cfill b"
  shows "unat (cb_wr b) mod 2 ^ k + unat n \<le> 2 ^ k \<Longrightarrow>
      cbuf_reserve re n b = ok (0, Some (LData (cbuf_index b (cb_wr b))), b)"
    and "\<not> unat (cb_wr b) mod 2 ^ k + unat n \<le> 2 ^ k \<Longrightarrow> \<exists>t m.
      cbuf_reserve re n b = ok (0, Some LWTmp, b\<lparr>cb_wtmp := Some t, cb_wtmp_size := m\<rparr>) \<and>
      tmp_ok (Some t) m \<and> unat n \<le> length t"
proof -
  have nl: "unat n \<le> 2 ^ k" using fr by simp
  have c: "\<not> cbuf_free_level b < n" using fr by (simp add: word_less_nat_alt free_level [OF ok])
  note fit = fits_iff [OF ok nl, of "cb_wr b"]
  show "unat (cb_wr b) mod 2 ^ k + unat n \<le> 2 ^ k \<Longrightarrow>
      cbuf_reserve re n b = ok (0, Some (LData (cbuf_index b (cb_wr b))), b)"
    using c fit by (simp add: cbuf_reserve_def)
  assume nf: "\<not> unat (cb_wr b) mod 2 ^ k + unat n \<le> 2 ^ k"
  have n0: "0 < unat n"
  proof (rule ccontr)
    assume "\<not> 0 < unat n"
    then show False using nf by (simp add: less_imp_le)
  qed
  show "\<exists>t m. cbuf_reserve re n b = ok (0, Some LWTmp, b\<lparr>cb_wtmp := Some t, cb_wtmp_size := m\<rparr>) \<and>
      tmp_ok (Some t) m \<and> unat n \<le> length t"
  proof (cases "cb_wtmp_size b < n")
    case True
    have "\<exists>m. (if n \<le> cb_hint_w b then ok (cb_hint_w b) else cbuf_calc_bufsize n (cb_size b)) = ok m \<and> unat n \<le> unat m"
      using calc_bufsize_ok [of n "cb_size b"] nl size_bound [OF ok] unat_size [OF ok]
      by (simp add: word_le_nat_alt)
    then obtain m where m: "(if n \<le> cb_hint_w b then ok (cb_hint_w b) else cbuf_calc_bufsize n (cb_size b)) = ok m" "unat n \<le> unat m"
      by blast
    obtain t where t: "re (cb_wtmp b) (unat m) = Some t" "length t = unat m" by (rule reallocsE [OF re])
    have eq: "b\<lparr>cb_wtmp_size := m, cb_wtmp := Some t\<rparr> = b\<lparr>cb_wtmp := Some t, cb_wtmp_size := m\<rparr>" by simp
    have "cbuf_reserve re n b = ok (0, Some LWTmp, b\<lparr>cb_wtmp := Some t, cb_wtmp_size := m\<rparr>)"
      using c fit nf True by (simp add: cbuf_reserve_def m(1) t(1) cbuf_wtmp_loc_def Let_def)
    then show ?thesis using t m by (intro exI [of _ t] exI [of _ m]) (simp add: tmp_ok_def)
  next
    case False
    have "\<exists>t. cb_wtmp b = Some t \<and> unat (cb_wtmp_size b) = length t"
      using False n0 tmp_okD(1) [OF ok] by (auto simp: tmp_ok_def word_less_nat_alt split: option.splits)
    then obtain t where t: "cb_wtmp b = Some t" "unat (cb_wtmp_size b) = length t" by blast
    have eq: "b\<lparr>cb_wtmp := Some t, cb_wtmp_size := cb_wtmp_size b\<rparr> = b" using t by (cases b) simp
    have "cbuf_reserve re n b = ok (0, Some LWTmp, b)"
      using c fit nf False by (simp add: cbuf_reserve_def t(1) cbuf_wtmp_loc_def Let_def)
    then show ?thesis using t False
      by (intro exI [of _ t] exI [of _ "cb_wtmp_size b"]) (simp add: tmp_ok_def eq word_less_nat_alt)
  qed
qed

text \<open>Reserving, writing through the pointer and committing, the way the functions are meant to be used.\<close>

definition cbuf_put :: "realloc_fn \<Rightarrow> u64 \<Rightarrow> u8 list \<Rightarrow> cbuf \<Rightarrow> (int \<times> cbuf) exec" where
  "cbuf_put re n bs b =
     bnd (cbuf_reserve re n b) (\<lambda>(rv, p, b1).
       if rv \<noteq> 0 then ok (rv, b1)
       else (case p of None \<Rightarrow> flt Uninit | Some q \<Rightarrow>
         bnd (cbuf_store q bs b1) (\<lambda>b2. cbuf_commit q (word_of_nat (length bs)) b2)))"

definition cbuf_take :: "realloc_fn \<Rightarrow> u64 \<Rightarrow> u64 \<Rightarrow> cbuf \<Rightarrow> (int \<times> u8 list \<times> cbuf) exec" where
  "cbuf_take re n m b =
     bnd (cbuf_peek re n b) (\<lambda>(rv, p, b1).
       if rv \<noteq> 0 then ok (rv, [], b1)
       else bnd (if n = 0 then ok [] else (case p of None \<Rightarrow> flt Uninit | Some q \<Rightarrow> cbuf_load q (unat n) b1)) (\<lambda>bs.
         (let (rv, b2) = cbuf_discard m b1 in ok (rv, bs, b2))))"

lemma put_direct:
  assumes ok: "cbuf_ok k b" and fit: "unat (cb_wr b) mod 2 ^ k + length bs \<le> 2 ^ k" and fr: "length bs \<le> 2 ^ k - cfill b"
    and s: "unat s = length bs"
  defines "p \<equiv> LData (cbuf_index b (cb_wr b))"
  shows "\<exists>b2 b'. cbuf_store p bs b = ok b2 \<and> cbuf_commit p s b2 = ok (0, b') \<and> cbuf_ok k b' \<and> ccont b' = ccont b @ bs"
proof -
  have dl: "length (cb_data b) = 2 ^ k" using ok by (simp add: cbuf_ok_def)
  obtain d where d: "put_at (cb_data b) (unat (cb_wr b) mod 2 ^ k) bs = ok d"
    and f: "filled (cb_data b) (unat (cb_wr b) mod 2 ^ k) (length bs) bs d"
    using one_put [of "unat (cb_wr b) mod 2 ^ k" bs "cb_data b"] fit dl by auto
  note w = filled_wrote [OF ok f fr]
  have st: "cbuf_store p bs b = ok (b\<lparr>cb_data := d\<rparr>)" by (simp add: cbuf_store_def p_def unat_index [OF ok] d)
  show ?thesis
  proof (cases "bs = []")
    case True
    then have "d = cb_data b" using d dl by simp
    then have "b\<lparr>cb_data := d\<rparr> = b" by simp
    then show ?thesis using st True s ok by (simp add: cbuf_commit_def unat_eq_0)
  next
    case False
    then have "s \<noteq> 0" using s by auto
    moreover have "p \<noteq> cbuf_wtmp_loc (b\<lparr>cb_data := d\<rparr>)" by (simp add: p_def cbuf_wtmp_loc_def split: option.splits)
    ultimately show ?thesis using st publish_data [OF ok w s fr] by (simp add: cbuf_commit_def)
  qed
qed

lemma put_tmp:
  assumes ok: "cbuf_ok k b" and nf: "2 ^ k < unat (cb_wr b) mod 2 ^ k + r" and r: "length bs \<le> r" "r \<le> 2 ^ k - cfill b"
    and s: "unat s = length bs" and t: "tmp_ok (Some t) m" "r \<le> length t"
  defines "b1 \<equiv> b\<lparr>cb_wtmp := Some t, cb_wtmp_size := m\<rparr>"
  shows "\<exists>b2 b'. cbuf_store LWTmp bs b1 = ok b2 \<and> cbuf_commit LWTmp s b2 = ok (0, b') \<and> cbuf_ok k b' \<and> ccont b' = ccont b @ bs"
proof -
  define i where "i = unat (cb_wr b) mod 2 ^ k"
  have dl: "length (cb_data b) = 2 ^ k" and i: "i < 2 ^ k" using ok by (simp_all add: cbuf_ok_def i_def)
  define t' where "t' = bs @ drop (length bs) t"
  define b2 where "b2 = b\<lparr>cb_wtmp := Some t', cb_wtmp_size := m\<rparr>"
  have tl: "length t' = length t" using r t by (simp add: t'_def)
  have t'ok: "tmp_ok (Some t') m" using t(1) tl by (simp add: tmp_ok_def)
  have st: "cbuf_store LWTmp bs b1 = ok b2"
    using r t by (simp add: cbuf_store_def put_at_def b1_def b2_def t'_def)
  have c2: "ccont b2 = ccont b" "cfill b2 = cfill b" by (simp_all add: b2_def ccont_def cfill_def)
  have ok2: "cbuf_ok k b2" using ok t'ok unfolding cbuf_ok_def c2 by (simp add: b2_def)
  have idx: "unat (cbuf_index b2 (cb_wr b2)) = i" "unat (cb_size b2 - cbuf_index b2 (cb_wr b2)) = 2 ^ k - i"
    by (simp_all add: unat_index [OF ok2] to_end [OF ok2] i_def) (simp_all add: b2_def i_def)
  show ?thesis
  proof (cases "bs = []")
    case True
    then show ?thesis using st s ok2 c2 by (simp add: cbuf_commit_def unat_eq_0)
  next
    case False
    then have s0: "s \<noteq> 0" using s by auto
    have wl: "cbuf_wtmp_loc b2 = LWTmp" "cb_wtmp b2 = Some t'" "cb_data b2 = cb_data b"
      by (simp_all add: cbuf_wtmp_loc_def b2_def)
    have pub: "\<exists>b'. ok (0, cbuf_publish s (b2\<lparr>cb_data := d\<rparr>)) = ok (0, b') \<and> cbuf_ok k b' \<and> ccont b' = ccont b @ bs"
      if "filled (cb_data b) i r bs d" for d
    proof -
      have "filled (cb_data b2) (unat (cb_wr b2) mod 2 ^ k) r bs d" using that by (simp add: b2_def i_def)
      then have "wrote b2 d bs" by (rule filled_wrote [OF ok2]) (use r c2 in simp)
      then show ?thesis using publish_data [OF ok2 _ s, of d] r c2 by auto
    qed
    have e: "2 ^ k - i \<le> length t'" using nf t tl i by (simp add: i_def)
    show ?thesis
    proof (cases "2 ^ k - i < length bs")
      case True
      have gt: "cb_size b2 - cbuf_index b2 (cb_wr b2) < s" by (simp add: word_less_nat_alt idx s True)
      have rest: "unat (s - (cb_size b2 - cbuf_index b2 (cb_wr b2))) = length bs - (2 ^ k - i)"
        using True by (simp add: unat_sub_if' [of s] idx s)
      obtain d1 d where "put_at (cb_data b) i (take (2 ^ k - i) bs) = ok d1" "put_at d1 0 (drop (2 ^ k - i) bs) = ok d"
        and f: "filled (cb_data b) i (length bs) bs d"
      proof -
        have il: "i < length (cb_data b)" and l1: "length (take (2 ^ k - i) bs) = length (cb_data b) - i"
          and l2: "length (drop (2 ^ k - i) bs) \<le> i" using True dl i r by simp_all
        obtain d1 d2 where "put_at (cb_data b) i (take (2 ^ k - i) bs) = ok d1" "put_at d1 0 (drop (2 ^ k - i) bs) = ok d2"
          and "filled (cb_data b) i (length (take (2 ^ k - i) bs) + length (drop (2 ^ k - i) bs))
            (take (2 ^ k - i) bs @ drop (2 ^ k - i) bs) d2"
          using two_puts [OF il l1 l2] by blast
        moreover have "length (take (2 ^ k - i) bs) + length (drop (2 ^ k - i) bs) = length bs" using True by simp
        ultimately show ?thesis by (intro that [of d1 d2]) (simp_all only: append_take_drop_id)
      qed
      have f': "filled (cb_data b) i r bs d" by (rule filled_mono [OF f r(1)])
      have p1: "take (2 ^ k - i) t' = take (2 ^ k - i) bs"
        and p2: "take (length bs - (2 ^ k - i)) (drop (2 ^ k - i) t') = drop (2 ^ k - i) bs"
        using True by (simp_all add: t'_def)
      have fit2: "(2 ^ k - i) + (length bs - (2 ^ k - i)) \<le> length t'" using True tl r t by simp
      have "cbuf_commit LWTmp s b2 = ok (0, cbuf_publish s (b2\<lparr>cb_data := d\<rparr>))"
        unfolding cbuf_commit_def using s0 gt e fit2 \<open>put_at (cb_data b) i (take (2 ^ k - i) bs) = ok d1\<close>
          \<open>put_at d1 0 (drop (2 ^ k - i) bs) = ok d\<close>
        by (simp add: wl idx rest p1 p2 Let_def)
      then show ?thesis using st pub [OF f'] by simp
    next
      case False
      have gt: "\<not> cb_size b2 - cbuf_index b2 (cb_wr b2) < s" using False by (simp add: word_less_nat_alt idx s)
      have fit1: "i + length (take (2 ^ k - i) t') \<le> length (cb_data b)" using e dl i by simp
      obtain d where d: "put_at (cb_data b) i (take (2 ^ k - i) t') = ok d"
        and f: "filled (cb_data b) i (length (take (2 ^ k - i) t')) (take (2 ^ k - i) t') d"
        using one_put [OF fit1] by blast
      have "take (length bs) (take (2 ^ k - i) t') = bs" using False by (simp add: t'_def min_def)
      then have f': "filled (cb_data b) i r bs d"
        using filled_mono [OF filled_take [OF f, of "length bs"]] nf i e by (simp add: i_def)
      have "cbuf_commit LWTmp s b2 = ok (0, cbuf_publish s (b2\<lparr>cb_data := d\<rparr>))"
        unfolding cbuf_commit_def using s0 gt e d by (simp add: wl idx Let_def)
      then show ?thesis using st pub [OF f'] by simp
    qed
  qed
qed

lemma put_spec:
  assumes ok: "cbuf_ok k b" and re: "reallocs re" and bs: "length bs \<le> unat n"
  shows "unat n \<le> 2 ^ k - cfill b \<Longrightarrow>
      \<exists>b'. cbuf_put re n bs b = ok (0, b') \<and> cbuf_ok k b' \<and> ccont b' = ccont b @ bs"
    and "\<not> unat n \<le> 2 ^ k - cfill b \<Longrightarrow> cbuf_put re n bs b = ok (- EINVAL, b)"
proof -
  have s: "unat (word_of_nat (length bs) :: u64) = length bs"
  proof -
    have "unat n < 2 ^ LENGTH(64)" by (rule unsigned_less)
    then show ?thesis using bs by (simp add: unat_of_nat)
  qed
  show "\<not> unat n \<le> 2 ^ k - cfill b \<Longrightarrow> cbuf_put re n bs b = ok (- EINVAL, b)"
    by (simp add: cbuf_put_def cbuf_reserve_def word_less_nat_alt free_level [OF ok] not_le EINVAL_def)
  assume fr: "unat n \<le> 2 ^ k - cfill b"
  show "\<exists>b'. cbuf_put re n bs b = ok (0, b') \<and> cbuf_ok k b' \<and> ccont b' = ccont b @ bs"
  proof (cases "unat (cb_wr b) mod 2 ^ k + unat n \<le> 2 ^ k")
    case True
    then show ?thesis using put_direct [OF ok _ _ s] reserve_spec(1) [OF ok re fr True] bs fr
      by (auto simp: cbuf_put_def)
  next
    case False
    then obtain t m where "cbuf_reserve re n b = ok (0, Some LWTmp, b\<lparr>cb_wtmp := Some t, cb_wtmp_size := m\<rparr>)"
      and t: "tmp_ok (Some t) m" "unat n \<le> length t"
      using reserve_spec(2) [OF ok re fr] by blast
    then show ?thesis using put_tmp [OF ok _ bs fr s t] False by (auto simp: cbuf_put_def)
  qed
qed

lemma fill_rtmp_spec:
  assumes ok: "cbuf_ok k b" and nf: "2 ^ k < unat (cb_rd b) mod 2 ^ k + unat n" and n: "unat n \<le> cfill b"
    and t: "tmp_ok (Some t) m" "unat n \<le> length t"
  defines "b1 \<equiv> b\<lparr>cb_rtmp := Some t, cb_rtmp_size := m\<rparr>"
  shows "\<exists>b2. cbuf_fill_rtmp n b1 = ok (0, Some LRTmp, b2) \<and> cbuf_ok k b2 \<and> ccont b2 = ccont b \<and> cfill b2 = cfill b \<and>
    cbuf_load LRTmp (unat n) b2 = ok (take (unat n) (ccont b))"
proof -
  define i where "i = unat (cb_rd b) mod 2 ^ k"
  have dl: "length (cb_data b) = 2 ^ k" and i: "i < 2 ^ k" using ok by (simp_all add: cbuf_ok_def i_def)
  have nl: "unat n \<le> 2 ^ k" using n fill_bound [OF ok] by simp
  have c1: "ccont b1 = ccont b" "cfill b1 = cfill b" "cb_data b1 = cb_data b" "cb_rtmp b1 = Some t"
    by (simp_all add: b1_def ccont_def cfill_def)
  have ok1: "cbuf_ok k b1" using ok t unfolding cbuf_ok_def c1 by (simp add: b1_def)
  have rd: "cb_rd b1 = cb_rd b" by (simp add: b1_def)
  define xs ys where "xs = take (2 ^ k - i) (drop i (cb_data b))" and "ys = take (unat n - (2 ^ k - i)) (cb_data b)"
  have "unat n - (2 ^ k - i) \<le> 2 ^ k" using nl by simp
  have "cbuf_copy_out n b1 = ok (xs @ ys)"
    using \<open>unat n - (2 ^ k - i) \<le> 2 ^ k\<close> fits_iff [OF ok1 nl, of "cb_rd b1"] nf rest_of [OF ok1 nl, of "cb_rd b1"] nl i dl
    by (simp add: cbuf_copy_out_def rd unat_index [OF ok1] to_end [OF ok1] i_def Let_def c1 xs_def ys_def bytes_at_def)
  then have xy: "xs @ ys = take (unat n) (ccont b)" using copy_out_ok [OF ok1] n c1 by simp
  have lx: "length xs = 2 ^ k - i" and ly: "length ys = unat n - (2 ^ k - i)" using dl i nl \<open>unat n - (2 ^ k - i) \<le> 2 ^ k\<close> by (simp_all add: xs_def ys_def)
  define t2 where "t2 = xs @ ys @ drop (unat n) t"
  have gt: "2 ^ k - i < unat n" using nf i unfolding i_def [symmetric] by linarith
  have p: "put_at t 0 xs = ok (xs @ drop (2 ^ k - i) t)"
    using gt t lx by (simp add: put_at_def)
  have q: "put_at (xs @ drop (2 ^ k - i) t) (2 ^ k - i) ys = ok t2"
    using gt t lx ly by (simp add: put_at_def t2_def)
  have l2: "length t2 = length t" using t gt lx ly by (simp add: t2_def)
  have ye: "take (unat n + i - 2 ^ k) (cb_data b) = ys" using i by (simp add: ys_def)
  define b2 where "b2 = b1\<lparr>cb_rtmp := Some t2\<rparr>"
  have "cbuf_fill_rtmp n b1 = ok (0, Some LRTmp, b2)"
    using p q nl i dl gt rest_of [OF ok1 nl, of "cb_rd b1"]
    by (simp add: cbuf_fill_rtmp_def c1 unat_index [OF ok1] to_end [OF ok1] rd i_def [symmetric] Let_def
        xs_def [symmetric] ye cbuf_rtmp_loc_def b2_def)
  moreover have c2: "ccont b2 = ccont b" "cfill b2 = cfill b" "cb_rtmp b2 = Some t2"
    by (simp_all add: b2_def b1_def ccont_def cfill_def)
  moreover have "cbuf_ok k b2"
    using ok1 t(1) l2 unfolding cbuf_ok_def c1 c2 by (simp add: b2_def b1_def tmp_ok_def)
  moreover have "cbuf_load LRTmp (unat n) b2 = ok (take (unat n) (ccont b))"
  proof -
    have "take (unat n) t2 = xs @ ys" using lx ly gt by (simp add: t2_def)
    then show ?thesis using l2 t(2) c2(3) xy by (simp add: cbuf_load_def)
  qed
  ultimately show ?thesis by blast
qed

lemma peek_spec:
  assumes ok: "cbuf_ok k b" and re: "reallocs re" and n: "unat n \<le> cfill b" and n0: "n \<noteq> 0"
  shows "\<exists>q b2. cbuf_peek re n b = ok (0, Some q, b2) \<and> cbuf_ok k b2 \<and> ccont b2 = ccont b \<and> cfill b2 = cfill b \<and>
    cbuf_load q (unat n) b2 = ok (take (unat n) (ccont b))"
proof -
  have nl: "unat n \<le> 2 ^ k" using n fill_bound [OF ok] by simp
  have c: "\<not> cbuf_fill_level b < n" using n by (simp add: word_less_nat_alt fill_level [OF ok])
  note fit = fits_iff [OF ok nl, of "cb_rd b"]
  show ?thesis
  proof (cases "unat (cb_rd b) mod 2 ^ k + unat n \<le> 2 ^ k")
    case True
    then have "cbuf_load (LData (cbuf_index b (cb_rd b))) (unat n) b = ok (take (unat n) (ccont b))"
      using copy_out_ok [OF ok n] fit by (simp add: cbuf_load_def cbuf_copy_out_def)
    then show ?thesis using True fit c n0 ok by (simp add: cbuf_peek_def)
  next
    case False
    then have nf: "2 ^ k < unat (cb_rd b) mod 2 ^ k + unat n" by simp
    show ?thesis
    proof (cases "cb_rtmp_size b < n")
      case True
      have "\<exists>m. (if n \<le> cb_hint_r b then ok (cb_hint_r b) else cbuf_calc_bufsize n (cb_size b)) = ok m \<and> unat n \<le> unat m"
        using calc_bufsize_ok [of n "cb_size b"] nl size_bound [OF ok] unat_size [OF ok]
        by (simp add: word_le_nat_alt)
      then obtain m where m: "(if n \<le> cb_hint_r b then ok (cb_hint_r b) else cbuf_calc_bufsize n (cb_size b)) = ok m" "unat n \<le> unat m"
        by blast
      obtain t where t: "re (cb_rtmp b) (unat m) = Some t" "length t = unat m" by (rule reallocsE [OF re])
      have eq: "b\<lparr>cb_rtmp_size := m, cb_rtmp := Some t\<rparr> = b\<lparr>cb_rtmp := Some t, cb_rtmp_size := m\<rparr>" by simp
      have "cbuf_peek re n b = cbuf_fill_rtmp n (b\<lparr>cb_rtmp := Some t, cb_rtmp_size := m\<rparr>)"
        unfolding eq [symmetric] using n0 c fit False True by (simp add: cbuf_peek_def m(1) t(1) Let_def)
      then show ?thesis using fill_rtmp_spec [OF ok nf n, of t m] t m by (auto simp: tmp_ok_def)
    next
      case F2: False
      have "\<exists>t. cb_rtmp b = Some t \<and> unat (cb_rtmp_size b) = length t"
        using F2 n0 tmp_okD(2) [OF ok] by (auto simp: tmp_ok_def word_less_nat_alt unat_gt_0 split: option.splits)
      then obtain t where t: "cb_rtmp b = Some t" "unat (cb_rtmp_size b) = length t" by blast
      have eq: "b\<lparr>cb_rtmp := Some t, cb_rtmp_size := cb_rtmp_size b\<rparr> = b" using t by (cases b) simp
      have "cbuf_peek re n b = cbuf_fill_rtmp n (b\<lparr>cb_rtmp := Some t, cb_rtmp_size := cb_rtmp_size b\<rparr>)"
        unfolding eq using n0 c fit False F2 by (simp add: cbuf_peek_def)
      then show ?thesis using fill_rtmp_spec [OF ok nf n, of t "cb_rtmp_size b"] t F2
        by (auto simp: tmp_ok_def word_less_nat_alt)
    qed
  qed
qed

lemma take_spec:
  assumes ok: "cbuf_ok k b" and re: "reallocs re" and m: "unat m \<le> unat n"
  shows "unat n \<le> cfill b \<Longrightarrow> \<exists>b'. cbuf_take re n m b = ok (0, take (unat n) (ccont b), b') \<and>
      cbuf_ok k b' \<and> ccont b' = drop (unat m) (ccont b)"
    and "\<not> unat n \<le> cfill b \<Longrightarrow> cbuf_take re n m b = ok (- EINVAL, [], b)"
proof -
  have n0: "n = 0 \<longleftrightarrow> unat n = 0" by (simp add: unat_eq_0)
  show "\<not> unat n \<le> cfill b \<Longrightarrow> cbuf_take re n m b = ok (- EINVAL, [], b)"
    using n0 by (auto simp: cbuf_take_def cbuf_peek_def word_less_nat_alt fill_level [OF ok] not_le EINVAL_def)
  assume n: "unat n \<le> cfill b"
  show "\<exists>b'. cbuf_take re n m b = ok (0, take (unat n) (ccont b), b') \<and> cbuf_ok k b' \<and> ccont b' = drop (unat m) (ccont b)"
  proof (cases "n = 0")
    case True
    then have "m = 0" using m by (simp add: unat_eq_0)
    then show ?thesis using True ok consume_ok [OF ok, of 0]
      by (simp add: cbuf_take_def cbuf_peek_def cbuf_discard_def)
  next
    case False
    obtain q b2 where p: "cbuf_peek re n b = ok (0, Some q, b2)" "cbuf_ok k b2" "ccont b2 = ccont b" "cfill b2 = cfill b"
      "cbuf_load q (unat n) b2 = ok (take (unat n) (ccont b))"
      using peek_spec [OF ok re n False] by blast
    have ml: "unat m \<le> cfill b2" using m n p(4) by simp
    then have "cbuf_discard m b2 = (0, cbuf_consume m b2)"
      by (simp add: cbuf_discard_def word_less_nat_alt fill_level [OF p(2)])
    then show ?thesis using p False consume_ok [OF p(2) ml] by (simp add: cbuf_take_def)
  qed
qed

subsection \<open>A queue of bytes\<close>

text \<open>
  The operations a user has, as they are meant to be used, and the queue of bounded length that
  they are to behave like. \<open>Put n bs\<close> reserves \<open>n\<close> bytes and commits \<open>bs\<close>, \<open>Take n m\<close> looks at \<open>n\<close>
  bytes and discards \<open>m\<close> of them.
\<close>

datatype queue_op = Write "u8 list" | Put u64 "u8 list" | Read u64 | Take u64 u64 | HintR u64 | HintW u64

fun op_ok :: "queue_op \<Rightarrow> bool" where
  "op_ok (Write bs) = (length bs < 2 ^ 64)"
| "op_ok (Put n bs) = (length bs \<le> unat n)"
| "op_ok (Take n m) = (unat m \<le> unat n)"
| "op_ok _ = True"

fun cbuf_do :: "realloc_fn \<Rightarrow> queue_op \<Rightarrow> cbuf \<Rightarrow> ((int \<times> u8 list) \<times> cbuf) exec" where
  "cbuf_do re (Write bs) b = bnd (cbuf_write bs (word_of_nat (length bs)) b) (\<lambda>(rv, b'). ok ((rv, []), b'))"
| "cbuf_do re (Put n bs) b = bnd (cbuf_put re n bs b) (\<lambda>(rv, b'). ok ((rv, []), b'))"
| "cbuf_do re (Read n) b = bnd (cbuf_read n b) (\<lambda>(rv, bs, b'). ok ((rv, bs), b'))"
| "cbuf_do re (Take n m) b = bnd (cbuf_take re n m b) (\<lambda>(rv, bs, b'). ok ((rv, bs), b'))"
| "cbuf_do re (HintR n) b = (let (rv, b') = cbuf_set_hint_max_read_size n b in ok ((rv, []), b'))"
| "cbuf_do re (HintW n) b = (let (rv, b') = cbuf_set_hint_max_write_size n b in ok ((rv, []), b'))"

fun queue_do :: "nat \<Rightarrow> queue_op \<Rightarrow> u8 list \<Rightarrow> (int \<times> u8 list) \<times> u8 list" where
  "queue_do cap (Write bs) q = (if length q + length bs \<le> cap then ((0, []), q @ bs) else ((- EINVAL, []), q))"
| "queue_do cap (Put n bs) q = (if length q + unat n \<le> cap then ((0, []), q @ bs) else ((- EINVAL, []), q))"
| "queue_do cap (Read n) q = (if unat n \<le> length q then ((0, take (unat n) q), drop (unat n) q) else ((- EINVAL, []), q))"
| "queue_do cap (Take n m) q = (if unat n \<le> length q then ((0, take (unat n) q), drop (unat m) q) else ((- EINVAL, []), q))"
| "queue_do cap (HintR n) q = ((0, []), q)"
| "queue_do cap (HintW n) q = ((0, []), q)"

fun queue_run :: "nat \<Rightarrow> queue_op list \<Rightarrow> u8 list \<Rightarrow> (int \<times> u8 list) list \<times> u8 list" where
  "queue_run cap [] q = ([], q)"
| "queue_run cap (x # xs) q = (let (r, q1) = queue_do cap x q; (rs, q2) = queue_run cap xs q1 in (r # rs, q2))"

text \<open>A run of an implementation.\<close>

fun queue_ops :: "('o \<Rightarrow> 's \<Rightarrow> ('r \<times> 's) exec) \<Rightarrow> 'o list \<Rightarrow> 's \<Rightarrow> ('r list \<times> 's) exec" where
  "queue_ops f [] s = ok ([], s)"
| "queue_ops f (x # xs) s = bnd (f x s) (\<lambda>(r, s1). bnd (queue_ops f xs s1) (\<lambda>(rs, s2). ok (r # rs, s2)))"

text \<open>The contract of a queue of bytes, and what it gives for whole runs.\<close>

locale byte_queue =
  fixes good :: "'e \<Rightarrow> bool"
    and inv :: "'s \<Rightarrow> bool"
    and cont :: "'s \<Rightarrow> u8 list"
    and cap :: nat
    and step :: "'e \<Rightarrow> queue_op \<Rightarrow> 's \<Rightarrow> ((int \<times> u8 list) \<times> 's) exec"
  assumes law: "good e \<Longrightarrow> inv s \<Longrightarrow> op_ok x \<Longrightarrow>
    \<exists>s'. step e x s = ok (fst (queue_do cap x (cont s)), s') \<and> inv s' \<and> cont s' = snd (queue_do cap x (cont s))"
begin

lemma run_law:
  "good e \<Longrightarrow> inv s \<Longrightarrow> list_all op_ok xs \<Longrightarrow>
    \<exists>s'. queue_ops (step e) xs s = ok (fst (queue_run cap xs (cont s)), s') \<and> inv s' \<and> cont s' = snd (queue_run cap xs (cont s))"
proof (induction xs arbitrary: s)
  case (Cons x xs)
  obtain s1 where s1: "step e x s = ok (fst (queue_do cap x (cont s)), s1)" "inv s1" "cont s1 = snd (queue_do cap x (cont s))"
    using law [OF Cons.prems(1,2), of x] Cons.prems(3) by auto
  then show ?case using Cons.IH [OF Cons.prems(1) s1(2)] Cons.prems(3) by (auto simp: split_beta)
qed simp

end

lemma unat_len: "n < 2 ^ 64 \<Longrightarrow> unat (word_of_nat n :: u64) = n"
  by (simp add: unat_of_nat)

lemma cbuf_do_law:
  assumes re: "reallocs re" and ok: "cbuf_ok k b" and x: "op_ok x"
  shows "\<exists>b'. cbuf_do re x b = ok (fst (queue_do (2 ^ k) x (ccont b)), b') \<and> cbuf_ok k b' \<and>
    ccont b' = snd (queue_do (2 ^ k) x (ccont b))"
proof (cases x)
  case (Write bs)
  then show ?thesis using write_spec [OF ok unat_len, of bs] x fill_bound [OF ok]
    by (cases "cfill b + length bs \<le> 2 ^ k") (auto simp: le_diff_conv2 add.commute ok)
next
  case (Put n bs)
  then show ?thesis using put_spec [OF ok re, of bs n] x fill_bound [OF ok]
    by (cases "cfill b + unat n \<le> 2 ^ k") (auto simp: le_diff_conv2 add.commute ok)
next
  case (Read n)
  then show ?thesis using read_spec [OF ok, of n] by (cases "unat n \<le> cfill b") (auto simp: ok)
next
  case (Take n m)
  then show ?thesis using take_spec [OF ok re, of m n] x by (cases "unat n \<le> cfill b") (auto simp: ok)
next
  case (HintR n)
  then show ?thesis using ok
    by (auto simp: cbuf_set_hint_max_read_size_def cbuf_ok_def ccont_def cfill_def)
next
  case (HintW n)
  then show ?thesis using ok
    by (auto simp: cbuf_set_hint_max_write_size_def cbuf_ok_def ccont_def cfill_def)
qed

interpretation cq: byte_queue reallocs "cbuf_ok k" ccont "2 ^ k" cbuf_do for k
  by unfold_locales (rule cbuf_do_law)

lemma init_spec:
  assumes "k < 30"
  shows "\<exists>b. cbuf_init True True (2 ^ k) = ok (0, Some b) \<and> cbuf_ok k b \<and> ccont b = []"
proof -
  have p: "(2::u64) ^ k \<noteq> 0"
  proof
    assume "(2::u64) ^ k = 0"
    then show False using unat_pow2 [of k, where 'a = 64] assms by simp
  qed
  have "unat ((2::u64) ^ k AND (2 ^ k - 1)) = 2 ^ k mod 2 ^ k"
    using assms unat_and_mask [of k "2 ^ k :: u64"] unat_pow2 [of k, where 'a = 64] by simp
  then have "(2::u64) ^ k AND (2 ^ k - 1) = 0" by (simp add: unat_eq_0)
  then show ?thesis using p assms unat_pow2 [of k, where 'a = 64]
    by (simp add: cbuf_init_def cbuf_ok_def ccont_def cfill_def tmp_ok_def)
qed


definition demo_ops :: "queue_op list" where
  "demo_ops = [Write [1, 2, 3], Read 2, Put 3 [4, 5], Take 3 2, Write [6, 7, 8], Write [9], Read 4]"


text \<open>
  C38: When the allocation of the temporary block fails, \<open>cbuf_reserve\<close> has already stored its
  new size, so that the next call reports success and hands out the null pointer.
\<close>

theorem failed_reserve_then_null:
  assumes ok: "cbuf_ok k b" and s: "unat n \<le> 2 ^ k - cfill b" and wrap: "2 ^ k < unat (cb_wr b) mod 2 ^ k + unat n"
    and small: "cb_wtmp_size b < n" and fail: "\<And>t m. re t m = None"
  shows "\<exists>b'. cbuf_reserve re n b = ok (- ENOMEM, None, b') \<and> cbuf_reserve re n b' = ok (0, Some LNull, b')"
proof -
  have nl: "unat n \<le> 2 ^ k" using s by simp
  have c: "\<not> cbuf_free_level b < n" using s by (simp add: word_less_nat_alt free_level [OF ok])
  have nf: "\<not> cbuf_index b (cb_wr b) + n \<le> cb_size b" using fits_iff [OF ok nl, of "cb_wr b"] wrap by simp
  have "\<exists>m. (if n \<le> cb_hint_w b then ok (cb_hint_w b) else cbuf_calc_bufsize n (cb_size b)) = ok m \<and> unat n \<le> unat m"
    using calc_bufsize_ok [of n "cb_size b"] nl size_bound [OF ok] unat_size [OF ok]
    by (simp add: word_le_nat_alt)
  then obtain m where m: "(if n \<le> cb_hint_w b then ok (cb_hint_w b) else cbuf_calc_bufsize n (cb_size b)) = ok m" "unat n \<le> unat m"
    by blast
  define b' where "b' = b\<lparr>cb_wtmp_size := m, cb_wtmp := None\<rparr>"
  have "cbuf_reserve re n b = ok (- ENOMEM, None, b')"
    using c nf small by (simp add: cbuf_reserve_def m(1) fail b'_def Let_def)
  moreover have "cbuf_free_level b' = cbuf_free_level b" "cbuf_index b' = cbuf_index b" "cb_wr b' = cb_wr b" "cb_size b' = cb_size b"
    by (simp_all add: b'_def cbuf_free_level_def cbuf_fill_level_def cbuf_is_full_def cbuf_level_diff_def cbuf_index_def fun_eq_iff Let_def)
  moreover have "\<not> cb_wtmp_size b' < n" "cbuf_wtmp_loc b' = LNull"
    using m(2) by (simp_all add: b'_def word_less_nat_alt cbuf_wtmp_loc_def)
  ultimately show ?thesis using c nf by (intro exI [of _ b']) (simp add: cbuf_reserve_def)
qed

definition demo_cbuf :: cbuf where
  "demo_cbuf = \<lparr>cb_wr = 3, cb_rd = 3, cb_size = 4, cb_data = [0, 0, 0, 0], cb_hint_r = 0, cb_rtmp_size = 0,
     cb_rtmp = None, cb_hint_w = 0, cb_wtmp_size = 0, cb_wtmp = None, cb_cancel = False\<rparr>"

theorem failed_reserve_then_null_witness:
  "\<exists>b'. cbuf_reserve (\<lambda>_ _. None) 2 demo_cbuf = ok (- ENOMEM, None, b') \<and>
    cbuf_reserve (\<lambda>_ _. None) 2 b' = ok (0, Some LNull, b')"
  by (rule failed_reserve_then_null [of 2]) (simp_all add: demo_cbuf_def cbuf_ok_def tmp_ok_def cfill_def)

end
