(* ===== verification/Cbuf_Threads.thy ===== *)
theory Cbuf_Threads
  imports Cbuf_Props
begin

section \<open>A writing and a reading thread on one buffer\<close>

text \<open>
  \<open>cbuf_write\<close> and \<open>cbuf_read\<close> look at the fill level without the lock, copy without the lock,
  and take it for the update of their position only. A call is cut at every access to a position
  of the other side: the test for a full buffer, the difference of the positions, the copy, the
  update. Accesses are sequentially consistent; a copy is one step, as no cell that one side
  copies is touched by the other.
\<close>

datatype wphase = WIdle | WDiff "u8 list" | WCopy "u8 list" | WPub "u8 list"
datatype rphase = RIdle | RDiff u64 | RCopy u64 | RPub "u8 list"

abbreviation len64 :: "u8 list \<Rightarrow> u64" where "len64 bs \<equiv> word_of_nat (length bs)"

definition writer_check :: "u8 list \<Rightarrow> u64 \<Rightarrow> cbuf \<Rightarrow> wphase" where
  "writer_check bs fill b = (if len64 bs > cb_size b - fill then WIdle else WCopy bs)"

definition writer_call :: "u8 list \<Rightarrow> cbuf \<Rightarrow> wphase" where
  "writer_call bs b = (if cbuf_is_full b then writer_check bs (cb_size b) b else WDiff bs)"

fun writer_step :: "wphase \<Rightarrow> cbuf \<Rightarrow> (wphase \<times> cbuf) exec" where
  "writer_step WIdle b = ok (WIdle, b)"
| "writer_step (WDiff bs) b = ok (writer_check bs (cbuf_level_diff b) b, b)"
| "writer_step (WCopy bs) b = bnd (cbuf_copy_in bs (len64 bs) b) (\<lambda>b'. ok (WPub bs, b'))"
| "writer_step (WPub bs) b = ok (WIdle, cbuf_publish (len64 bs) b)"

definition reader_check :: "u64 \<Rightarrow> u64 \<Rightarrow> rphase" where
  "reader_check n fill = (if fill < n then RIdle else RCopy n)"

definition reader_call :: "u64 \<Rightarrow> cbuf \<Rightarrow> rphase" where
  "reader_call n b =
     (if n = 0 then RIdle else if cbuf_is_full b then reader_check n (cb_size b) else RDiff n)"

fun reader_step :: "rphase \<Rightarrow> cbuf \<Rightarrow> (rphase \<times> cbuf) exec" where
  "reader_step RIdle b = ok (RIdle, b)"
| "reader_step (RDiff n) b = ok (reader_check n (cbuf_level_diff b), b)"
| "reader_step (RCopy n) b = bnd (cbuf_copy_out n b) (\<lambda>bs. ok (RPub bs, b))"
| "reader_step (RPub bs) b = ok (RIdle, cbuf_consume (len64 bs) b)"

text \<open>The bytes that a step makes visible to the other side, or hands to the caller.\<close>

fun w_out :: "wphase \<Rightarrow> u8 list" where
  "w_out (WPub bs) = bs" | "w_out _ = []"

fun r_out :: "rphase \<Rightarrow> u8 list" where
  "r_out (RPub bs) = bs" | "r_out _ = []"

text \<open>Without interruption the steps are the functions.\<close>

lemma writer_alone:
  "cbuf_write bs (len64 bs) b =
     (let w1 = writer_call bs b in
      bnd (case w1 of WDiff _ \<Rightarrow> writer_step w1 b | _ \<Rightarrow> ok (w1, b)) (\<lambda>(w2, b2).
      if w2 = WIdle then ok (- EINVAL, b2)
      else bnd (writer_step w2 b2) (\<lambda>(w3, b3). bnd (writer_step w3 b3) (\<lambda>(w4, b4). ok (0, b4)))))"
  by (simp add: cbuf_write_def writer_call_def writer_check_def cbuf_free_level_def cbuf_fill_level_def Let_def bnd_assoc)

lemma reader_alone:
  assumes "cbuf_ok k b" and "n \<noteq> 0"
  shows "cbuf_read n b =
     (let r1 = reader_call n b in
      bnd (case r1 of RDiff _ \<Rightarrow> reader_step r1 b | _ \<Rightarrow> ok (r1, b)) (\<lambda>(r2, b2).
      if r2 = RIdle then ok (- EINVAL, [], b2)
      else bnd (reader_step r2 b2) (\<lambda>(r3, b3). bnd (reader_step r3 b3) (\<lambda>(r4, b4). ok (0, r_out r3, b4)))))"
proof (cases "cbuf_fill_level b < n")
  case True
  then show ?thesis using assms(2)
    by (simp add: cbuf_read_def reader_call_def reader_check_def cbuf_fill_level_def Let_def split: if_splits)
next
  case False
  then have "unat n \<le> cfill b" by (simp add: word_less_nat_alt fill_level [OF assms(1)])
  moreover from this have "len64 (take (unat n) (ccont b)) = n"
    by (simp add: min_def)
  ultimately show ?thesis using False assms(2) copy_out_ok [OF assms(1), of n]
    by (simp add: cbuf_read_def reader_call_def reader_check_def cbuf_fill_level_def Let_def split: if_splits)
qed

record sides =
  sd_buf :: cbuf
  sd_w :: wphase
  sd_r :: rphase
  sd_sent :: "u8 list"
  sd_got :: "u8 list"

inductive sides_step :: "sides \<Rightarrow> sides \<Rightarrow> bool" where
  side_write: "sd_w s = WIdle \<Longrightarrow> length bs < 2 ^ 64 \<Longrightarrow>
    sides_step s (s\<lparr>sd_w := writer_call bs (sd_buf s)\<rparr>)"
| side_w: "writer_step (sd_w s) (sd_buf s) = ok (w, b) \<Longrightarrow>
    sides_step s (s\<lparr>sd_w := w, sd_buf := b, sd_sent := sd_sent s @ w_out (sd_w s)\<rparr>)"
| side_read: "sd_r s = RIdle \<Longrightarrow> sides_step s (s\<lparr>sd_r := reader_call n (sd_buf s)\<rparr>)"
| side_r: "reader_step (sd_r s) (sd_buf s) = ok (r, b) \<Longrightarrow>
    sides_step s (s\<lparr>sd_r := r, sd_buf := b, sd_got := sd_got s @ r_out (sd_r s)\<rparr>)"

inductive_cases sides_stepE: "sides_step s s'"

definition sides_start :: "cbuf \<Rightarrow> sides" where
  "sides_start b = \<lparr>sd_buf = b, sd_w = WIdle, sd_r = RIdle, sd_sent = [], sd_got = []\<rparr>"

subsection \<open>What each side knows\<close>

fun w_knows :: "nat \<Rightarrow> wphase \<Rightarrow> cbuf \<Rightarrow> bool" where
  "w_knows k WIdle b = True"
| "w_knows k (WDiff bs) b = (length bs < 2 ^ 64 \<and> cfill b < 2 ^ k)"
| "w_knows k (WCopy bs) b = (length bs < 2 ^ 64 \<and> length bs \<le> 2 ^ k - cfill b)"
| "w_knows k (WPub bs) b = (length bs < 2 ^ 64 \<and> length bs \<le> 2 ^ k - cfill b \<and> wrote b (cb_data b) bs)"

fun r_knows :: "rphase \<Rightarrow> cbuf \<Rightarrow> bool" where
  "r_knows RIdle b = True"
| "r_knows (RDiff n) b = True"
| "r_knows (RCopy n) b = (unat n \<le> cfill b)"
| "r_knows (RPub bs) b = (length bs < 2 ^ 64 \<and> length bs \<le> cfill b \<and> bs = take (length bs) (ccont b))"

definition sides_ok :: "nat \<Rightarrow> sides \<Rightarrow> bool" where
  "sides_ok k s \<longleftrightarrow> cbuf_ok k (sd_buf s) \<and> w_knows k (sd_w s) (sd_buf s) \<and> r_knows (sd_r s) (sd_buf s) \<and>
     sd_sent s = sd_got s @ ccont (sd_buf s)"

lemma check_knows:
  assumes ok: "cbuf_ok k b" and l: "length bs < 2 ^ 64" and f: "unat fill = cfill b"
  shows "w_knows k (writer_check bs fill b) b"
proof -
  have "unat (cb_size b - fill) = 2 ^ k - cfill b"
    using f fill_bound [OF ok] unat_size [OF ok] by (simp add: unat_sub_if')
  then show ?thesis using l by (simp add: writer_check_def word_less_nat_alt unat_len not_less)
qed

lemma writer_call_knows:
  assumes ok: "cbuf_ok k b" and l: "length bs < 2 ^ 64"
  shows "w_knows k (writer_call bs b) b"
proof (cases "cbuf_is_full b")
  case True
  then have "unat (cb_size b) = cfill b" using cbuf_full_iff [OF ok] unat_size [OF ok] by simp
  then show ?thesis using True check_knows [OF ok l] by (simp add: writer_call_def)
next
  case False
  then have "cfill b < 2 ^ k" using cbuf_full_iff [OF ok] fill_bound [OF ok] by simp
  then show ?thesis using False l by (simp add: writer_call_def)
qed

lemma reader_check_knows: "unat fill \<le> cfill b \<Longrightarrow> r_knows (reader_check n fill) b"
  by (auto simp: reader_check_def word_less_nat_alt not_less)

lemma reader_call_knows:
  assumes ok: "cbuf_ok k b"
  shows "r_knows (reader_call n b) b"
  using reader_check_knows [of "cb_size b" b n] cbuf_full_iff [OF ok] unat_size [OF ok]
  by (simp add: reader_call_def)

lemma wrote_same:
  assumes ok: "cbuf_ok k b" and w: "wrote b d bs"
  shows "ccont (b\<lparr>cb_data := d\<rparr>) = ccont b" and "cbuf_ok k (b\<lparr>cb_data := d\<rparr>)"
    and "cfill (b\<lparr>cb_data := d\<rparr>) = cfill b" and "wrote (b\<lparr>cb_data := d\<rparr>) d bs"
proof -
  show c: "cfill (b\<lparr>cb_data := d\<rparr>) = cfill b" by (simp add: cfill_def)
  show "ccont (b\<lparr>cb_data := d\<rparr>) = ccont b" using w unfolding ccont_def c by (simp add: wrote_def)
  show "cbuf_ok k (b\<lparr>cb_data := d\<rparr>)" using ok w unfolding cbuf_ok_def c by (simp add: wrote_def)
  show "wrote (b\<lparr>cb_data := d\<rparr>) d bs" using w unfolding wrote_def c by simp
qed

lemma consume_fill:
  assumes "cbuf_ok k b" and "unat n \<le> cfill b"
  shows "cfill (cbuf_consume n b) = cfill b - unat n"
proof -
  have "length (ccont (cbuf_consume n b)) = length (drop (unat n) (ccont b))"
    by (simp only: consume_ok(2) [OF assms])
  then show ?thesis by simp
qed

lemma consume_keeps_w:
  assumes "cbuf_ok k b" and "unat n \<le> cfill b" and "w_knows k w b"
  shows "w_knows k w (cbuf_consume n b)"
proof -
  have "wrote (cbuf_consume n b) (cb_data (cbuf_consume n b)) bs" if "wrote b (cb_data b) bs" for bs
    using that by (simp add: wrote_def cbuf_consume_def)
  then show ?thesis using assms by (cases w) (auto simp: consume_fill)
qed

lemma keeps_r:
  assumes "ccont b' = ccont b @ bs" and "r_knows r b"
  shows "r_knows r b'"
proof -
  have "cfill b' = cfill b + length bs" using arg_cong [OF assms(1), of length] by simp
  then show ?thesis using assms by (cases r) auto
qed

subsection \<open>Every step keeps it\<close>

lemma writer_keeps:
  assumes ok: "cbuf_ok k b" and w: "w_knows k w b"
  shows "\<exists>w' b'. writer_step w b = ok (w', b') \<and> cbuf_ok k b' \<and> w_knows k w' b' \<and> ccont b' = ccont b @ w_out w"
proof (cases w)
  case (WDiff bs)
  then have "unat (cbuf_level_diff b) = cfill b" using w diff_level [OF ok] by simp
  then show ?thesis using WDiff w ok check_knows [OF ok] by simp
next
  case (WCopy bs)
  then have l: "unat (len64 bs) = length bs" and fr: "length bs \<le> 2 ^ k - cfill b" using w by (simp_all add: unat_len)
  obtain d where d: "cbuf_copy_in bs (len64 bs) b = ok (b\<lparr>cb_data := d\<rparr>)" "wrote b d bs"
    using copy_in_ok [OF ok l fr] by blast
  then show ?thesis using WCopy w wrote_same [OF ok d(2)] by simp
next
  case (WPub bs)
  then have l: "unat (len64 bs) = length bs" and fr: "length bs \<le> 2 ^ k - cfill b" and wr: "wrote b (cb_data b) bs"
    using w by (simp_all add: unat_len)
  have "b\<lparr>cb_data := cb_data b\<rparr> = b" by simp
  then show ?thesis using WPub publish_data [OF ok wr l fr] by simp
qed (use ok in simp)

lemma reader_keeps:
  assumes ok: "cbuf_ok k b" and r: "r_knows r b" and w: "w_knows k w b"
  shows "\<exists>r' b'. reader_step r b = ok (r', b') \<and> cbuf_ok k b' \<and> r_knows r' b' \<and> w_knows k w b' \<and>
    ccont b = r_out r @ ccont b'"
proof (cases r)
  case (RDiff n)
  have "unat (cbuf_level_diff b) \<le> cfill b" using diff_level [OF ok] by simp
  then show ?thesis using RDiff ok w reader_check_knows by simp
next
  case (RCopy n)
  then have n: "unat n \<le> cfill b" using r by simp
  moreover have "unat n < 2 ^ 64" using unsigned_less [of n] by simp
  ultimately show ?thesis using RCopy ok w copy_out_ok [OF ok n] by (simp add: min_def)
next
  case (RPub bs)
  then have l: "unat (len64 bs) = length bs" and n: "length bs \<le> cfill b" and bs: "bs = take (length bs) (ccont b)"
    using r by (simp_all add: unat_len)
  have "ccont b = bs @ drop (length bs) (ccont b)" using bs by (metis append_take_drop_id)
  then show ?thesis using RPub w consume_ok [OF ok, of "len64 bs"] consume_keeps_w [OF ok _ w, of "len64 bs"] l n by simp
qed (use ok w in simp)

lemma sides_keeps:
  assumes "sides_step s s'" and s: "sides_ok k s"
  shows "sides_ok k s'"
  using assms(1)
proof cases
  case (side_write bs)
  then show ?thesis using s writer_call_knows by (simp add: sides_ok_def)
next
  case (side_w w b)
  then show ?thesis using s writer_keeps [of k "sd_buf s" "sd_w s"] keeps_r [of b "sd_buf s" _ "sd_r s"]
    by (simp add: sides_ok_def)
next
  case (side_read n)
  then show ?thesis using s reader_call_knows [of k "sd_buf s" n] by (simp add: sides_ok_def)
next
  case (side_r r b)
  then show ?thesis using s reader_keeps [of k "sd_buf s" "sd_r s" "sd_w s"]
    by (simp add: sides_ok_def)
qed

text \<open>
  C4: For every interleaving of a thread that writes with a thread that reads, and any sizes of the writes and
  reads, no access leaves the array, and the bytes that were read followed by those in the
  buffer are exactly the bytes that were written, in order: nothing is lost, repeated or read
  before it is complete, although both sides look at the fill level without the lock.
\<close>

theorem cbuf_threads_safe:
  assumes "k < 30" and "cbuf_init True True (2 ^ k) = ok (0, Some b)" and run: "sides_step\<^sup>*\<^sup>* (sides_start b) s"
  shows "(\<exists>w b1. writer_step (sd_w s) (sd_buf s) = ok (w, b1)) \<and> (\<exists>r b2. reader_step (sd_r s) (sd_buf s) = ok (r, b2)) \<and>
    sd_sent s = sd_got s @ ccont (sd_buf s) \<and> length (ccont (sd_buf s)) \<le> 2 ^ k"
proof -
  have "sides_ok k (sides_start b)"
    using init_spec [OF assms(1)] assms(2) by (simp add: sides_ok_def sides_start_def)
  with run have "sides_ok k s"
    by (induction rule: rtranclp_induct) (auto intro: sides_keeps)
  then show ?thesis
    using writer_keeps [of k "sd_buf s" "sd_w s"] reader_keeps [of k "sd_buf s" "sd_r s" "sd_w s"] fill_bound [of k "sd_buf s"]
    by (simp add: sides_ok_def) blast
qed

text \<open>The reader asks while the writer is between the copy and the update of its position.\<close>

definition demo_start :: cbuf where
  "demo_start = \<lparr>cb_wr = 0, cb_rd = 0, cb_size = 4, cb_data = [0, 0, 0, 0], cb_hint_r = 0, cb_rtmp_size = 0,
     cb_rtmp = None, cb_hint_w = 0, cb_wtmp_size = 0, cb_wtmp = None, cb_cancel = False\<rparr>"

lemma demo_start: "cbuf_init True True (2 ^ 2) = ok (0, Some demo_start)"
proof -
  have "replicate 4 (0::u8) = [0, 0, 0, 0]" by (simp add: numeral_eq_Suc)
  then show ?thesis by (simp add: cbuf_init_def demo_start_def)
qed

definition demo_mid :: sides where
  "demo_mid = (sides_start (demo_start\<lparr>cb_data := [7, 8, 0, 0]\<rparr>))\<lparr>sd_w := WPub [7, 8], sd_r := RDiff 2\<rparr>"

lemma demo_mid: "sides_step\<^sup>*\<^sup>* (sides_start demo_start) demo_mid"
proof -
  let ?s0 = "sides_start demo_start"
  let ?s1 = "?s0\<lparr>sd_w := WDiff [7, 8]\<rparr>"
  let ?s2 = "?s0\<lparr>sd_w := WCopy [7, 8]\<rparr>"
  let ?s3 = "?s0\<lparr>sd_w := WPub [7, 8], sd_buf := demo_start\<lparr>cb_data := [7, 8, 0, 0]\<rparr>\<rparr>"
  have s1: "sides_step ?s0 ?s1"
    using side_write [of ?s0 "[7, 8]"] by (simp add: sides_start_def writer_call_def cbuf_is_full_def demo_start_def)
  have s2: "sides_step ?s1 ?s2"
    using side_w [of ?s1] by (simp add: sides_start_def writer_check_def cbuf_level_diff_def cbuf_index_def demo_start_def)
  have s3: "sides_step ?s2 ?s3"
    using side_w [of ?s2] by (simp add: sides_start_def cbuf_copy_in_def put_at_def cbuf_index_def demo_start_def)
  have s4: "sides_step ?s3 demo_mid"
    using side_read [of ?s3 2]
    by (simp add: demo_mid_def sides_start_def reader_call_def cbuf_is_full_def demo_start_def)
  have "sides_step\<^sup>*\<^sup>* ?s0 ?s1" using s1 by (rule r_into_rtranclp)
  then have "sides_step\<^sup>*\<^sup>* ?s0 ?s2" using s2 by (rule rtranclp.rtrancl_into_rtrancl)
  then have "sides_step\<^sup>*\<^sup>* ?s0 ?s3" using s3 by (rule rtranclp.rtrancl_into_rtrancl)
  then show ?thesis using s4 by (rule rtranclp.rtrancl_into_rtrancl)
qed

theorem cbuf_threads_safe_witness:
  "(\<exists>w b1. writer_step (sd_w demo_mid) (sd_buf demo_mid) = ok (w, b1)) \<and>
    (\<exists>r b2. reader_step (sd_r demo_mid) (sd_buf demo_mid) = ok (r, b2)) \<and>
    sd_sent demo_mid = sd_got demo_mid @ ccont (sd_buf demo_mid) \<and> length (ccont (sd_buf demo_mid)) \<le> 2 ^ 2"
  by (rule cbuf_threads_safe [OF _ demo_start demo_mid]) simp

end
