(* ===== verification/Osd_Packet.thy ===== *)
theory Osd_Packet
  imports C_Text
begin

section \<open>Packets of the debug system (packet.c, util.c, module.c)\<close>

text \<open>
  The packets that the library of Open SoC Debug exchanges with the debug modules,
  \<open>src/external/opensocdebug/software/src/libosd\<close>: \<open>packet.c\<close>, the addresses of \<open>util.c\<close>, the
  names of \<open>module.c\<close>. A packet is the word that counts its data words and the array of data
  words that was allocated, of which the first three are the header; the two need not agree, as
  the count has 16 bits. \<open>mem\<close> says for which numbers of bytes an allocation succeeds. A file is
  the list of its bytes, on a little-endian host.
\<close>

subsection \<open>Results\<close>

definition OSD_OK :: int where "OSD_OK = 0"
definition OSD_ERROR_FAILURE :: int where "OSD_ERROR_FAILURE = - 1"
definition OSD_ERROR_DEVICE_ERROR :: int where "OSD_ERROR_DEVICE_ERROR = - 2"
definition OSD_ERROR_DEVICE_INVALID_DATA :: int where "OSD_ERROR_DEVICE_INVALID_DATA = - 3"
definition OSD_ERROR_COM :: int where "OSD_ERROR_COM = - 4"
definition OSD_ERROR_TIMEDOUT :: int where "OSD_ERROR_TIMEDOUT = - 5"
definition OSD_ERROR_NOT_CONNECTED :: int where "OSD_ERROR_NOT_CONNECTED = - 6"
definition OSD_ERROR_PARTIAL_RESULT :: int where "OSD_ERROR_PARTIAL_RESULT = - 7"
definition OSD_ERROR_CONNECTION_FAILED :: int where "OSD_ERROR_CONNECTION_FAILED = - 9"
definition OSD_ERROR_WRONG_MODULE :: int where "OSD_ERROR_WRONG_MODULE = - 14"

definition OSD_FAILED :: "int \<Rightarrow> bool" where "OSD_FAILED rv \<longleftrightarrow> rv < 0"

lemmas osd_results = OSD_OK_def OSD_ERROR_FAILURE_def OSD_ERROR_DEVICE_ERROR_def OSD_ERROR_DEVICE_INVALID_DATA_def
  OSD_ERROR_COM_def OSD_ERROR_TIMEDOUT_def OSD_ERROR_NOT_CONNECTED_def OSD_ERROR_PARTIAL_RESULT_def
  OSD_ERROR_CONNECTION_FAILED_def OSD_ERROR_WRONG_MODULE_def OSD_FAILED_def

subsection \<open>Addresses\<close>

definition osd_diaddr_subnet :: "u32 \<Rightarrow> u32" where
  "osd_diaddr_subnet diaddr = drop_bit 10 diaddr"

definition osd_diaddr_localaddr :: "u32 \<Rightarrow> u32" where
  "osd_diaddr_localaddr diaddr = diaddr AND 1023"

definition osd_diaddr_build :: "u32 \<Rightarrow> u32 \<Rightarrow> u32 exec" where
  "osd_diaddr_build subnet local_diaddr =
     bnd (assert_c (subnet \<le> 63)) (\<lambda>_. bnd (assert_c (local_diaddr \<le> 1023)) (\<lambda>_.
       ok (push_bit 10 subnet OR local_diaddr)))"

subsection \<open>The packet\<close>

record packet =
  pk_len :: u16
  pk_data :: "u16 list"

type_synonym memory = "nat \<Rightarrow> bool"

definition osd_packet_sizeconv_payload2data :: "u32 \<Rightarrow> u32 exec" where
  "osd_packet_sizeconv_payload2data payload_words =
     (let s = payload_words + 3 in bnd (assert_c (s \<le> 65535)) (\<lambda>_. ok s))"

definition osd_packet_sizeconv_data2payload :: "u32 \<Rightarrow> u32 exec" where
  "osd_packet_sizeconv_data2payload data_words =
     bnd (assert_c (3 \<le> data_words)) (\<lambda>_. ok (data_words - 3))"

definition osd_packet_new :: "memory \<Rightarrow> nat \<Rightarrow> packet exec" where
  "osd_packet_new mem data_size_words =
     (if mem (2 + 2 * data_size_words)
      then ok \<lparr>pk_len = word_of_nat data_size_words, pk_data = replicate data_size_words 0\<rparr>
      else flt NoMem)"

text \<open>The words that a larger block has in addition are \<open>junk\<close>.\<close>

definition osd_packet_realloc :: "memory \<Rightarrow> u16 \<Rightarrow> packet \<Rightarrow> nat \<Rightarrow> packet exec" where
  "osd_packet_realloc mem junk p n =
     (if mem (2 + 2 * n)
      then ok \<lparr>pk_len = word_of_nat n, pk_data = take n (pk_data p) @ replicate (n - length (pk_data p)) junk\<rparr>
      else flt NoMem)"

text \<open>The words of a block of bytes, as the host reads them.\<close>

fun words_of :: "u8 list \<Rightarrow> u16 list" where
  "words_of (b0 # b1 # bs) = (ucast b0 OR push_bit 8 (ucast b1)) # words_of bs"
| "words_of _ = []"

fun pk_bytes :: "u16 list \<Rightarrow> u8 list" where
  "pk_bytes [] = []"
| "pk_bytes (w # ws) = ucast w # ucast (drop_bit 8 w) # pk_bytes ws"

text \<open>A frame with an odd number of bytes is copied over the end of the block.\<close>

definition osd_packet_new_from_zframe :: "memory \<Rightarrow> u8 list \<Rightarrow> packet exec" where
  "osd_packet_new_from_zframe mem frame =
     (let data_size_words = length frame div 2 in
      bnd (assert_c (3 \<le> data_size_words)) (\<lambda>_.
      bnd (osd_packet_new mem data_size_words) (\<lambda>p.
      if 2 * data_size_words < length frame then flt OutOfBounds
      else ok (p\<lparr>pk_data := words_of frame\<rparr>))))"

text \<open>The pointer after freeing.\<close>

definition osd_packet_free :: "packet option \<Rightarrow> packet option" where
  "osd_packet_free p = None"

definition pk_word :: "packet \<Rightarrow> nat \<Rightarrow> u16 exec" where
  "pk_word p i = (if i < length (pk_data p) then ok (pk_data p ! i) else flt OutOfBounds)"

definition pk_set :: "packet \<Rightarrow> nat \<Rightarrow> u16 \<Rightarrow> packet exec" where
  "pk_set p i w = (if i < length (pk_data p) then ok (p\<lparr>pk_data := (pk_data p)[i := w]\<rparr>) else flt OutOfBounds)"

definition osd_packet_combine :: "memory \<Rightarrow> u16 \<Rightarrow> packet \<Rightarrow> packet \<Rightarrow> (int \<times> packet) exec" where
  "osd_packet_combine mem junk p1 p2 =
     bnd (osd_packet_sizeconv_data2payload (ucast (pk_len p1))) (\<lambda>n1.
     bnd (osd_packet_sizeconv_data2payload (ucast (pk_len p2))) (\<lambda>n2.
     (let first_payload_size = (ucast n1 :: u16); second_payload_size = (ucast n2 :: u16);
          old_size = pk_len p1; new_size = old_size + second_payload_size in
      bnd (osd_packet_realloc mem junk p1 (unat new_size)) (\<lambda>p.
      bnd (bytes_at (pk_data p2) 3 (unat second_payload_size)) (\<lambda>ws.
      bnd (put_at (pk_data p) (3 + unat first_payload_size) ws) (\<lambda>d.
        ok (OSD_OK, p\<lparr>pk_data := d\<rparr>)))))))"

subsection \<open>The header\<close>

definition pk_large :: "packet \<Rightarrow> unit exec" where
  "pk_large p = assert_c (3 \<le> pk_len p)"

definition osd_packet_get_dest :: "packet \<Rightarrow> u32 exec" where
  "osd_packet_get_dest p = bnd (pk_large p) (\<lambda>_. bnd (pk_word p 0) (\<lambda>w. ok (drop_bit 0 (ucast w) AND 65535)))"

definition osd_packet_get_src :: "packet \<Rightarrow> u32 exec" where
  "osd_packet_get_src p = bnd (pk_large p) (\<lambda>_. bnd (pk_word p 1) (\<lambda>w. ok (drop_bit 0 (ucast w) AND 65535)))"

definition osd_packet_get_type :: "packet \<Rightarrow> u32 exec" where
  "osd_packet_get_type p = bnd (pk_large p) (\<lambda>_. bnd (pk_word p 2) (\<lambda>w. ok (drop_bit 14 (ucast w) AND 3)))"

definition osd_packet_get_type_sub :: "packet \<Rightarrow> u32 exec" where
  "osd_packet_get_type_sub p = bnd (pk_large p) (\<lambda>_. bnd (pk_word p 2) (\<lambda>w. ok (drop_bit 10 (ucast w) AND 15)))"

definition osd_packet_set_type_sub :: "packet \<Rightarrow> u32 \<Rightarrow> packet exec" where
  "osd_packet_set_type_sub p type_sub =
     bnd (assert_c (type_sub AND 15 = type_sub)) (\<lambda>_.
     bnd (pk_word p 2) (\<lambda>f.
     (let f1 = f AND ucast (NOT (push_bit 10 (15 :: u32)));
          f2 = f1 OR ucast (push_bit 10 (type_sub AND 15)) in pk_set p 2 f2)))"

definition osd_packet_set_header :: "packet \<Rightarrow> u32 \<Rightarrow> u32 \<Rightarrow> u32 \<Rightarrow> u32 \<Rightarrow> packet exec" where
  "osd_packet_set_header p dest src type type_sub =
     bnd (pk_large p) (\<lambda>_.
     bnd (pk_set p 0 0) (\<lambda>p. bnd (pk_set p 1 0) (\<lambda>p. bnd (pk_set p 2 0) (\<lambda>p.
     bnd (assert_c (dest AND 65535 = dest)) (\<lambda>_.
     bnd (pk_word p 0) (\<lambda>w. bnd (pk_set p 0 (w OR ucast (push_bit 0 (dest AND 65535)))) (\<lambda>p.
     bnd (assert_c (src AND 65535 = src)) (\<lambda>_.
     bnd (pk_word p 1) (\<lambda>w. bnd (pk_set p 1 (w OR ucast (push_bit 0 (src AND 65535)))) (\<lambda>p.
     bnd (assert_c (type AND 3 = type)) (\<lambda>_.
     bnd (pk_word p 2) (\<lambda>w. bnd (pk_set p 2 (w OR ucast (push_bit 14 (type AND 3)))) (\<lambda>p.
       osd_packet_set_type_sub p type_sub)))))))))))))"

definition osd_packet_sizeof :: "packet \<Rightarrow> nat" where
  "osd_packet_sizeof p = unat (pk_len p) * 2"

subsection \<open>Text\<close>

definition sprintf_append :: "string option \<Rightarrow> string \<Rightarrow> string option" where
  "sprintf_append str append_str = (case str of None \<Rightarrow> Some append_str | Some s \<Rightarrow> Some (s @ append_str))"

definition osd_packet_type_name :: "string list" where
  "osd_packet_type_name = [''OSD_PACKET_TYPE_REG'', ''OSD_PACKET_TYPE_RES1'', ''OSD_PACKET_TYPE_EVENT'', ''OSD_PACKET_TYPE_RES2'']"

abbreviation newline :: string where "newline \<equiv> [newline_char]"

fun data_lines :: "u16 list \<Rightarrow> string option \<Rightarrow> string option" where
  "data_lines [] str = str"
| "data_lines (w # ws) str = data_lines ws (sprintf_append str (''  0x'' @ pad_to 4 CHR ''0'' (hex_of (unat w)) @ newline))"

definition osd_packet_to_string :: "packet \<Rightarrow> string option \<Rightarrow> string option exec" where
  "osd_packet_to_string p str =
     (let str1 = sprintf_append str (''Packet of '' @ dec_of (unat (pk_len p)) @ '' data words:'' @ newline) in
      bnd (if 3 \<le> pk_len p then
          bnd (osd_packet_get_dest p) (\<lambda>dest. bnd (osd_packet_get_src p) (\<lambda>src.
          bnd (osd_packet_get_type p) (\<lambda>ty. bnd (osd_packet_get_type_sub p) (\<lambda>sub.
            ok (sprintf_append str1 (''DEST = '' @ dec_of (unat dest) @ '', SRC = '' @ dec_of (unat src) @
              '', TYPE = '' @ dec_of (unat ty) @ '' ('' @ osd_packet_type_name ! unat ty @ ''), TYPE_SUB = '' @
              dec_of (unat sub) @ newline))))))
        else ok str1) (\<lambda>str2.
      (let str3 = sprintf_append str2 (''Packet data (including header):'' @ newline) in
       bnd (bytes_at (pk_data p) 0 (unat (pk_len p))) (\<lambda>ws. ok (data_lines ws str3)))))"

definition osd_packet_dump :: "packet \<Rightarrow> string \<Rightarrow> string exec" where
  "osd_packet_dump p file = bnd (osd_packet_to_string p None) (\<lambda>str. case str of None \<Rightarrow> flt NullDeref | Some s \<Rightarrow> ok (file @ s))"

subsection \<open>Files and comparison\<close>

text \<open>\<open>fread\<close> of one item: what was read when it is complete, and the rest of the file.\<close>

definition fread_item :: "nat \<Rightarrow> u8 list \<Rightarrow> u8 list option \<times> u8 list" where
  "fread_item n file =
     (if n = 0 then (None, file) else if length file < n then (None, []) else (Some (take n file), drop n file))"

text \<open>\<open>room\<close> says whether the file system takes the bytes.\<close>

definition osd_packet_fwrite :: "bool \<Rightarrow> packet \<Rightarrow> u8 list \<Rightarrow> (bool \<times> u8 list) exec" where
  "osd_packet_fwrite room p file =
     bnd (bytes_at (pk_data p) 0 (unat (pk_len p))) (\<lambda>ws.
       if room then ok (True, file @ pk_bytes (pk_len p # ws)) else ok (False, file))"

definition osd_packet_fread :: "memory \<Rightarrow> u8 list \<Rightarrow> (packet option \<times> u8 list) exec" where
  "osd_packet_fread mem file =
     (case fread_item 2 file of
        (None, file1) \<Rightarrow> ok (None, file1)
      | (Some bs, file1) \<Rightarrow>
          (let data_size_words = unat (hd (words_of bs)) in
           bnd (osd_packet_new mem data_size_words) (\<lambda>pkg.
           case fread_item (data_size_words * 2) file1 of
             (None, file2) \<Rightarrow> ok (osd_packet_free (Some pkg), file2)
           | (Some ds, file2) \<Rightarrow> ok (Some (pkg\<lparr>pk_data := words_of ds\<rparr>), file2))))"

text \<open>
  \<open>memcmp\<close> starts at the structure, so the word that counts the data words is compared too.
  \<open>same\<close> says whether the pointers are equal.
\<close>

definition osd_packet_equal :: "bool \<Rightarrow> packet option \<Rightarrow> packet option \<Rightarrow> bool exec" where
  "osd_packet_equal same p1 p2 =
     (case (p1, p2) of
        (Some a, Some b) \<Rightarrow>
          if same then ok True
          else if osd_packet_sizeof a \<noteq> osd_packet_sizeof b then ok False
          else bnd (bytes_at (pk_len a # pk_data a) 0 (unat (pk_len a))) (\<lambda>x.
               bnd (bytes_at (pk_len b # pk_data b) 0 (unat (pk_len b))) (\<lambda>y. ok (x = y)))
      | _ \<Rightarrow> ok False)"

subsection \<open>Names of modules\<close>

definition module_shortnames :: "string list" where
  "module_shortnames = [''UNKNOWN'', ''SCM'', ''DEM_UART'', ''MAM'', ''STM'', ''CTM'', ''CDM'']"

definition module_longnames :: "string list" where
  "module_longnames = [''UNKNOWN'', ''Subnet Control Module'', ''Device Emulation Module UART'',
     ''Memory Access Module'', ''System Trace Module'', ''Core Trace Module'', ''Core Debug Module'']"

text \<open>The bound is the size of the array of pointers in bytes.\<close>

definition mod_name :: "string list \<Rightarrow> u32 \<Rightarrow> u32 \<Rightarrow> string exec" where
  "mod_name names vendor_id type_id =
     (if vendor_id \<noteq> 1 then ok ''UNKNOWN''
      else if unat type_id \<ge> 8 * length names then ok ''UNKNOWN''
      else if unat type_id < length names then ok (names ! unat type_id)
      else flt OutOfBounds)"

definition osd_module_get_type_short_name :: "u32 \<Rightarrow> u32 \<Rightarrow> string exec" where
  "osd_module_get_type_short_name = mod_name module_shortnames"

definition osd_module_get_type_long_name :: "u32 \<Rightarrow> u32 \<Rightarrow> string exec" where
  "osd_module_get_type_long_name = mod_name module_longnames"

subsection \<open>Round trips\<close>

definition pk_ok :: "packet \<Rightarrow> bool" where
  "pk_ok p \<longleftrightarrow> unat (pk_len p) = length (pk_data p)"

lemma pk_word_ok [simp]: "i < length (pk_data p) \<Longrightarrow> pk_word p i = ok (pk_data p ! i)"
  by (simp add: pk_word_def)

lemma pk_set_ok [simp]: "i < length (pk_data p) \<Longrightarrow> pk_set p i w = ok (p\<lparr>pk_data := (pk_data p)[i := w]\<rparr>)"
  by (simp add: pk_set_def)

lemma pk_large_ok [simp]: "3 \<le> unat (pk_len p) \<Longrightarrow> pk_large p = ok ()"
  by (simp add: pk_large_def word_le_nat_alt)

lemma bytes_words [simp]: "even (length bs) \<Longrightarrow> pk_bytes (words_of bs) = bs"
proof (induction bs rule: words_of.induct)
  case (1 b0 b1 bs)
  have "ucast (ucast b0 OR push_bit 8 (ucast b1) :: u16) = b0"
    and "ucast (drop_bit 8 (ucast b0 OR push_bit 8 (ucast b1) :: u16)) = b1"
    by (rule bit_word_eqI, auto simp: bit_simps impossible_bit)+
  then show ?case using 1 by simp
qed simp_all

lemma words_bytes [simp]: "words_of (pk_bytes ws) = ws"
proof (induction ws)
  case (Cons w ws)
  have "(ucast (ucast w :: u8) OR push_bit 8 (ucast (ucast (drop_bit 8 w) :: u8)) :: u16) = w"
  proof (rule bit_word_eqI)
    fix n assume n: "n < LENGTH(16)"
    show "bit (ucast (ucast w :: u8) OR push_bit 8 (ucast (ucast (drop_bit 8 w) :: u8)) :: u16) n = bit w n"
      using n by (cases "n < 8") (auto simp: bit_simps)
  qed
  then show ?case using Cons by simp
qed simp

lemma length_words_of [simp]: "length (words_of bs) = length bs div 2"
  by (induction bs rule: words_of.induct) simp_all

lemma length_pk_bytes [simp]: "length (pk_bytes ws) = 2 * length ws"
  by (induction ws) simp_all

lemma pk_bytes_append [simp]: "pk_bytes (xs @ ys) = pk_bytes xs @ pk_bytes ys"
  by (induction xs) simp_all

lemma packet_new_ok: "mem (2 + 2 * n) \<Longrightarrow> n < 65536 \<Longrightarrow>
  osd_packet_new mem n = ok \<lparr>pk_len = word_of_nat n, pk_data = replicate n 0\<rparr> \<and>
  unat (word_of_nat n :: u16) = n"
  by (simp add: osd_packet_new_def unat_of_nat)

text \<open>What the header functions store is what the getters return.\<close>

lemma set_header_eq:
  assumes p: "pk_ok p" "3 \<le> length (pk_data p)"
    and b: "dest AND 65535 = dest" "src AND 65535 = src" "type AND 3 = type" "sub AND 15 = sub"
  shows "osd_packet_set_header p dest src type sub =
    ok (p\<lparr>pk_data := ucast dest # ucast src # ucast (push_bit 14 type OR push_bit 10 sub) # drop 3 (pk_data p)\<rparr>)"
proof -
  obtain a0 a1 a2 ds where d: "pk_data p = a0 # a1 # a2 # ds"
    using p(2) by (cases "pk_data p"; cases "tl (pk_data p)"; cases "tl (tl (pk_data p))") auto
  have l: "3 \<le> unat (pk_len p)" using p by (simp add: pk_ok_def)
  have t: "ucast (push_bit 14 type) AND ucast (NOT (push_bit 10 (15::u32))) = (ucast (push_bit 14 type) :: u16)"
  proof (rule bit_word_eqI)
    fix n assume n: "n < LENGTH(16)"
    show "bit (ucast (push_bit 14 type) AND ucast (NOT (push_bit 10 (15::u32))) :: u16) n = bit (ucast (push_bit 14 type) :: u16) n"
    proof (cases "14 \<le> n")
      case True
      then consider "n = 14" | "n = 15" using n by fastforce
      then show ?thesis by cases (auto simp: bit_simps)
    qed (auto simp: bit_simps)
  qed
  have u: "(ucast (push_bit 14 type) :: u16) OR ucast (push_bit 10 sub) = ucast (push_bit 14 type OR push_bit 10 sub)"
    by (rule bit_word_eqI) (simp add: bit_simps)
  show ?thesis
    using l t u by (simp add: osd_packet_set_header_def osd_packet_set_type_sub_def d b)
qed

lemma and_mask_le: "(w::u32) AND 2 ^ k - 1 = w \<Longrightarrow> k < 32 \<Longrightarrow> unat w < 2 ^ k"
proof -
  assume e: "w AND 2 ^ k - 1 = w" and k: "k < 32"
  have "w AND (2 ^ k - 1) = take_bit k w" by (simp only: take_bit_eq_mask mask_eq_exp_minus_1)
  then have "take_bit k (unat w) = unat w" using e by (simp flip: unsigned_take_bit_eq)
  then show ?thesis by (simp only: take_bit_nat_eq_self_iff)
qed

lemma field_16: "(w::u32) AND 65535 = w \<Longrightarrow> ucast (ucast w :: u16) = w"
proof -
  assume e: "w AND 65535 = w"
  have "w AND 65535 = take_bit 16 w" by (simp add: take_bit_eq_mask mask_eq_exp_minus_1)
  then have t: "take_bit 16 w = w" using e by simp
  have "ucast (ucast w :: u16) = take_bit 16 w" by (rule bit_word_eqI) (auto simp: bit_simps)
  then show ?thesis using t by simp
qed

lemma mask_words: "(w::u32) AND 3 = take_bit 2 w" "w AND 15 = take_bit 4 w" "w AND 65535 = take_bit 16 w"
  by (simp_all add: take_bit_eq_mask mask_eq_exp_minus_1)

lemma flags_fields:
  assumes "type AND 3 = type" and "sub AND 15 = (sub::u32)"
  shows "drop_bit 14 (ucast (ucast (push_bit 14 type OR push_bit 10 sub) :: u16)) AND 3 = type"
    and "drop_bit 10 (ucast (ucast (push_bit 14 type OR push_bit 10 sub) :: u16)) AND 15 = sub"
proof -
  have t: "take_bit 2 type = type" and s: "take_bit 4 sub = sub" using assms by (simp_all add: mask_words)
  have bt: "bit type n \<Longrightarrow> n < 2" for n using arg_cong [OF t, of "\<lambda>x. bit x n"] by (simp add: bit_simps)
  have bs: "bit sub n \<Longrightarrow> n < 4" for n using arg_cong [OF s, of "\<lambda>x. bit x n"] by (simp add: bit_simps)
  show "drop_bit 14 (ucast (ucast (push_bit 14 type OR push_bit 10 sub) :: u16)) AND 3 = type"
    unfolding mask_words by (rule bit_word_eqI) (auto simp: bit_simps dest: bt bs)
  show "drop_bit 10 (ucast (ucast (push_bit 14 type OR push_bit 10 sub) :: u16)) AND 15 = sub"
    unfolding mask_words by (rule bit_word_eqI) (auto simp: bit_simps dest: bt bs)
qed

text \<open>
  The four fields that \<open>osd_packet_set_header\<close> stores are returned by the getters, and the
  payload is left alone.
\<close>

theorem header_roundtrip:
  assumes "pk_ok p" and "3 \<le> length (pk_data p)"
    and "dest AND 65535 = dest" "src AND 65535 = src" "type AND 3 = type" "sub AND 15 = sub"
  shows "\<exists>q. osd_packet_set_header p dest src type sub = ok q \<and> pk_ok q \<and> drop 3 (pk_data q) = drop 3 (pk_data p) \<and>
    osd_packet_get_dest q = ok dest \<and> osd_packet_get_src q = ok src \<and>
    osd_packet_get_type q = ok type \<and> osd_packet_get_type_sub q = ok sub"
proof -
  define q where "q = p\<lparr>pk_data := ucast dest # ucast src # ucast (push_bit 14 type OR push_bit 10 sub) # drop 3 (pk_data p)\<rparr>"
  have s: "osd_packet_set_header p dest src type sub = ok q" unfolding q_def by (rule set_header_eq [OF assms])
  have q: "pk_ok q" "3 \<le> unat (pk_len q)" using assms(1,2) by (auto simp: q_def pk_ok_def)
  have d: "pk_data q = ucast dest # ucast src # ucast (push_bit 14 type OR push_bit 10 sub) # drop 3 (pk_data p)"
    by (simp add: q_def)
  have "osd_packet_get_dest q = ok dest" "osd_packet_get_src q = ok src"
    using q d field_16 [OF assms(3)] field_16 [OF assms(4)] assms(3,4)
    by (simp_all add: osd_packet_get_dest_def osd_packet_get_src_def)
  moreover have "osd_packet_get_type q = ok type" "osd_packet_get_type_sub q = ok sub"
    unfolding osd_packet_get_type_def osd_packet_get_type_sub_def using q(2)
    by (simp_all add: d flags_fields [OF assms(5,6)])
  ultimately show ?thesis using s q d by simp
qed

theorem header_roundtrip_witness:
  "\<exists>q. osd_packet_set_header \<lparr>pk_len = 4, pk_data = [0, 0, 0, 9]\<rparr> 1030 5 2 1 = ok q \<and> pk_ok q \<and>
    drop 3 (pk_data q) = drop 3 [0, 0, 0, 9] \<and>
    osd_packet_get_dest q = ok 1030 \<and> osd_packet_get_src q = ok 5 \<and>
    osd_packet_get_type q = ok 2 \<and> osd_packet_get_type_sub q = ok 1"
  using header_roundtrip [of "\<lparr>pk_len = 4, pk_data = [0, 0, 0, 9]\<rparr>" 1030 5 2 1] by (simp add: pk_ok_def)

text \<open>
  C39: A packet with at least one data word that was written to a file is read back the same,
  whatever follows it in the file; an empty packet is lost.
\<close>

theorem packet_file_roundtrip:
  assumes p: "pk_ok p" and m: "mem (2 + 2 * length (pk_data p))"
  shows "\<exists>f. osd_packet_fwrite True p [] = ok (True, f) \<and>
    osd_packet_fread mem (f @ rest) = ok (if pk_data p = [] then None else Some p, rest)"
proof -
  define f where "f = pk_bytes (pk_len p # pk_data p)"
  have l: "unat (pk_len p) = length (pk_data p)" using p by (simp add: pk_ok_def)
  then have lt: "length (pk_data p) < 65536" using unsigned_less [of "pk_len p", where 'a = nat] by simp
  have w: "word_of_nat (length (pk_data p)) = pk_len p" by (simp flip: l)
  have h: "words_of (take 2 f) = [pk_len p]"
    using words_bytes [of "[pk_len p]"] by (simp add: f_def numeral_2_eq_2)
  have "osd_packet_fwrite True p [] = ok (True, f)" by (simp add: osd_packet_fwrite_def l f_def)
  moreover have "fread_item 2 (f @ rest) = (Some (take 2 f), pk_bytes (pk_data p) @ rest)"
    by (simp add: f_def fread_item_def numeral_2_eq_2)
  moreover have "osd_packet_new mem (length (pk_data p)) = ok \<lparr>pk_len = pk_len p, pk_data = replicate (length (pk_data p)) 0\<rparr>"
    using packet_new_ok [of mem "length (pk_data p)"] m lt w by simp
  moreover have "fread_item (length (pk_data p) * 2) (pk_bytes (pk_data p) @ rest) =
      (if pk_data p = [] then None else Some (pk_bytes (pk_data p)), rest)"
    by (simp add: fread_item_def mult.commute)
  ultimately show ?thesis
    by (intro exI [of _ f]) (simp add: osd_packet_fread_def h l osd_packet_free_def)
qed

theorem packet_file_roundtrip_witness:
  "\<exists>f. osd_packet_fwrite True \<lparr>pk_len = 4, pk_data = [6, 5, 2048, 9]\<rparr> [] = ok (True, f) \<and>
    osd_packet_fread (\<lambda>_. True) (f @ [1]) = ok (Some \<lparr>pk_len = 4, pk_data = [6, 5, 2048, 9]\<rparr>, [1])"
  using packet_file_roundtrip [of "\<lparr>pk_len = 4, pk_data = [6, 5, 2048, 9]\<rparr>" "\<lambda>_. True" "[1]"] by (simp add: pk_ok_def)

text \<open>
  Two packets that differ in the last word only are reported equal: the comparison covers as
  many bytes as the data has, from the start of the structure, which also has the count.
\<close>

theorem equal_ignores_last_word:
  assumes "pk_ok p" and "pk_ok q" and "butlast (pk_data p) = butlast (pk_data q)" and "length (pk_data p) = length (pk_data q)"
  shows "osd_packet_equal same (Some p) (Some q) = ok True"
proof -
  have len: "pk_len p = pk_len q" using assms by (simp add: pk_ok_def word_unat_eq_iff)
  have t: "take (length (pk_data p)) (w # ds) = (if ds = [] then [] else w # butlast ds)"
    if "length ds = length (pk_data p)" for w :: u16 and ds
    using that by (cases "pk_data p") (auto simp: butlast_conv_take take_Cons')
  show ?thesis
    using assms t [of "pk_data p"] t [of "pk_data q"] len
    by (auto simp: osd_packet_equal_def osd_packet_sizeof_def pk_ok_def bytes_at_def)
qed

theorem equal_ignores_last_word_witness:
  "osd_packet_equal False (Some \<lparr>pk_len = 4, pk_data = [6, 5, 2048, 9]\<rparr>) (Some \<lparr>pk_len = 4, pk_data = [6, 5, 2048, 7]\<rparr>) = ok True"
  by (rule equal_ignores_last_word) (simp_all add: pk_ok_def)

text \<open>The addresses.\<close>

lemma diaddr_roundtrip:
  assumes "osd_diaddr_build s l = ok d"
  shows "osd_diaddr_subnet d = s" and "osd_diaddr_localaddr d = l"
proof -
  have sl: "unat s < 2 ^ 6" "unat l < 2 ^ 10" and d: "d = push_bit 10 s OR l"
    using assms by (auto simp: osd_diaddr_build_def bnd_ok_iff assert_c_def word_le_nat_alt split: if_splits)
  have ts: "take_bit 6 s = s" and tl: "take_bit 10 l = l"
    using sl by (simp_all add: word_unat_eq_iff unsigned_take_bit_eq take_bit_nat_eq_self)
  have bs: "bit s n \<Longrightarrow> n < 6" for n using arg_cong [OF ts, of "\<lambda>x. bit x n"] by (simp add: bit_simps)
  have bl: "bit l n \<Longrightarrow> n < 10" for n using arg_cong [OF tl, of "\<lambda>x. bit x n"] by (simp add: bit_simps)
  show "osd_diaddr_subnet d = s" unfolding osd_diaddr_subnet_def d
    by (rule bit_word_eqI) (auto simp: bit_simps dest: bs bl)
  have m: "(w::u32) AND 1023 = take_bit 10 w" for w by (simp add: take_bit_eq_mask mask_eq_exp_minus_1)
  show "osd_diaddr_localaddr d = l" unfolding osd_diaddr_localaddr_def d m
    by (rule bit_word_eqI) (auto simp: bit_simps dest: bs bl)
qed

end
