(* ===== verification/Osd_Hostmod.thy ===== *)
theory Osd_Hostmod
  imports Osd_Packet
begin

section \<open>Host modules (hostmod.c)\<close>

text \<open>
  The main thread side of \<open>hostmod.c\<close> of libosd: register access, events, enumeration of the
  modules. The socket to the I/O thread is the list of the messages sent and the list of what
  \<open>zmsg_recv\<close> returns: a message, a timeout, or an interruption; when the list is used up, the
  call has not returned. \<open>hm_send\<close> says which of the next \<open>zmsg_send\<close> succeed, all of them when it is
  empty. The status that the worker answers is an argument.
\<close>

type_synonym frame = "u8 list"

datatype zrecv = ZAgain | ZIntr | ZMsg "frame list"

record hostmod =
  hm_is_connected :: bool
  hm_diaddr :: u16
  hm_sent :: "frame list list"
  hm_in :: "zrecv list"
  hm_send :: "bool list"

type_synonym 'a hm = "hostmod \<Rightarrow> ('a \<times> hostmod) exec"

definition str_frame :: "string \<Rightarrow> frame" where
  "str_frame s = map (\<lambda>c. word_of_nat (of_char c)) s"

definition hbnd :: "'a hm \<Rightarrow> ('a \<Rightarrow> 'b hm) \<Rightarrow> 'b hm" where
  "hbnd m f h = bnd (m h) (\<lambda>(x, h'). f x h')"

definition lift_exec :: "'a exec \<Rightarrow> 'a hm" where
  "lift_exec e h = bnd e (\<lambda>x. ok (x, h))"

abbreviation hret :: "'a \<Rightarrow> 'a hm" where "hret x \<equiv> \<lambda>h. ok (x, h)"

subsection \<open>Connection\<close>

definition osd_hostmod_get_diaddr :: "u16 hm" where
  "osd_hostmod_get_diaddr h = bnd (assert_c (hm_is_connected h)) (\<lambda>_. ok (hm_diaddr h, h))"

text \<open>\<open>rv\<close> is the result of waiting for the worker, \<open>retval\<close> the value it sends.\<close>

definition osd_hostmod_connect :: "int \<Rightarrow> int \<Rightarrow> int hm" where
  "osd_hostmod_connect rv retval h =
     bnd (assert_c (\<not> hm_is_connected h)) (\<lambda>_.
       if OSD_FAILED rv \<or> retval = - 1 then ok (OSD_ERROR_CONNECTION_FAILED, h)
       else ok (OSD_OK, h\<lparr>hm_diaddr := word_of_int retval, hm_is_connected := True\<rparr>))"

definition osd_hostmod_is_connected :: "bool hm" where
  "osd_hostmod_is_connected h = ok (hm_is_connected h, h)"

definition osd_hostmod_disconnect :: "int \<Rightarrow> int \<Rightarrow> int hm" where
  "osd_hostmod_disconnect rv retval h =
     (if \<not> hm_is_connected h then ok (OSD_ERROR_NOT_CONNECTED, h)
      else if OSD_FAILED rv then ok (rv, h)
      else if OSD_FAILED retval then ok (retval, h)
      else ok (OSD_OK, h\<lparr>hm_is_connected := False\<rparr>))"

subsection \<open>Sending and receiving\<close>

definition osd_hostmod_send_packet :: "packet \<Rightarrow> int hm" where
  "osd_hostmod_send_packet p h =
     bnd (bytes_at (pk_data p) 0 (unat (pk_len p))) (\<lambda>ws.
       (let done = (case hm_send h of [] \<Rightarrow> True | r # _ \<Rightarrow> r); h1 = h\<lparr>hm_send := tl (hm_send h)\<rparr> in
        if done then ok (OSD_OK, h1\<lparr>hm_sent := hm_sent h @ [[str_frame ''D'', pk_bytes ws]]\<rparr>)
        else ok (OSD_ERROR_COM, h1)))"

fun recv_loop :: "bool \<Rightarrow> zrecv list \<Rightarrow> (zrecv \<times> zrecv list) option" where
  "recv_loop do_block [] = None"
| "recv_loop do_block (ZAgain # ms) = (if do_block then recv_loop do_block ms else Some (ZAgain, ms))"
| "recv_loop do_block (m # ms) = Some (m, ms)"

definition OSD_HOSTMOD_BLOCKING :: u32 where "OSD_HOSTMOD_BLOCKING = 1"

definition osd_hostmod_receive_packet :: "memory \<Rightarrow> u32 \<Rightarrow> (int \<times> packet option) hm" where
  "osd_hostmod_receive_packet mem flags h =
     (case recv_loop (flags AND OSD_HOSTMOD_BLOCKING \<noteq> 0) (hm_in h) of
        None \<Rightarrow> None
      | Some (ZAgain, ms) \<Rightarrow> ok ((OSD_ERROR_TIMEDOUT, None), h\<lparr>hm_in := ms\<rparr>)
      | Some (ZIntr, ms) \<Rightarrow> ok ((OSD_ERROR_FAILURE, None), h\<lparr>hm_in := ms\<rparr>)
      | Some (ZMsg fs, ms) \<Rightarrow>
          bnd (assert_c (fs \<noteq> [] \<and> hd fs = str_frame ''D'')) (\<lambda>_.
          bnd (assert_c (tl fs \<noteq> [])) (\<lambda>_.
          bnd (osd_packet_new_from_zframe mem (hd (tl fs))) (\<lambda>p. ok ((OSD_OK, Some p), h\<lparr>hm_in := ms\<rparr>)))))"

subsection \<open>Registers\<close>

definition get_subtype_reg_read_req :: "u32 \<Rightarrow> u32" where
  "get_subtype_reg_read_req reg_size_bit = reg_size_bit div 16 - 1"

definition get_subtype_reg_read_success_resp :: "u32 \<Rightarrow> u32" where
  "get_subtype_reg_read_success_resp reg_size_bit = get_subtype_reg_read_req reg_size_bit OR 8"

definition get_subtype_reg_write_req :: "u32 \<Rightarrow> u32" where
  "get_subtype_reg_write_req reg_size_bit = (reg_size_bit div 16 - 1) OR 4"

fun put_words :: "nat \<Rightarrow> u16 list \<Rightarrow> packet \<Rightarrow> packet exec" where
  "put_words i [] p = ok p"
| "put_words i (w # ws) p = bnd (pk_set p i w) (\<lambda>p'. put_words (Suc i) ws p')"

definition osd_hostmod_regaccess ::
    "memory \<Rightarrow> u16 \<Rightarrow> u16 \<Rightarrow> u32 \<Rightarrow> u32 \<Rightarrow> u16 list \<Rightarrow> u32 \<Rightarrow> (int \<times> packet option) hm" where
  "osd_hostmod_regaccess mem module_addr reg_addr subtype_req subtype_resp wr_data flags h =
     (if \<not> hm_is_connected h then ok ((OSD_ERROR_NOT_CONNECTED, None), h)
      else bnd (osd_packet_sizeconv_payload2data (1 + word_of_nat (length wr_data))) (\<lambda>pkg_size_words.
      bnd (osd_packet_new mem (unat pkg_size_words)) (\<lambda>p0.
      bnd (osd_packet_set_header p0 (ucast module_addr) (ucast (hm_diaddr h)) 0 subtype_req) (\<lambda>p1.
      bnd (put_words 3 (reg_addr # wr_data) p1) (\<lambda>pkg_req.
      hbnd (osd_hostmod_send_packet pkg_req) (\<lambda>rv.
        if OSD_FAILED rv then hret (rv, None)
        else hbnd (osd_hostmod_receive_packet mem flags) (\<lambda>(rv, resp).
          case resp of None \<Rightarrow> hret (rv, None)
          | Some pkg_resp \<Rightarrow>
              hbnd (lift_exec (osd_packet_get_type pkg_resp)) (\<lambda>ty.
              hbnd (lift_exec (assert_c (ty = 0))) (\<lambda>_.
              hbnd (lift_exec (osd_packet_get_type_sub pkg_resp)) (\<lambda>sub.
                if sub = 12 \<or> sub = 15 then hret (OSD_ERROR_DEVICE_ERROR, None)
                else if sub \<noteq> subtype_resp then hret (OSD_ERROR_DEVICE_INVALID_DATA, None)
                else hret (OSD_OK, Some pkg_resp)))))) h)))))"

text \<open>The value of a register is the list of its words, as they are stored in memory.\<close>

definition osd_hostmod_reg_read :: "memory \<Rightarrow> u16 \<Rightarrow> u16 \<Rightarrow> u32 \<Rightarrow> u32 \<Rightarrow> (int \<times> u16 list option) hm" where
  "osd_hostmod_reg_read mem diaddr reg_addr reg_size_bit flags =
     hbnd (lift_exec (assert_c (reg_size_bit mod 16 = 0 \<and> reg_size_bit \<le> 128))) (\<lambda>_.
     hbnd (osd_hostmod_regaccess mem diaddr reg_addr (get_subtype_reg_read_req reg_size_bit)
            (get_subtype_reg_read_success_resp reg_size_bit) [] flags) (\<lambda>(rv, resp).
       case resp of None \<Rightarrow> hret (rv, None)
       | Some p \<Rightarrow>
           hbnd (lift_exec (osd_packet_sizeconv_payload2data (reg_size_bit div 16))) (\<lambda>exp_data_size_words.
             if ucast (pk_len p) \<noteq> exp_data_size_words then hret (OSD_ERROR_DEVICE_INVALID_DATA, None)
             else hbnd (lift_exec (bytes_at (pk_data p) 3 (unat (reg_size_bit div 16)))) (\<lambda>ws. hret (OSD_OK, Some ws)))))"

definition osd_hostmod_reg_write :: "memory \<Rightarrow> u16 list \<Rightarrow> u16 \<Rightarrow> u16 \<Rightarrow> u32 \<Rightarrow> u32 \<Rightarrow> int hm" where
  "osd_hostmod_reg_write mem reg_val diaddr reg_addr reg_size_bit flags =
     hbnd (lift_exec (assert_c (reg_size_bit mod 16 = 0 \<and> reg_size_bit \<le> 128))) (\<lambda>_.
     hbnd (lift_exec (bytes_at reg_val 0 (unat (reg_size_bit div 16)))) (\<lambda>ws.
     hbnd (osd_hostmod_regaccess mem diaddr reg_addr (get_subtype_reg_write_req reg_size_bit) 14 ws flags) (\<lambda>(rv, resp).
       case resp of None \<Rightarrow> hret rv
       | Some p \<Rightarrow>
           hbnd (lift_exec (osd_packet_sizeconv_payload2data 0)) (\<lambda>data_size_words_exp.
             if ucast (pk_len p) \<noteq> data_size_words_exp then hret OSD_ERROR_DEVICE_INVALID_DATA
             else hret OSD_OK))))"

text \<open>One 16 bit register.\<close>

definition reg_read_16 :: "memory \<Rightarrow> u16 \<Rightarrow> u16 \<Rightarrow> u32 \<Rightarrow> (int \<times> u16 option) hm" where
  "reg_read_16 mem diaddr reg_addr flags =
     hbnd (osd_hostmod_reg_read mem diaddr reg_addr 16 flags) (\<lambda>(rv, ws). hret (rv, map_option hd ws))"

definition osd_hostmod_reg_setbit :: "memory \<Rightarrow> nat \<Rightarrow> bool \<Rightarrow> u16 \<Rightarrow> u16 \<Rightarrow> u32 \<Rightarrow> int hm" where
  "osd_hostmod_reg_setbit mem bitnum bitval diaddr reg_addr flags =
     hbnd (reg_read_16 mem diaddr reg_addr flags) (\<lambda>(rv, val).
       case val of None \<Rightarrow> hret rv
       | Some v \<Rightarrow>
           hbnd (lift_exec (if 31 \<le> bitnum then flt BadArith else ok ())) (\<lambda>_.
           (let val = ucast ((ucast v AND NOT (push_bit bitnum 1)) OR push_bit bitnum (of_bool bitval) :: u32) in
            osd_hostmod_reg_write mem [val] diaddr reg_addr 16 flags)))"

subsection \<open>Events\<close>

definition OSD_MAX_PKG_LEN_WORDS :: u32 where "OSD_MAX_PKG_LEN_WORDS = 8"

definition osd_hostmod_get_max_event_words :: "u32 exec" where
  "osd_hostmod_get_max_event_words = osd_packet_sizeconv_data2payload OSD_MAX_PKG_LEN_WORDS"

definition osd_hostmod_event_send :: "packet \<Rightarrow> int hm" where
  "osd_hostmod_event_send p =
     hbnd (lift_exec (osd_packet_get_type p)) (\<lambda>ty.
     hbnd (lift_exec (assert_c (ty = 2))) (\<lambda>_.
     hbnd osd_hostmod_is_connected (\<lambda>c.
       if \<not> c then hret OSD_ERROR_NOT_CONNECTED else osd_hostmod_send_packet p)))"

definition osd_hostmod_event_receive :: "memory \<Rightarrow> u32 \<Rightarrow> (int \<times> packet option) hm" where
  "osd_hostmod_event_receive = osd_hostmod_receive_packet"

subsection \<open>Modules\<close>

record module_desc =
  md_addr :: u16
  md_vendor :: u16
  md_type :: u16
  md_version :: u16

definition no_module :: module_desc where
  "no_module = \<lparr>md_addr = 0, md_vendor = 0, md_type = 0, md_version = 0\<rparr>"

definition osd_hostmod_mod_describe :: "memory \<Rightarrow> u16 \<Rightarrow> module_desc \<Rightarrow> (int \<times> module_desc) hm" where
  "osd_hostmod_mod_describe mem di_addr desc =
     (let d0 = desc\<lparr>md_addr := di_addr\<rparr> in
      hbnd (reg_read_16 mem di_addr 0 0) (\<lambda>(rv, v).
      case v of None \<Rightarrow> hret (rv, d0) | Some vendor \<Rightarrow>
        (let d1 = d0\<lparr>md_vendor := vendor\<rparr> in
         hbnd (reg_read_16 mem di_addr 1 0) (\<lambda>(rv, v).
         case v of None \<Rightarrow> hret (rv, d1) | Some ty \<Rightarrow>
           (let d2 = d1\<lparr>md_type := ty\<rparr> in
            hbnd (reg_read_16 mem di_addr 2 0) (\<lambda>(rv, v).
            case v of None \<Rightarrow> hret (rv, d2) | Some version \<Rightarrow> hret (OSD_OK, d2\<lparr>md_version := version\<rparr>)))))))"

lemma next_below:
  fixes a n :: u16
  assumes "a < n"
  shows "unat n - unat (a + 1) < unat n - unat a"
proof -
  have l: "unat a < unat n" using assms by (simp add: word_less_nat_alt)
  moreover have "unat n < 2 ^ LENGTH(16)" by (rule unsigned_less)
  ultimately have "unat (a + 1) = unat a + 1" by (simp add: unat_word_ariths)
  then show ?thesis using l by simp
qed

text \<open>The element of the array that is described is the one at the full address of the module.\<close>

function mods_loop :: "memory \<Rightarrow> u32 \<Rightarrow> u16 \<Rightarrow> u16 \<Rightarrow> module_desc list \<Rightarrow> int \<Rightarrow> (int \<times> module_desc list) hm" where
  "mods_loop mem subnet_addr num_modules localaddr mods retval h =
     (if localaddr < num_modules then
        bnd (osd_diaddr_build subnet_addr (ucast localaddr)) (\<lambda>a.
        (let module_addr = (ucast a :: u16) in
         if length mods \<le> unat module_addr then flt OutOfBounds
         else bnd (osd_hostmod_mod_describe mem module_addr (mods ! unat module_addr) h) (\<lambda>((rv, d), h1).
           if OSD_FAILED rv then
             mods_loop mem subnet_addr num_modules (localaddr + 1)
               (mods[unat module_addr := \<lparr>md_addr = module_addr, md_vendor = 0, md_type = 0, md_version = 0\<rparr>])
               OSD_ERROR_PARTIAL_RESULT h1
           else bnd (osd_module_get_type_short_name (ucast (md_vendor d)) (ucast (md_type d))) (\<lambda>_.
             mods_loop mem subnet_addr num_modules (localaddr + 1) (mods[unat module_addr := d]) retval h1))))
      else ok ((retval, mods), h))"
  by pat_completeness auto

termination
  by (relation "measure (\<lambda>(mem, s, n, a, m, r, h). unat n - unat a)")
    (auto simp: next_below)

declare mods_loop.simps [simp del]

definition osd_hostmod_get_modules :: "memory \<Rightarrow> u32 \<Rightarrow> (int \<times> module_desc list option) hm" where
  "osd_hostmod_get_modules mem subnet_addr =
     hbnd (lift_exec (osd_diaddr_build subnet_addr 0)) (\<lambda>a.
     (let scm_diaddr = (ucast a :: u16) in
      hbnd (reg_read_16 mem scm_diaddr 514 0) (\<lambda>(rv, v).
        case v of None \<Rightarrow> hret (rv, None)
        | Some num_modules \<Rightarrow>
            hbnd (mods_loop mem subnet_addr num_modules scm_diaddr (replicate (unat num_modules) no_module) OSD_OK)
              (\<lambda>(retval, mods). hret (retval, Some mods)))))"

definition osd_hostmod_mod_set_event_dest :: "memory \<Rightarrow> u16 \<Rightarrow> u32 \<Rightarrow> int hm" where
  "osd_hostmod_mod_set_event_dest mem di_addr flags h =
     osd_hostmod_reg_write mem [hm_diaddr h] di_addr 4 16 flags h"

definition osd_hostmod_mod_set_event_active :: "memory \<Rightarrow> u16 \<Rightarrow> bool \<Rightarrow> u32 \<Rightarrow> int hm" where
  "osd_hostmod_mod_set_event_active mem di_addr enabled flags =
     osd_hostmod_reg_setbit mem 0 enabled di_addr 3 flags"

end
