(* ===== verification/Osd_Mam.thy ===== *)
theory Osd_Mam
  imports Osd_Hostmod
begin

section \<open>Memory access (cl_mam.c)\<close>

text \<open>
  The client of the memory access modules, \<open>cl_mam.c\<close> of libosd. A transfer is the list of its
  bytes: two bytes of header, the address, the data. Sizes and positions of one transfer are
  natural numbers: with at most 255 words per transfer and a width of 16 bits they stay far below
  the range of \<open>unsigned int\<close>. Addresses and total sizes have 64 bits. A buffer that is read into
  is the list of its bytes.
\<close>

record mem_desc =
  me_di_addr :: u32
  me_data_width_bit :: u16
  me_addr_width_bit :: u16
  me_num_regions :: u8
  me_regions :: "(u64 \<times> u64) list"

definition MAM_MAX_BURST_WORDS :: nat where "MAM_MAX_BURST_WORDS = 255"

definition aw_b_of :: "mem_desc \<Rightarrow> nat" where "aw_b_of d = unat (me_addr_width_bit d) div 8"
definition dw_b_of :: "mem_desc \<Rightarrow> nat" where "dw_b_of d = unat (me_data_width_bit d) div 8"

definition INT_DIV_CEIL :: "nat \<Rightarrow> nat \<Rightarrow> nat" where
  "INT_DIV_CEIL x y = 1 + (x - 1) div y"

text \<open>The remainder, undefined for zero.\<close>

definition modc :: "nat \<Rightarrow> nat \<Rightarrow> nat exec" where
  "modc x y = (if y = 0 then flt BadArith else ok (x mod y))"

subsection \<open>Packets of a transfer\<close>

fun be_words :: "u8 list \<Rightarrow> u16 list" where
  "be_words (b0 # b1 # bs) = (push_bit 8 (ucast b0) OR ucast b1) # be_words bs"
| "be_words _ = []"

definition pkg_in_transfer :: "memory \<Rightarrow> mem_desc \<Rightarrow> u8 list \<Rightarrow> nat \<Rightarrow> packet hm" where
  "pkg_in_transfer mem d transfer pkg_idx =
     hbnd (lift_exec osd_hostmod_get_max_event_words) (\<lambda>max_words_per_pkg.
     (let max_bytes_per_pkg = unat max_words_per_pkg * 2;
          pos_start = pkg_idx * max_bytes_per_pkg;
          pos_end = min (pos_start + max_bytes_per_pkg) (length transfer);
          payload_words = (pos_end - pos_start) div 2 in
      hbnd (lift_exec (osd_packet_sizeconv_payload2data (word_of_nat payload_words))) (\<lambda>n.
      hbnd (lift_exec (osd_packet_new mem (unat n))) (\<lambda>p0.
      hbnd osd_hostmod_get_diaddr (\<lambda>src.
      hbnd (lift_exec (osd_packet_set_header p0 (me_di_addr d) (ucast src) 2 0)) (\<lambda>p1.
      hbnd (lift_exec (bytes_at transfer pos_start (2 * payload_words))) (\<lambda>bs.
        lift_exec (put_words 3 (be_words bs) p1))))))))"

definition num_pkgs_for_transfer :: "nat \<Rightarrow> nat exec" where
  "num_pkgs_for_transfer transfer_size =
     bnd osd_hostmod_get_max_event_words (\<lambda>words_per_pkg. ok (INT_DIV_CEIL transfer_size (unat words_per_pkg * 2)))"

definition create_mam_transfer ::
    "memory \<Rightarrow> mem_desc \<Rightarrow> u8 list \<Rightarrow> nat \<Rightarrow> u64 \<Rightarrow> bool \<Rightarrow> bool \<Rightarrow> bool \<Rightarrow> u16 \<Rightarrow> u8 list exec" where
  "create_mam_transfer mem d data nbyte start_addr we burst sync selsize =
     (let aw_b = aw_b_of d; dw_b = dw_b_of d in
      bnd (assert_c (we \<and> nbyte \<noteq> 0 \<or> \<not> we \<and> nbyte = 0)) (\<lambda>_.
      bnd (modc nbyte dw_b) (\<lambda>r. bnd (assert_c (r = 0)) (\<lambda>_.
      bnd (modc (unat start_addr) aw_b) (\<lambda>r. bnd (assert_c (r = 0)) (\<lambda>_.
      bnd (assert_c (burst \<longrightarrow> selsize \<noteq> 0)) (\<lambda>_.
      bnd (assert_c (burst \<and> we \<longrightarrow> unat selsize = nbyte div dw_b)) (\<lambda>_.
      if \<not> mem (2 + aw_b + nbyte) then flt NoMem
      else if 8 < aw_b then flt BadArith
      else bnd (if we then bytes_at data 0 nbyte else ok []) (\<lambda>bs.
        ok ((push_bit 7 (of_bool we) OR push_bit 6 (of_bool burst) OR push_bit 5 (of_bool sync)) # ucast selsize #
            map (\<lambda>i. ucast (drop_bit ((aw_b - i - 1) * 8) start_addr AND 255)) [0..<aw_b] @ bs))))))))))"

fun send_loop :: "memory \<Rightarrow> mem_desc \<Rightarrow> u8 list \<Rightarrow> nat list \<Rightarrow> int hm" where
  "send_loop mem d transfer [] h = ok (OSD_OK, h)"
| "send_loop mem d transfer (i # is) h =
     hbnd (pkg_in_transfer mem d transfer i) (\<lambda>pkg.
     hbnd (osd_hostmod_event_send pkg) (\<lambda>rv.
       if OSD_FAILED rv then hret rv else send_loop mem d transfer is)) h"

definition send_mam_transfer :: "memory \<Rightarrow> mem_desc \<Rightarrow> u8 list \<Rightarrow> int hm" where
  "send_mam_transfer mem d transfer =
     hbnd (lift_exec (num_pkgs_for_transfer (length transfer))) (\<lambda>numpkgs. send_loop mem d transfer [0..<numpkgs])"

subsection \<open>Writing\<close>

definition mam_write :: "memory \<Rightarrow> mem_desc \<Rightarrow> u8 list \<Rightarrow> nat \<Rightarrow> u64 \<Rightarrow> bool \<Rightarrow> bool \<Rightarrow> u8 \<Rightarrow> int hm" where
  "mam_write mem d data nbyte start_addr burst sync selsize =
     hbnd (lift_exec (create_mam_transfer mem d data nbyte start_addr True burst sync (ucast selsize))) (\<lambda>transfer.
     hbnd (send_mam_transfer mem d transfer) (\<lambda>rv.
       if OSD_FAILED rv then hret rv
       else if sync then hbnd (osd_hostmod_event_receive mem OSD_HOSTMOD_BLOCKING) (\<lambda>(rv, _).
         if OSD_FAILED rv then hret rv else hret OSD_OK)
       else hret OSD_OK))"

definition calculate_parts :: "u64 \<Rightarrow> u64 \<Rightarrow> u64 \<Rightarrow> (u64 \<times> u64 \<times> u64) exec" where
  "calculate_parts start_addr nbyte dw_b =
     (if nbyte < dw_b then ok (nbyte, 0, 0)
      else if dw_b = 0 then flt BadArith
      else (let prolog = (dw_b - start_addr) mod dw_b; epilog = (start_addr + nbyte) mod dw_b in
        ok (prolog, nbyte - prolog - epilog, epilog)))"

definition byte_select :: "nat \<Rightarrow> nat \<Rightarrow> nat \<Rightarrow> u8" where
  "byte_select baddr nbyte dw_b =
     foldl (\<lambda>bs i. if baddr \<le> i \<and> i < baddr + nbyte then bs OR push_bit i 1 else bs) 0 [0..<dw_b]"

definition align_data_to_word :: "memory \<Rightarrow> nat \<Rightarrow> u8 list \<Rightarrow> nat \<Rightarrow> nat \<Rightarrow> (u8 list \<times> u8) exec" where
  "align_data_to_word mem baddr data nbyte dw_b =
     bnd (assert_c (baddr + nbyte \<le> dw_b)) (\<lambda>_.
     if 31 < baddr + nbyte then flt BadArith
     else (let bs = byte_select baddr nbyte dw_b in
       bnd (assert_c (bs \<noteq> 0)) (\<lambda>_.
       if \<not> mem dw_b then flt NoMem
       else bnd (bytes_at data 0 nbyte) (\<lambda>ds.
         bnd (put_at (replicate dw_b 0) baddr ds) (\<lambda>word. ok (word, bs))))))"

definition write_single :: "memory \<Rightarrow> mem_desc \<Rightarrow> u8 list \<Rightarrow> nat \<Rightarrow> u64 \<Rightarrow> bool \<Rightarrow> int hm" where
  "write_single mem d data nbyte start_addr sync =
     (let dw_b = dw_b_of d in
      hbnd (lift_exec (modc (unat start_addr) dw_b)) (\<lambda>r.
      (let baddr = unat (word_of_nat r :: u8) in
       hbnd (lift_exec (align_data_to_word mem baddr data nbyte dw_b)) (\<lambda>(data_word, byte_sel).
         mam_write mem d data_word dw_b (start_addr - word_of_nat baddr) False sync byte_sel))))"

text \<open>The parts of a burst: position and number of bytes of each transfer, and whether it is the last.\<close>

definition burst_part :: "nat \<Rightarrow> nat \<Rightarrow> nat \<Rightarrow> nat \<times> nat" where
  "burst_part max_size nbyte t =
     (let tpos_start = t * max_size; tpos_end = min (tpos_start + max_size) nbyte in (tpos_start, tpos_end - tpos_start))"

fun write_burst_loop :: "memory \<Rightarrow> mem_desc \<Rightarrow> u8 list \<Rightarrow> nat \<Rightarrow> u64 \<Rightarrow> bool \<Rightarrow> nat \<Rightarrow> nat list \<Rightarrow> int hm" where
  "write_burst_loop mem d data nbyte start_addr sync num_transfers [] h = ok (OSD_OK, h)"
| "write_burst_loop mem d data nbyte start_addr sync num_transfers (t # ts) h =
     (let dw_b = dw_b_of d;
          (tpos_start, transfer_size_byte) = burst_part (MAM_MAX_BURST_WORDS * dw_b) nbyte t;
          sync_last = (sync \<and> t = num_transfers - 1) in
      hbnd (mam_write mem d (drop tpos_start data) transfer_size_byte (start_addr + word_of_nat tpos_start) True
             sync_last (word_of_nat (transfer_size_byte div dw_b))) (\<lambda>rv.
        if OSD_FAILED rv then hret rv
        else write_burst_loop mem d data nbyte start_addr sync num_transfers ts) h)"

definition write_burst :: "memory \<Rightarrow> mem_desc \<Rightarrow> u8 list \<Rightarrow> nat \<Rightarrow> u64 \<Rightarrow> bool \<Rightarrow> int hm" where
  "write_burst mem d data nbyte start_addr sync =
     hbnd (lift_exec (modc nbyte (dw_b_of d))) (\<lambda>r. hbnd (lift_exec (assert_c (r = 0))) (\<lambda>_.
     hbnd (lift_exec (modc (unat start_addr) (aw_b_of d))) (\<lambda>r. hbnd (lift_exec (assert_c (r = 0))) (\<lambda>_.
     (let num_transfers = INT_DIV_CEIL nbyte (MAM_MAX_BURST_WORDS * dw_b_of d) in
      write_burst_loop mem d data nbyte start_addr sync num_transfers [0..<num_transfers])))))"

definition osd_cl_mam_write :: "memory \<Rightarrow> mem_desc \<Rightarrow> u8 list \<Rightarrow> u64 \<Rightarrow> u64 \<Rightarrow> int hm" where
  "osd_cl_mam_write mem d data nbyte start_addr =
     hbnd (lift_exec (assert_c (dw_b_of d \<noteq> 0))) (\<lambda>_.
     hbnd (lift_exec (calculate_parts start_addr nbyte (word_of_nat (dw_b_of d)))) (\<lambda>(prolog, bulk, epilog).
     hbnd (if prolog \<noteq> 0 then write_single mem d data (unat prolog) start_addr (bulk = 0 \<and> epilog = 0)
           else hret OSD_OK) (\<lambda>rv.
     if OSD_FAILED rv then hret rv else
     hbnd (if bulk \<noteq> 0 then write_burst mem d (drop (unat prolog) data) (unat bulk) (start_addr + prolog) (epilog = 0)
           else hret OSD_OK) (\<lambda>rv.
     if OSD_FAILED rv then hret rv else
     hbnd (if epilog \<noteq> 0 then write_single mem d (drop (unat (prolog + bulk)) data) (unat epilog)
             (start_addr + prolog + bulk) True
           else hret OSD_OK) (\<lambda>rv.
     if OSD_FAILED rv then hret rv else hret OSD_OK)))))"

subsection \<open>Reading\<close>

definition be_bytes :: "u16 list \<Rightarrow> u8 list" where
  "be_bytes ws = concat (map (\<lambda>w. [ucast (drop_bit 8 w), ucast w]) ws)"

lemma recv_shorter: "recv_loop b ms = Some (m, ms') \<Longrightarrow> length ms' < length ms"
  by (induction b ms rule: recv_loop.induct) (auto split: if_splits)

lemma receive_shorter:
  assumes "osd_hostmod_event_receive mem flags h = Some (Inr (r, h1))"
  shows "length (hm_in h1) < length (hm_in h)"
proof -
  obtain m ms where l: "recv_loop (flags AND OSD_HOSTMOD_BLOCKING \<noteq> 0) (hm_in h) = Some (m, ms)"
    using assms by (cases "recv_loop (flags AND OSD_HOSTMOD_BLOCKING \<noteq> 0) (hm_in h)")
      (auto simp: osd_hostmod_event_receive_def osd_hostmod_receive_packet_def)
  have "hm_in h1 = ms"
    using assms by (cases m) (auto simp: osd_hostmod_event_receive_def osd_hostmod_receive_packet_def l bnd_ok_iff)
  then show ?thesis using recv_shorter [OF l] by simp
qed

text \<open>The bytes of each packet go to the buffer from \<open>rx_nbyte\<close> on.\<close>

function mam_read_loop :: "memory \<Rightarrow> nat \<Rightarrow> nat \<Rightarrow> u8 list \<Rightarrow> (int \<times> u8 list) hm" where
  "mam_read_loop mem nbyte rx_nbyte buf h =
     (case osd_hostmod_event_receive mem OSD_HOSTMOD_BLOCKING h of
        None \<Rightarrow> None
      | Some (Inl e) \<Rightarrow> Some (Inl e)
      | Some (Inr ((rv, None), h1)) \<Rightarrow> ok ((rv, buf), h1)
      | Some (Inr ((rv, Some pkg), h1)) \<Rightarrow>
          bnd (osd_packet_sizeconv_data2payload (ucast (pk_len pkg))) (\<lambda>n.
          bnd (bytes_at (pk_data pkg) 3 (unat n)) (\<lambda>ws.
          bnd (put_at buf rx_nbyte (be_bytes ws)) (\<lambda>buf1.
          (let rx = rx_nbyte + length (be_bytes ws) in
           if rx < nbyte then mam_read_loop mem nbyte rx buf1 h1 else ok ((rv, buf1), h1))))))"
  by pat_completeness auto

termination
  by (relation "measure (\<lambda>(mem, n, rx, buf, h). length (hm_in h))") (auto dest: receive_shorter)

declare mam_read_loop.simps [simp del]

definition mam_read :: "memory \<Rightarrow> mem_desc \<Rightarrow> u8 list \<Rightarrow> nat \<Rightarrow> u64 \<Rightarrow> bool \<Rightarrow> u8 \<Rightarrow> (int \<times> u8 list) hm" where
  "mam_read mem d buf nbyte start_addr burst selsize =
     hbnd (lift_exec (create_mam_transfer mem d [] 0 start_addr False burst False (ucast selsize))) (\<lambda>transfer.
     hbnd (send_mam_transfer mem d transfer) (\<lambda>rv.
       if OSD_FAILED rv then hret (rv, buf) else mam_read_loop mem nbyte 0 buf))"

definition read_single :: "memory \<Rightarrow> mem_desc \<Rightarrow> u8 list \<Rightarrow> nat \<Rightarrow> u64 \<Rightarrow> (int \<times> u8 list) hm" where
  "read_single mem d buf nbyte start_addr =
     (let dw_b = dw_b_of d in
      hbnd (lift_exec (modc (unat start_addr) dw_b)) (\<lambda>r.
      (let baddr = unat (word_of_nat r :: u8) in
       hbnd (lift_exec (align_data_to_word mem baddr buf nbyte dw_b)) (\<lambda>(data_word, byte_sel).
       hbnd (mam_read mem d data_word dw_b (start_addr - word_of_nat baddr) False byte_sel) (\<lambda>(rv, data_word).
       hbnd (lift_exec (bytes_at data_word baddr nbyte)) (\<lambda>bs.
       hbnd (lift_exec (put_at buf 0 bs)) (\<lambda>buf. hret (rv, buf))))))))"

fun read_burst_loop :: "memory \<Rightarrow> mem_desc \<Rightarrow> nat \<Rightarrow> u64 \<Rightarrow> nat list \<Rightarrow> int \<Rightarrow> u8 list \<Rightarrow> (int \<times> u8 list) hm" where
  "read_burst_loop mem d nbyte start_addr [] rv buf h = ok ((rv, buf), h)"
| "read_burst_loop mem d nbyte start_addr (t # ts) rv buf h =
     (let dw_b = dw_b_of d;
          (tpos_start, transfer_size_byte) = burst_part (MAM_MAX_BURST_WORDS * dw_b) nbyte t in
      hbnd (mam_read mem d (drop tpos_start buf) transfer_size_byte (start_addr + word_of_nat tpos_start) True
             (word_of_nat (transfer_size_byte div dw_b))) (\<lambda>(rv, tail).
        (let buf1 = take tpos_start buf @ tail in
         if OSD_FAILED rv then hret (rv, buf1) else read_burst_loop mem d nbyte start_addr ts rv buf1)) h)"

definition read_burst :: "memory \<Rightarrow> mem_desc \<Rightarrow> u8 list \<Rightarrow> nat \<Rightarrow> u64 \<Rightarrow> (int \<times> u8 list) hm" where
  "read_burst mem d buf nbyte start_addr =
     hbnd (lift_exec (modc nbyte (dw_b_of d))) (\<lambda>r. hbnd (lift_exec (assert_c (r = 0))) (\<lambda>_.
     hbnd (lift_exec (modc (unat start_addr) (aw_b_of d))) (\<lambda>r. hbnd (lift_exec (assert_c (r = 0))) (\<lambda>_.
     (let num_transfers = INT_DIV_CEIL nbyte (MAM_MAX_BURST_WORDS * dw_b_of d) in
      read_burst_loop mem d nbyte start_addr [0..<num_transfers] 0 buf)))))"

definition osd_cl_mam_read :: "memory \<Rightarrow> mem_desc \<Rightarrow> u8 list \<Rightarrow> u64 \<Rightarrow> u64 \<Rightarrow> (int \<times> u8 list) hm" where
  "osd_cl_mam_read mem d buf nbyte start_addr =
     hbnd (lift_exec (calculate_parts start_addr nbyte (word_of_nat (dw_b_of d)))) (\<lambda>(prolog, bulk, epilog).
     hbnd (if prolog \<noteq> 0 then read_single mem d buf (unat prolog) start_addr else hret (OSD_OK, buf)) (\<lambda>(rv, buf1).
     if OSD_FAILED rv then hret (rv, buf1) else
     hbnd (if bulk \<noteq> 0 then
             hbnd (read_burst mem d (drop (unat prolog) buf1) (unat bulk) (start_addr + prolog)) (\<lambda>(rv, tail).
               hret (rv, take (unat prolog) buf1 @ tail))
           else hret (OSD_OK, buf1)) (\<lambda>(rv, buf2).
     if OSD_FAILED rv then hret (rv, buf2) else
     hbnd (if epilog \<noteq> 0 then
             hbnd (read_single mem d (drop (unat (prolog + bulk)) buf2) (unat epilog) (start_addr + prolog + bulk)) (\<lambda>(rv, tail).
               hret (rv, take (unat (prolog + bulk)) buf2 @ tail))
           else hret (OSD_OK, buf2)) (\<lambda>(rv, buf3).
     if OSD_FAILED rv then hret (rv, buf3) else hret (OSD_OK, buf3)))))"

subsection \<open>The description of a memory\<close>

text \<open>Four registers that make up a value of 64 bits, the least significant first.\<close>

fun read_words :: "memory \<Rightarrow> u16 \<Rightarrow> u16 \<Rightarrow> nat list \<Rightarrow> u64 \<Rightarrow> (int \<times> u64) hm" where
  "read_words mem addr base [] v h = ok ((OSD_OK, v), h)"
| "read_words mem addr base (w # ws) v h =
     hbnd (reg_read_16 mem addr (base + word_of_nat w) 0) (\<lambda>(rv, r).
       case r of None \<Rightarrow> hret (rv, v)
       | Some regvalue \<Rightarrow>
           (let v1 = v OR push_bit (w * 16 + 8) (ucast (ucast (drop_bit 8 regvalue AND 255) :: u8));
                v2 = v1 OR push_bit (w * 16) (ucast (ucast (regvalue AND 255) :: u8)) in
            read_words mem addr base ws v2)) h"

fun read_regions :: "memory \<Rightarrow> u16 \<Rightarrow> nat list \<Rightarrow> mem_desc \<Rightarrow> (int \<times> mem_desc) hm" where
  "read_regions mem addr [] d h = ok ((OSD_OK, d), h)"
| "read_regions mem addr (r # rs) d h =
     hbnd (read_words mem addr (640 + 16 * word_of_nat r) [0..<4] 0) (\<lambda>(rv, baseaddr).
     if OSD_FAILED rv then hret (rv, d) else
     hbnd (read_words mem addr (644 + 16 * word_of_nat r) [0..<4] 0) (\<lambda>(rv, memsize).
     if OSD_FAILED rv then hret (rv, d\<lparr>me_regions := (me_regions d)[r := (baseaddr, snd (me_regions d ! r))]\<rparr>) else
       read_regions mem addr rs (d\<lparr>me_regions := (me_regions d)[r := (baseaddr, memsize)]\<rparr>))) h"

definition osd_cl_mam_get_mem_desc :: "memory \<Rightarrow> u32 \<Rightarrow> mem_desc \<Rightarrow> (int \<times> mem_desc) hm" where
  "osd_cl_mam_get_mem_desc mem mam_di_addr d =
     (let d0 = d\<lparr>me_di_addr := mam_di_addr\<rparr>; addr = (ucast mam_di_addr :: u16) in
      hbnd (reg_read_16 mem addr 512 0) (\<lambda>(rv, r). case r of None \<Rightarrow> hret (rv, d0) | Some aw \<Rightarrow>
      (let d1 = d0\<lparr>me_addr_width_bit := aw\<rparr> in
      hbnd (reg_read_16 mem addr 513 0) (\<lambda>(rv, r). case r of None \<Rightarrow> hret (rv, d1) | Some dw \<Rightarrow>
      (let d2 = d1\<lparr>me_data_width_bit := dw\<rparr> in
      hbnd (reg_read_16 mem addr 514 0) (\<lambda>(rv, r). case r of None \<Rightarrow> hret (rv, d2) | Some n \<Rightarrow>
      (let d3 = d2\<lparr>me_num_regions := ucast n\<rparr> in
      hbnd (lift_exec (assert_c (me_num_regions d3 \<le> 8))) (\<lambda>_.
        read_regions mem addr [0..<unat (me_num_regions d3)] (d3\<lparr>me_regions := replicate 8 (0, 0)\<rparr>)))))))))"

end
