(* ===== verification/Osd_Mam_Props.thy ===== *)
theory Osd_Mam_Props
  imports Osd_Mam
begin

section \<open>What a memory write sends\<close>

text \<open>
  A reference memory access module reads the bytes of the packets it gets as a stream of
  transfers and carries them out on its memory. A write of the client, cut into an unaligned
  first part, bursts of whole words and an unaligned last part, and these into packets, changes
  exactly the addressed bytes.
\<close>

lemma hbnd_lift [simp]: "hbnd (lift_exec e) f h = bnd e (\<lambda>x. f x h)"
  by (simp add: hbnd_def lift_exec_def bnd_assoc)

lemma hbnd_ret [simp]: "hbnd (hret x) f h = f x h"
  by (simp add: hbnd_def)

lemma hbnd_assoc: "hbnd (hbnd m f) g h = hbnd m (\<lambda>x. hbnd (f x) g) h"
  by (simp add: hbnd_def bnd_assoc split_def)

subsection \<open>The reference module\<close>

fun be_val :: "u8 list \<Rightarrow> nat" where
  "be_val [] = 0"
| "be_val (b # bs) = unat b * 256 ^ length bs + be_val bs"

definition upd :: "(nat \<Rightarrow> u8) \<Rightarrow> nat \<Rightarrow> u8 list \<Rightarrow> nat \<Rightarrow> u8" where
  "upd m a bs x = (if a \<le> x \<and> x < a + length bs then bs ! (x - a) else m x)"

definition upd_sel :: "(nat \<Rightarrow> u8) \<Rightarrow> nat \<Rightarrow> u8 \<Rightarrow> u8 list \<Rightarrow> nat \<Rightarrow> u8" where
  "upd_sel m a sel bs x = (if a \<le> x \<and> x < a + length bs \<and> bit sel (x - a) then bs ! (x - a) else m x)"

text \<open>Bit 7 of the first byte is set for a write, bit 6 for a burst; the second byte counts the words of a
  burst or selects the bytes of a word.\<close>

function (sequential) dev_run :: "nat \<Rightarrow> nat \<Rightarrow> u8 list \<Rightarrow> (nat \<Rightarrow> u8) \<Rightarrow> (nat \<Rightarrow> u8) option" where
  "dev_run aw dw [] m = Some m"
| "dev_run aw dw (h # sel # bs) m =
     (let n = (if bit h 6 then unat sel * dw else dw); addr = be_val (take aw bs); data = take n (drop aw bs) in
      if \<not> bit h 7 \<or> length bs < aw + n then None
      else dev_run aw dw (drop (aw + n) bs) (if bit h 6 then upd m addr data else upd_sel m addr sel data))"
| "dev_run aw dw _ m = None"
  by pat_completeness auto

termination by (relation "measure (\<lambda>(aw, dw, bs, m). length bs)") auto

declare dev_run.simps(2) [simp del]

text \<open>The payload of a message.\<close>

definition msg_payload :: "frame list \<Rightarrow> u8 list" where
  "msg_payload fs = be_bytes (drop 3 (words_of (fs ! 1)))"

definition mam_msg :: "mem_desc \<Rightarrow> hostmod \<Rightarrow> frame list \<Rightarrow> bool" where
  "mam_msg d h fs \<longleftrightarrow> (\<exists>ws. fs = [str_frame ''D'', pk_bytes (ucast (me_di_addr d) # hm_diaddr h # 32768 # ws)] \<and> length ws \<le> 5)"

definition mam_ok :: "mem_desc \<Rightarrow> bool" where
  "mam_ok d \<longleftrightarrow> aw_b_of d \<in> {2, 4, 8} \<and> dw_b_of d \<in> {2, 4, 8} \<and> aw_b_of d dvd dw_b_of d \<and> me_di_addr d AND 65535 = me_di_addr d"

definition ready :: "hostmod \<Rightarrow> bool" where
  "ready h \<longleftrightarrow> hm_is_connected h \<and> hm_send h = []"

subsection \<open>Packets\<close>

lemma be_words_bytes [simp]: "even (length bs) \<Longrightarrow> be_bytes (be_words bs) = bs"
proof (induction bs rule: be_words.induct)
  case (1 b0 b1 bs)
  have "ucast (drop_bit 8 (push_bit 8 (ucast b0) OR ucast b1 :: u16)) = b0" "ucast (push_bit 8 (ucast b0) OR ucast b1 :: u16) = b1"
    by (rule bit_word_eqI, auto simp: bit_simps impossible_bit)+
  then show ?case using 1 by (simp add: be_bytes_def)
qed (simp_all add: be_bytes_def)

lemma length_be_words [simp]: "length (be_words bs) = length bs div 2"
  by (induction bs rule: be_words.induct) simp_all

lemma put_words_eq: "length (pk_data p) = i + length ws \<Longrightarrow> put_words i ws p = ok (p\<lparr>pk_data := take i (pk_data p) @ ws\<rparr>)"
proof (induction ws arbitrary: i p)
  case (Cons w ws)
  have "take (Suc i) ((pk_data p)[i := w]) = take i (pk_data p) @ [w]"
    using Cons.prems by (simp add: take_Suc_conv_app_nth)
  then show ?case using Cons by simp
qed simp

lemma max_event_words [simp]: "osd_hostmod_get_max_event_words = ok 5"
  by (simp add: osd_hostmod_get_max_event_words_def osd_packet_sizeconv_data2payload_def OSD_MAX_PKG_LEN_WORDS_def)

definition chunk :: "u8 list \<Rightarrow> nat \<Rightarrow> u8 list" where
  "chunk t i = take 10 (drop (10 * i) t)"

definition chunk_msg :: "mem_desc \<Rightarrow> hostmod \<Rightarrow> u8 list \<Rightarrow> nat \<Rightarrow> frame list" where
  "chunk_msg d h t i = [str_frame ''D'', pk_bytes (ucast (me_di_addr d) # hm_diaddr h # 32768 # be_words (chunk t i))]"

lemma pkg_in_transfer_eq:
  assumes d: "mam_ok d" and h: "ready h" and t: "even (length t)" and i: "10 * i < length t"
  shows "pkg_in_transfer (\<lambda>_. True) d t i h =
    ok (\<lparr>pk_len = word_of_nat (3 + length (chunk t i) div 2),
         pk_data = ucast (me_di_addr d) # hm_diaddr h # 32768 # be_words (chunk t i)\<rparr>, h)"
proof -
  define n where "n = length (chunk t i)"
  have n: "n = min 10 (length t - 10 * i)" "even n" "n \<le> 10" using t by (auto simp: n_def chunk_def min_def)
  have pos: "min (i * 10 + 10) (length t) - i * 10 = n" using i by (auto simp: n(1) min_def)
  have len: "2 * (n div 2) = n" using n(2) by simp
  have conv: "osd_packet_sizeconv_payload2data (word_of_nat (n div 2)) = ok (word_of_nat (3 + n div 2))"
    and u: "unat (word_of_nat (3 + n div 2) :: u32) = 3 + n div 2"
  proof -
    show u: "unat (word_of_nat (3 + n div 2) :: u32) = 3 + n div 2" using n(3) by (simp add: unat_of_nat del: of_nat_add)
    have n5: "3 + n div 2 \<le> 65535" using n(3) by linarith
    have e: "(word_of_nat (n div 2) :: u32) + 3 = word_of_nat (3 + n div 2)" by simp
    show "osd_packet_sizeconv_payload2data (word_of_nat (n div 2)) = ok (word_of_nat (3 + n div 2))"
      unfolding osd_packet_sizeconv_payload2data_def e using n5 by (simp add: word_le_nat_alt u Let_def del: of_nat_add)
  qed
  let ?p0 = "\<lparr>pk_len = word_of_nat (3 + n div 2) :: u16, pk_data = replicate (3 + n div 2) 0\<rparr>"
  have p0: "osd_packet_new (\<lambda>_. True) (3 + n div 2) = ok ?p0" "pk_ok ?p0" "3 \<le> length (pk_data ?p0)"
    using packet_new_ok [of "\<lambda>_. True" "3 + n div 2"] n(3) by (simp_all add: pk_ok_def)
  have di: "me_di_addr d AND 65535 = me_di_addr d" using d by (simp add: mam_ok_def)
  have src: "ucast (hm_diaddr h) AND 65535 = (ucast (hm_diaddr h) :: u32)"
    unfolding mask_words by (rule bit_word_eqI) (auto simp: bit_simps dest: bit_imp_le_length)
  have uu: "ucast (ucast (hm_diaddr h) :: u32) = hm_diaddr h"
    by (rule bit_word_eqI) (auto simp: bit_simps)
  have "drop 3 (replicate (3 + n div 2) (0::u16)) = replicate (n div 2) 0" by simp
  then have p1: "osd_packet_set_header ?p0 (me_di_addr d) (ucast (hm_diaddr h)) 2 0 =
      ok \<lparr>pk_len = word_of_nat (3 + n div 2), pk_data = ucast (me_di_addr d) # hm_diaddr h # 32768 # replicate (n div 2) 0\<rparr>"
    using set_header_eq [OF p0(2,3) di src, of 2 0] uu by simp
  have bs: "bytes_at t (i * 10) n = ok (chunk t i)"
    using i by (auto simp: bytes_at_def chunk_def n(1) min_def mult.commute)
  have put: "put_words 3 (be_words (chunk t i))
      \<lparr>pk_len = word_of_nat (3 + n div 2), pk_data = ucast (me_di_addr d) # hm_diaddr h # 32768 # replicate (n div 2) 0\<rparr> =
      ok \<lparr>pk_len = word_of_nat (3 + n div 2), pk_data = ucast (me_di_addr d) # hm_diaddr h # 32768 # be_words (chunk t i)\<rparr>"
    by (subst put_words_eq) (simp_all add: n_def numeral_3_eq_3)
  show ?thesis
    using h by (simp only: pkg_in_transfer_def hbnd_lift max_event_words bnd_simps Let_def)
      (simp add: pos conv u p0(1) p1 len bs put hbnd_def osd_hostmod_get_diaddr_def ready_def lift_exec_def n_def [symmetric] del: of_nat_add)
qed

lemma flags_event: "drop_bit 14 (ucast (32768::u16)) AND 3 = (2::u32)"
  by simp

lemma event_send_eq:
  assumes h: "ready h" and l: "3 + length ws < 65536"
  shows "osd_hostmod_event_send \<lparr>pk_len = word_of_nat (3 + length ws), pk_data = a # b # 32768 # ws\<rparr> h =
    ok (OSD_OK, h\<lparr>hm_sent := hm_sent h @ [[str_frame ''D'', pk_bytes (a # b # 32768 # ws)]]\<rparr>)"
proof -
  let ?p = "\<lparr>pk_len = word_of_nat (3 + length ws) :: u16, pk_data = a # b # 32768 # ws\<rparr>"
  have u: "unat (pk_len ?p) = 3 + length ws" using l by (simp add: unat_of_nat del: of_nat_add)
  have ty: "osd_packet_get_type ?p = ok 2" using u by (simp add: osd_packet_get_type_def del: of_nat_add)
  have hs: "h\<lparr>hm_send := []\<rparr> = h" using h by (cases h) (simp add: ready_def)
  have ba: "bytes_at (pk_data ?p) 0 (unat (pk_len ?p)) = ok (a # b # 32768 # ws)"
    unfolding u by (simp add: bytes_at_def numeral_3_eq_3)
  have "osd_hostmod_send_packet ?p h = ok (OSD_OK, h\<lparr>hm_sent := hm_sent h @ [[str_frame ''D'', pk_bytes (a # b # 32768 # ws)]]\<rparr>)"
    unfolding osd_hostmod_send_packet_def ba using h hs by (simp add: ready_def Let_def)
  then show ?thesis
    unfolding osd_hostmod_event_send_def hbnd_lift ty bnd_simps using h
    by (simp add: hbnd_def osd_hostmod_is_connected_def ready_def del: of_nat_add)
qed

lemma ready_sent [simp]: "ready (h\<lparr>hm_sent := x\<rparr>) = ready h"
  by (simp add: ready_def)

lemma chunk_msg_sent [simp]: "chunk_msg d (h\<lparr>hm_sent := x\<rparr>) t i = chunk_msg d h t i"
  by (simp add: chunk_msg_def)

lemma length_chunk: "length (chunk t i) \<le> 10"
  by (simp add: chunk_def)

lemma chunk_msg_ok: "mam_msg d h (chunk_msg d h t i)"
  using length_chunk [of t i] by (auto simp: mam_msg_def chunk_msg_def)

lemma chunk_payload: "even (length t) \<Longrightarrow> msg_payload (chunk_msg d h t i) = chunk t i"
proof -
  assume "even (length t)"
  then have "even (length (chunk t i))" by (auto simp: chunk_def min_def)
  then show ?thesis
    unfolding msg_payload_def chunk_msg_def by (simp add: numeral_3_eq_3 del: pk_bytes.simps)
qed

lemma send_loop_eq:
  assumes d: "mam_ok d" and t: "even (length t)"
  shows "ready h \<Longrightarrow> \<forall>i\<in>set is. 10 * i < length t \<Longrightarrow>
    send_loop (\<lambda>_. True) d t is h = ok (OSD_OK, h\<lparr>hm_sent := hm_sent h @ map (chunk_msg d h t) is\<rparr>)"
proof (induction "is" arbitrary: h)
  case (Cons i "is")
  have pk: "pkg_in_transfer (\<lambda>_. True) d t i h = ok (\<lparr>pk_len = word_of_nat (3 + length (be_words (chunk t i))),
      pk_data = ucast (me_di_addr d) # hm_diaddr h # 32768 # be_words (chunk t i)\<rparr>, h)"
    using pkg_in_transfer_eq [OF d Cons.prems(1) t, of i] Cons.prems(2) by simp
  have sn: "osd_hostmod_event_send \<lparr>pk_len = word_of_nat (3 + length (be_words (chunk t i))),
      pk_data = ucast (me_di_addr d) # hm_diaddr h # 32768 # be_words (chunk t i)\<rparr> h =
      ok (OSD_OK, h\<lparr>hm_sent := hm_sent h @ [chunk_msg d h t i]\<rparr>)"
    unfolding chunk_msg_def by (rule event_send_eq) (use Cons.prems(1) length_chunk [of t i] in auto)
  have "send_loop (\<lambda>_. True) d t (i # is) h = send_loop (\<lambda>_. True) d t is (h\<lparr>hm_sent := hm_sent h @ [chunk_msg d h t i]\<rparr>)"
    unfolding send_loop.simps hbnd_def pk bnd_simps case_prod_conv sn by (simp add: osd_results)
  then show ?case using Cons.IH [of "h\<lparr>hm_sent := hm_sent h @ [chunk_msg d h t i]\<rparr>"] Cons.prems by simp
qed simp

lemma concat_pieces: "concat (map (chunk t) [0..<n]) = take (10 * n) t"
  by (induction n) (simp_all add: chunk_def add.commute [of 10] flip: take_add)

lemma send_transfer_eq:
  assumes d: "mam_ok d" and h: "ready h" and t: "even (length t)" "t \<noteq> []"
  shows "\<exists>ms. send_mam_transfer (\<lambda>_. True) d t h = ok (OSD_OK, h\<lparr>hm_sent := hm_sent h @ ms\<rparr>) \<and>
    list_all (mam_msg d h) ms \<and> concat (map msg_payload ms) = t"
proof -
  define n where "n = INT_DIV_CEIL (length t) 10"
  have n: "num_pkgs_for_transfer (length t) = ok n" by (simp add: num_pkgs_for_transfer_def n_def)
  have n10: "10 * i < length t \<longleftrightarrow> i < n" for i
  proof -
    have "0 < length t" using t(2) by simp
    then have "10 * i < length t \<longleftrightarrow> 10 * i \<le> length t - 1" by linarith
    also have "\<dots> \<longleftrightarrow> i \<le> (length t - 1) div 10"
      by (metis less_eq_div_iff_mult_less_eq mult.commute zero_less_numeral)
    finally show ?thesis by (simp add: n_def INT_DIV_CEIL_def less_Suc_eq_le)
  qed
  have "length t \<le> 10 * n" using n10 [of n] by simp
  then have c: "concat (map (chunk t) [0..<n]) = t" by (simp add: concat_pieces)
  have "send_mam_transfer (\<lambda>_. True) d t h = ok (OSD_OK, h\<lparr>hm_sent := hm_sent h @ map (chunk_msg d h t) [0..<n]\<rparr>)"
    unfolding send_mam_transfer_def n hbnd_lift bnd_simps by (rule send_loop_eq [OF d t(1) h]) (simp add: n10)
  moreover have "list_all (mam_msg d h) (map (chunk_msg d h t) [0..<n])"
    by (simp add: list_all_iff chunk_msg_ok)
  moreover have "concat (map msg_payload (map (chunk_msg d h t) [0..<n])) = t"
    using c by (simp add: chunk_payload [OF t(1)] comp_def)
  ultimately show ?thesis by blast
qed

subsection \<open>One transfer\<close>

definition addr_bytes :: "nat \<Rightarrow> u64 \<Rightarrow> u8 list" where
  "addr_bytes n a = map (\<lambda>i. ucast (drop_bit ((n - i - 1) * 8) a AND 255)) [0..<n]"

lemma length_addr_bytes [simp]: "length (addr_bytes n a) = n"
  by (simp add: addr_bytes_def)

lemma addr_bytes_Suc: "addr_bytes (Suc n) a = ucast (drop_bit (n * 8) a AND 255) # addr_bytes n a"
  by (simp add: addr_bytes_def map_upt_Suc del: upt_Suc)

lemma unat_low_byte: "unat (ucast ((w::u64) AND 255) :: u8) = unat w mod 256"
proof -
  have "w AND 255 = take_bit 8 w" by (simp add: take_bit_eq_mask mask_eq_exp_minus_1)
  then have "unat (ucast (w AND 255) :: u8) = take_bit 8 (unat w)"
    by (simp add: unsigned_ucast_eq unsigned_take_bit_eq)
  then show ?thesis by (simp add: take_bit_eq_mod)
qed

lemma be_val_addr: "be_val (addr_bytes n a) = unat a mod 256 ^ n"
proof (induction n)
  case 0
  then show ?case by (simp add: addr_bytes_def)
next
  case (Suc n)
  have p: "(2::nat) ^ (n * 8) = 256 ^ n" by (simp add: power_mult mult.commute [of n])
  have "unat (drop_bit (n * 8) a) = unat a div 256 ^ n"
  proof -
    have "unat (drop_bit (n * 8) a) = drop_bit (n * 8) (unat a)"
      using unsigned_less [of a, where 'a = nat] by (simp add: unsigned_drop_bit_eq take_bit_nat_eq_self)
    then show ?thesis by (simp only: drop_bit_eq_div p)
  qed
  then have "be_val (addr_bytes (Suc n) a) = (unat a div 256 ^ n mod 256) * 256 ^ n + unat a mod 256 ^ n"
    by (simp add: addr_bytes_Suc Suc unat_low_byte)
  also have "\<dots> = unat a mod (256 ^ n * 256)"
    using mod_mult2_eq [of "unat a" "256 ^ n" 256] by (simp add: mult.commute)
  finally show ?case by (simp add: mult.commute)
qed

definition transfer_of :: "mem_desc \<Rightarrow> bool \<Rightarrow> bool \<Rightarrow> u8 \<Rightarrow> u64 \<Rightarrow> u8 list \<Rightarrow> u8 list" where
  "transfer_of d burst sync sel a bs =
     (push_bit 7 1 OR push_bit 6 (of_bool burst) OR push_bit 5 (of_bool sync)) # sel # addr_bytes (aw_b_of d) a @ bs"

lemma mam_okD:
  assumes "mam_ok d"
  shows "0 < aw_b_of d" "aw_b_of d \<le> 8" "even (aw_b_of d)" "0 < dw_b_of d" "dw_b_of d \<le> 8" "even (dw_b_of d)"
    "aw_b_of d dvd dw_b_of d" "dw_b_of d dvd 2 ^ 64" "dw_b_of d dvd 256"
  using assms by (auto simp: mam_ok_def)

lemma create_eq:
  assumes d: "mam_ok d" and n: "0 < n" "dw_b_of d dvd n" "n \<le> length data" and a: "dw_b_of d dvd unat a"
    and sel: "burst \<Longrightarrow> unat sel = n div dw_b_of d"
  shows "create_mam_transfer (\<lambda>_. True) d data n a True burst sync (ucast sel) = ok (transfer_of d burst sync sel a (take n data))"
proof -
  note D = mam_okD [OF d]
  have aw: "aw_b_of d dvd unat a" using a D(7) by (rule dvd_trans [rotated])
  have us: "unat (ucast sel :: u16) = unat sel" "ucast (ucast sel :: u16) = sel"
  proof -
    show "ucast (ucast sel :: u16) = sel" by (rule bit_word_eqI) (auto simp: bit_simps)
    have "unat sel < 2 ^ 16" using unsigned_less [of sel, where 'a = nat] by simp
    then show "unat (ucast sel :: u16) = unat sel" by (simp add: unsigned_ucast_eq take_bit_nat_eq_self)
  qed
  have sel0: "burst \<Longrightarrow> (ucast sel :: u16) \<noteq> 0"
  proof
    assume b: "burst" and "(ucast sel :: u16) = 0"
    then have "n div dw_b_of d = 0" using sel us(1) by simp
    then show False using n D(4) by (auto simp: dvd_def)
  qed
  show ?thesis
    using n D sel sel0 aw us
    by (simp add: create_mam_transfer_def modc_def Let_def transfer_of_def addr_bytes_def dvd_eq_mod_eq_0 dvd_imp_mod_0 [OF n(2)])
qed

lemma header_bits:
  "bit (push_bit 7 1 OR push_bit 6 (of_bool burst) OR push_bit 5 (of_bool sync) :: u8) 7"
  "bit (push_bit 7 1 OR push_bit 6 (of_bool burst) OR push_bit 5 (of_bool sync) :: u8) 6 = burst"
  by (cases burst; cases sync; simp)+

lemma dev_run_transfer:
  assumes n: "length bs = (if burst then unat sel * dw_b_of d else dw_b_of d)" and a: "unat a < 256 ^ aw_b_of d"
  shows "dev_run (aw_b_of d) (dw_b_of d) (transfer_of d burst sync sel a bs @ rest) m =
    dev_run (aw_b_of d) (dw_b_of d) rest (if burst then upd m (unat a) bs else upd_sel m (unat a) sel bs)"
proof -
  have "be_val (addr_bytes (aw_b_of d) a) = unat a" using a by (simp add: be_val_addr)
  then show ?thesis
    unfolding transfer_of_def append_Cons dev_run.simps(2) header_bits(2) using header_bits(1) n
    by (simp add: Let_def)
qed

text \<open>What a part of a write does: it sends packets to the module, takes the acknowledgement if it asks for one,
  and the module changes its memory by \<open>f\<close>.\<close>

definition writes :: "mem_desc \<Rightarrow> hostmod \<Rightarrow> int hm \<Rightarrow> zrecv list \<Rightarrow> ((nat \<Rightarrow> u8) \<Rightarrow> nat \<Rightarrow> u8) \<Rightarrow> bool" where
  "writes d h r ins f \<longleftrightarrow>
     (\<exists>ms. r h = ok (OSD_OK, h\<lparr>hm_sent := hm_sent h @ ms, hm_in := ins\<rparr>) \<and> list_all (mam_msg d h) ms \<and>
        (\<forall>rest m. dev_run (aw_b_of d) (dw_b_of d) (concat (map msg_payload ms) @ rest) m =
           dev_run (aw_b_of d) (dw_b_of d) rest (f m)))"

text \<open>After some timeouts an acknowledgement arrives.\<close>

definition ack_in :: "zrecv list \<Rightarrow> zrecv list \<Rightarrow> bool" where
  "ack_in ms rest \<longleftrightarrow> (\<exists>f. recv_loop True ms = Some (ZMsg [str_frame ''D'', f], rest) \<and> even (length f) \<and> 6 \<le> length f)"

lemma receive_ack:
  assumes "ack_in (hm_in h) rest"
  shows "\<exists>p. osd_hostmod_event_receive (\<lambda>_. True) OSD_HOSTMOD_BLOCKING h = ok ((OSD_OK, Some p), h\<lparr>hm_in := rest\<rparr>)"
proof -
  obtain f where f: "recv_loop True (hm_in h) = Some (ZMsg [str_frame ''D'', f], rest)" "even (length f)" "6 \<le> length f"
    using assms by (auto simp: ack_in_def)
  have "3 \<le> length f div 2" using f(3) by simp
  then show ?thesis
    using f by (simp add: osd_hostmod_event_receive_def osd_hostmod_receive_packet_def OSD_HOSTMOD_BLOCKING_def
        osd_packet_new_from_zframe_def osd_packet_new_def Let_def)
qed

lemma writes_mam_write:
  assumes d: "mam_ok d" and h: "ready h" and n: "0 < n" "dw_b_of d dvd n" "n \<le> length data"
    and a: "dw_b_of d dvd unat a" "unat a < 256 ^ aw_b_of d"
    and sel: "if burst then unat sel = n div dw_b_of d else n = dw_b_of d"
    and ack: "sync \<Longrightarrow> ack_in (hm_in h) rest" and ins: "ins = (if sync then rest else hm_in h)"
  shows "writes d h (mam_write (\<lambda>_. True) d data n a burst sync sel) ins
    (\<lambda>m. if burst then upd m (unat a) (take n data) else upd_sel m (unat a) sel (take n data))"
proof -
  let ?t = "transfer_of d burst sync sel a (take n data)"
  note D = mam_okD [OF d]
  have c: "create_mam_transfer (\<lambda>_. True) d data n a True burst sync (ucast sel) = ok ?t"
    by (rule create_eq [OF d n a(1)]) (use sel in simp)
  have ln: "length (take n data) = (if burst then unat sel * dw_b_of d else dw_b_of d)"
    using n sel by (auto simp: min_def)
  have "even n" using n(2) D(6) by (rule dvd_trans [rotated])
  then have ev: "even (length ?t)" "?t \<noteq> []" using D(3) n by (simp_all add: transfer_of_def min_def)
  obtain ms where ms: "send_mam_transfer (\<lambda>_. True) d ?t h = ok (OSD_OK, h\<lparr>hm_sent := hm_sent h @ ms\<rparr>)"
    "list_all (mam_msg d h) ms" "concat (map msg_payload ms) = ?t"
    using send_transfer_eq [OF d h ev] by blast
  define h1 where "h1 = h\<lparr>hm_sent := hm_sent h @ ms\<rparr>"
  have sent: "mam_write (\<lambda>_. True) d data n a burst sync sel h = ok (OSD_OK, h1\<lparr>hm_in := ins\<rparr>)"
  proof (cases sync)
    case True
    then have "ack_in (hm_in h1) rest" using ack by (simp add: h1_def)
    then obtain p where p: "osd_hostmod_event_receive (\<lambda>_. True) OSD_HOSTMOD_BLOCKING h1 = ok ((OSD_OK, Some p), h1\<lparr>hm_in := rest\<rparr>)"
      using receive_ack by blast
    show ?thesis unfolding mam_write_def c hbnd_lift bnd_simps
      unfolding hbnd_def ms(1) h1_def [symmetric] using True p ins by (simp add: osd_results)
  next
    case False
    have "h1\<lparr>hm_in := hm_in h\<rparr> = h1" by (simp add: h1_def)
    then show ?thesis unfolding mam_write_def c hbnd_lift bnd_simps
      unfolding hbnd_def ms(1) h1_def [symmetric] using False ins by (simp add: osd_results)
  qed
  show ?thesis
    unfolding writes_def sent
    using ms(2,3) dev_run_transfer [OF ln a(2)] by (intro exI [of _ ms]) (simp add: h1_def)
qed

subsection \<open>Sequences of transfers\<close>

lemma writes_then:
  assumes "writes d h A i1 f"
    and "\<And>ms. writes d (h\<lparr>hm_sent := hm_sent h @ ms, hm_in := i1\<rparr>) B i2 g"
  shows "writes d h (hbnd A (\<lambda>rv. if OSD_FAILED rv then C rv else B)) i2 (\<lambda>m. g (f m))"
proof -
  obtain ms where A: "A h = ok (OSD_OK, h\<lparr>hm_sent := hm_sent h @ ms, hm_in := i1\<rparr>)" "list_all (mam_msg d h) ms"
    and f: "\<And>rest m. dev_run (aw_b_of d) (dw_b_of d) (concat (map msg_payload ms) @ rest) m =
      dev_run (aw_b_of d) (dw_b_of d) rest (f m)"
    using assms(1) by (auto simp: writes_def)
  let ?h = "h\<lparr>hm_sent := hm_sent h @ ms, hm_in := i1\<rparr>"
  obtain ms' where B: "B ?h = ok (OSD_OK, ?h\<lparr>hm_sent := hm_sent ?h @ ms', hm_in := i2\<rparr>)" "list_all (mam_msg d ?h) ms'"
    and g: "\<And>rest m. dev_run (aw_b_of d) (dw_b_of d) (concat (map msg_payload ms') @ rest) m =
      dev_run (aw_b_of d) (dw_b_of d) rest (g m)"
    using assms(2) [of ms] unfolding writes_def by blast
  have mm: "mam_msg d ?h = mam_msg d h" by (simp add: mam_msg_def fun_eq_iff)
  have "hbnd A (\<lambda>rv. if OSD_FAILED rv then C rv else B) h = ok (OSD_OK, h\<lparr>hm_sent := hm_sent h @ (ms @ ms'), hm_in := i2\<rparr>)"
    using A(1) B(1) by (simp add: hbnd_def osd_results)
  then show ?thesis unfolding writes_def using A(2) B(2) f g mm by (intro exI [of _ "ms @ ms'"]) simp
qed

lemma writes_skip: "writes d h (hret OSD_OK) (hm_in h) (\<lambda>m. m)"
  by (auto simp: writes_def intro!: exI [of _ "[]"])

lemma writes_cong: "writes d h r i f \<Longrightarrow> (\<And>m. f m = g m) \<Longrightarrow> writes d h r i g"
  by (simp add: writes_def)

lemma upd_append: "upd (upd m a xs) (a + length xs) ys = upd m a (xs @ ys)"
  by (auto simp: upd_def fun_eq_iff nth_append)

lemma upd_Nil [simp]: "upd m a [] = m"
  by (auto simp: upd_def fun_eq_iff)

lemma bit_byte_select:
  assumes "dw \<le> 8" shows "bit (byte_select b n dw) i \<longleftrightarrow> b \<le> i \<and> i < b + n \<and> i < dw"
  using assms unfolding byte_select_def
  by (induction dw) (auto simp: bit_simps less_Suc_eq)

lemma upd_sel_word:
  assumes "r \<le> a" and "r + length ds \<le> dw" and "dw \<le> 8"
  shows "upd_sel m (a - r) (byte_select r (length ds) dw) (replicate r 0 @ ds @ replicate (dw - r - length ds) 0) = upd m a ds"
proof
  fix x
  have "a - r \<le> x \<and> x < a - r + dw \<and> bit (byte_select r (length ds) dw) (x - (a - r)) \<longleftrightarrow> a \<le> x \<and> x < a + length ds"
    using assms by (auto simp: bit_byte_select)
  then show "upd_sel m (a - r) (byte_select r (length ds) dw) (replicate r 0 @ ds @ replicate (dw - r - length ds) 0) x = upd m a ds x"
    using assms by (auto simp: upd_sel_def upd_def nth_append)
qed

lemma writes_single:
  assumes d: "mam_ok d" and h: "ready h" and n: "0 < n" "unat a mod dw_b_of d + n \<le> dw_b_of d" "n \<le> length data"
    and a: "unat a < 256 ^ aw_b_of d" and ack: "sync \<Longrightarrow> ack_in (hm_in h) rest" and ins: "ins = (if sync then rest else hm_in h)"
  shows "writes d h (write_single (\<lambda>_. True) d data n a sync) ins (\<lambda>m. upd m (unat a) (take n data))"
proof -
  note D = mam_okD [OF d]
  define r where "r = unat a mod dw_b_of d"
  have r: "r < 8" "r \<le> unat a" "r + n \<le> dw_b_of d" using D(4,5) n(2) mod_less_divisor [of "dw_b_of d" "unat a"]
    by (auto simp: r_def simp del: mod_less_divisor)
  have ru: "unat (word_of_nat r :: u8) = r" "unat (word_of_nat r :: u64) = r" using r(1) by (simp_all add: unat_of_nat)
  have rc: "(ucast (word_of_nat r :: u8) :: u64) = word_of_nat r"
    using arg_cong [OF ru(1), of "word_of_nat :: nat \<Rightarrow> u64"] by simp
  let ?w = "replicate r 0 @ take n data @ replicate (dw_b_of d - r - n) 0"
  have ln: "length (take n data) = n" using n(3) by simp
  have tw: "take (dw_b_of d) ?w = ?w" using r(3) n(3) by (intro take_all) simp
  have bs0: "byte_select r n (dw_b_of d) \<noteq> 0"
    using bit_byte_select [OF D(5), of r n r] n(1) r(3) by auto
  have al: "align_data_to_word (\<lambda>_. True) r data n (dw_b_of d) = ok (?w, byte_select r n (dw_b_of d))"
    using r n bs0 D(5) by (simp add: align_data_to_word_def Let_def put_at_def min_def)
  have au: "unat (a - word_of_nat r) = unat a - r"
    using r(2) ru(2) by (simp add: unat_sub_if')
  have eq: "write_single (\<lambda>_. True) d data n a sync =
      mam_write (\<lambda>_. True) d ?w (dw_b_of d) (a - word_of_nat r) False sync (byte_select r n (dw_b_of d))"
    using D(4) by (simp add: fun_eq_iff write_single_def modc_def r_def [symmetric] ru rc al Let_def)
  have "writes d h (mam_write (\<lambda>_. True) d ?w (dw_b_of d) (a - word_of_nat r) False sync (byte_select r n (dw_b_of d))) ins
      (\<lambda>m. if False then upd m (unat (a - word_of_nat r)) (take (dw_b_of d) ?w)
        else upd_sel m (unat (a - word_of_nat r)) (byte_select r n (dw_b_of d)) (take (dw_b_of d) ?w))"
    by (rule writes_mam_write [OF d h _ _ _ _ _ _ ack ins]) (use D r n a au in \<open>auto simp: r_def dvd_minus_mod min_def\<close>)
  then have "writes d h (write_single (\<lambda>_. True) d data n a sync) ins
      (\<lambda>m. upd_sel m (unat a - r) (byte_select r n (dw_b_of d)) ?w)"
    unfolding eq au tw by simp
  then show ?thesis
    by (rule writes_cong) (use upd_sel_word [OF r(2), of "take n data" "dw_b_of d", unfolded ln] r D(5) in simp)
qed

lemma ready_after [simp]: "ready (h\<lparr>hm_sent := x, hm_in := i\<rparr>) = ready h"
  by (simp add: ready_def)

lemma ack_in_after [simp]: "hm_in (h\<lparr>hm_sent := x, hm_in := i\<rparr>) = i"
  by simp

lemma burst_sizes:
  assumes "0 < dw" and "dw dvd n" and "k < INT_DIV_CEIL n (255 * dw)" and "0 < n"
  shows "255 * dw * k < n" and "dw dvd min (255 * dw) (n - 255 * dw * k)"
    and "burst_part (255 * dw) n k = (255 * dw * k, min (255 * dw) (n - 255 * dw * k))"
    and "min (255 * dw) (n - 255 * dw * k) div dw < 256"
proof -
  have "k \<le> (n - 1) div (255 * dw)" using assms(3) by (simp add: INT_DIV_CEIL_def)
  then have "k * (255 * dw) \<le> n - 1" using assms(1) by (simp add: less_eq_div_iff_mult_less_eq)
  moreover have "255 * dw * k = k * (255 * dw)" by (rule mult.commute)
  ultimately show l: "255 * dw * k < n" using assms(4) by linarith
  show "dw dvd min (255 * dw) (n - 255 * dw * k)"
    using assms(2) l by (simp add: min_def dvd_diff_nat)
  show "burst_part (255 * dw) n k = (255 * dw * k, min (255 * dw) (n - 255 * dw * k))"
    using l by (auto simp: burst_part_def Let_def min_def mult.commute mult.left_commute)
  have "min (255 * dw) (n - 255 * dw * k) div dw \<le> 255 * dw div dw" by (rule div_le_mono) simp
  then show "min (255 * dw) (n - 255 * dw * k) div dw < 256" using assms(1) by simp
qed

lemma last_part:
  assumes "0 < dw" and "0 < n" and "Suc k = INT_DIV_CEIL n (255 * dw)"
  shows "n \<le> 255 * dw * Suc k"
proof -
  have "n - 1 < 255 * dw + (255 * dw) * ((n - 1) div (255 * dw))"
    using assms(1) by (intro dividend_less_times_div) simp
  then have "n - 1 < (255 * dw) * Suc ((n - 1) div (255 * dw))" by simp
  then show ?thesis using assms(2,3) by (simp add: INT_DIV_CEIL_def)
qed

lemma writes_burst_loop:
  assumes d: "mam_ok d" and n: "0 < n" "dw_b_of d dvd n" "n \<le> length data"
    and a: "dw_b_of d dvd unat a" "unat a + n \<le> 256 ^ aw_b_of d"
    and ack: "sync \<Longrightarrow> ack_in ins0 rest"
    and num: "num = INT_DIV_CEIL n (255 * dw_b_of d)"
  shows "k < num \<Longrightarrow> ready h \<Longrightarrow> hm_in h = ins0 \<Longrightarrow>
    writes d h (write_burst_loop (\<lambda>_. True) d data n a sync num [k..<num]) (if sync then rest else ins0)
      (\<lambda>m. upd m (unat a + 255 * dw_b_of d * k) (drop (255 * dw_b_of d * k) (take n data)))"
proof (induction "num - k" arbitrary: k h)
  case (Suc j)
  note D = mam_okD [OF d]
  define p s where "p = 255 * dw_b_of d * k" and "s = min (255 * dw_b_of d) (n - p)"
  have k: "k < INT_DIV_CEIL n (255 * dw_b_of d)" using Suc.prems(1) num by simp
  note B = burst_sizes [OF D(4) n(2) k n(1), folded p_def, folded s_def]
  have s: "0 < s" "p + s \<le> n" using B(1) D(4) by (auto simp: s_def)
  have b64: "256 ^ aw_b_of d \<le> (2::nat) ^ 64"
  proof -
    have "(256::nat) ^ aw_b_of d \<le> 256 ^ 8" by (rule power_increasing) (use D in simp_all)
    then show ?thesis by simp
  qed
  have pw: "unat (word_of_nat p :: u64) = p" using s b64 a(2) B(1) by (simp add: unat_of_nat)
  have au: "unat (a + word_of_nat p) = unat a + p"
    using pw a(2) B(1) b64 by (simp add: unat_word_ariths)
  have ad: "dw_b_of d dvd unat (a + word_of_nat p)" unfolding au using a(1) by (simp add: p_def)
  have sel: "unat (word_of_nat (s div dw_b_of d) :: u8) = s div dw_b_of d" using B(4) by (simp add: unat_of_nat)
  let ?last = "sync \<and> k = num - 1"
  let ?A = "mam_write (\<lambda>_. True) d (drop p data) s (a + word_of_nat p) True ?last (word_of_nat (s div dw_b_of d))"
  have A: "writes d h ?A (if ?last then rest else hm_in h) (\<lambda>m. upd m (unat a + p) (take s (drop p data)))"
    using writes_mam_write [OF d Suc.prems(2) s(1) B(2) _ ad, of "drop p data" True "word_of_nat (s div dw_b_of d)" ?last rest] 
      s n(3) a(2) au sel ack Suc.prems(3) B(1) by simp
  have upt: "[k..<num] = k # [Suc k..<num]" using Suc.prems(1) by (simp add: upt_conv_Cons)
  have step: "write_burst_loop (\<lambda>_. True) d data n a sync num [k..<num] =
      hbnd ?A (\<lambda>rv. if OSD_FAILED rv then hret rv else write_burst_loop (\<lambda>_. True) d data n a sync num [Suc k..<num])"
    unfolding fun_eq_iff upt write_burst_loop.simps MAM_MAX_BURST_WORDS_def Let_def B(3) case_prod_conv by blast
  show ?case
  proof (cases "Suc k < num")
    case True
    then have nl: "\<not> ?last" by auto
    have A1: "writes d h ?A (hm_in h) (\<lambda>m. upd m (unat a + p) (take s (drop p data)))"
      using A by (simp only: nl if_False)
    have B1: "writes d (h\<lparr>hm_sent := hm_sent h @ ms, hm_in := hm_in h\<rparr>)
        (write_burst_loop (\<lambda>_. True) d data n a sync num [Suc k..<num])
        (if sync then rest else ins0)
        (\<lambda>m. upd m (unat a + 255 * dw_b_of d * Suc k) (drop (255 * dw_b_of d * Suc k) (take n data)))" for ms
      by (rule Suc.hyps(1)) (use Suc True in simp_all)
    have "writes d h (hbnd ?A (\<lambda>rv. if OSD_FAILED rv then hret rv else write_burst_loop (\<lambda>_. True) d data n a sync num [Suc k..<num]))
      (if sync then rest else ins0)
      (\<lambda>m. upd (upd m (unat a + p) (take s (drop p data))) (unat a + 255 * dw_b_of d * Suc k)
        (drop (255 * dw_b_of d * Suc k) (take n data)))"
      by (rule writes_then [OF A1 B1])
    then show ?thesis unfolding step
    proof (rule writes_cong)
      fix m
      have sz: "s = 255 * dw_b_of d"
      proof -
        have "255 * dw_b_of d * Suc k < n" by (rule burst_sizes(1) [OF D(4) n(2) _ n(1)]) (use True num in simp)
        then show ?thesis by (simp add: s_def p_def)
      qed
      have c: "255 * dw_b_of d * Suc k = p + length (take s (drop p data))"
        using s n(3) sz by (simp add: p_def)
      have "take s (drop p data) @ drop (p + s) (take n data) = drop p (take n data)"
      proof -
        have "drop p (take n data) = take (n - p) (drop p data)" by (simp add: drop_take)
        also have "\<dots> = take s (drop p data) @ take (n - p - s) (drop s (drop p data))"
          using s by (metis add_diff_inverse_nat add_le_imp_le_diff add.commute diff_is_0_eq not_less take_add zero_less_diff le_add_diff_inverse)
        finally show ?thesis by (simp add: drop_take add.commute)
      qed
      then show "upd (upd m (unat a + p) (take s (drop p data))) (unat a + 255 * dw_b_of d * Suc k)
          (drop (255 * dw_b_of d * Suc k) (take n data)) = upd m (unat a + 255 * dw_b_of d * k) (drop (255 * dw_b_of d * k) (take n data))"
        unfolding c using upd_append [of m "unat a + p" "take s (drop p data)"] s n(3) by (simp add: p_def add.assoc)
    qed
  next
    case False
    then have k1: "Suc k = num" using Suc.prems(1) by simp
    then have fin: "[Suc k..<num] = []" "?last = sync" by auto
    have nil: "write_burst_loop (\<lambda>_. True) d data n a sync num [] = hret OSD_OK" by (simp add: fun_eq_iff)
    have "s = n - p" using last_part [OF D(4) n(1) k1 [unfolded num]] by (simp add: s_def p_def)
    then have ds: "take s (drop p data) = drop p (take n data)" by (simp add: drop_take)
    have A1: "writes d h ?A (if sync then rest else ins0) (\<lambda>m. upd m (unat a + p) (take s (drop p data)))"
      using A Suc.prems(3) by (simp only: fin)
    have B1: "writes d (h\<lparr>hm_sent := hm_sent h @ ms, hm_in := (if sync then rest else ins0)\<rparr>)
        (write_burst_loop (\<lambda>_. True) d data n a sync num [])
        (if sync then rest else ins0) (\<lambda>m. m)" for ms
      using writes_skip [of d "h\<lparr>hm_sent := hm_sent h @ ms, hm_in := (if sync then rest else ins0)\<rparr>"] by (simp add: nil)
    have "writes d h (hbnd ?A (\<lambda>rv. if OSD_FAILED rv then hret rv else write_burst_loop (\<lambda>_. True) d data n a sync num []))
      (if sync then rest else ins0) (\<lambda>m. upd m (unat a + p) (take s (drop p data)))"
      by (rule writes_then [OF A1 B1])
    then show ?thesis unfolding step fin(1) ds p_def [symmetric] .
  qed
qed simp

subsection \<open>Whole writes\<close>

lemma writes_burst:
  assumes d: "mam_ok d" and h: "ready h" and n: "0 < n" "dw_b_of d dvd n" "n \<le> length data"
    and a: "dw_b_of d dvd unat a" "unat a + n \<le> 256 ^ aw_b_of d"
    and ack: "sync \<Longrightarrow> ack_in (hm_in h) rest" and ins: "ins = (if sync then rest else hm_in h)"
  shows "writes d h (write_burst (\<lambda>_. True) d data n a sync) ins (\<lambda>m. upd m (unat a) (take n data))"
proof -
  note D = mam_okD [OF d]
  have aw: "aw_b_of d dvd unat a" using a(1) D(7) by (rule dvd_trans [rotated])
  have eq: "write_burst (\<lambda>_. True) d data n a sync =
      write_burst_loop (\<lambda>_. True) d data n a sync (INT_DIV_CEIL n (255 * dw_b_of d)) [0..<INT_DIV_CEIL n (255 * dw_b_of d)]"
    using D n(2) aw by (simp add: fun_eq_iff write_burst_def modc_def MAM_MAX_BURST_WORDS_def Let_def)
  have pos: "0 < INT_DIV_CEIL n (255 * dw_b_of d)" by (simp add: INT_DIV_CEIL_def)
  show ?thesis
    using writes_burst_loop [OF d n a ack refl pos h refl] unfolding eq ins by simp
qed

text \<open>The three parts of a write.\<close>

definition prolog_of :: "nat \<Rightarrow> nat \<Rightarrow> nat" where "prolog_of dw s = (dw - s mod dw) mod dw"

lemma parts_facts:
  assumes "0 < dw" and "dw \<le> n"
  shows "prolog_of dw s + (s + n) mod dw \<le> n" and "dw dvd s + prolog_of dw s"
    and "dw dvd n - prolog_of dw s - (s + n) mod dw" and "s mod dw + prolog_of dw s \<le> dw"
    and "dw dvd s + n - (s + n) mod dw"
proof -
  let ?p = "prolog_of dw s" and ?e = "(s + n) mod dw"
  have r: "s mod dw < dw" using assms(1) by simp
  have p: "?p = (if s mod dw = 0 then 0 else dw - s mod dw)" using r by (simp add: prolog_of_def)
  show s1: "s mod dw + ?p \<le> dw" using r by (simp add: p)
  have "(s + ?p) mod dw = (s mod dw + ?p) mod dw" by (simp add: mod_add_left_eq)
  also have "\<dots> = 0" using r by (simp add: p)
  finally show d1: "dw dvd s + ?p" by (simp add: dvd_eq_mod_eq_0)
  show d2: "dw dvd s + n - ?e" by (rule dvd_minus_mod)
  obtain x where x: "s + ?p = dw * x" using d1 by (rule dvdE)
  obtain y where y: "s + n - ?e = dw * y" using d2 by (rule dvdE)
  have e: "?e < dw" using assms(1) by simp
  have yy: "s + n = dw * y + ?e" using y mod_less_eq_dividend [of "s + n" dw] by linarith
  have "dw * x \<le> s + n" using x p r assms by (auto split: if_splits)
  then have "dw * x < dw * (y + 1)" using yy e by simp
  then have "x < y + 1" by (simp only: mult_less_cancel1)
  then have "x \<le> y" by simp
  then have xy: "dw * x \<le> dw * y" by simp
  show "?p + ?e \<le> n" using x yy xy by linarith
  have "n - ?p - ?e = dw * y - dw * x" using x yy xy by linarith
  then show "dw dvd n - ?p - ?e" by (simp flip: diff_mult_distrib2)
qed

lemma calculate_parts_eq:
  assumes dw: "0 < dw" "dw dvd 2 ^ 64" "dw \<le> 8" and n: "dw \<le> unat n" and a: "unat a + unat n \<le> 2 ^ 64"
  shows "\<exists>p b e. calculate_parts a n (word_of_nat dw) = ok (p, b, e) \<and> unat p = prolog_of dw (unat a) \<and>
    unat e = (unat a + unat n) mod dw \<and> unat b = unat n - unat p - unat e"
proof -
  have du: "unat (word_of_nat dw :: u64) = dw" using dw(3) by (simp add: unat_of_nat)
  let ?p = "(word_of_nat dw - a) mod word_of_nat dw :: u64" and ?e = "(a + n) mod word_of_nat dw"
  have au: "unat a < 2 ^ 64" using unsigned_less [of a, where 'a = nat] by simp
  have "unat (word_of_nat dw - a) mod dw = (dw + 2 ^ 64 - unat a) mod dw"
  proof (cases "unat a \<le> dw")
    case True
    then have e: "dw + 2 ^ 64 - unat a = dw - unat a + 2 ^ 64" by simp
    obtain c where c: "(2::nat) ^ 64 = dw * c" using dw(2) by (rule dvdE)
    have "unat (word_of_nat dw - a) = dw - unat a" using True by (simp add: unat_sub_if' du)
    then show ?thesis unfolding e unfolding c by (simp only: mod_mult_self2)
  next
    case False
    then show ?thesis by (simp add: unat_sub_if' du)
  qed
  also have "\<dots> = (dw - unat a mod dw) mod dw"
  proof -
    obtain c where c: "(2::nat) ^ 64 = dw * c" using dw(2) by (rule dvdE)
    have q: "unat a = dw * (unat a div dw) + unat a mod dw" by simp
    have "unat a div dw \<le> c"
    proof -
      have "dw * (unat a div dw) \<le> dw * c" using au c q by linarith
      then show ?thesis using dw(1) by simp
    qed
    then obtain z where z: "c = unat a div dw + z" by (rule less_eqE)
    have r: "unat a mod dw < dw" using dw(1) by simp
    have "dw + dw * c - unat a = dw * z + (dw - unat a mod dw)"
      unfolding z distrib_left using q r by linarith
    then show ?thesis unfolding c by simp
  qed
  finally have p: "unat ?p = prolog_of dw (unat a)" by (simp add: unat_mod du prolog_of_def)
  have e: "unat ?e = (unat a + unat n) mod dw"
  proof (cases "unat a + unat n < 2 ^ 64")
    case True
    then show ?thesis by (simp add: unat_mod du unat_word_ariths)
  next
    case False
    then have "unat a + unat n = 2 ^ 64" using a by simp
    then show ?thesis using dw(2) by (simp add: unat_mod du unat_word_ariths dvd_imp_mod_0)
  qed
  note F = parts_facts [OF dw(1) n, of "unat a"]
  have b: "unat (n - ?p - ?e) = unat n - unat ?p - unat ?e"
  proof -
    have "unat ?p \<le> unat n" "unat ?e \<le> unat n - unat ?p" using F(1) p e by simp_all
    moreover have "unat (n - ?p) = unat n - unat ?p" using calculation(1) by (simp add: unat_sub word_le_nat_alt)
    ultimately show ?thesis by (simp add: unat_sub word_le_nat_alt)
  qed
  have "\<not> n < word_of_nat dw" using n by (simp add: word_less_nat_alt du)
  moreover have "(word_of_nat dw :: u64) \<noteq> 0" using dw(1) du by auto
  ultimately have "calculate_parts a n (word_of_nat dw) = ok (?p, n - ?p - ?e, ?e)"
    by (simp add: calculate_parts_def Let_def)
  then show ?thesis using p e b by blast
qed

text \<open>Leaving out a part that is empty.\<close>

lemma writes_if:
  assumes "c \<Longrightarrow> writes d h A i f" and "\<not> c \<Longrightarrow> i = hm_in h" and "\<not> c \<Longrightarrow> f = (\<lambda>m. m)"
  shows "writes d h (if c then A else hret OSD_OK) i f"
  using assms writes_skip [of d h] by (cases c) simp_all

lemma upd_parts:
  assumes "p + b + e = n" and "n \<le> length data"
  shows "upd (upd (upd m s (take p data)) (s + p) (take b (drop p data))) (s + p + b) (take e (drop (p + b) data)) =
    upd m s (take n data)"
proof -
  have l: "length (take p data) = p" "length (take b (drop p data)) = b" using assms by auto
  have "take p data @ take b (drop p data) @ take e (drop (p + b) data) = take n data"
    using assms(1) take_add [of "p + b" e data] take_add [of p b data] by simp
  then show ?thesis
    using upd_append [of m s "take p data" "take b (drop p data)"]
      upd_append [of m s "take p data @ take b (drop p data)" "take e (drop (p + b) data)"] l
    by (simp add: add.assoc)
qed

definition write_fits :: "mem_desc \<Rightarrow> u64 \<Rightarrow> u64 \<Rightarrow> bool" where
  "write_fits d n a \<longleftrightarrow> dw_b_of d \<le> unat n \<or> unat a mod dw_b_of d + unat n \<le> dw_b_of d"

lemma writes_parts:
  assumes d: "mam_ok d" and h: "ready h" and n: "0 < unat n" "unat n \<le> length data"
    and a: "unat a + unat n \<le> 256 ^ aw_b_of d" "unat a + unat n < 2 ^ 64"
    and parts: "unat p + unat b + unat e = unat n" "unat p \<noteq> 0 \<longrightarrow> unat a mod dw_b_of d + unat p \<le> dw_b_of d"
      "unat b \<noteq> 0 \<longrightarrow> dw_b_of d dvd unat a + unat p" "dw_b_of d dvd unat b"
      "unat e \<noteq> 0 \<longrightarrow> dw_b_of d dvd unat a + unat p + unat b" "unat e < dw_b_of d"
    and ack: "ack_in (hm_in h) rest"
    and calc: "calculate_parts a n (word_of_nat (dw_b_of d)) = ok (p, b, e)"
  shows "writes d h (osd_cl_mam_write (\<lambda>_. True) d data n a) rest (\<lambda>m. upd m (unat a) (take (unat n) data))"
proof -
  note D = mam_okD [OF d]
  have z: "p = 0 \<longleftrightarrow> unat p = 0" "b = 0 \<longleftrightarrow> unat b = 0" "e = 0 \<longleftrightarrow> unat e = 0" by (simp_all add: unat_eq_0)
  have ap: "unat (a + p) = unat a + unat p" using a(2) parts(1) by (simp add: unat_word_ariths)
  have apb: "unat (a + p + b) = unat a + unat p + unat b" using a(2) parts(1) by (simp add: unat_word_ariths)
  have pb: "unat (p + b) = unat p + unat b" using a(2) parts(1) by (simp add: unat_word_ariths)
  let ?P = "write_single (\<lambda>_. True) d data (unat p) a (b = 0 \<and> e = 0)"
  let ?B = "write_burst (\<lambda>_. True) d (drop (unat p) data) (unat b) (a + p) (e = 0)"
  let ?E = "write_single (\<lambda>_. True) d (drop (unat (p + b)) data) (unat e) (a + p + b) True"
  let ?i1 = "if b = 0 \<and> e = 0 then rest else hm_in h" and ?i2 = "if e = 0 then rest else hm_in h"
  have P: "writes d h (if p \<noteq> 0 then ?P else hret OSD_OK) ?i1 (\<lambda>m. upd m (unat a) (take (unat p) data))"
  proof (rule writes_if)
    assume "p \<noteq> 0"
    then show "writes d h ?P ?i1 (\<lambda>m. upd m (unat a) (take (unat p) data))"
      using writes_single [OF d h, of "unat p" a data "b = 0 \<and> e = 0" rest ?i1] parts n a ack by (simp add: z)
  qed (use parts(1) n(1) in \<open>auto simp: z\<close>)
  have B: "writes d h1 (if b \<noteq> 0 then ?B else hret OSD_OK) ?i2 (\<lambda>m. upd m (unat a + unat p) (take (unat b) (drop (unat p) data)))"
    if h1: "h1 = h\<lparr>hm_sent := hm_sent h @ ms, hm_in := ?i1\<rparr>" for h1 ms
  proof (rule writes_if)
    assume b0: "b \<noteq> 0"
    then have hi: "hm_in h1 = hm_in h" and r1: "ready h1" using h h1 by auto
    have "writes d h1 ?B ?i2 (\<lambda>m. upd m (unat (a + p)) (take (unat b) (drop (unat p) data)))"
      by (rule writes_burst [OF d r1]) (use parts n a ack b0 hi in \<open>auto simp: z ap\<close>)
    then show "writes d h1 ?B ?i2 (\<lambda>m. upd m (unat a + unat p) (take (unat b) (drop (unat p) data)))"
      by (simp only: ap)
  qed (use h1 in \<open>auto simp: z\<close>)
  have E: "writes d h2 (hbnd (if e \<noteq> 0 then ?E else hret OSD_OK) (\<lambda>rv. if OSD_FAILED rv then hret rv else hret OSD_OK)) rest
      (\<lambda>m. upd m (unat a + unat p + unat b) (take (unat e) (drop (unat p + unat b) data)))"
    if h2: "h2 = h1\<lparr>hm_sent := hm_sent h1 @ ms, hm_in := ?i2\<rparr>" and h1: "ready h1" for h1 h2 ms
  proof -
    have "writes d h2 (if e \<noteq> 0 then ?E else hret OSD_OK) rest
        (\<lambda>m. upd m (unat a + unat p + unat b) (take (unat e) (drop (unat p + unat b) data)))"
    proof (rule writes_if)
      assume e0: "e \<noteq> 0"
      then have "hm_in h2 = hm_in h" "ready h2" using h1 h2 by auto
      moreover have "unat (a + p + b) mod dw_b_of d + unat e \<le> dw_b_of d"
        using parts(5,6) e0 by (simp add: apb z)
      ultimately show "writes d h2 ?E rest (\<lambda>m. upd m (unat a + unat p + unat b) (take (unat e) (drop (unat p + unat b) data)))"
        using writes_single [OF d, of h2 "unat e" "a + p + b" "drop (unat (p + b)) data" True rest rest] parts(1) n a ack e0
        by (simp add: z apb pb)
    qed (use h2 in \<open>auto simp: z\<close>)
    moreover have "writes d (h2\<lparr>hm_sent := hm_sent h2 @ ms', hm_in := rest\<rparr>) (hret OSD_OK) rest (\<lambda>m. m)" for ms'
      using writes_skip [of d "h2\<lparr>hm_sent := hm_sent h2 @ ms', hm_in := rest\<rparr>"] by simp
    ultimately show ?thesis by (rule writes_then)
  qed
  have "writes d h (osd_cl_mam_write (\<lambda>_. True) d data n a) rest
      (\<lambda>m. upd (upd (upd m (unat a) (take (unat p) data)) (unat a + unat p) (take (unat b) (drop (unat p) data)))
        (unat a + unat p + unat b) (take (unat e) (drop (unat p + unat b) data)))"
  proof -
    have eq: "osd_cl_mam_write (\<lambda>_. True) d data n a =
      hbnd (if p \<noteq> 0 then ?P else hret OSD_OK) (\<lambda>rv. if OSD_FAILED rv then hret rv else
      hbnd (if b \<noteq> 0 then ?B else hret OSD_OK) (\<lambda>rv. if OSD_FAILED rv then hret rv else
      hbnd (if e \<noteq> 0 then ?E else hret OSD_OK) (\<lambda>rv. if OSD_FAILED rv then hret rv else hret OSD_OK)))"
      using D(4) by (simp add: fun_eq_iff osd_cl_mam_write_def calc)
    show ?thesis unfolding eq
      by (rule writes_then [OF P writes_then [OF B [OF refl] E [OF refl]]]) (use h in simp)
  qed
  then show ?thesis by (rule writes_cong) (use upd_parts [OF parts(1) n(2)] in simp)
qed


definition demo_mem :: mem_desc where
  "demo_mem = \<lparr>me_di_addr = 3, me_data_width_bit = 32, me_addr_width_bit = 32, me_num_regions = 0, me_regions = []\<rparr>"

definition demo_host :: hostmod where
  "demo_host = \<lparr>hm_is_connected = True, hm_diaddr = 1030, hm_sent = [],
     hm_in = [ZAgain, ZMsg [str_frame ''D'', [6, 4, 3, 0, 0, 128]]], hm_send = []\<rparr>"


lemma hbnd_fails: "m h = flt x \<Longrightarrow> hbnd m f h = flt x"
  by (simp add: hbnd_def)

text \<open>
  When the addresses are wider than the data words, a block that starts at a word boundary
  but not at a multiple of the width of an address stops the program: the assertion on the
  alignment uses the wrong width.
\<close>

theorem mam_wide_address_stops:
  assumes w: "aw_b_of d = 8" "dw_b_of d = 4" and n: "unat n = 4" and a: "unat a mod 8 = 4" "unat a < 2 ^ 64 - 4"
  shows "osd_cl_mam_write mem d data n a h = flt AssertFail"
proof -
  have a4: "unat a mod 4 = 0" using a(1) by presburger
  obtain p b e where c: "calculate_parts a n (word_of_nat 4) = ok (p, b, e)"
    and p: "unat p = prolog_of 4 (unat a)" and e: "unat e = (unat a + unat n) mod 4" and b: "unat b = unat n - unat p - unat e"
    using calculate_parts_eq [of 4 n a] n a(2) by auto
  have "unat p = 0" "unat e = 0" "unat b = 4" using a4 n p e b by (simp_all add: prolog_of_def)
  then have z: "p = 0" "e = 0" "b \<noteq> 0" by (auto simp: unat_eq_0)
  have wb: "write_burst mem d data (unat b) a True h = flt AssertFail"
    using a(1) \<open>unat b = 4\<close> by (simp add: write_burst_def modc_def w)
  then show ?thesis
    using c by (simp add: osd_cl_mam_write_def w z hbnd_fails osd_results)
qed

theorem mam_wide_address_stops_witness:
  "osd_cl_mam_write (\<lambda>_. True) \<lparr>me_di_addr = 3, me_data_width_bit = 32, me_addr_width_bit = 64, me_num_regions = 0, me_regions = []\<rparr>
    [1, 2, 3, 4] 4 4 demo_host = flt AssertFail"
  by (rule mam_wide_address_stops) (simp_all add: aw_b_of_def dw_b_of_def)

end
