(* ===== verification/Osd_Hostctrl.thy ===== *)
theory Osd_Hostctrl
  imports Osd_Hostmod
begin

section \<open>The host controller (hostctrl.c)\<close>

text \<open>
  The I/O thread of \<open>hostctrl.c\<close> of libosd, which gives addresses to host modules and routes packets
  between them and the gateways, and the request for an address in \<open>hostmod.c\<close>. A message is the
  list of its frames; the router socket puts the identity of the sender in front and takes the
  receiver from there. The two tables hold the identities. \<open>hc_send\<close> says which of the next sends
  succeed, all of them when it is empty.
\<close>

record hostctrl =
  hc_subnet_addr :: u32
  hc_mods :: "frame option list"
  hc_gateways :: "frame option list"
  hc_sent :: "frame list list"
  hc_send :: "bool list"

definition zmsg_send :: "frame list \<Rightarrow> hostctrl \<Rightarrow> bool \<times> hostctrl" where
  "zmsg_send m c =
     (let done = (case hc_send c of [] \<Rightarrow> True | r # _ \<Rightarrow> r); c1 = c\<lparr>hc_send := tl (hc_send c)\<rparr> in
      (done, if done then c1\<lparr>hc_sent := hc_sent c @ [m]\<rparr> else c1))"

definition osd_hostctrl_new :: hostctrl where
  "osd_hostctrl_new = \<lparr>hc_subnet_addr = 1, hc_mods = replicate 1024 None, hc_gateways = replicate 64 None,
     hc_sent = [], hc_send = []\<rparr>"

text \<open>An element of a table.\<close>

definition slot :: "frame option list \<Rightarrow> nat \<Rightarrow> frame option exec" where
  "slot t i = (if i < length t then ok (t ! i) else flt OutOfBounds)"

subsection \<open>Addresses\<close>

fun first_free :: "frame option list \<Rightarrow> nat list \<Rightarrow> nat option exec" where
  "first_free t [] = ok None"
| "first_free t (i # is) = bnd (slot t i) (\<lambda>x. if x = None then ok (Some i) else first_free t is)"

definition get_available_diaddr :: "hostctrl \<Rightarrow> (int \<times> u32 option) exec" where
  "get_available_diaddr c =
     bnd (first_free (hc_mods c) [1..<1024]) (\<lambda>r. case r of
         None \<Rightarrow> ok (OSD_ERROR_FAILURE, None)
       | Some i \<Rightarrow> bnd (osd_diaddr_build (hc_subnet_addr c) (word_of_nat i)) (\<lambda>a. ok (OSD_OK, Some a)))"

definition register_diaddr :: "frame \<Rightarrow> u32 \<Rightarrow> hostctrl \<Rightarrow> (int \<times> hostctrl) exec" where
  "register_diaddr hostaddr diaddr c =
     (let localaddr = unat (osd_diaddr_localaddr diaddr) in
      bnd (slot (hc_mods c) localaddr) (\<lambda>x.
        if x \<noteq> None then ok (OSD_ERROR_FAILURE, c)
        else ok (OSD_OK, c\<lparr>hc_mods := (hc_mods c)[localaddr := Some hostaddr]\<rparr>)))"

definition mgmt_send_ack :: "frame \<Rightarrow> hostctrl \<Rightarrow> hostctrl" where
  "mgmt_send_ack dest c = snd (zmsg_send [dest, str_frame ''M'', str_frame ''ACK''] c)"

definition mgmt_send_nack :: "frame \<Rightarrow> hostctrl \<Rightarrow> hostctrl" where
  "mgmt_send_nack dest c = snd (zmsg_send [dest, str_frame ''M'', str_frame ''NACK''] c)"

definition mgmt_diaddr_request :: "frame \<Rightarrow> hostctrl \<Rightarrow> hostctrl exec" where
  "mgmt_diaddr_request hostaddr c =
     bnd (get_available_diaddr c) (\<lambda>(rv, a). case a of
         None \<Rightarrow> flt AssertFail
       | Some diaddr \<Rightarrow>
           bnd (register_diaddr hostaddr diaddr c) (\<lambda>(rv, c1).
           bnd (assert_c (\<not> OSD_FAILED rv)) (\<lambda>_.
             ok (snd (zmsg_send [hostaddr, str_frame ''M'', str_frame (dec_of (unat diaddr))] c1)))))"

fun find_host :: "frame \<Rightarrow> frame option list \<Rightarrow> nat list \<Rightarrow> nat option exec" where
  "find_host h t [] = ok None"
| "find_host h t (i # is) = bnd (slot t i) (\<lambda>x. if x = Some h then ok (Some i) else find_host h t is)"

text \<open>The search goes up to the largest number of a subnet.\<close>

definition mgmt_diaddr_release :: "frame \<Rightarrow> hostctrl \<Rightarrow> hostctrl exec" where
  "mgmt_diaddr_release hostaddr c =
     bnd (find_host hostaddr (hc_mods c) [1..<63]) (\<lambda>r. case r of
         None \<Rightarrow> ok (mgmt_send_nack hostaddr c)
       | Some localaddr \<Rightarrow> ok (mgmt_send_ack hostaddr (c\<lparr>hc_mods := (hc_mods c)[localaddr := None]\<rparr>)))"

subsection \<open>Gateways\<close>

definition subnet_param :: "string \<Rightarrow> nat exec" where
  "subnet_param params =
     (let (v, off, _) = strtol params 10; subnet = (word_of_int v :: u32) in
      bnd (assert_c (off = length params)) (\<lambda>_. bnd (assert_c (subnet \<le> 63)) (\<lambda>_. ok (unat subnet))))"

definition mgmt_gw_register :: "frame \<Rightarrow> string \<Rightarrow> hostctrl \<Rightarrow> hostctrl exec" where
  "mgmt_gw_register hostaddr params c =
     bnd (subnet_param params) (\<lambda>subnet.
     bnd (slot (hc_gateways c) subnet) (\<lambda>x.
       if x \<noteq> None then ok (mgmt_send_nack hostaddr c)
       else ok (mgmt_send_ack hostaddr (c\<lparr>hc_gateways := (hc_gateways c)[subnet := Some hostaddr]\<rparr>))))"

definition mgmt_gw_unregister :: "frame \<Rightarrow> string \<Rightarrow> hostctrl \<Rightarrow> hostctrl exec" where
  "mgmt_gw_unregister hostaddr params c =
     bnd (subnet_param params) (\<lambda>subnet.
     bnd (slot (hc_gateways c) subnet) (\<lambda>x.
       if x = None then ok (mgmt_send_nack hostaddr c)
       else if x \<noteq> Some hostaddr then ok (mgmt_send_nack hostaddr c)
       else ok (mgmt_send_ack hostaddr (c\<lparr>hc_gateways := (hc_gateways c)[subnet := None]\<rparr>))))"

subsection \<open>Messages\<close>

text \<open>\<open>zframe_strdup\<close>: the bytes with a zero behind them; a string ends at the first zero.\<close>

definition zframe_strdup :: "frame \<Rightarrow> string" where
  "zframe_strdup f = map (\<lambda>b. char_of (unat b)) f @ [NUL]"

definition c_str :: "string \<Rightarrow> nat \<Rightarrow> string exec" where
  "c_str buf off = (if off < length buf then ok (takeWhile (\<lambda>c. c \<noteq> NUL) (drop off buf)) else flt OutOfBounds)"

text \<open>A text that was put into a frame is read back.\<close>

lemma strdup_str: "NUL \<notin> set s \<Longrightarrow> c_str (zframe_strdup (str_frame s)) 0 = ok s"
proof -
  assume n: "NUL \<notin> set s"
  have m: "map (\<lambda>b. char_of (unat b)) (str_frame s) = s"
  proof -
    have "char_of (unat (word_of_nat (of_char c) :: u8)) = c" for c
      by (simp add: unat_of_nat of_char_mod_256)
    then show ?thesis by (simp add: str_frame_def comp_def)
  qed
  have "takeWhile (\<lambda>c. c \<noteq> NUL) (s @ [NUL]) = s" using n by (induction s) auto
  then show ?thesis using m by (simp add: c_str_def zframe_strdup_def)
qed

definition process_mgmt_msg :: "frame \<Rightarrow> frame \<Rightarrow> hostctrl \<Rightarrow> hostctrl exec" where
  "process_mgmt_msg src payload_frame c =
     (let buf = zframe_strdup payload_frame in
      bnd (c_str buf 0) (\<lambda>request.
        if request = ''DIADDR_REQUEST'' then mgmt_diaddr_request src c
        else if request = ''DIADDR_RELEASE'' then mgmt_diaddr_release src c
        else if take 11 request = ''GW_REGISTER'' then bnd (c_str buf 12) (\<lambda>params. mgmt_gw_register src params c)
        else if take 13 request = ''GW_UNREGISTER'' then bnd (c_str buf 14) (\<lambda>params. mgmt_gw_unregister src params c)
        else ok (mgmt_send_ack src c)))"

definition process_data_msg :: "memory \<Rightarrow> frame \<Rightarrow> hostctrl \<Rightarrow> hostctrl exec" where
  "process_data_msg mem payload_frame c =
     bnd (osd_packet_new_from_zframe mem payload_frame) (\<lambda>pkg.
     bnd (osd_packet_get_dest pkg) (\<lambda>dest.
     (let dest_subnet = osd_diaddr_subnet dest; dest_local = osd_diaddr_localaddr dest in
      bnd (if dest_subnet = hc_subnet_addr c then slot (hc_mods c) (unat dest_local)
           else slot (hc_gateways c) (unat dest_subnet)) (\<lambda>dest_hostaddr. case dest_hostaddr of
          None \<Rightarrow> ok c
        | Some a \<Rightarrow>
            (let (done, c1) = zmsg_send [a, str_frame ''D'', payload_frame] c in
             bnd (assert_c done) (\<lambda>_. ok c1))))))"

text \<open>\<open>None\<close> is the interruption of the process; the result is what the loop gets back.\<close>

definition iothread_handle_ext_msg :: "memory \<Rightarrow> frame list option \<Rightarrow> hostctrl \<Rightarrow> (int \<times> hostctrl) exec" where
  "iothread_handle_ext_msg mem msg c = (case msg of
       None \<Rightarrow> ok (- 1, c)
     | Some fs \<Rightarrow> (case fs of
         src # ty # rest \<Rightarrow>
           (let t = hd (zframe_strdup ty) in
            if t = CHR ''M'' then
              (case rest of [] \<Rightarrow> flt AssertFail | p # _ \<Rightarrow> bnd (process_mgmt_msg src p c) (\<lambda>c1. ok (0, c1)))
            else if t = CHR ''D'' then
              (case rest of [] \<Rightarrow> flt AssertFail | p # _ \<Rightarrow> bnd (process_data_msg mem p c) (\<lambda>c1. ok (0, c1)))
            else ok (0, c))
       | _ \<Rightarrow> flt NullDeref))"

text \<open>A run of the loop over the messages that arrive.\<close>

fun hostctrl_run :: "memory \<Rightarrow> frame list list \<Rightarrow> hostctrl \<Rightarrow> hostctrl exec" where
  "hostctrl_run mem [] c = ok c"
| "hostctrl_run mem (m # ms) c = bnd (iothread_handle_ext_msg mem (Some m) c) (\<lambda>(rv, c1). hostctrl_run mem ms c1)"

subsection \<open>The module that asks for an address\<close>

definition obtain_request :: "frame list" where
  "obtain_request = [str_frame ''M'', str_frame ''DIADDR_REQUEST'']"

definition iothread_obtain_diaddr :: "bool \<Rightarrow> zrecv \<Rightarrow> (int \<times> u16 option) exec" where
  "iothread_obtain_diaddr sent resp =
     (if \<not> sent then ok (OSD_ERROR_CONNECTION_FAILED, None)
      else (case resp of
          ZMsg fs \<Rightarrow>
            bnd (assert_c (fs \<noteq> [] \<and> hd fs = str_frame ''M'')) (\<lambda>_.
            bnd (assert_c (tl fs \<noteq> [])) (\<lambda>_.
            bnd (c_str (zframe_strdup (hd (tl fs))) 0) (\<lambda>addr_string.
            (let (addr, off, _) = strtol addr_string 10 in
             bnd (assert_c (off = length addr_string)) (\<lambda>_.
             bnd (assert_c (addr \<le> 65535)) (\<lambda>_. ok (OSD_OK, Some (word_of_int addr))))))))
        | _ \<Rightarrow> ok (OSD_ERROR_CONNECTION_FAILED, None)))"

end
