(* ===== verification/Osd_Hostctrl_Props.thy ===== *)
theory Osd_Hostctrl_Props
  imports Osd_Hostctrl
begin

section \<open>Addresses and routes\<close>

text \<open>
  A module that asks gets an address that nobody has, reads it as the number the controller
  stored, keeps it until it releases it, and gets the packets that are sent to it. Modules with
  a local address from 63 on cannot release it, and a data message that is too short to be a
  packet stops the controller.
\<close>

definition hc_ok :: "hostctrl \<Rightarrow> bool" where
  "hc_ok c \<longleftrightarrow> length (hc_mods c) = 1024 \<and> length (hc_gateways c) = 64 \<and> hc_subnet_addr c \<le> 63"

lemma slot_ok [simp]: "i < length t \<Longrightarrow> slot t i = ok (t ! i)"
  by (simp add: slot_def)

lemma first_free_eq:
  "\<forall>i\<in>set is. i < length t \<Longrightarrow> first_free t is = ok (List.find (\<lambda>i. t ! i = None) is)"
  by (induction "is") simp_all

lemma find_host_eq:
  "\<forall>i\<in>set is. i < length t \<Longrightarrow> find_host h t is = ok (List.find (\<lambda>i. t ! i = Some h) is)"
  by (induction "is") simp_all

lemma diaddr_nat: "unat (osd_diaddr_subnet a) = unat a div 1024" "unat (osd_diaddr_localaddr a) = unat a mod 1024"
proof -
  show "unat (osd_diaddr_subnet a) = unat a div 1024"
    by (simp only: osd_diaddr_subnet_def unat_drop_bit_eq) (simp add: drop_bit_eq_div)
  have "osd_diaddr_localaddr a = take_bit 10 a"
    by (simp only: osd_diaddr_localaddr_def) (simp add: take_bit_eq_mask mask_eq_exp_minus_1)
  then have l: "unat (osd_diaddr_localaddr a) = take_bit 10 (unat a)" by (simp add: unsigned_take_bit_eq)
  show "unat (osd_diaddr_localaddr a) = unat a mod 1024" unfolding l by (simp add: take_bit_eq_mod)
qed

lemma build_ok:
  assumes "s \<le> 63" and "i < 1024"
  shows "\<exists>a. osd_diaddr_build s (word_of_nat i) = ok a \<and> osd_diaddr_subnet a = s \<and>
    osd_diaddr_localaddr a = word_of_nat i \<and> unat a = unat s * 1024 + i"
proof -
  have u: "unat (word_of_nat i :: u32) = i" using assms(2) by (simp add: unat_of_nat)
  let ?a = "push_bit 10 s OR word_of_nat i :: u32"
  have b: "osd_diaddr_build s (word_of_nat i) = ok ?a"
    using assms u by (simp add: osd_diaddr_build_def word_le_nat_alt)
  have "unat ?a = unat (osd_diaddr_subnet ?a) * 1024 + unat (osd_diaddr_localaddr ?a)"
    unfolding diaddr_nat by presburger
  then show ?thesis using b diaddr_roundtrip [OF b] u by (intro exI [of _ ?a]) simp
qed

lemma dec_no_NUL: "NUL \<notin> set (dec_of n)"
  using dec_isdigit [of NUL n] by (auto simp: isdigit_def NUL_def)

lemma request_no_NUL: "NUL \<notin> set ''DIADDR_REQUEST''" "NUL \<notin> set ''DIADDR_RELEASE''" "NUL \<notin> set ''M''" "NUL \<notin> set ''D''"
  by (simp_all add: NUL_def char_of_def)

lemma obtain_reads:
  assumes "a < 65536"
  shows "iothread_obtain_diaddr True (ZMsg [str_frame ''M'', str_frame (dec_of a)]) = ok (OSD_OK, Some (word_of_nat a))"
  using assms strtol_dec [of a] by (simp add: iothread_obtain_diaddr_def strdup_str [OF dec_no_NUL])

definition lookup :: "hostctrl \<Rightarrow> u32 \<Rightarrow> frame option" where
  "lookup c dest = (if osd_diaddr_subnet dest = hc_subnet_addr c then hc_mods c ! unat (osd_diaddr_localaddr dest)
     else hc_gateways c ! unat (osd_diaddr_subnet dest))"

text \<open>The frame of a packet: an even number of bytes, three words or more.\<close>

definition pk_frame :: "frame \<Rightarrow> bool" where
  "pk_frame f \<longleftrightarrow> even (length f) \<and> 6 \<le> length f \<and> length f < 131072"

definition frame_dest :: "frame \<Rightarrow> u32" where
  "frame_dest f = ucast (words_of f ! 0)"

lemma dest_of_frame:
  assumes "pk_frame f"
  shows "\<exists>p. osd_packet_new_from_zframe (\<lambda>_. True) f = ok p \<and> osd_packet_get_dest p = ok (frame_dest f)"
proof -
  have l: "3 \<le> length f div 2" "length f div 2 < 65536" "2 * (length f div 2) = length f"
    using assms by (auto simp: pk_frame_def)
  have "(ucast (words_of f ! 0) AND 65535) = (ucast (words_of f ! 0) :: u32)"
    unfolding mask_words by (rule bit_word_eqI) (auto simp: bit_simps dest: bit_imp_le_length)
  moreover have "words_of f \<noteq> []"
  proof
    assume "words_of f = []"
    then have "length (words_of f) = 0" by (simp only: list.size)
    then show False using l(1) by (simp only: length_words_of)
  qed
  ultimately show ?thesis using l
    by (simp add: osd_packet_new_from_zframe_def osd_packet_new_def Let_def osd_packet_get_dest_def pk_large_def
        pk_word_def word_le_nat_alt unat_of_nat frame_dest_def)
qed

lemma dest_bounds: "unat (osd_diaddr_subnet (frame_dest f)) < 64" "unat (osd_diaddr_localaddr (frame_dest f)) < 1024"
proof -
  have "unat (words_of f ! 0) < 65536" using unsigned_less [of "words_of f ! 0", where 'a = nat] by simp
  then have d: "unat (frame_dest f) < 65536" by (simp add: frame_dest_def unsigned_ucast_eq take_bit_nat_eq_self)
  show "unat (osd_diaddr_subnet (frame_dest f)) < 64" "unat (osd_diaddr_localaddr (frame_dest f)) < 1024"
    unfolding diaddr_nat using d by simp_all
qed

lemma hd_strdup: "s \<noteq> [] \<Longrightarrow> hd (zframe_strdup (str_frame s)) = hd s"
  by (cases s) (simp_all add: zframe_strdup_def str_frame_def unat_of_nat of_char_mod_256)

lemma route_data:
  assumes "hc_ok c" and "pk_frame f"
  shows "iothread_handle_ext_msg (\<lambda>_. True) (Some [src, str_frame ''D'', f]) c =
    (case lookup c (frame_dest f) of None \<Rightarrow> ok (0, c)
     | Some h \<Rightarrow> bnd (assert_c (fst (zmsg_send [h, str_frame ''D'', f] c))) (\<lambda>_. ok (0, snd (zmsg_send [h, str_frame ''D'', f] c))))"
proof -
  obtain p where p: "osd_packet_new_from_zframe (\<lambda>_. True) f = ok p" "osd_packet_get_dest p = ok (frame_dest f)"
    using dest_of_frame [OF assms(2)] by blast
  have "process_data_msg (\<lambda>_. True) f c = (case lookup c (frame_dest f) of None \<Rightarrow> ok c
     | Some h \<Rightarrow> bnd (assert_c (fst (zmsg_send [h, str_frame ''D'', f] c))) (\<lambda>_. ok (snd (zmsg_send [h, str_frame ''D'', f] c))))"
    using assms(1) dest_bounds [of f]
    by (simp add: process_data_msg_def p lookup_def hc_ok_def Let_def split_def split: option.split)
  then show ?thesis
    by (simp add: iothread_handle_ext_msg_def hd_strdup bnd_assoc split: option.split)
qed

text \<open>
  C9: A module that asks for an address while one is free gets the lowest free local address of
  the subnet: the controller answers it with a text that the module reads as exactly the number
  that was stored, and from then on every packet to this number is forwarded to this module.
\<close>

theorem address_then_routed:
  assumes c: "hc_ok c" "hc_send c = []" and free: "1 \<le> j" "j < 1024" "hc_mods c ! j = None"
  shows "\<exists>i reply c1. 1 \<le> i \<and> i \<le> j \<and> hc_mods c ! i = None \<and>
    iothread_handle_ext_msg (\<lambda>_. True) (Some (h # obtain_request)) c = ok (0, c1) \<and>
    c1 = c\<lparr>hc_mods := (hc_mods c)[i := Some h], hc_sent := hc_sent c @ [h # reply]\<rparr> \<and>
    iothread_obtain_diaddr True (ZMsg reply) = ok (OSD_OK, Some (word_of_nat (unat (hc_subnet_addr c) * 1024 + i))) \<and>
    (\<forall>src f. pk_frame f \<and> unat (frame_dest f) = unat (hc_subnet_addr c) * 1024 + i \<longrightarrow>
       iothread_handle_ext_msg (\<lambda>_. True) (Some [src, str_frame ''D'', f]) c1 =
         ok (0, c1\<lparr>hc_sent := hc_sent c1 @ [[h, str_frame ''D'', f]]\<rparr>))"
proof -
  have "List.find (\<lambda>i. hc_mods c ! i = None) [1..<1024] \<noteq> None"
    using free by (auto simp: find_None_iff)
  then obtain i where f: "List.find (\<lambda>i. hc_mods c ! i = None) [1..<1024] = Some i" by blast
  then obtain x where x: "x < length [1..<1024]" "hc_mods c ! ([1..<1024] ! x) = None" "i = [1..<1024] ! x"
      and before: "\<And>y. y < x \<Longrightarrow> hc_mods c ! ([1..<1024] ! y) \<noteq> None"
    unfolding find_Some_iff by blast
  have xl: "x < 1023" using x(1) by simp
  then have xi: "[1..<1024] ! x = Suc x" by (subst nth_upt) simp_all
  have i: "1 \<le> i" "i < 1024" "hc_mods c ! i = None" using x xi xl by auto
  have ij: "i \<le> j"
  proof (rule ccontr)
    assume "\<not> i \<le> j"
    then have "j - 1 < x" using xi x(3) free(1) by simp
    moreover have "[1..<1024] ! (j - 1) = j" using free by (subst nth_upt) simp_all
    ultimately show False using before [of "j - 1"] free(3) by simp
  qed
  let ?s = "hc_subnet_addr c"
  obtain a where a: "osd_diaddr_build ?s (word_of_nat i) = ok a" "osd_diaddr_subnet a = ?s"
    "osd_diaddr_localaddr a = word_of_nat i" "unat a = unat ?s * 1024 + i"
    using build_ok [of ?s i] c(1) i(2) by (auto simp: hc_ok_def)
  have iu: "unat (word_of_nat i :: u32) = i" using i(2) by (simp add: unat_of_nat)
  have s63: "unat ?s \<le> 63" using c(1) by (simp add: hc_ok_def word_le_nat_alt)
  define reply where "reply = [str_frame ''M'', str_frame (dec_of (unat a))]"
  define c1 where "c1 = c\<lparr>hc_mods := (hc_mods c)[i := Some h], hc_sent := hc_sent c @ [h # reply]\<rparr>"
  have ff: "first_free (hc_mods c) [1..<1024] = ok (Some i)"
    using first_free_eq [of "[1..<1024]" "hc_mods c"] c(1) f by (simp add: hc_ok_def)
  have hs: "c\<lparr>hc_send := []\<rparr> = c" using c(2) by (cases c) simp
  have avail: "get_available_diaddr c = ok (OSD_OK, Some a)"
    unfolding get_available_diaddr_def ff by (simp add: a(1))
  have "register_diaddr h a c = ok (OSD_OK, c\<lparr>hc_mods := (hc_mods c)[i := Some h]\<rparr>)"
    using c i by (simp add: register_diaddr_def a(3) iu hc_ok_def)
  then have "mgmt_diaddr_request h c = ok c1"
    using c(2) hs by (simp add: mgmt_diaddr_request_def avail zmsg_send_def Let_def osd_results c1_def reply_def)
  then have req: "iothread_handle_ext_msg (\<lambda>_. True) (Some (h # obtain_request)) c = ok (0, c1)"
    by (simp add: iothread_handle_ext_msg_def obtain_request_def hd_strdup process_mgmt_msg_def
        strdup_str [OF request_no_NUL(1)] Let_def)
  have obt: "iothread_obtain_diaddr True (ZMsg reply) = ok (OSD_OK, Some (word_of_nat (unat ?s * 1024 + i)))"
    using obtain_reads [of "unat a"] s63 i(2) unfolding reply_def a(4) by simp
  have ok1: "hc_ok c1" using c(1) by (simp add: hc_ok_def c1_def)
  have route: "iothread_handle_ext_msg (\<lambda>_. True) (Some [src, str_frame ''D'', fr]) c1 =
      ok (0, c1\<lparr>hc_sent := hc_sent c1 @ [[h, str_frame ''D'', fr]]\<rparr>)"
    if fr: "pk_frame fr" "unat (frame_dest fr) = unat ?s * 1024 + i" for src fr
  proof -
    have "frame_dest fr = a" using fr(2) a(4) by (simp add: word_unat_eq_iff)
    then have "lookup c1 (frame_dest fr) = Some h"
      using c(1) i(2) a iu by (simp add: lookup_def c1_def hc_ok_def)
    moreover have "hc_send c1 = []" "c1\<lparr>hc_send := []\<rparr> = c1" using c(2) by (simp_all add: c1_def)
    ultimately show ?thesis
      unfolding route_data [OF ok1 fr(1)] by (simp add: zmsg_send_def Let_def)
  qed
  show ?thesis
    using i(1,3) ij req obt route by (intro exI [of _ i] exI [of _ reply] exI [of _ c1]) (simp add: c1_def)
qed

definition demo_ctrl :: hostctrl where
  "demo_ctrl = osd_hostctrl_new\<lparr>hc_mods := (replicate 1024 None)[1 := Some [7]]\<rparr>"

lemma demo_ctrl: "hc_ok demo_ctrl" "hc_send demo_ctrl = []" "hc_mods demo_ctrl ! 2 = None"
  by (simp_all add: hc_ok_def demo_ctrl_def osd_hostctrl_new_def)

theorem address_then_routed_witness:
  "\<exists>reply c1. iothread_handle_ext_msg (\<lambda>_. True) (Some ([9] # obtain_request)) demo_ctrl = ok (0, c1) \<and>
    c1 = demo_ctrl\<lparr>hc_mods := (hc_mods demo_ctrl)[2 := Some [9]], hc_sent := [[9] # reply]\<rparr> \<and>
    iothread_obtain_diaddr True (ZMsg reply) = ok (OSD_OK, Some 1026) \<and>
    iothread_handle_ext_msg (\<lambda>_. True) (Some [[7], str_frame ''D'', [2, 4, 0, 0, 0, 0]]) c1 =
      ok (0, c1\<lparr>hc_sent := hc_sent c1 @ [[[9], str_frame ''D'', [2, 4, 0, 0, 0, 0]]]\<rparr>)"
proof -
  have f: "pk_frame [2, 4, 0, 0, 0, 0]" "unat (frame_dest [2, 4, 0, 0, 0, 0]) = 1026"
    by (simp_all add: pk_frame_def frame_dest_def)
  have c: "hc_sent demo_ctrl = []" "unat (hc_subnet_addr demo_ctrl) = 1" "hc_mods demo_ctrl ! 1 \<noteq> None"
    by (simp_all add: demo_ctrl_def osd_hostctrl_new_def)
  obtain i reply c1 where i: "1 \<le> i" "i \<le> 2" "hc_mods demo_ctrl ! i = None"
    and r: "iothread_handle_ext_msg (\<lambda>_. True) (Some ([9] # obtain_request)) demo_ctrl = ok (0, c1)"
      "c1 = demo_ctrl\<lparr>hc_mods := (hc_mods demo_ctrl)[i := Some [9]], hc_sent := hc_sent demo_ctrl @ [[9] # reply]\<rparr>"
      "iothread_obtain_diaddr True (ZMsg reply) = ok (OSD_OK, Some (word_of_nat (unat (hc_subnet_addr demo_ctrl) * 1024 + i)))"
    and route: "\<forall>src f. pk_frame f \<and> unat (frame_dest f) = unat (hc_subnet_addr demo_ctrl) * 1024 + i \<longrightarrow>
       iothread_handle_ext_msg (\<lambda>_. True) (Some [src, str_frame ''D'', f]) c1 =
         ok (0, c1\<lparr>hc_sent := hc_sent c1 @ [[[9], str_frame ''D'', f]]\<rparr>)"
    using address_then_routed [OF demo_ctrl(1,2) _ _ demo_ctrl(3), of "[9]"] by auto
  have "i \<noteq> 1" using i(3) c(3) by auto
  then have "i = 2" using i by simp
  then show ?thesis
    using r route f c(1,2) by (intro exI [of _ reply] exI [of _ c1]) simp
qed

text \<open>
  C40: A host module whose only address has a local part of 63 or more cannot give it back: the
  search of \<open>mgmt_diaddr_release\<close> ends at the number of subnets, the module gets a negative
  answer and stays in the table.
\<close>

theorem high_address_stays:
  assumes c: "hc_ok c" "hc_send c = []" and only: "\<And>i. i < 1024 \<Longrightarrow> hc_mods c ! i = Some h \<Longrightarrow> 63 \<le> i"
  shows "iothread_handle_ext_msg mem (Some [h, str_frame ''M'', str_frame ''DIADDR_RELEASE'']) c =
    ok (0, c\<lparr>hc_sent := hc_sent c @ [[h, str_frame ''M'', str_frame ''NACK'']]\<rparr>)"
proof -
  have l: "\<forall>i\<in>set [1..<63]. i < length (hc_mods c)" using c(1) by (auto simp: hc_ok_def)
  have "List.find (\<lambda>i. hc_mods c ! i = Some h) [1..<63] = None"
    unfolding find_None_iff
  proof
    assume "\<exists>x. x \<in> set [1..<63] \<and> hc_mods c ! x = Some h"
    then obtain x where "x < 63" "hc_mods c ! x = Some h" by auto
    then show False using only [of x] by simp
  qed
  then have "find_host h (hc_mods c) [1..<63] = ok None" using find_host_eq [OF l] by simp
  moreover have "c\<lparr>hc_send := []\<rparr> = c" using c(2) by (cases c) simp
  ultimately show ?thesis
    using c(2) by (simp add: iothread_handle_ext_msg_def hd_strdup process_mgmt_msg_def strdup_str [OF request_no_NUL(2)]
        mgmt_diaddr_release_def mgmt_send_nack_def zmsg_send_def Let_def)
qed

definition demo_full :: hostctrl where
  "demo_full = osd_hostctrl_new\<lparr>hc_mods := (replicate 1024 None)[100 := Some [7]]\<rparr>"

theorem high_address_stays_witness:
  "iothread_handle_ext_msg (\<lambda>_. True) (Some [[7], str_frame ''M'', str_frame ''DIADDR_RELEASE'']) demo_full =
    ok (0, demo_full\<lparr>hc_sent := hc_sent demo_full @ [[[7], str_frame ''M'', str_frame ''NACK'']]\<rparr>)"
proof (rule high_address_stays)
  show "hc_ok demo_full" "hc_send demo_full = []" by (simp_all add: hc_ok_def demo_full_def osd_hostctrl_new_def)
  show "63 \<le> i" if "i < 1024" "hc_mods demo_full ! i = Some [7]" for i
    using that by (cases "i = 100") (simp_all add: demo_full_def nth_list_update)
qed

text \<open>
  A data message with less than three words stops the host controller, for all its clients:
  the conversion asserts the length that the caller means to check.
\<close>

theorem short_packet_stops:
  assumes "length f < 6"
  shows "iothread_handle_ext_msg mem (Some (src # str_frame ''D'' # f # rest)) c = flt AssertFail"
proof -
  have "\<not> 3 \<le> length f div 2" using assms by simp
  then have "process_data_msg mem f c = flt AssertFail"
    by (simp add: process_data_msg_def osd_packet_new_from_zframe_def Let_def)
  then show ?thesis by (simp add: iothread_handle_ext_msg_def hd_strdup Let_def)
qed

theorem short_packet_stops_witness:
  "iothread_handle_ext_msg (\<lambda>_. True) (Some [[9], str_frame ''D'', [1, 2, 3, 4]]) demo_ctrl = flt AssertFail"
  by (rule short_packet_stops) simp

subsection \<open>What a run keeps\<close>

definition is_release :: "frame \<Rightarrow> frame list \<Rightarrow> bool" where
  "is_release h m \<longleftrightarrow> (\<exists>ty p rest. m = h # ty # p # rest \<and> hd (zframe_strdup ty) = CHR ''M'' \<and>
     c_str (zframe_strdup p) 0 = ok ''DIADDR_RELEASE'')"

text \<open>The tables keep their size, and the entry \<open>i\<close> stays with the host \<open>h\<close>.\<close>

definition keeps :: "nat \<Rightarrow> frame \<Rightarrow> hostctrl \<Rightarrow> hostctrl \<Rightarrow> bool" where
  "keeps i h c c1 \<longleftrightarrow> (hc_ok c \<longrightarrow> hc_ok c1) \<and> hc_subnet_addr c1 = hc_subnet_addr c \<and>
     (hc_mods c ! i = Some h \<longrightarrow> hc_mods c1 ! i = Some h)"

lemma keeps_refl: "keeps i h c c"
  by (simp add: keeps_def)

lemma keeps_trans: "keeps i h c c1 \<Longrightarrow> keeps i h c1 c2 \<Longrightarrow> keeps i h c c2"
  by (simp add: keeps_def)

lemma keeps_send: "keeps i h c (snd (zmsg_send m c1)) = keeps i h c c1"
  by (simp add: keeps_def zmsg_send_def Let_def hc_ok_def)

lemmas keeps_answers = keeps_send [folded mgmt_send_ack_def] keeps_send [folded mgmt_send_nack_def]

lemma keeps_ack: "keeps i h c (mgmt_send_ack d c1) = keeps i h c c1" "keeps i h c (mgmt_send_nack d c1) = keeps i h c c1"
  by (simp_all add: mgmt_send_ack_def mgmt_send_nack_def keeps_send)

lemma keeps_gateway: "keeps i h c (c\<lparr>hc_gateways := (hc_gateways c)[s := x]\<rparr>)"
  by (simp add: keeps_def hc_ok_def)

lemma register_keeps: "register_diaddr d a c = ok (rv, c1) \<Longrightarrow> keeps i h c c1"
  by (cases "i = unat (osd_diaddr_localaddr a)")
    (auto simp: register_diaddr_def Let_def bnd_ok_iff slot_def keeps_def hc_ok_def split: if_splits)

lemma request_keeps:
  assumes "mgmt_diaddr_request d c = ok c1" shows "keeps i h c c1"
proof -
  obtain a rv c2 m where "register_diaddr d a c = ok (rv, c2)" "c1 = snd (zmsg_send m c2)"
    using assms by (fastforce simp: mgmt_diaddr_request_def bnd_ok_iff split: option.splits)
  then show ?thesis using register_keeps by (simp add: keeps_send)
qed

lemma find_host_Some: "find_host h t is = ok (Some i) \<Longrightarrow> i < length t \<and> t ! i = Some h"
  by (induction "is") (auto simp: bnd_ok_iff slot_def split: if_splits)

lemma release_keeps: "mgmt_diaddr_release d c = ok c1 \<Longrightarrow> d \<noteq> h \<Longrightarrow> keeps i h c c1"
  by (auto simp: mgmt_diaddr_release_def bnd_ok_iff keeps_ack keeps_refl split: option.splits dest!: find_host_Some)
    (auto simp: keeps_def hc_ok_def nth_list_update)

lemma gw_keeps:
  "mgmt_gw_register d ps c = ok c1 \<Longrightarrow> keeps i h c c1"
  "mgmt_gw_unregister d ps c = ok c1 \<Longrightarrow> keeps i h c c1"
  by (auto simp: mgmt_gw_register_def mgmt_gw_unregister_def bnd_ok_iff keeps_ack keeps_refl keeps_gateway split: if_splits)

lemma mgmt_keeps:
  assumes "process_mgmt_msg d p c = ok c1" and "c_str (zframe_strdup p) 0 = ok ''DIADDR_RELEASE'' \<Longrightarrow> d \<noteq> h"
  shows "keeps i h c c1"
proof -
  obtain r where r: "c_str (zframe_strdup p) 0 = ok r" using assms(1) by (auto simp: process_mgmt_msg_def bnd_ok_iff Let_def)
  have p: "(if r = ''DIADDR_REQUEST'' then mgmt_diaddr_request d c
        else if r = ''DIADDR_RELEASE'' then mgmt_diaddr_release d c
        else if take 11 r = ''GW_REGISTER'' then bnd (c_str (zframe_strdup p) 12) (\<lambda>params. mgmt_gw_register d params c)
        else if take 13 r = ''GW_UNREGISTER'' then bnd (c_str (zframe_strdup p) 14) (\<lambda>params. mgmt_gw_unregister d params c)
        else ok (mgmt_send_ack d c)) = ok c1"
    using assms(1) by (simp only: process_mgmt_msg_def r bnd_simps Let_def)
  show ?thesis
    using p by (simp only: bnd_ok_iff split: if_splits)
      (use assms(2) r request_keeps release_keeps gw_keeps in \<open>auto simp: keeps_ack keeps_refl\<close>)
qed

lemma data_keeps: "process_data_msg mem p c = ok c1 \<Longrightarrow> keeps i h c c1"
proof -
  assume "process_data_msg mem p c = ok c1"
  then have "c1 = c \<or> (\<exists>m. c1 = snd (zmsg_send m c))"
    by (auto simp: process_data_msg_def bnd_ok_iff Let_def split_def split: option.splits)
  then show ?thesis by (auto simp: keeps_send keeps_refl)
qed

lemma handle_keeps:
  assumes "iothread_handle_ext_msg mem (Some m) c = ok (rv, c1)" and "\<not> is_release h m"
  shows "keeps i h c c1"
proof -
  obtain d ty rest where m: "m = d # ty # rest"
    using assms(1) by (cases m; cases "tl m") (auto simp: iothread_handle_ext_msg_def)
  consider "hd (zframe_strdup ty) = CHR ''M''" | "hd (zframe_strdup ty) = CHR ''D''"
    | "hd (zframe_strdup ty) \<noteq> CHR ''M''" "hd (zframe_strdup ty) \<noteq> CHR ''D''" by blast
  then show ?thesis
  proof cases
    case 1
    then obtain p rest' where "rest = p # rest'" "process_mgmt_msg d p c = ok c1"
      using assms(1) by (cases rest) (auto simp: iothread_handle_ext_msg_def m Let_def bnd_ok_iff)
    then show ?thesis using mgmt_keeps assms(2) m 1 unfolding is_release_def by blast
  next
    case 2
    then obtain p rest' where "process_data_msg mem p c = ok c1"
      using assms(1) by (cases rest) (auto simp: iothread_handle_ext_msg_def m Let_def bnd_ok_iff)
    then show ?thesis by (rule data_keeps)
  next
    case 3
    then show ?thesis using assms(1) by (simp add: iothread_handle_ext_msg_def m Let_def keeps_refl)
  qed
qed

text \<open>
  C17: Whatever messages arrive, requests and releases of other modules, gateways that come and
  go, packets, a module that does not release its address keeps it: as long as the controller runs,
  packets to the address go to that module.
\<close>

theorem address_kept:
  assumes "hc_ok c" and "i < 1024" and "hc_mods c ! i = Some h" and "hostctrl_run mem ms c = ok c1"
    and "\<forall>m\<in>set ms. \<not> is_release h m"
  shows "hc_ok c1 \<and> (\<forall>a. osd_diaddr_subnet a = hc_subnet_addr c \<and> unat (osd_diaddr_localaddr a) = i \<longrightarrow> lookup c1 a = Some h)"
proof -
  have "keeps i h c c1" using assms(4,5)
  proof (induction ms arbitrary: c)
    case (Cons m ms)
    then obtain rv c2 where "iothread_handle_ext_msg mem (Some m) c = ok (rv, c2)" "hostctrl_run mem ms c2 = ok c1"
      by (auto simp: bnd_ok_iff)
    then show ?case using Cons handle_keeps keeps_trans by (metis list.set_intros)
  qed (simp add: keeps_refl)
  then show ?thesis using assms(1,3) by (simp add: keeps_def lookup_def)
qed

theorem address_kept_witness:
  "hc_ok (demo_ctrl\<lparr>hc_sent := [[[9], str_frame ''M'', str_frame ''NACK'']]\<rparr>) \<and>
    lookup (demo_ctrl\<lparr>hc_sent := [[[9], str_frame ''M'', str_frame ''NACK'']]\<rparr>) 1025 = Some [7]"
proof -
  have m: "hc_mods demo_ctrl ! 1 = Some [7]" by (simp add: demo_ctrl_def osd_hostctrl_new_def)
  have "List.find (\<lambda>i. hc_mods demo_ctrl ! i = Some [9]) [1..<63] = None"
    by (auto simp: find_None_iff demo_ctrl_def osd_hostctrl_new_def nth_list_update)
  moreover have "\<forall>i\<in>set [1..<63]. i < length (hc_mods demo_ctrl)" by (simp add: demo_ctrl_def osd_hostctrl_new_def)
  ultimately have "find_host [9] (hc_mods demo_ctrl) [1..<63] = ok None" using find_host_eq by metis
  then have run: "hostctrl_run (\<lambda>_. True) [[[9], str_frame ''M'', str_frame ''DIADDR_RELEASE'']] demo_ctrl =
      ok (demo_ctrl\<lparr>hc_sent := [[[9], str_frame ''M'', str_frame ''NACK'']]\<rparr>)"
    using demo_ctrl(2) by (simp add: iothread_handle_ext_msg_def hd_strdup process_mgmt_msg_def strdup_str [OF request_no_NUL(2)]
        mgmt_diaddr_release_def mgmt_send_nack_def zmsg_send_def Let_def) (simp add: demo_ctrl_def osd_hostctrl_new_def)
  have "osd_diaddr_subnet 1025 = hc_subnet_addr demo_ctrl" "unat (osd_diaddr_localaddr 1025) = 1"
    by (simp_all add: demo_ctrl_def osd_hostctrl_new_def osd_diaddr_subnet_def osd_diaddr_localaddr_def)
  then show ?thesis
    using address_kept [OF demo_ctrl(1) _ m run] by (simp add: is_release_def)
qed

end
