(* ===== verification/Osd_Worker.thy ===== *)
theory Osd_Worker
  imports Osd_Hostctrl
begin

section \<open>Worker threads (worker.c)\<close>

text \<open>
  The protocol between the main thread and an I/O thread, \<open>worker.c\<close> of libosd. Status messages
  have a name that starts with \<open>I-\<close> and a value of type \<open>int\<close>; other messages that arrive while
  the main thread waits for a status are thrown away. Sockets are the lists of messages sent and received;
  the flag of a function that sends says whether \<open>zmsg_send\<close> succeeds.
\<close>

subsection \<open>Status messages\<close>

definition int_frame :: "int \<Rightarrow> frame" where
  "int_frame v = (let w = (word_of_int v :: u32) in map (\<lambda>i. ucast (drop_bit (8 * i) w)) [0..<4])"

definition frame_int :: "frame \<Rightarrow> int" where
  "frame_int f = sint (foldr (\<lambda>b w. push_bit 8 w OR ucast b) f (0 :: u32))"

lemma length_int_frame [simp]: "length (int_frame v) = 4"
  by (simp add: int_frame_def Let_def)

lemma frame_int_frame: "- (2 ^ 31) \<le> v \<Longrightarrow> v < 2 ^ 31 \<Longrightarrow> frame_int (int_frame v) = v"
proof -
  assume v: "- (2 ^ 31) \<le> v" "v < 2 ^ 31"
  define w where "w = (word_of_int v :: u32)"
  have "foldr (\<lambda>b w. push_bit 8 w OR ucast b) (int_frame v) (0 :: u32) = w"
  proof (rule bit_word_eqI)
    fix n assume n: "n < LENGTH(32)"
    show "bit (foldr (\<lambda>b w. push_bit 8 w OR ucast b) (int_frame v) (0 :: u32)) n = bit w n"
    proof -
      consider "n < 8" | "8 \<le> n" "n < 16" | "16 \<le> n" "n < 24" | "24 \<le> n" "n < 32" using n by fastforce
      then show ?thesis
        by cases (auto simp: int_frame_def Let_def w_def [symmetric] bit_simps upt_conv_Cons)
    qed
  qed
  then show ?thesis using v by (simp add: frame_int_def w_def signed_of_int signed_take_bit_int_eq_self)
qed

definition worker_send_data :: "bool \<Rightarrow> string \<Rightarrow> frame option \<Rightarrow> frame list exec" where
  "worker_send_data sent name data =
     bnd (assert_c sent) (\<lambda>_. ok (case data of
         None \<Rightarrow> [str_frame name]
       | Some f \<Rightarrow> if f = [] then [str_frame name] else [str_frame name, f]))"

definition worker_send_status :: "bool \<Rightarrow> string \<Rightarrow> int \<Rightarrow> frame list exec" where
  "worker_send_status sent name v = worker_send_data sent name (Some (int_frame v))"

definition worker_main_send_status :: "bool \<Rightarrow> bool \<Rightarrow> string \<Rightarrow> int \<Rightarrow> (int \<times> frame list option) exec" where
  "worker_main_send_status running sent name v =
     (if \<not> running then ok (OSD_ERROR_NOT_CONNECTED, None)
      else bnd (worker_send_status sent name v) (\<lambda>m. ok (OSD_OK, Some m)))"

text \<open>The value is \<open>None\<close> when it is not stored. When the list is used up the call has not returned.\<close>

fun wait_loop :: "string \<Rightarrow> zrecv list \<Rightarrow> ((int \<times> int option) \<times> zrecv list) exec" where
  "wait_loop name [] = None"
| "wait_loop name (ZAgain # ms) = ok ((OSD_ERROR_TIMEDOUT, None), ms)"
| "wait_loop name (ZIntr # ms) = ok ((OSD_ERROR_FAILURE, None), ms)"
| "wait_loop name (ZMsg [] # ms) = flt AssertFail"
| "wait_loop name (ZMsg (nm # fs) # ms) =
     bnd (c_str (zframe_strdup nm) 0) (\<lambda>s.
       if take 2 s \<noteq> ''I-'' then wait_loop name ms
       else if s \<noteq> name then ok ((OSD_ERROR_FAILURE, None), ms)
       else (case fs of
           [] \<Rightarrow> flt AssertFail
         | f # _ \<Rightarrow> bnd (assert_c (length f = 4)) (\<lambda>_. ok ((OSD_OK, Some (frame_int f)), ms))))"

definition worker_wait_for_status :: "string \<Rightarrow> zrecv list \<Rightarrow> ((int \<times> int option) \<times> zrecv list) exec" where
  "worker_wait_for_status name ms = bnd (assert_c (take 2 name = ''I-'')) (\<lambda>_. wait_loop name ms)"

subsection \<open>The thread\<close>

text \<open>The handler is the function that the owner of the worker registered.\<close>

definition thread_inproc_rcv ::
    "(string \<Rightarrow> frame list \<Rightarrow> 's \<Rightarrow> (int \<times> 's) exec) option \<Rightarrow> frame list option \<Rightarrow> 's \<Rightarrow> (int \<times> 's) exec" where
  "thread_inproc_rcv handler msg s = (case msg of
       None \<Rightarrow> ok (- 1, s)
     | Some [] \<Rightarrow> flt AssertFail
     | Some (ty # fs) \<Rightarrow>
         bnd (c_str (zframe_strdup ty) 0) (\<lambda>name.
           if name = ''I-SHUTDOWN'' then ok (- 1, s)
           else (case handler of
               None \<Rightarrow> flt NullDeref
             | Some cmd_handler_fn \<Rightarrow> bnd (cmd_handler_fn name (ty # fs) s) (\<lambda>(rv, s1). ok (0, s1)))))"

text \<open>
  The life of the thread: whether its socket connects, the function that initialises, the loop
  over the messages, the function that cleans up and must leave no user context behind. \<open>sent\<close> says
  whether its messages can be sent. The result has the status messages sent to the main thread.
\<close>

definition thread_main ::
    "bool \<Rightarrow> bool \<Rightarrow> ('s \<Rightarrow> (int \<times> 's) exec) option \<Rightarrow> ('s \<Rightarrow> 's exec) \<Rightarrow> ('s \<Rightarrow> 's exec) option \<Rightarrow> ('s \<Rightarrow> bool) \<Rightarrow> 's \<Rightarrow>
      (frame list list \<times> 's) exec" where
  "thread_main sent connected init_fn zloop destroy_fn no_usr s =
     (if \<not> connected then ok ([], s)
      else bnd (case init_fn of None \<Rightarrow> ok (OSD_OK, s) | Some f \<Rightarrow> f s) (\<lambda>(rv, s1).
        bnd (worker_send_status sent ''I-THREADINIT-DONE'' (if OSD_FAILED rv then rv else OSD_OK)) (\<lambda>m.
          if OSD_FAILED rv then ok ([m], s1)
          else bnd (zloop s1) (\<lambda>s2.
            bnd (case destroy_fn of None \<Rightarrow> ok s2 | Some f \<Rightarrow> f s2) (\<lambda>s3.
            bnd (worker_send_status sent ''I-SHUTDOWN-DONE'' OSD_OK) (\<lambda>m'.
            bnd (assert_c (no_usr s3)) (\<lambda>_. ok ([m, m'], s3))))))))"

subsection \<open>Creation and destruction\<close>

text \<open>
  The result of \<open>worker_new\<close> and whether the pointer to the context was stored. After a failed
  initialisation of the thread the variable returned is the result of \<open>pthread_create\<close>, zero.
\<close>

definition worker_new :: "bool \<Rightarrow> zrecv list \<Rightarrow> ((int \<times> bool) \<times> zrecv list) exec" where
  "worker_new bound ms =
     (if \<not> bound then ok ((OSD_ERROR_FAILURE, False), ms)
      else (let rv = 0 in
        bnd (worker_wait_for_status ''I-THREADINIT-DONE'' ms) (\<lambda>((_, retval), ms1). case retval of
            None \<Rightarrow> flt Uninit
          | Some v \<Rightarrow> if OSD_FAILED v then ok ((rv, False), ms1) else ok ((OSD_OK, True), ms1))))"

text \<open>The messages sent, and whether the thread is cancelled.\<close>

definition worker_free :: "bool \<Rightarrow> bool option \<Rightarrow> zrecv list \<Rightarrow> (frame list list \<times> bool) exec" where
  "worker_free sent ctx ms = (case ctx of
       None \<Rightarrow> ok ([], False)
     | Some thread_is_running \<Rightarrow>
         if \<not> thread_is_running then ok ([], False)
         else bnd (worker_send_status sent ''I-SHUTDOWN'' 0) (\<lambda>m.
           bnd (worker_wait_for_status ''I-SHUTDOWN-DONE'' ms) (\<lambda>((rv, _), _). ok ([m], OSD_FAILED rv))))"

subsection \<open>Properties\<close>

lemma status_names:
  "NUL \<notin> set ''I-THREADINIT-DONE''" "NUL \<notin> set ''I-SHUTDOWN-DONE''" "NUL \<notin> set ''I-SHUTDOWN''"
  "NUL \<notin> set ''I-CONNECT''" "NUL \<notin> set ''I-CONNECT-DONE''" "NUL \<notin> set ''I-DISCONNECT''" "NUL \<notin> set ''I-DISCONNECT-DONE''"
  by (simp_all add: NUL_def char_of_def)

text \<open>A status that was sent is received with its value, whatever data messages come before it.\<close>

lemma wait_status:
  assumes n: "NUL \<notin> set name" "take 2 name = ''I-''" and v: "- (2 ^ 31) \<le> v" "v < 2 ^ 31"
    and d: "\<forall>m\<in>set ds. \<exists>fs. m = ZMsg (str_frame ''D'' # fs)"
  shows "worker_wait_for_status name (ds @ ZMsg [str_frame name, int_frame v] # ms) = ok ((OSD_OK, Some v), ms)"
proof -
  have D: "c_str (zframe_strdup (str_frame ''D'')) 0 = ok ''D''" by (rule strdup_str) (simp add: NUL_def char_of_def)
  have "wait_loop name (ds @ ZMsg [str_frame name, int_frame v] # ms) = ok ((OSD_OK, Some v), ms)"
    using d by (induction ds) (auto simp: D strdup_str [OF n(1)] n(2) frame_int_frame [OF v])
  then show ?thesis using n(2) by (simp add: worker_wait_for_status_def)
qed

lemma waits_init:
  "- (2 ^ 31) \<le> v \<Longrightarrow> v < 2 ^ 31 \<Longrightarrow>
    worker_wait_for_status ''I-THREADINIT-DONE'' (ZMsg [str_frame ''I-THREADINIT-DONE'', int_frame v] # ms) = ok ((OSD_OK, Some v), ms)"
  using wait_status [OF status_names(1), of v "[]" ms] by simp

text \<open>
  When the function that initialises the thread reports an error, \<open>worker_new\<close> returns success and
  does not store the context: the caller goes on with a pointer it has never set.
\<close>

theorem worker_init_failure:
  assumes "init_fn s = ok (rv, s1)" and "OSD_FAILED rv" and "- (2 ^ 31) \<le> rv"
  shows "bnd (thread_main True True (Some init_fn) zloop destroy_fn no_usr s) (\<lambda>(ms, _). worker_new True (map ZMsg ms)) =
    ok ((OSD_OK, False), [])"
proof -
  have "rv < 2 ^ 31" using assms(2) by (simp add: OSD_FAILED_def)
  then show ?thesis
    using assms waits_init [of rv "[]"]
    by (simp add: thread_main_def worker_send_status_def worker_send_data_def worker_new_def Let_def OSD_OK_def
        flip: length_0_conv)
qed

theorem worker_init_failure_witness:
  "bnd (thread_main True True (Some (\<lambda>s. ok (- 1, s))) ok None (\<lambda>_. True) ()) (\<lambda>(ms, _). worker_new True (map ZMsg ms)) =
    ok ((OSD_OK, False), [])"
  using worker_init_failure [of "\<lambda>s. ok (- 1, s)" "()" "- 1" "()" ok None "\<lambda>_. True"] by (simp add: OSD_FAILED_def)

end
